(* ===== verification/GoStrings.thy ===== *)
theory GoStrings
  imports Prelude "HOL-Library.Word"
begin

unbundle bit_operations_syntax

section \<open>What the program uses of Go's string library\<close>

text \<open>
  Executable models of the parts of \<open>strings\<close>, \<open>unicode/utf8\<close>, \<open>strconv\<close>, \<open>fmt\<close>, \<open>net\<close> and
  \<open>hash/fnv\<close> that the server calls, over byte strings. UTF-8 decoding follows
  \<open>utf8.DecodeRune\<close>: one ill-formed byte is consumed at a time and stands for U+FFFD.
  \<open>unicode.ToLower\<close> beyond ASCII is a table of the Unicode standard; it is the argument \<open>ulow\<close>
  of the functions that use it.
\<close>

definition byteval :: "char \<Rightarrow> nat" where "byteval c = of_char c"

definition byte :: "nat \<Rightarrow> char" where "byte n = char_of n"

lemma byteval_lt [simp]: "byteval c < 256"
  by (simp add: byteval_def of_char_def)

lemma byteval_byte [simp]: "n < 256 \<Longrightarrow> byteval (byte n) = n"
  by (simp add: byteval_def byte_def)

lemma byte_byteval [simp]: "byte (byteval c) = c"
  by (simp add: byteval_def byte_def)

lemma byteval_Char [simp]:
  "byteval (Char b0 b1 b2 b3 b4 b5 b6 b7) =
     horner_sum of_bool 2 [b0, b1, b2, b3, b4, b5, b6, b7]"
  by (simp add: byteval_def)

lemma byte_eq_iff: "n < 256 \<Longrightarrow> byte n = c \<longleftrightarrow> byteval c = n"
  by (metis byte_byteval byteval_byte)

lemma byteval_inject [simp]: "byteval c = byteval d \<longleftrightarrow> c = d"
  by (metis byte_byteval)

subsection \<open>UTF-8\<close>

definition inrange :: "nat \<Rightarrow> nat \<Rightarrow> nat \<Rightarrow> bool" where
  "inrange lo hi b \<longleftrightarrow> lo \<le> b \<and> b \<le> hi"

text \<open>\<open>utf8.DecodeRuneInString\<close> on a non-empty string: rune and width, \<open>None\<close> when ill-formed.\<close>

fun decodeRune :: "nat list \<Rightarrow> (nat \<times> nat) option" where
  "decodeRune [] = None"
| "decodeRune (a # s) =
     (if a < 0x80 then Some (a, 1)
      else if inrange 0xC2 0xDF a then
        (case s of b # _ \<Rightarrow>
           if inrange 0x80 0xBF b then Some ((a - 0xC0) * 64 + (b - 0x80), 2) else None
         | [] \<Rightarrow> None)
      else if inrange 0xE0 0xEF a then
        (case s of b # c # _ \<Rightarrow>
           if inrange (if a = 0xE0 then 0xA0 else 0x80) (if a = 0xED then 0x9F else 0xBF) b
              \<and> inrange 0x80 0xBF c
           then Some ((a - 0xE0) * 4096 + (b - 0x80) * 64 + (c - 0x80), 3) else None
         | _ \<Rightarrow> None)
      else if inrange 0xF0 0xF4 a then
        (case s of b # c # d # _ \<Rightarrow>
           if inrange (if a = 0xF0 then 0x90 else 0x80) (if a = 0xF4 then 0x8F else 0xBF) b
              \<and> inrange 0x80 0xBF c \<and> inrange 0x80 0xBF d
           then Some ((a - 0xF0) * 262144 + (b - 0x80) * 4096 + (c - 0x80) * 64 + (d - 0x80), 4)
           else None
         | _ \<Rightarrow> None)
      else None)"

lemma decodeRune_width: "decodeRune s = Some (r, n) \<Longrightarrow> 0 < n \<and> n \<le> length s"
  by (cases s) (auto split: if_splits list.splits)

function (sequential) runesOf :: "nat list \<Rightarrow> (nat \<times> bool) list" where
  "runesOf [] = []"
| "runesOf (a # s) =
     (case decodeRune (a # s) of
        None \<Rightarrow> (0xFFFD, False) # runesOf s
      | Some (r, n) \<Rightarrow> (r, True) # runesOf (drop n (a # s)))"
  by pat_completeness auto
termination
  by (relation "measure length") (auto simp del: decodeRune.simps dest!: decodeRune_width)

definition runes :: "bytes \<Rightarrow> nat list" where
  "runes s = map fst (runesOf (map byteval s))"

definition ValidString :: "bytes \<Rightarrow> bool" where
  "ValidString s \<longleftrightarrow> list_all snd (runesOf (map byteval s))"

definition RuneCount :: "bytes \<Rightarrow> nat" where
  "RuneCount s = length (runes s)"

text \<open>\<open>utf8.EncodeRune\<close>, as \<open>string([]rune)\<close> applies it to each rune.\<close>

definition encodeRune :: "nat \<Rightarrow> nat list" where
  "encodeRune r =
     (if r < 0x80 then [r]
      else if r < 0x800 then [0xC0 + r div 64, 0x80 + r mod 64]
      else if r > 0x10FFFF \<or> inrange 0xD800 0xDFFF r then [0xEF, 0xBF, 0xBD]
      else if r < 0x10000 then [0xE0 + r div 4096, 0x80 + r div 64 mod 64, 0x80 + r mod 64]
      else [0xF0 + r div 262144, 0x80 + r div 4096 mod 64, 0x80 + r div 64 mod 64,
            0x80 + r mod 64])"

definition stringOfRunes :: "nat list \<Rightarrow> bytes" where
  "stringOfRunes rs = map byte (concat (map encodeRune rs))"

text \<open>\<open>unicode.IsControl\<close>: category Cc.\<close>

definition IsControl :: "nat \<Rightarrow> bool" where
  "IsControl r \<longleftrightarrow> r < 0x20 \<or> inrange 0x7F 0x9F r"

subsection \<open>Trimming and splitting\<close>

text \<open>The UTF-8 encodings of the runes with \<open>unicode.IsSpace\<close>.\<close>

definition spaceSeqs :: "bytes list" where
  "spaceSeqs =
    [[CHR 0x09], [CHR 0x0A], [CHR 0x0B], [CHR 0x0C], [CHR 0x0D], [CHR 0x20],
     [CHR 0xC2, CHR 0x85], [CHR 0xC2, CHR 0xA0], [CHR 0xE1, CHR 0x9A, CHR 0x80],
     [CHR 0xE2, CHR 0x80, CHR 0x80], [CHR 0xE2, CHR 0x80, CHR 0x81],
     [CHR 0xE2, CHR 0x80, CHR 0x82], [CHR 0xE2, CHR 0x80, CHR 0x83],
     [CHR 0xE2, CHR 0x80, CHR 0x84], [CHR 0xE2, CHR 0x80, CHR 0x85],
     [CHR 0xE2, CHR 0x80, CHR 0x86], [CHR 0xE2, CHR 0x80, CHR 0x87],
     [CHR 0xE2, CHR 0x80, CHR 0x88], [CHR 0xE2, CHR 0x80, CHR 0x89],
     [CHR 0xE2, CHR 0x80, CHR 0x8A], [CHR 0xE2, CHR 0x80, CHR 0xA8],
     [CHR 0xE2, CHR 0x80, CHR 0xA9], [CHR 0xE2, CHR 0x80, CHR 0xAF],
     [CHR 0xE2, CHR 0x81, CHR 0x9F], [CHR 0xE3, CHR 0x80, CHR 0x80]]"

definition spaceAt :: "bytes list \<Rightarrow> bytes \<Rightarrow> nat option" where
  "spaceAt ps s = map_option length (find (\<lambda>p. p \<noteq> [] \<and> prefix p s) ps)"

lemma spaceAt_width: "spaceAt ps s = Some n \<Longrightarrow> 0 < n \<and> n \<le> length s"
  by (auto simp: spaceAt_def find_Some_iff dest: prefix_length_le)

function trimSeqs :: "bytes list \<Rightarrow> bytes \<Rightarrow> bytes" where
  "trimSeqs ps s = (case spaceAt ps s of None \<Rightarrow> s | Some n \<Rightarrow> trimSeqs ps (drop n s))"
  by pat_completeness auto
termination
  by (relation "measure (\<lambda>(ps, s). length s)") (auto dest: spaceAt_width)

declare trimSeqs.simps [simp del]

definition TrimSpace :: "bytes \<Rightarrow> bytes" where
  "TrimSpace s = rev (trimSeqs (map rev spaceSeqs) (rev (trimSeqs spaceSeqs s)))"

text \<open>\<open>strings.Trim\<close> with an ASCII cutset, \<open>strings.Split\<close> at one byte, \<open>strings.Fields\<close>.\<close>

definition TrimSet :: "char set \<Rightarrow> bytes \<Rightarrow> bytes" where
  "TrimSet cs s = rev (dropWhile (\<lambda>c. c \<in> cs) (rev (dropWhile (\<lambda>c. c \<in> cs) s)))"

definition TrimRightSet :: "char set \<Rightarrow> bytes \<Rightarrow> bytes" where
  "TrimRightSet cs s = rev (dropWhile (\<lambda>c. c \<in> cs) (rev s))"

fun Split :: "char \<Rightarrow> bytes \<Rightarrow> bytes list" where
  "Split c [] = [[]]"
| "Split c (x # xs) =
     (if x = c then [] # Split c xs
      else (case Split c xs of [] \<Rightarrow> [[x]] | p # ps \<Rightarrow> (x # p) # ps))"

function (sequential) fieldsAux :: "bytes \<Rightarrow> bytes \<Rightarrow> bytes list" where
  "fieldsAux cur [] = (if cur = [] then [] else [cur])"
| "fieldsAux cur (c # s) =
     (case spaceAt spaceSeqs (c # s) of
        Some n \<Rightarrow> (if cur = [] then [] else [cur]) @ fieldsAux [] (drop n (c # s))
      | None \<Rightarrow> fieldsAux (cur @ [c]) s)"
  by pat_completeness auto
termination
  by (relation "measure (\<lambda>(cur, s). length s)") (auto dest: spaceAt_width)

definition Fields :: "bytes \<Rightarrow> bytes list" where "Fields s = fieldsAux [] s"

definition HasPrefix :: "bytes \<Rightarrow> bytes \<Rightarrow> bool" where "HasPrefix s p \<longleftrightarrow> prefix p s"
definition HasSuffix :: "bytes \<Rightarrow> bytes \<Rightarrow> bool" where "HasSuffix s p \<longleftrightarrow> suffix p s"

definition TrimPrefix :: "bytes \<Rightarrow> bytes \<Rightarrow> bytes" where
  "TrimPrefix s p = (if prefix p s then drop (length p) s else s)"

definition ContainsAny :: "bytes \<Rightarrow> bytes \<Rightarrow> bool" where
  "ContainsAny s cs \<longleftrightarrow> list_ex (\<lambda>c. c \<in> set cs) s"

subsection \<open>Case mapping\<close>

definition lowerByte :: "char \<Rightarrow> char" where
  "lowerByte c = (if inrange 65 90 (byteval c) then byte (byteval c + 32) else c)"

definition lowerRune :: "(nat \<Rightarrow> nat) \<Rightarrow> nat \<Rightarrow> nat" where
  "lowerRune ulow r = (if inrange 65 90 r then r + 32 else if r < 128 then r else ulow r)"

definition isASCII :: "bytes \<Rightarrow> bool" where
  "isASCII s \<longleftrightarrow> list_all (\<lambda>c. byteval c < 128) s"

text \<open>
  \<open>strings.ToLower\<close>: bytewise on ASCII strings, otherwise \<open>unicode.ToLower\<close> on each rune, with an
  ill-formed byte replaced by U+FFFD.
\<close>

definition ToLower :: "(nat \<Rightarrow> nat) \<Rightarrow> bytes \<Rightarrow> bytes" where
  "ToLower ulow s =
     (if isASCII s then map lowerByte s else stringOfRunes (map (lowerRune ulow) (runes s)))"

text \<open>
  \<open>strings.EqualFold\<close> against an ASCII word none of whose letters is \<open>k\<close> or \<open>s\<close> (the two ASCII letters
  with a non-ASCII case variant): equality after ASCII lower-casing.
\<close>

definition EqualFoldASCII :: "bytes \<Rightarrow> bytes \<Rightarrow> bool" where
  "EqualFoldASCII s t \<longleftrightarrow> map lowerByte s = map lowerByte t"

subsection \<open>Numbers\<close>

definition isDigit :: "char \<Rightarrow> bool" where "isDigit c \<longleftrightarrow> inrange 48 57 (byteval c)"

definition digitsVal :: "bytes \<Rightarrow> nat" where
  "digitsVal s = foldl (\<lambda>acc c. acc * 10 + (byteval c - 48)) 0 s"

text \<open>\<open>strconv.Atoi\<close> on a 64-bit platform: an optional sign, decimal digits, range checked.\<close>

definition Atoi :: "bytes \<Rightarrow> int option" where
  "Atoi s =
     (let neg = (s \<noteq> [] \<and> hd s = CHR ''-'');
          body = (if s \<noteq> [] \<and> (hd s = CHR ''-'' \<or> hd s = CHR ''+'') then tl s else s)
      in if body = [] \<or> \<not> list_all isDigit body then None
         else (let v = int (digitsVal body)
               in if neg then (if v \<le> 2 ^ 63 then Some (- v) else None)
                  else (if v < 2 ^ 63 then Some v else None)))"

function showNat :: "nat \<Rightarrow> bytes" where
  "showNat n = (if n < 10 then [byte (48 + n)] else showNat (n div 10) @ [byte (48 + n mod 10)])"
  by pat_completeness auto
termination
  by (relation "measure id") auto

declare showNat.simps [simp del]

definition Itoa :: "int \<Rightarrow> bytes" where
  "Itoa i = (if i < 0 then CHR ''-'' # showNat (nat (- i)) else showNat (nat i))"

definition hexDigit :: "nat \<Rightarrow> char" where
  "hexDigit n = (if n < 10 then byte (48 + n) else byte (87 + n))"

text \<open>\<open>hex.DecodeString\<close>: both cases of the letters, an even number of digits.\<close>

definition hexVal :: "char \<Rightarrow> nat option" where
  "hexVal c =
     (let b = byteval c
      in if inrange 48 57 b then Some (b - 48)
         else if inrange 97 102 b then Some (b - 87)
         else if inrange 65 70 b then Some (b - 55) else None)"

fun hexDecode :: "bytes \<Rightarrow> bytes option" where
  "hexDecode [] = Some []"
| "hexDecode [c] = None"
| "hexDecode (c # d # s) =
     (case (hexVal c, hexVal d, hexDecode s) of
        (Some h, Some l, Some r) \<Rightarrow> Some (byte (16 * h + l) # r)
      | _ \<Rightarrow> None)"

definition hexEncode :: "bytes \<Rightarrow> bytes" where
  "hexEncode s = concat (map (\<lambda>c. [hexDigit (byteval c div 16), hexDigit (byteval c mod 16)]) s)"

subsection \<open>Addresses and ports\<close>

text \<open>\<open>net.SplitHostPort\<close>, with the positions written as Go's \<open>LastIndex\<close> and \<open>Index\<close>.\<close>

fun indexOf :: "char \<Rightarrow> bytes \<Rightarrow> nat option" where
  "indexOf c [] = None"
| "indexOf c (x # xs) = (if x = c then Some 0 else map_option Suc (indexOf c xs))"

definition lastIndexOf :: "char \<Rightarrow> bytes \<Rightarrow> nat option" where
  "lastIndexOf c s = map_option (\<lambda>i. length s - 1 - i) (indexOf c (rev s))"

definition SplitHostPort :: "bytes \<Rightarrow> (bytes \<times> bytes) option" where
  "SplitHostPort hp =
     (case lastIndexOf CHR '':'' hp of
        None \<Rightarrow> None
      | Some i \<Rightarrow>
          let parts =
            (if hd hp = CHR ''['' then
               (case indexOf CHR '']'' hp of
                  None \<Rightarrow> None
                | Some e \<Rightarrow>
                    if e + 1 = i then Some (take (e - 1) (drop 1 hp), 1, e + 1) else None)
             else
               (let host = take i hp
                in if CHR '':'' \<in> set host then None else Some (host, 0, 0)))
          in (case parts of
                None \<Rightarrow> None
              | Some (host, j, k) \<Rightarrow>
                  if CHR ''['' \<in> set (drop j hp) then None
                  else if CHR '']'' \<in> set (drop k hp) then None
                  else Some (host, drop (i + 1) hp)))"

definition JoinHostPort :: "bytes \<Rightarrow> bytes \<Rightarrow> bytes" where
  "JoinHostPort host port =
     (if CHR '':'' \<in> set host then ''['' @ host @ '']:'' @ port else host @ '':'' @ port)"

subsection \<open>FNV-1a, 64 bits\<close>

definition fnvOffset :: "64 word" where "fnvOffset = 14695981039346656037"
definition fnvPrime :: "64 word" where "fnvPrime = 1099511628211"

definition fnv1a64 :: "bytes \<Rightarrow> 64 word" where
  "fnv1a64 s = foldl (\<lambda>h c. (h XOR word_of_nat (byteval c)) * fnvPrime) fnvOffset s"

text \<open>\<open>fmt.Sprintf("%016x", w)\<close>: the sixteen nibbles, most significant first.\<close>

definition hex016 :: "64 word \<Rightarrow> bytes" where
  "hex016 w = map (\<lambda>i. hexDigit (unat (drop_bit (4 * i) w AND 15)))
     [15, 14, 13, 12, 11, 10, 9, 8, 7, 6, 5, 4, 3, 2, 1, 0]"

subsection \<open>Facts about trimming\<close>

lemma trimSeqs_stop [simp]: "spaceAt ps s = None \<Longrightarrow> trimSeqs ps s = s"
  by (simp add: trimSeqs.simps)

lemma trimSeqs_trimmed: "spaceAt ps (trimSeqs ps s) = None"
proof (induction ps s rule: trimSeqs.induct)
  case (1 ps s)
  then show ?case by (subst trimSeqs.simps) (auto split: option.split)
qed

lemma trimSeqs_suffix: "suffix (trimSeqs ps s) s"
proof (induction ps s rule: trimSeqs.induct)
  case (1 ps s)
  then show ?case
    by (subst trimSeqs.simps) (auto split: option.split intro: suffix_order.trans suffix_drop)
qed

lemma spaceAt_prefix_mono:
  assumes "spaceAt ps s = None" and "prefix t s"
  shows "spaceAt ps t = None"
  using assms by (auto simp: spaceAt_def find_None_iff dest: prefix_order.trans)

lemma TrimSpace_sides:
  "spaceAt spaceSeqs (TrimSpace s) = None"
  "spaceAt (map rev spaceSeqs) (rev (TrimSpace s)) = None"
proof -
  let ?t = "trimSeqs spaceSeqs s"
  have "prefix (TrimSpace s) ?t"
    using trimSeqs_suffix [of "map rev spaceSeqs" "rev ?t"]
    by (simp add: TrimSpace_def suffix_to_prefix)
  then show "spaceAt spaceSeqs (TrimSpace s) = None"
    by (rule spaceAt_prefix_mono [OF trimSeqs_trimmed])
  show "spaceAt (map rev spaceSeqs) (rev (TrimSpace s)) = None"
    by (simp add: TrimSpace_def trimSeqs_trimmed)
qed

lemma TrimSpace_fixpoint:
  "spaceAt spaceSeqs s = None \<Longrightarrow> spaceAt (map rev spaceSeqs) (rev s) = None \<Longrightarrow> TrimSpace s = s"
  by (simp add: TrimSpace_def)

lemma TrimSpace_idem [simp]: "TrimSpace (TrimSpace s) = TrimSpace s"
  by (rule TrimSpace_fixpoint) (rule TrimSpace_sides)+

lemma TrimSpace_sublist: "sublist (TrimSpace s) s"
proof -
  let ?t = "trimSeqs spaceSeqs s"
  have "prefix (TrimSpace s) ?t"
    using trimSeqs_suffix [of "map rev spaceSeqs" "rev ?t"]
    by (simp add: TrimSpace_def suffix_to_prefix)
  then have "sublist (TrimSpace s) ?t" by simp
  moreover have "sublist ?t s" using trimSeqs_suffix by simp
  ultimately show ?thesis by (rule sublist_order.order.trans)
qed

lemma TrimSpace_length [bounds]: "length (TrimSpace s) \<le> length s"
  using TrimSpace_sublist by (rule sublist_length_le)

lemma TrimSpace_set: "set (TrimSpace s) \<subseteq> set s"
  using TrimSpace_sublist by (rule set_mono_sublist)

lemma TrimSpace_Nil [simp]: "TrimSpace [] = []"
  using TrimSpace_length [of "[]"] by simp

subsection \<open>Facts about UTF-8\<close>

lemma runesOf_ASCII: "\<forall>b\<in>set s. b < 128 \<Longrightarrow> runesOf s = map (\<lambda>b. (b, True)) s"
  by (induction s) auto

lemma isASCII_bytes: "isASCII s \<Longrightarrow> b \<in> set (map byteval s) \<Longrightarrow> b < 128"
  by (auto simp: isASCII_def list_all_iff)

lemma runes_ASCII: "isASCII s \<Longrightarrow> runes s = map byteval s"
  by (simp add: runes_def runesOf_ASCII isASCII_bytes comp_def)

lemma ValidString_ASCII: "isASCII s \<Longrightarrow> ValidString s"
  by (simp add: ValidString_def runesOf_ASCII isASCII_bytes list_all_iff)

lemma length_runesOf: "length (runesOf s) \<le> length s"
proof (induction s rule: runesOf.induct)
  case (2 a s)
  show ?case
  proof (cases "decodeRune (a # s)")
    case None
    with 2 show ?thesis by (simp del: decodeRune.simps)
  next
    case (Some p)
    then obtain r n where p: "decodeRune (a # s) = Some (r, n)" by force
    with 2 have "length (runesOf (drop n (a # s))) \<le> length (drop n (a # s))" by blast
    moreover have "0 < n" and "n \<le> length (a # s)"
      using decodeRune_width [OF p] by simp_all
    ultimately have "length (runesOf (drop n (a # s))) \<le> length s"
      by (simp del: decodeRune.simps)
    with p show ?thesis by (simp del: decodeRune.simps)
  qed
qed simp

lemma RuneCount_le [bounds]: "RuneCount s \<le> length s"
  using length_runesOf [of "map byteval s"] by (simp add: RuneCount_def runes_def)

text \<open>Unicode scalar values, and decoding an encoded rune gives it back.\<close>

definition scalar :: "nat \<Rightarrow> bool" where
  "scalar r \<longleftrightarrow> r \<le> 0x10FFFF \<and> \<not> inrange 0xD800 0xDFFF r"

lemma decodeRune_scalar: "decodeRune s = Some (r, n) \<Longrightarrow> scalar r"
  by (cases s) (auto simp: scalar_def inrange_def split: if_splits list.splits)

lemma base64_split:
  fixes r :: nat
  shows "r div 4096 * 4096 + r div 64 mod 64 * 64 + r mod 64 = r"
    and "r div 262144 * 262144 + r div 4096 mod 64 * 4096 + r div 64 mod 64 * 64 + r mod 64 = r"
proof -
  have *: "r = 64 * (r div 64) + r mod 64" by simp
  have **: "r div 64 = 64 * (r div 4096) + r div 64 mod 64"
    using div_mult2_eq [of r 64 64] by simp
  have ***: "r div 4096 = 64 * (r div 262144) + r div 4096 mod 64"
    using div_mult2_eq [of r 4096 64] by simp
  from * ** show "r div 4096 * 4096 + r div 64 mod 64 * 64 + r mod 64 = r" by linarith
  with *** show "r div 262144 * 262144 + r div 4096 mod 64 * 4096 + r div 64 mod 64 * 64
      + r mod 64 = r" by linarith
qed

lemma decode_encode:
  assumes "scalar r"
  shows "decodeRune (encodeRune r @ s) = Some (r, length (encodeRune r))"
proof -
  consider "r < 0x80" | "0x80 \<le> r" "r < 0x800" | "0x800 \<le> r" "r < 0x10000"
    | "0x10000 \<le> r" by linarith
  then show ?thesis
  proof cases
    case 1
    then show ?thesis by (simp add: encodeRune_def)
  next
    case 2
    then have "r div 64 < 32" "2 \<le> r div 64" by auto
    with 2 show ?thesis by (simp add: encodeRune_def inrange_def)
  next
    case 3
    then have "r div 4096 < 16" by auto
    moreover have "r div 4096 = 0 \<Longrightarrow> 32 \<le> r div 64 mod 64"
      using 3 base64_split(1) [of r] by linarith
    moreover have "r div 4096 = 13 \<Longrightarrow> r div 64 mod 64 \<le> 31"
      using assms 3 base64_split(1) [of r] by (auto simp: scalar_def inrange_def)
    moreover have "r div 64 mod 64 \<le> 63" "r mod 64 \<le> 63" "r div 4096 = 0 \<Longrightarrow> r div 64 \<le> 63"
      by auto
    ultimately show ?thesis
      using 3 assms base64_split(1) [of r]
      by (auto simp: encodeRune_def inrange_def scalar_def)
  next
    case 4
    with assms have "r div 262144 < 5" by (auto simp: scalar_def)
    moreover have "r div 262144 = 0 \<Longrightarrow> 16 \<le> r div 4096 mod 64"
      using 4 base64_split(2) [of r] by linarith
    moreover have "r div 262144 = 4 \<Longrightarrow> r div 4096 mod 64 \<le> 15"
      using assms base64_split(2) [of r] by (auto simp: scalar_def)
    moreover have "r div 64 mod 64 \<le> 63" "r mod 64 \<le> 63" "r div 4096 mod 64 \<le> 63"
      "r div 262144 = 0 \<Longrightarrow> r div 4096 \<le> 63"
      by auto
    ultimately show ?thesis
      using 4 assms base64_split(2) [of r]
      by (auto simp: encodeRune_def inrange_def scalar_def)
  qed
qed

lemma encodeRune_bytes: "b \<in> set (encodeRune r) \<Longrightarrow> b < 256"
  by (auto simp: encodeRune_def split: if_splits)

lemma encodeRune_not_Nil [simp]: "encodeRune r \<noteq> []"
  by (simp add: encodeRune_def)

lemma runesOf_encode:
  "list_all scalar rs \<Longrightarrow> runesOf (concat (map encodeRune rs)) = map (\<lambda>r. (r, True)) rs"
proof (induction rs)
  case (Cons r rs)
  let ?s = "concat (map encodeRune rs)"
  obtain a t where at: "encodeRune r @ ?s = a # t" by (cases "encodeRune r") auto
  have d: "decodeRune (a # t) = Some (r, length (encodeRune r))"
    using decode_encode [of r ?s] Cons.prems at by simp
  have "drop (length (encodeRune r)) (a # t) = ?s"
    by (simp flip: at)
  with d at Cons show ?case by (simp del: decodeRune.simps)
qed simp

lemma map_byteval_stringOfRunes:
  "map byteval (stringOfRunes rs) = concat (map encodeRune rs)"
proof -
  have "byteval (byte b) = b" if "b \<in> set (concat (map encodeRune rs))" for b
    using that by (auto dest: encodeRune_bytes)
  then show ?thesis
    unfolding stringOfRunes_def map_map comp_def by (rule map_idI)
qed

lemma runes_stringOfRunes: "list_all scalar rs \<Longrightarrow> runes (stringOfRunes rs) = rs"
  by (simp add: runes_def map_byteval_stringOfRunes runesOf_encode comp_def)

lemma ValidString_stringOfRunes: "list_all scalar rs \<Longrightarrow> ValidString (stringOfRunes rs)"
  by (simp add: ValidString_def map_byteval_stringOfRunes runesOf_encode list_all_iff)

lemma runesOf_scalar: "p \<in> set (runesOf s) \<Longrightarrow> scalar (fst p)"
proof (induction s rule: runesOf.induct)
  case (2 a s)
  show ?case
  proof (cases "decodeRune (a # s)")
    case None
    with 2 show ?thesis
      by (auto simp: scalar_def inrange_def simp del: decodeRune.simps)
  next
    case (Some q)
    then obtain r n where q: "decodeRune (a # s) = Some (r, n)" by force
    with 2 decodeRune_scalar [OF q] show ?thesis by (auto simp del: decodeRune.simps)
  qed
qed simp

lemma runes_scalar: "list_all scalar (runes s)"
  by (auto simp: runes_def list_all_iff dest: runesOf_scalar)

subsection \<open>Facts about numbers and splitting\<close>

lemma Split_not_Nil [simp]: "Split c s \<noteq> []"
  by (cases s) (auto split: list.split)

lemma Split_no_sep: "p \<in> set (Split c s) \<Longrightarrow> c \<notin> set p"
proof (induction s arbitrary: p)
  case (Cons x xs)
  obtain q qs where q: "Split c xs = q # qs" by (cases "Split c xs") auto
  with Cons.IH have "c \<notin> set q" "\<And>p. p \<in> set qs \<Longrightarrow> c \<notin> set p" by auto
  with q Cons.prems show ?case by (auto split: if_splits)
qed simp

lemma digitsVal_snoc: "digitsVal (s @ [c]) = digitsVal s * 10 + (byteval c - 48)"
  by (simp add: digitsVal_def)

lemma showNat_digits: "list_all isDigit (showNat n) \<and> showNat n \<noteq> [] \<and> digitsVal (showNat n) = n"
proof (induction n rule: showNat.induct)
  case (1 n)
  show ?case
  proof (cases "n < 10")
    case True
    then show ?thesis
      by (simp add: showNat.simps [of n] isDigit_def inrange_def digitsVal_def)
  next
    case False
    with 1 show ?thesis
      by (simp add: showNat.simps [of n] isDigit_def inrange_def digitsVal_snoc)
  qed
qed

lemma showNat_inject: "showNat m = showNat n \<longleftrightarrow> m = n"
  by (metis showNat_digits)

lemma showNat_hd_digit: "isDigit (hd (showNat n))"
  using showNat_digits [of n] by (cases "showNat n") auto

lemma Atoi_Itoa: "- (2 ^ 63) \<le> i \<Longrightarrow> i < 2 ^ 63 \<Longrightarrow> Atoi (Itoa i) = Some i"
  using showNat_digits [of "nat i"] showNat_digits [of "nat (- i)"]
    showNat_hd_digit [of "nat i"]
  by (auto simp: Atoi_def Itoa_def isDigit_def inrange_def Let_def)

lemma Atoi_range: "Atoi s = Some i \<Longrightarrow> - (2 ^ 63) \<le> i \<and> i < 2 ^ 63"
  by (auto simp: Atoi_def Let_def split: if_splits)

lemma hexDecode_length: "hexDecode s = Some r \<Longrightarrow> length s = 2 * length r"
  by (induction s arbitrary: r rule: hexDecode.induct) (auto split: option.splits)

lemma hexVal_hexDigit: "n < 16 \<Longrightarrow> hexVal (hexDigit n) = Some n"
  by (auto simp: hexVal_def hexDigit_def inrange_def Let_def)

lemma hexDecode_hexEncode: "hexDecode (hexEncode s) = Some s"
proof (induction s)
  case (Cons c s)
  have "byteval c div 16 < 16" using byteval_lt [of c] by (simp add: less_mult_imp_div_less)
  with Cons show ?case by (simp add: hexEncode_def hexVal_hexDigit)
qed (simp add: hexEncode_def)

lemma hexEncode_inject: "hexEncode s = hexEncode t \<longleftrightarrow> s = t"
  by (metis hexDecode_hexEncode option.inject)

lemma hex016_length [simp]: "length (hex016 w) = 16"
  by (simp add: hex016_def)

end
