(* ===== verification/GoFloat.thy ===== *)
theory GoFloat
  imports Prelude "HOL-Library.Log_Nat"
begin

section \<open>Go's float64\<close>

text \<open>
  An executable model of IEEE 754 double precision: a finite value is the rational it denotes,
  every arithmetic result is rounded to 53 significant bits (to even on ties, gradual underflow
  down to \<open>2^-1074\<close>) by \<open>fl\<close>, and NaN, the infinities and the negative zero are values of their
  own. \<open>math.Round\<close>, \<open>math.Ceil\<close> and \<open>math.Min\<close> are exact on finite values.

  The locale \<open>rounding\<close> states what the rate limiters need of a rounding function; it is
  interpreted on \<open>fl\<close> below, so that their invariants hold of the rounded arithmetic the code runs.
\<close>

datatype float64 = NaN | Inf bool | NegZero | Fin rat

subsection \<open>Powers of two\<close>

abbreviation pw :: "int \<Rightarrow> rat" where "pw k \<equiv> 2 powi k"

lemma pw_pos [simp]: "0 < pw k"
  by (simp add: zero_less_power_int)

lemma pw_neq_0 [simp]: "pw k \<noteq> 0"
  by simp

lemma pw_add: "pw (a + b) = pw a * pw b"
  by (simp add: power_int_add)

lemma pw_diff: "pw (a - b) = pw a / pw b"
  by (simp add: power_int_diff)

lemma pw_mono: "a \<le> b \<Longrightarrow> pw a \<le> pw b"
  by (simp add: power_int_increasing)

lemma pw_less: "pw a < pw b \<Longrightarrow> a < b"
  using pw_mono [of b a] by (meson linorder_not_less)

lemma pw_int: "0 \<le> k \<Longrightarrow> pw k = of_int (2 ^ nat k)"
  by (simp add: power_int_nonneg_exp)

subsection \<open>The binary exponent of a positive rational\<close>

definition ilog2 :: "rat \<Rightarrow> int" where
  "ilog2 x =
     (let p = fst (quotient_of x); q = snd (quotient_of x); d = bitlen p - bitlen q
      in if pw d \<le> x then d else d - 1)"

lemma bitlen_rat_bounds:
  assumes "0 < m"
  shows "pw (bitlen m - 1) \<le> of_int m" and "of_int m < pw (bitlen m)"
proof -
  from assms have "1 \<le> bitlen m" by (simp add: bitlen_ge_iff_power)
  with bitlen_bounds [OF assms] show "pw (bitlen m - 1) \<le> of_int m" "of_int m < pw (bitlen m)"
    by (simp_all only: pw_int of_int_le_iff of_int_less_iff)
qed

lemma ilog2_bounds:
  assumes "0 < x"
  shows "pw (ilog2 x) \<le> x" and "x < pw (ilog2 x + 1)"
proof -
  obtain p q where pq: "quotient_of x = (p, q)" by force
  have q: "0 < q" and x: "x = of_int p / of_int q"
    using quotient_of_denom_pos [OF pq] quotient_of_div [OF pq] by auto
  with assms have p: "0 < p" by (simp add: zero_less_divide_iff)
  let ?d = "bitlen p - bitlen q"
  have "of_int p / of_int q < pw (bitlen p) / pw (bitlen q - 1)"
    using bitlen_rat_bounds [OF p] bitlen_rat_bounds [OF q] p q
    by (intro frac_less) auto
  also have "\<dots> = pw (?d + 1)" by (simp add: pw_diff pw_add)
  finally have hi: "x < pw (?d + 1)" using x by simp
  have "pw (?d - 1) = pw (bitlen p - 1) / pw (bitlen q)" by (simp add: pw_diff)
  also have "\<dots> \<le> of_int p / of_int q"
    using bitlen_rat_bounds [OF p] bitlen_rat_bounds [OF q] p q
    by (intro frac_le) auto
  finally have lo: "pw (?d - 1) \<le> x" using x by simp
  show "pw (ilog2 x) \<le> x" and "x < pw (ilog2 x + 1)"
    using hi lo by (auto simp: ilog2_def pq Let_def)
qed

lemma ilog2_unique: "pw e \<le> x \<Longrightarrow> x < pw (e + 1) \<Longrightarrow> ilog2 x = e"
proof -
  assume a: "pw e \<le> x" "x < pw (e + 1)"
  then have "0 < x" using pw_pos less_le_trans by blast
  with a ilog2_bounds [of x] have "pw e < pw (ilog2 x + 1)" "pw (ilog2 x) < pw (e + 1)"
    by auto
  then show ?thesis using pw_less [of e "ilog2 x + 1"] pw_less [of "ilog2 x" "e + 1"] by simp
qed

lemma ilog2_mono: "0 < x \<Longrightarrow> x \<le> y \<Longrightarrow> ilog2 x \<le> ilog2 y"
proof -
  assume a: "0 < x" "x \<le> y"
  then have "pw (ilog2 x) < pw (ilog2 y + 1)"
    using ilog2_bounds [of x] ilog2_bounds [of y] by linarith
  then show ?thesis using pw_less by fastforce
qed

subsection \<open>Rounding to an integer\<close>

text \<open>Half to even (the arithmetic), half away from zero (\<open>math.Round\<close>).\<close>

definition roundEven :: "rat \<Rightarrow> int" where
  "roundEven x =
     (let f = \<lfloor>x\<rfloor>; d = x - of_int f
      in if d < 1/2 then f else if d > 1/2 then f + 1 else if even f then f else f + 1)"

definition roundAway :: "rat \<Rightarrow> int" where
  "roundAway x = (if 0 \<le> x then \<lfloor>x + 1/2\<rfloor> else - \<lfloor>- x + 1/2\<rfloor>)"

lemma roundEven_of_int [simp]: "roundEven (of_int k) = k"
  by (simp add: roundEven_def)

lemma roundEven_error: "\<bar>of_int (roundEven x) - x\<bar> \<le> 1/2"
proof -
  have "of_int \<lfloor>x\<rfloor> \<le> x" "x < of_int \<lfloor>x\<rfloor> + 1" by linarith+
  then show ?thesis by (auto simp: roundEven_def Let_def abs_le_iff)
qed

lemma roundEven_mono: "x \<le> y \<Longrightarrow> roundEven x \<le> roundEven y"
proof -
  assume xy: "x \<le> y"
  then have f: "\<lfloor>x\<rfloor> \<le> \<lfloor>y\<rfloor>" by (rule floor_mono)
  show ?thesis
  proof (cases "\<lfloor>x\<rfloor> = \<lfloor>y\<rfloor>")
    case True
    with xy show ?thesis by (auto simp: roundEven_def Let_def)
  next
    case False
    with f have "\<lfloor>x\<rfloor> + 1 \<le> \<lfloor>y\<rfloor>" by simp
    moreover have "roundEven x \<le> \<lfloor>x\<rfloor> + 1" "\<lfloor>y\<rfloor> \<le> roundEven y"
      by (auto simp: roundEven_def Let_def)
    ultimately show ?thesis by linarith
  qed
qed

lemma roundEven_near: "\<bar>x - of_int k\<bar> < 1/2 \<Longrightarrow> roundEven x = k"
proof -
  assume "\<bar>x - of_int k\<bar> < 1/2"
  with roundEven_error [of x] have "\<bar>of_int (roundEven x) - (of_int k :: rat)\<bar> < 1"
    by linarith
  then have "\<bar>roundEven x - k\<bar> < 1" by linarith
  then show ?thesis by simp
qed

lemma roundAway_near:
  assumes "\<bar>x - of_int k\<bar> < 1/2"
  shows "roundAway x = k"
proof (cases "0 \<le> x")
  case True
  with assms have "of_int k \<le> x + 1/2" "x + 1/2 < of_int k + 1" by linarith+
  then have "\<lfloor>x + 1/2\<rfloor> = k" by (rule floor_unique)
  with True show ?thesis by (simp add: roundAway_def)
next
  case False
  from assms have "x - of_int k < 1/2" "- (x - of_int k) < 1/2" by (simp_all only: abs_less_iff)
  then have "of_int (- k) \<le> - x + 1/2" "- x + 1/2 < of_int (- k) + 1"
    unfolding of_int_minus by linarith+
  then have "\<lfloor>- x + 1/2\<rfloor> = - k" by (rule floor_unique)
  with False show ?thesis by (simp add: roundAway_def)
qed

lemma roundAway_of_int [simp]: "roundAway (of_int k) = k"
  by (rule roundAway_near) simp

lemma roundAway_0 [simp]: "roundAway 0 = 0"
  using roundAway_of_int [of 0] by simp

lemma roundAway_error: "\<bar>of_int (roundAway x) - x\<bar> \<le> 1/2"
proof -
  have *: "of_int \<lfloor>x + 1/2\<rfloor> \<le> x + 1/2" "x + 1/2 < of_int \<lfloor>x + 1/2\<rfloor> + 1"
    "of_int \<lfloor>- x + 1/2\<rfloor> \<le> - x + 1/2" "- x + 1/2 < of_int \<lfloor>- x + 1/2\<rfloor> + 1" by linarith+
  show ?thesis
  proof (cases "0 \<le> x")
    case True
    with * show ?thesis unfolding roundAway_def if_P [OF True] abs_le_iff by linarith
  next
    case False
    with * show ?thesis
      unfolding roundAway_def if_not_P [OF False] abs_le_iff of_int_minus by linarith
  qed
qed

lemma roundAway_bound: "\<bar>x\<bar> \<le> of_int k \<Longrightarrow> \<bar>roundAway x\<bar> \<le> k"
proof -
  assume a: "\<bar>x\<bar> \<le> of_int k"
  have "\<lfloor>x + 1/2\<rfloor> \<le> k" if "0 \<le> x" using a that by (simp add: floor_le_iff)
  moreover have "\<lfloor>- x + 1/2\<rfloor> \<le> k" if "\<not> 0 \<le> x" using a that by (simp add: floor_le_iff)
  ultimately show ?thesis by (auto simp: roundAway_def)
qed

subsection \<open>Rounding to double precision\<close>

definition ulpExp :: "rat \<Rightarrow> int" where
  "ulpExp x = max (ilog2 x - 52) (- 1074)"

definition flPos :: "rat \<Rightarrow> rat" where
  "flPos x = of_int (roundEven (x / pw (ulpExp x))) * pw (ulpExp x)"

definition fl :: "rat \<Rightarrow> rat" where
  "fl x = (if x = 0 then 0 else if x < 0 then - flPos (- x) else flPos x)"

lemma flPos_error: "\<bar>flPos x - x\<bar> \<le> pw (ulpExp x) / 2"
proof -
  let ?u = "pw (ulpExp x)"
  have "flPos x - x = (of_int (roundEven (x / ?u)) - x / ?u) * ?u"
    by (simp add: flPos_def field_simps)
  then have "\<bar>flPos x - x\<bar> = \<bar>of_int (roundEven (x / ?u)) - x / ?u\<bar> * ?u"
    by (simp add: abs_mult)
  also have "\<dots> \<le> 1/2 * ?u"
    by (rule mult_right_mono [OF roundEven_error]) (simp add: less_imp_le)
  finally show ?thesis by simp
qed

lemma flPos_rel_error:
  assumes "pw (- 1022) \<le> x"
  shows "\<bar>flPos x - x\<bar> \<le> x / 2 ^ 53"
proof -
  from assms have x: "0 < x" using pw_pos less_le_trans by blast
  have "pw (- 1022) < pw (ilog2 x + 1)" using assms ilog2_bounds(2) [OF x] by linarith
  then have "- 1022 \<le> ilog2 x" using pw_less by fastforce
  then have "ulpExp x = ilog2 x - 52" by (simp add: ulpExp_def)
  then have "pw (ulpExp x) = pw (ilog2 x) / 2 ^ 52" by (simp add: pw_diff)
  then have "pw (ulpExp x) / 2 \<le> x / 2 ^ 53"
    using ilog2_bounds(1) [OF x] by simp
  with flPos_error [of x] show ?thesis by linarith
qed

lemma flPos_mono:
  assumes x: "0 < x" and xy: "x \<le> y"
  shows "flPos x \<le> flPos y"
proof -
  from x xy have y: "0 < y" by simp
  have e: "ilog2 x \<le> ilog2 y" by (rule ilog2_mono [OF x xy])
  show ?thesis
  proof (cases "ulpExp x = ulpExp y")
    case True
    have "x / pw (ulpExp y) \<le> y / pw (ulpExp y)"
      using xy by (simp add: divide_right_mono less_imp_le)
    then have "roundEven (x / pw (ulpExp y)) \<le> roundEven (y / pw (ulpExp y))"
      by (rule roundEven_mono)
    with True show ?thesis by (simp add: flPos_def mult_right_mono less_imp_le)
  next
    case False
    with e have uy: "ulpExp y = ilog2 y - 52" and u: "ulpExp x < ulpExp y"
      and ex: "ilog2 x + 1 \<le> ilog2 y"
      by (auto simp: ulpExp_def max_def split: if_splits)
    let ?B = "pw (ilog2 y)"
    have "x \<le> ?B" using ilog2_bounds(2) [OF x] pw_mono [OF ex] by linarith
    then have "x / pw (ulpExp x) \<le> pw (ilog2 y - ulpExp x)"
      by (simp add: pw_diff divide_right_mono less_imp_le)
    also have "\<dots> = of_int (2 ^ nat (ilog2 y - ulpExp x))"
      using u uy by (intro pw_int) simp
    finally have "roundEven (x / pw (ulpExp x)) \<le> 2 ^ nat (ilog2 y - ulpExp x)"
      using roundEven_mono roundEven_of_int by metis
    then have "of_int (roundEven (x / pw (ulpExp x))) \<le> (of_int (2 ^ nat (ilog2 y - ulpExp x)) :: rat)"
      by (simp only: of_int_le_iff)
    also have "\<dots> = pw (ilog2 y - ulpExp x)"
      using u uy by (intro pw_int [symmetric]) simp
    finally have "flPos x \<le> pw (ilog2 y - ulpExp x) * pw (ulpExp x)"
      unfolding flPos_def by (rule mult_right_mono) (simp add: less_imp_le)
    then have 1: "flPos x \<le> ?B" by (simp add: pw_diff)
    have "of_int (2 ^ 52) = pw (ilog2 y - ulpExp y)" by (simp add: uy)
    also have "\<dots> \<le> y / pw (ulpExp y)"
      using ilog2_bounds(1) [OF y] by (simp add: pw_diff divide_right_mono less_imp_le)
    finally have "2 ^ 52 \<le> roundEven (y / pw (ulpExp y))"
      using roundEven_mono roundEven_of_int by metis
    then have "(of_int (2 ^ 52) :: rat) \<le> of_int (roundEven (y / pw (ulpExp y)))"
      by (simp only: of_int_le_iff)
    then have "of_int (2 ^ 52) * pw (ulpExp y) \<le> flPos y"
      unfolding flPos_def by (rule mult_right_mono) (simp add: less_imp_le)
    then have "?B \<le> flPos y" by (simp add: uy pw_diff)
    with 1 show ?thesis by simp
  qed
qed

lemma flPos_nonneg: "0 < x \<Longrightarrow> 0 \<le> flPos x"
proof -
  assume "0 < x"
  then have "0 \<le> x / pw (ulpExp x)" by (simp add: less_imp_le)
  then have "0 \<le> roundEven (x / pw (ulpExp x))"
    using roundEven_mono [of "of_int 0"] roundEven_of_int [of 0] by fastforce
  then show ?thesis by (simp add: flPos_def less_imp_le)
qed

text \<open>A value with at most 53 significant bits is kept.\<close>

lemma flPos_exact:
  assumes "x = of_int m * pw k" and "ulpExp x \<le> k"
  shows "flPos x = x"
proof -
  have "x / pw (ulpExp x) = of_int m * pw (k - ulpExp x)" using assms(1) by (simp add: pw_diff)
  also have "\<dots> = of_int (m * 2 ^ nat (k - ulpExp x))"
    using assms(2) by (simp add: pw_int)
  finally have *: "x / pw (ulpExp x) = of_int (m * 2 ^ nat (k - ulpExp x))" .
  have "of_int (roundEven (x / pw (ulpExp x))) = x / pw (ulpExp x)"
    unfolding * roundEven_of_int ..
  then show ?thesis by (simp add: flPos_def)
qed

lemma ulpExp_le: "0 < x \<Longrightarrow> x < pw (k + 53) \<Longrightarrow> - 1074 \<le> k \<Longrightarrow> ulpExp x \<le> k"
proof -
  assume a: "0 < x" "x < pw (k + 53)" "- 1074 \<le> k"
  then have "pw (ilog2 x) < pw (k + 53)" using ilog2_bounds(1) [of x] by linarith
  then have "ilog2 x < k + 53" by (rule pw_less)
  with a(3) show ?thesis by (simp add: ulpExp_def)
qed

lemma fl_zero [simp]: "fl 0 = 0"
  by (simp add: fl_def)

lemma fl_minus [simp]: "fl (- x) = - fl x"
  by (auto simp: fl_def)

lemma fl_of_int: "\<bar>k\<bar> < 2 ^ 53 \<Longrightarrow> fl (of_int k) = of_int k"
proof -
  have pos: "flPos (of_int m) = of_int m" if m: "0 < m" "m < 2 ^ 53" for m
  proof (rule flPos_exact [of _ m 0])
    have "(of_int m :: rat) < of_int (2 ^ 53)" using m(2) by (simp only: of_int_less_iff)
    then show "ulpExp (of_int m) \<le> 0" using m(1) by (intro ulpExp_le) auto
  qed simp
  assume "\<bar>k\<bar> < 2 ^ 53"
  then show ?thesis using pos [of k] pos [of "- k"] by (auto simp: fl_def)
qed

lemma fl_mono: "x \<le> y \<Longrightarrow> fl x \<le> fl y"
proof -
  assume xy: "x \<le> y"
  consider "0 < x" | "x \<le> 0" "0 \<le> y" | "y < 0" by linarith
  then show ?thesis
  proof cases
    case 1
    with xy flPos_mono [of x y] show ?thesis by (simp add: fl_def)
  next
    case 2
    then show ?thesis using flPos_nonneg [of "- x"] flPos_nonneg [of y] by (auto simp: fl_def)
  next
    case 3
    with xy flPos_mono [of "- y" "- x"] show ?thesis by (simp add: fl_def)
  qed
qed

lemma fl_rel_error:
  assumes "pw (- 1022) \<le> \<bar>x\<bar>"
  shows "\<bar>fl x - x\<bar> \<le> \<bar>x\<bar> / 2 ^ 53"
proof (cases "x < 0")
  case True
  have "- flPos (- x) - x = - (flPos (- x) - (- x))" by simp
  then have "\<bar>- flPos (- x) - x\<bar> = \<bar>flPos (- x) - (- x)\<bar>" by (simp only: abs_minus_cancel)
  with True assms flPos_rel_error [of "- x"] show ?thesis by (simp add: fl_def)
next
  case False
  with assms flPos_rel_error [of x] show ?thesis by (auto simp: fl_def)
qed

lemma fl_pos: "pw (- 1074) \<le> x \<Longrightarrow> 0 < fl x"
proof -
  assume x: "pw (- 1074) \<le> x"
  have "flPos (pw (- 1074)) = pw (- 1074)"
    by (rule flPos_exact [of _ 1 "- 1074"]) (simp, rule ulpExp_le, auto intro!: power_int_strict_increasing)
  then have "fl (pw (- 1074)) = pw (- 1074)" by (simp add: fl_def not_less less_imp_le)
  with fl_mono [OF x] show ?thesis using pw_pos [of "- 1074"] by linarith
qed

lemma fl_pw: "- 1074 \<le> k \<Longrightarrow> fl (pw k) = pw k"
proof -
  assume k: "- 1074 \<le> k"
  have "flPos (pw k) = pw k"
    by (rule flPos_exact [of _ 1 k]) (use k in \<open>auto intro!: ulpExp_le power_int_strict_increasing\<close>)
  moreover have "\<not> pw k < 0" using pw_pos [of k] by linarith
  ultimately show ?thesis by (simp add: fl_def)
qed

text \<open>Overflow to infinity starts at \<open>dblTop\<close>; half of it is a bound that is easy to stay under.\<close>

definition dblTop :: rat where "dblTop = pw 1024"
definition dblHalf :: rat where "dblHalf = pw 1023"
definition dblMin :: rat where "dblMin = pw (- 1074)"

lemma dblHalf_facts: "fl dblHalf = dblHalf" "dblHalf < dblTop" "0 < dblHalf"
  unfolding dblHalf_def dblTop_def
  by (rule fl_pw, simp, rule power_int_strict_increasing) auto

lemma dblHalf_ge: "\<bar>r\<bar> \<le> 2 ^ 200 \<Longrightarrow> \<bar>r\<bar> \<le> dblHalf"
proof -
  have "(2 :: rat) ^ 200 \<le> dblHalf" by (simp add: dblHalf_def)
  then show "\<bar>r\<bar> \<le> 2 ^ 200 \<Longrightarrow> \<bar>r\<bar> \<le> dblHalf" by linarith
qed

subsection \<open>The arithmetic of float64 values\<close>

definition isNaN :: "float64 \<Rightarrow> bool" where "isNaN x \<longleftrightarrow> x = NaN"
definition isInf :: "float64 \<Rightarrow> bool" where "isInf x \<longleftrightarrow> (case x of Inf _ \<Rightarrow> True | _ \<Rightarrow> False)"

definition neg :: "float64 \<Rightarrow> bool" where
  "neg x = (case x of NaN \<Rightarrow> False | Inf s \<Rightarrow> s | NegZero \<Rightarrow> True | Fin r \<Rightarrow> r < 0)"

definition fval :: "float64 \<Rightarrow> rat" where
  "fval x = (case x of Fin r \<Rightarrow> r | _ \<Rightarrow> 0)"

definition finite64 :: "float64 \<Rightarrow> bool" where
  "finite64 x \<longleftrightarrow> (case x of NaN \<Rightarrow> False | Inf _ \<Rightarrow> False | _ \<Rightarrow> True)"

text \<open>The double for an exact result; \<open>sgn0\<close> is the sign a zero result gets.\<close>

definition mkFloat :: "bool \<Rightarrow> rat \<Rightarrow> float64" where
  "mkFloat sgn0 r =
     (if r = 0 then (if sgn0 then NegZero else Fin 0)
      else let y = fl r
           in if dblTop \<le> \<bar>y\<bar> then Inf (y < 0)
              else if y = 0 then (if r < 0 then NegZero else Fin 0)
              else Fin y)"

text \<open>For evaluation, the comparison with \<open>dblTop\<close> is one on integers.\<close>

lemma mkFloat_code [code]:
  "mkFloat sgn0 r =
     (if r = 0 then (if sgn0 then NegZero else Fin 0)
      else let y = fl r
           in if 179769313486231590772930519078902473361797697894230657273430081157732675805500963132708477322407536021120113879871393357658789768814416622492847430639474124377767893424865485276302219601246094119453082952085005768838150682342462881473913110540827237163350510684586298239947245938479716304835356329624224137216 \<le> \<lfloor>\<bar>y\<bar>\<rfloor> then Inf (y < 0)
              else if y = 0 then (if r < 0 then NegZero else Fin 0)
              else Fin y)"
proof -
  have "dblTop = of_int 179769313486231590772930519078902473361797697894230657273430081157732675805500963132708477322407536021120113879871393357658789768814416622492847430639474124377767893424865485276302219601246094119453082952085005768838150682342462881473913110540827237163350510684586298239947245938479716304835356329624224137216"
    by (simp add: dblTop_def)
  then have "dblTop \<le> \<bar>fl r\<bar> \<longleftrightarrow> 179769313486231590772930519078902473361797697894230657273430081157732675805500963132708477322407536021120113879871393357658789768814416622492847430639474124377767893424865485276302219601246094119453082952085005768838150682342462881473913110540827237163350510684586298239947245938479716304835356329624224137216 \<le> \<lfloor>\<bar>fl r\<bar>\<rfloor>"
    by (simp only: le_floor_iff)
  then show ?thesis by (simp only: mkFloat_def Let_def)
qed

fun fmul :: "float64 \<Rightarrow> float64 \<Rightarrow> float64" where
  "fmul NaN y = NaN"
| "fmul x NaN = NaN"
| "fmul (Inf s) y = (if finite64 y \<and> fval y = 0 then NaN else Inf (s \<noteq> neg y))"
| "fmul x (Inf s) = (if fval x = 0 then NaN else Inf (s \<noteq> neg x))"
| "fmul x y = mkFloat (neg x \<noteq> neg y) (fval x * fval y)"

fun fdiv :: "float64 \<Rightarrow> float64 \<Rightarrow> float64" where
  "fdiv NaN y = NaN"
| "fdiv x NaN = NaN"
| "fdiv (Inf s) (Inf t) = NaN"
| "fdiv (Inf s) y = Inf (s \<noteq> neg y)"
| "fdiv x (Inf s) = (if neg x \<noteq> s then NegZero else Fin 0)"
| "fdiv x y = (if fval y = 0 then (if fval x = 0 then NaN else Inf (neg x \<noteq> neg y))
     else mkFloat (neg x \<noteq> neg y) (fval x / fval y))"

fun fadd :: "float64 \<Rightarrow> float64 \<Rightarrow> float64" where
  "fadd NaN y = NaN"
| "fadd x NaN = NaN"
| "fadd (Inf s) (Inf t) = (if s = t then Inf s else NaN)"
| "fadd (Inf s) y = Inf s"
| "fadd x (Inf s) = Inf s"
| "fadd x y = mkFloat (neg x \<and> neg y) (fval x + fval y)"

definition fneg :: "float64 \<Rightarrow> float64" where
  "fneg x = (case x of NaN \<Rightarrow> NaN | Inf s \<Rightarrow> Inf (\<not> s) | NegZero \<Rightarrow> Fin 0
     | Fin r \<Rightarrow> if r = 0 then NegZero else Fin (- r))"

definition fsub :: "float64 \<Rightarrow> float64 \<Rightarrow> float64" where
  "fsub x y = fadd x (fneg y)"

fun flt :: "float64 \<Rightarrow> float64 \<Rightarrow> bool" where
  "flt NaN y = False"
| "flt x NaN = False"
| "flt (Inf s) (Inf t) = (s \<and> \<not> t)"
| "flt (Inf s) y = s"
| "flt x (Inf s) = (\<not> s)"
| "flt x y = (fval x < fval y)"

definition feq :: "float64 \<Rightarrow> float64 \<Rightarrow> bool" where
  "feq x y \<longleftrightarrow> x \<noteq> NaN \<and> y \<noteq> NaN \<and>
     (if finite64 x \<and> finite64 y then fval x = fval y else x = y)"

text \<open>\<open>math.Round\<close>, \<open>math.Ceil\<close> and \<open>math.Min\<close>; conversions from and to \<open>int64\<close>.\<close>

definition mathRound :: "float64 \<Rightarrow> float64" where
  "mathRound x =
     (case x of Fin r \<Rightarrow>
        (let k = roundAway r
         in if k = 0 \<and> r < 0 then NegZero else Fin (of_int k))
      | _ \<Rightarrow> x)"

definition mathCeil :: "float64 \<Rightarrow> float64" where
  "mathCeil x =
     (case x of Fin r \<Rightarrow>
        (let k = \<lceil>r\<rceil> in if k = 0 \<and> r < 0 then NegZero else Fin (of_int k))
      | _ \<Rightarrow> x)"

definition mathMin :: "float64 \<Rightarrow> float64 \<Rightarrow> float64" where
  "mathMin x y =
     (if x = Inf True \<or> y = Inf True then Inf True
      else if x = NaN \<or> y = NaN then NaN
      else if x = NegZero \<and> fval y = 0 \<and> finite64 y then x
      else if flt x y then x else y)"

definition ofInt64 :: "int \<Rightarrow> float64" where
  "ofInt64 i = mkFloat False (of_int i)"

definition toInt64 :: "float64 \<Rightarrow> int" where
  "toInt64 x = (let r = fval x in if 0 \<le> r then \<lfloor>r\<rfloor> else - \<lfloor>- r\<rfloor>)"

lemma fl_bounded: "\<bar>r\<bar> \<le> dblHalf \<Longrightarrow> \<bar>fl r\<bar> < dblTop"
proof -
  assume "\<bar>r\<bar> \<le> dblHalf"
  then have "r \<le> dblHalf" "- dblHalf \<le> r" by (simp_all add: abs_le_iff)
  then have "fl r \<le> fl dblHalf" and "fl (- dblHalf) \<le> fl r"
    using fl_mono [of r dblHalf] fl_mono [of "- dblHalf" r] by simp_all
  then have "\<bar>fl r\<bar> \<le> dblHalf" by (simp add: dblHalf_facts abs_le_iff)
  with dblHalf_facts show ?thesis by linarith
qed

lemma mkFloat_nonneg: "0 \<le> r \<Longrightarrow> r \<le> dblHalf \<Longrightarrow> mkFloat False r = Fin (fl r)"
  using fl_bounded [of r] by (auto simp: mkFloat_def Let_def not_le)

lemma mkFloat_finite: "\<bar>r\<bar> \<le> dblHalf \<Longrightarrow> finite64 (mkFloat b r) \<and> fval (mkFloat b r) = fl r"
  using fl_bounded [of r] by (auto simp: mkFloat_def Let_def not_le finite64_def fval_def)

subsection \<open>Rounding as an interface\<close>

text \<open>What the token buckets rely on: monotone, and exact on integers below \<open>2^53\<close>.\<close>

locale rounding =
  fixes rnd :: "rat \<Rightarrow> rat"
  assumes rnd_mono: "x \<le> y \<Longrightarrow> rnd x \<le> rnd y"
    and rnd_int: "\<bar>k\<bar> < 2 ^ 53 \<Longrightarrow> rnd (of_int k) = of_int k"
begin

lemma rnd_le_int: "\<bar>k\<bar> < 2 ^ 53 \<Longrightarrow> x \<le> of_int k \<Longrightarrow> rnd x \<le> of_int k"
  using rnd_mono [of x "of_int k"] rnd_int [of k] by simp

lemma rnd_ge_int: "\<bar>k\<bar> < 2 ^ 53 \<Longrightarrow> of_int k \<le> x \<Longrightarrow> of_int k \<le> rnd x"
  using rnd_mono [of "of_int k" x] rnd_int [of k] by simp

lemma rnd_nonneg: "0 \<le> x \<Longrightarrow> 0 \<le> rnd x"
  using rnd_ge_int [of 0 x] by simp

text \<open>A refill keeps the tokens between 0 and the capacity, taking one does too.\<close>

lemma refill_range:
  assumes "0 \<le> t" "0 \<le> r" "t \<le> c"
  shows "rnd t = t \<Longrightarrow> t \<le> min c (rnd (t + r))" and "0 \<le> min c (rnd (t + r))"
    and "min c (rnd (t + r)) \<le> c"
  using assms rnd_mono [of t "t + r"] rnd_nonneg [of "t + r"] by auto

lemma take_range:
  assumes "1 \<le> t" "t \<le> of_int c" "\<bar>c\<bar> < 2 ^ 53"
  shows "0 \<le> rnd (t - 1)" and "rnd (t - 1) \<le> of_int (c - 1)"
proof -
  show "0 \<le> rnd (t - 1)" using assms(1) by (simp add: rnd_nonneg)
  have "(of_int 1 :: rat) \<le> of_int c" using assms(1,2) by simp
  then have "1 \<le> c" by (simp only: of_int_le_iff)
  with assms(3) have "\<bar>c - 1\<bar> < 2 ^ 53" by simp
  then show "rnd (t - 1) \<le> of_int (c - 1)" by (rule rnd_le_int) (use assms(2) in simp)
qed

end

interpretation dbl: rounding fl
  by unfold_locales (auto intro: fl_mono fl_of_int)

end
