(* ===== verification/GoLib.thy ===== *)
theory GoLib
  imports GoStrings GoFloat
begin

section \<open>The rest of the standard library, JSON values, HTTP requests and responses\<close>

text \<open>
  Library functions whose grammar or tables are long and whose result the server only branches on
  are arguments of the model: the record \<open>golib\<close> holds one function per library entry point the
  code calls, each returning \<open>None\<close> where Go returns an error. Every theorem holds for all of
  them, or names the documented behaviour it needs as a hypothesis.
\<close>

text \<open>\<open>netip.Addr\<close>: an IPv4 address, or an IPv6 address with its zone.\<close>

datatype addr = V4 "32 word" | V6 "128 word" bytes

text \<open>\<open>netip.Prefix\<close>: an address and a prefix length.\<close>

datatype prefix4or6 = Prefix addr nat

text \<open>The fields of \<open>url.URL\<close> that \<open>canonicalOrigin\<close> and \<open>qweatherDetailURL\<close> look at.\<close>

record url =
  uScheme :: bytes
  uHost :: bytes
  uHostname :: bytes
  uPort :: bytes
  uHasUser :: bool
  uPath :: bytes
  uRawPath :: bytes
  uRawQuery :: bytes
  uForceQuery :: bool
  uFragment :: bytes
  uString :: bytes

text \<open>What \<open>x509.ParsePKCS8PrivateKey\<close> returns, by its dynamic type.\<close>

datatype privateKey = Ed25519Key bytes | OtherKey

text \<open>\<open>pemDecode\<close> returns the type and the contents of the first block, and the rest of the text.\<close>

record golib =
  ulow :: "nat \<Rightarrow> nat"
  ParseFloat :: "bytes \<Rightarrow> float64 option"
  ParseAddr :: "bytes \<Rightarrow> addr option"
  ParsePrefix :: "bytes \<Rightarrow> prefix4or6 option"
  IsIP :: "bytes \<Rightarrow> bool"
  UrlParse :: "bytes \<Rightarrow> url option"
  ParseRFC3339 :: "bytes \<Rightarrow> time option"
  ParseRFC3339NoSeconds :: "bytes \<Rightarrow> time option"
  ParseDate :: "bytes \<Rightarrow> time option"
  ParseLocalClock :: "bytes \<Rightarrow> bytes \<Rightarrow> time option"
  HttpParseTime :: "bytes \<Rightarrow> time option"
  sha256 :: "bytes \<Rightarrow> bytes"
  b64RawURL :: "bytes \<Rightarrow> bytes"
  b64RawStd :: "bytes \<Rightarrow> bytes"
  b64RawStdDecode :: "bytes \<Rightarrow> bytes option"
  argon2id :: "bytes \<Rightarrow> bytes \<Rightarrow> nat \<Rightarrow> nat \<Rightarrow> nat \<Rightarrow> nat \<Rightarrow> bytes"
  pemDecode :: "bytes \<Rightarrow> (bytes \<times> bytes \<times> bytes) option"
  parsePKCS8 :: "bytes \<Rightarrow> privateKey option"
  ed25519Public :: "bytes \<Rightarrow> bytes"
  ed25519Sign :: "bytes \<Rightarrow> bytes \<Rightarrow> bytes"

subsection \<open>Fixed-point formatting\<close>

text \<open>\<open>strconv.FormatFloat(x, 'f', 2, 64)\<close>: the exact value, rounded half to even at two decimals.\<close>

definition twoDigits :: "nat \<Rightarrow> bytes" where
  "twoDigits n = [byte (48 + n div 10), byte (48 + n mod 10)]"

definition formatFixed2 :: "float64 \<Rightarrow> bytes" where
  "formatFixed2 x =
     (case x of NaN \<Rightarrow> ''NaN''
      | Inf s \<Rightarrow> (if s then ''-Inf'' else ''+Inf'')
      | _ \<Rightarrow>
          (let k = nat (roundEven (\<bar>fval x\<bar> * 100))
           in (if neg x then ''-'' else []) @ showNat (k div 100) @ ''.'' @ twoDigits (k mod 100)))"

subsection \<open>JSON values\<close>

datatype json =
    JNull
  | JBool bool
  | JInt int
  | JStr bytes
  | JTime time
  | JFloat float64
  | JArr "json list"
  | JObj "(bytes \<times> json) list"

subsection \<open>HTTP\<close>

text \<open>
  \<open>rHeader\<close> gives all values of a header by its name as the code writes it; Go's \<open>Header\<close> map
  canonicalises the name on both sides. \<open>rBody\<close> is the request body, \<open>rCookie\<close> the value of the
  session cookie, \<open>rPathValue\<close> the \<open>{id}\<close> of the matched route, \<open>rPath\<close>
  and \<open>rEscapedPath\<close> what \<open>URL.Path\<close> and \<open>URL.EscapedPath\<close> are.
\<close>

record request =
  rHeader :: "bytes \<Rightarrow> bytes list"
  rRemoteAddr :: bytes
  rTLS :: bool
  rHost :: bytes
  rCookie :: "bytes option"
  rPathValue :: bytes
  rBody :: bytes
  rMethod :: bytes
  rPath :: bytes
  rEscapedPath :: bytes
  rRequestID :: bytes

definition HeaderGet :: "request \<Rightarrow> bytes \<Rightarrow> bytes" where
  "HeaderGet r n = (case rHeader r n of [] \<Rightarrow> [] | v # _ \<Rightarrow> v)"

definition HeaderValues :: "request \<Rightarrow> bytes \<Rightarrow> bytes list" where
  "HeaderValues r n = rHeader r n"

text \<open>An empty request and a library that parses nothing, to build concrete examples from.\<close>

definition emptyRequest :: request where
  "emptyRequest =
     \<lparr>rHeader = (\<lambda>_. []), rRemoteAddr = [], rTLS = False, rHost = [], rCookie = None,
      rPathValue = [], rBody = [], rMethod = [], rPath = [], rEscapedPath = [], rRequestID = []\<rparr>"

definition emptyLib :: golib where
  "emptyLib =
     \<lparr>ulow = (\<lambda>r. r), ParseFloat = (\<lambda>_. None), ParseAddr = (\<lambda>_. None), ParsePrefix = (\<lambda>_. None),
      IsIP = (\<lambda>_. False), UrlParse = (\<lambda>_. None), ParseRFC3339 = (\<lambda>_. None),
      ParseRFC3339NoSeconds = (\<lambda>_. None), ParseDate = (\<lambda>_. None),
      ParseLocalClock = (\<lambda>_ _. None), HttpParseTime = (\<lambda>_. None), sha256 = (\<lambda>s. s),
      b64RawURL = (\<lambda>s. s), b64RawStd = (\<lambda>s. s), b64RawStdDecode = Some,
      argon2id = (\<lambda>p s _ _ _ _. p @ s), pemDecode = (\<lambda>s. Some (''PRIVATE KEY'', s, [])), parsePKCS8 = (\<lambda>s. Some (Ed25519Key s)),
      ed25519Public = (\<lambda>k. k), ed25519Sign = (\<lambda>k m. k @ m)\<rparr>"

text \<open>A library whose digests have the length of SHA-256 digests.\<close>

definition padLib :: golib where
  "padLib = emptyLib\<lparr>sha256 := (\<lambda>t. take 32 (t @ replicate 32 CHR 0x00))\<rparr>"

subsection \<open>Hundredths: the two-decimal grid\<close>

text \<open>The double nearest to \<open>k / 100\<close>, and its two-decimal text.\<close>

definition gridFloat :: "int \<Rightarrow> float64" where
  "gridFloat k = Fin (fl (of_int k / 100))"

definition dec2 :: "int \<Rightarrow> bytes" where
  "dec2 k = (if k < 0 then ''-'' else []) @
     showNat (nat \<bar>k\<bar> div 100) @ ''.'' @ twoDigits (nat \<bar>k\<bar> mod 100)"

lemma hundredth_error:
  assumes "\<bar>k\<bar> \<le> 18000"
  shows "\<bar>fl (of_int k / 100) * 100 - of_int k\<bar> \<le> 1/10000000"
proof (cases "k = 0")
  case False
  let ?x = "of_int k / 100 :: rat"
  have "(1 :: rat) \<le> \<bar>of_int k\<bar>" using False by (simp flip: of_int_abs)
  moreover have "pw (- 1022) \<le> pw (- 7)" by (rule pw_mono) simp
  moreover have "pw (- 7) = 1/128" by simp
  ultimately have "pw (- 1022) \<le> \<bar>?x\<bar>" by simp
  then have "\<bar>fl ?x - ?x\<bar> \<le> \<bar>?x\<bar> / 2 ^ 53" by (rule fl_rel_error)
  moreover have "\<bar>?x\<bar> \<le> 180" using assms by (simp flip: of_int_abs)
  ultimately have e: "\<bar>fl ?x - ?x\<bar> \<le> 180 / 2 ^ 53" by simp
  have "fl ?x * 100 - of_int k = (fl ?x - ?x) * 100" by simp
  then have "\<bar>fl ?x * 100 - of_int k\<bar> = \<bar>fl ?x - ?x\<bar> * 100"
    by (simp only: abs_mult abs_numeral)
  with e show ?thesis by simp
qed simp

lemma hundredth_nonzero:
  assumes "k \<noteq> 0" and "\<bar>k\<bar> \<le> 18000"
  shows "fl (of_int k / 100) \<noteq> 0" and "fl (of_int k / 100) < 0 \<longleftrightarrow> k < 0"
proof -
  have *: "\<bar>fl (of_int k / 100) * 100 - of_int k\<bar> \<le> 1/10000000" by (rule hundredth_error [OF assms(2)])
  have "(of_int k :: rat) \<le> - 1 \<or> 1 \<le> (of_int k :: rat)" using assms(1)
    by (cases "k < 0") (simp_all flip: of_int_le_iff)
  moreover have "(of_int k :: rat) < 0 \<longleftrightarrow> k < 0" by simp
  moreover have "fl (of_int k / 100) * 100 - of_int k \<le> 1/10000000"
    and "- (fl (of_int k / 100) * 100 - of_int k) \<le> 1/10000000"
    using * by (simp_all only: abs_le_iff)
  ultimately show "fl (of_int k / 100) \<noteq> 0" and "fl (of_int k / 100) < 0 \<longleftrightarrow> k < 0"
    by linarith+
qed

lemma formatFixed2_grid:
  assumes "\<bar>k\<bar> \<le> 18000"
  shows "formatFixed2 (gridFloat k) = dec2 k"
proof -
  let ?y = "fl (of_int k / 100)"
  have "\<bar>\<bar>?y\<bar> * 100 - of_int \<bar>k\<bar>\<bar> \<le> \<bar>?y * 100 - of_int k\<bar>"
    using abs_triangle_ineq3 [of "?y * 100" "of_int k"] by (simp add: abs_mult)
  also have "\<dots> < 1/2" using hundredth_error [OF assms] by linarith
  finally have "roundEven (\<bar>?y\<bar> * 100) = \<bar>k\<bar>" by (rule roundEven_near)
  moreover have "?y < 0 \<longleftrightarrow> k < 0"
    using hundredth_nonzero(2) [of k] assms by (cases "k = 0") auto
  ultimately show ?thesis
    by (simp add: formatFixed2_def gridFloat_def dec2_def Let_def fval_def neg_def)
qed

lemma twoDigits_inject:
  assumes "m < 100" "n < 100" "twoDigits m = twoDigits n"
  shows "m = n"
proof -
  have "byteval (byte (48 + m div 10)) = byteval (byte (48 + n div 10))"
    "byteval (byte (48 + m mod 10)) = byteval (byte (48 + n mod 10))"
    using assms(3) by (simp_all add: twoDigits_def)
  with assms(1,2) have "m div 10 = n div 10" "m mod 10 = n mod 10"
    by (simp_all add: less_mult_imp_div_less)
  then show ?thesis by (metis mult_div_mod_eq)
qed

lemma showNat_bytes: "c \<in> set (showNat n) \<Longrightarrow> isDigit c"
  using showNat_digits [of n] by (auto simp: list_all_iff)

lemma dec2_bytes: "c \<in> set (dec2 k) \<Longrightarrow> isDigit c \<or> c = CHR ''-'' \<or> c = CHR ''.''"
  by (auto simp: dec2_def twoDigits_def isDigit_def inrange_def less_mult_imp_div_less
      dest: showNat_bytes split: if_splits)

lemma dec2_hd: "hd (dec2 k) = CHR ''-'' \<longleftrightarrow> k < 0"
  using showNat_digits [of "nat \<bar>k\<bar> div 100"] showNat_hd_digit [of "nat \<bar>k\<bar> div 100"]
  by (auto simp: dec2_def isDigit_def inrange_def hd_append)

lemma dec2_inject: "dec2 j = dec2 k \<longleftrightarrow> j = k"
proof
  assume eq: "dec2 j = dec2 k"
  then have s: "j < 0 \<longleftrightarrow> k < 0" using dec2_hd by metis
  with eq have "showNat (nat \<bar>j\<bar> div 100) @ ''.'' @ twoDigits (nat \<bar>j\<bar> mod 100) =
      showNat (nat \<bar>k\<bar> div 100) @ ''.'' @ twoDigits (nat \<bar>k\<bar> mod 100)"
    by (simp add: dec2_def split: if_splits)
  then have "showNat (nat \<bar>j\<bar> div 100) = showNat (nat \<bar>k\<bar> div 100)"
    and "twoDigits (nat \<bar>j\<bar> mod 100) = twoDigits (nat \<bar>k\<bar> mod 100)"
    by (simp_all add: twoDigits_def)
  then have "nat \<bar>j\<bar> div 100 = nat \<bar>k\<bar> div 100" and "nat \<bar>j\<bar> mod 100 = nat \<bar>k\<bar> mod 100"
    by (simp_all add: showNat_inject twoDigits_inject)
  then have "nat \<bar>j\<bar> = nat \<bar>k\<bar>" by (metis mult_div_mod_eq)
  with s show "j = k" by auto
qed simp

end
