(* ===== verification/LocationPoint.thy ===== *)
theory LocationPoint
  imports GoLib
begin

section \<open>Request locations: \<open>internal/platform/location/location.go\<close> and \<open>localize.go\<close>\<close>

text \<open>
  \<open>Point\<close>, its validation and normalisation to hundredths of a degree, the canonical cache key,
  the opaque \<open>location_key\<close>, the parser of the device's location headers, and the overlay of
  localised display names. The lemmas give the exact result of \<open>Normalize\<close>: it is idempotent, its
  coordinates lie on the two-decimal grid, and the cache key determines them.
\<close>

datatype locErr = ErrRequired | ErrPartial | ErrInvalid | ErrLocationUnavailable

record Point =
  Latitude :: float64
  Longitude :: float64
  City :: bytes
  District :: bytes
  Region :: bytes
  Country :: bytes
  Timezone :: bytes
  Source :: bytes
  Provider :: bytes
  Precision :: bytes
  Key :: bytes

definition emptyPoint :: Point where
  "emptyPoint =
     \<lparr>Latitude = Fin 0, Longitude = Fin 0, City = [], District = [], Region = [], Country = [],
      Timezone = [], Source = [], Provider = [], Precision = [], Key = []\<rparr>"

definition maximumMetadataRunes :: nat where "maximumMetadataRunes = 128"
definition coordinateScale :: float64 where "coordinateScale = Fin 100"

definition HeaderLatitude :: bytes where "HeaderLatitude = ''X-MT-Location-Latitude''"
definition HeaderLongitude :: bytes where "HeaderLongitude = ''X-MT-Location-Longitude''"
definition HeaderProvider :: bytes where "HeaderProvider = ''X-MT-Location-Provider''"
definition HeaderCity :: bytes where "HeaderCity = ''X-MT-Location-City''"
definition HeaderRegion :: bytes where "HeaderRegion = ''X-MT-Location-Region''"
definition HeaderCountry :: bytes where "HeaderCountry = ''X-MT-Location-Country''"
definition HeaderTimezone :: bytes where "HeaderTimezone = ''X-MT-Location-Timezone''"

lemmas header_names = HeaderLatitude_def HeaderLongitude_def HeaderProvider_def HeaderCity_def
  HeaderRegion_def HeaderCountry_def HeaderTimezone_def

subsection \<open>Display metadata\<close>

definition normalizeMetadata :: "bytes \<Rightarrow> locErr + bytes" where
  "normalizeMetadata v =
     (let value = TrimSpace v
      in if \<not> ValidString value \<or> maximumMetadataRunes < RuneCount value then Inl ErrInvalid
         else if list_ex IsControl (runes value) then Inl ErrInvalid
         else Inr value)"

text \<open>What a display field may hold.\<close>

definition displaySafe :: "bytes \<Rightarrow> bool" where
  "displaySafe s \<longleftrightarrow> TrimSpace s = s \<and> ValidString s \<and> RuneCount s \<le> maximumMetadataRunes \<and>
     list_all (\<lambda>r. \<not> IsControl r) (runes s)"

lemma normalizeMetadata_iff: "normalizeMetadata v = Inr w \<longleftrightarrow> w = TrimSpace v \<and> displaySafe w"
  by (auto simp: normalizeMetadata_def displaySafe_def Let_def list_ex_iff list_all_iff)

lemma normalizeMetadata_cases: "normalizeMetadata v = Inl ErrInvalid \<or> (\<exists>w. normalizeMetadata v = Inr w)"
  by (simp add: normalizeMetadata_def Let_def)

lemma normalizeMetadata_safe [simp]: "displaySafe s \<Longrightarrow> normalizeMetadata s = Inr s"
  by (simp add: normalizeMetadata_iff) (simp add: displaySafe_def)

lemma displaySafe_Nil [simp]: "displaySafe []"
  by (simp add: displaySafe_def ValidString_def RuneCount_def runes_def)

subsection \<open>Coordinates\<close>

definition coordinateString :: "float64 \<Rightarrow> float64 \<Rightarrow> bytes" where
  "coordinateString latitude longitude = formatFixed2 latitude @ '','' @ formatFixed2 longitude"

definition CacheKey :: "Point \<Rightarrow> bytes" where
  "CacheKey p = coordinateString (Latitude p) (Longitude p)"

definition locationKey :: "float64 \<Rightarrow> float64 \<Rightarrow> bytes" where
  "locationKey latitude longitude = hex016 (fnv1a64 (coordinateString latitude longitude))"

definition zeroFix :: "float64 \<Rightarrow> float64" where
  "zeroFix x = (if feq x (Fin 0) then Fin 0 else x)"

definition roundCoordinate :: "float64 \<Rightarrow> float64" where
  "roundCoordinate x = zeroFix (fdiv (mathRound (fmul x coordinateScale)) coordinateScale)"

text \<open>The range check of \<open>Normalize\<close>: \<open>NaN\<close> and the infinities are named before the comparison.\<close>

definition badCoordinate :: "float64 \<Rightarrow> int \<Rightarrow> bool" where
  "badCoordinate x bound \<longleftrightarrow>
     isNaN x \<or> isInf x \<or> flt x (Fin (of_int (- bound))) \<or> flt (Fin (of_int bound)) x"

definition Normalize :: "Point \<Rightarrow> locErr + Point" where
  "Normalize p =
     (if badCoordinate (Latitude p) 90 \<or> badCoordinate (Longitude p) 180 then Inl ErrInvalid
      else
        (case collect normalizeMetadata [City p, District p, Region p, Country p, Timezone p] of
           Inr [city, district, region, country, timezone] \<Rightarrow>
             (let lat = roundCoordinate (Latitude p); lon = roundCoordinate (Longitude p)
              in Inr (p\<lparr>City := city, District := district, Region := region, Country := country,
                       Timezone := timezone, Latitude := lat, Longitude := lon,
                       Key := locationKey lat lon\<rparr>))
         | _ \<Rightarrow> Inl ErrInvalid))"

definition parseCoordinate :: "golib \<Rightarrow> bytes \<Rightarrow> int \<Rightarrow> int \<Rightarrow> locErr + float64" where
  "parseCoordinate L value minimum maximum =
     (if 32 < length value then Inl ErrInvalid
      else
        (case ParseFloat L value of
           None \<Rightarrow> Inl ErrInvalid
         | Some c \<Rightarrow>
             if isNaN c \<or> isInf c \<or> flt c (Fin (of_int minimum)) \<or> flt (Fin (of_int maximum)) c
             then Inl ErrInvalid else Inr c))"

subsection \<open>The device's location headers\<close>

text \<open>\<open>^[a-z0-9][a-z0-9._-]{0,31}$\<close>\<close>

definition lowerAlnum :: "char \<Rightarrow> bool" where
  "lowerAlnum c \<longleftrightarrow> inrange 97 122 (byteval c) \<or> inrange 48 57 (byteval c)"

definition providerPattern :: "bytes \<Rightarrow> bool" where
  "providerPattern s \<longleftrightarrow>
     (case s of [] \<Rightarrow> False
      | c # cs \<Rightarrow> lowerAlnum c \<and> length cs \<le> 31 \<and>
          list_all (\<lambda>d. lowerAlnum d \<or> d = CHR ''.'' \<or> d = CHR ''_'' \<or> d = CHR ''-'') cs)"

text \<open>The Go result \<open>(Point, bool, error)\<close> is \<open>Inl e\<close>, \<open>Inr None\<close> (absent) or \<open>Inr (Some p)\<close>.\<close>

definition FromRequest :: "golib \<Rightarrow> request \<Rightarrow> locErr + Point option" where
  "FromRequest L r =
     (let latitude = TrimSpace (HeaderGet r HeaderLatitude);
          longitude = TrimSpace (HeaderGet r HeaderLongitude);
          provider = TrimSpace (HeaderGet r HeaderProvider)
      in if latitude = [] \<and> longitude = [] \<and> provider = [] then Inr None
         else if latitude = [] \<or> longitude = [] \<or> provider = [] then Inl ErrPartial
         else if \<not> providerPattern provider then Inl ErrInvalid
         else
           (case parseCoordinate L latitude (- 90) 90 of
              Inl _ \<Rightarrow> Inl ErrInvalid
            | Inr lat \<Rightarrow>
                (case parseCoordinate L longitude (- 180) 180 of
                   Inl _ \<Rightarrow> Inl ErrInvalid
                 | Inr lon \<Rightarrow>
                     (case Normalize (emptyPoint\<lparr>Latitude := lat, Longitude := lon,
                          City := HeaderGet r HeaderCity, Region := HeaderGet r HeaderRegion,
                          Country := HeaderGet r HeaderCountry,
                          Timezone := HeaderGet r HeaderTimezone,
                          Source := ''device'', Provider := provider, Precision := ''city''\<rparr>) of
                        Inl _ \<Rightarrow> Inl ErrInvalid
                      | Inr point \<Rightarrow> Inr (Some point)))))"

subsection \<open>Localised display names\<close>

record LocalizedMetadata =
  lmCity :: bytes
  lmDistrict :: bytes
  lmRegion :: bytes
  lmTimezone :: bytes

definition validatedLocalizedField :: "bytes \<Rightarrow> bytes option" where
  "validatedLocalizedField value =
     (case normalizeMetadata value of
        Inl _ \<Rightarrow> None
      | Inr normalized \<Rightarrow> if normalized = [] then None else Some normalized)"

text \<open>One overlay: the field's new value and whether it changed.\<close>

definition overlay :: "bytes \<Rightarrow> bytes \<Rightarrow> bytes \<times> bool" where
  "overlay current value =
     (case validatedLocalizedField value of
        Some v \<Rightarrow> if v \<noteq> current then (v, True) else (current, False)
      | None \<Rightarrow> (current, False))"

definition ApplyLocalized :: "Point \<Rightarrow> LocalizedMetadata \<Rightarrow> Point \<times> bool" where
  "ApplyLocalized p m =
     (let (city, c1) = overlay (City p) (lmCity m);
          (district, c2) = overlay (District p) (lmDistrict m);
          (region, c3) = overlay (Region p) (lmRegion m);
          (timezone, c4) = overlay (Timezone p) (lmTimezone m)
      in (p\<lparr>City := city, District := district, Region := region, Timezone := timezone\<rparr>,
          c1 \<or> c2 \<or> c3 \<or> c4))"

subsection \<open>The two-decimal grid\<close>

definition hundredths :: "float64 \<Rightarrow> int" where
  "hundredths x = roundAway (fl (fval x * 100))"

lemma finite64_simps [simp]: "finite64 (Fin r)" "finite64 NegZero" "\<not> finite64 NaN" "\<not> finite64 (Inf b)"
  by (simp_all add: finite64_def)

lemma fval_simps [simp]: "fval (Fin r) = r" "fval NegZero = 0"
  by (simp_all add: fval_def)

lemma finite64_cases: "finite64 x \<Longrightarrow> x = NegZero \<or> (\<exists>r. x = Fin r)"
  by (cases x) auto

lemma fmul_100: "finite64 x \<Longrightarrow> fmul x (Fin 100) = mkFloat (neg x) (fval x * 100)"
  by (auto dest!: finite64_cases simp: neg_def)

lemma fdiv_100: "finite64 x \<Longrightarrow> fdiv x (Fin 100) = mkFloat (neg x) (fval x / 100)"
  by (auto dest!: finite64_cases simp: neg_def)

lemma mathRound_finite:
  "finite64 x \<Longrightarrow> finite64 (mathRound x) \<and> fval (mathRound x) = of_int (roundAway (fval x))"
  by (auto dest!: finite64_cases simp: mathRound_def Let_def)

lemma zeroFix_finite: "finite64 x \<Longrightarrow> zeroFix x = Fin (fval x)"
  by (auto dest!: finite64_cases simp: zeroFix_def feq_def)

lemma scaled_bound:
  assumes "\<bar>fval x\<bar> \<le> of_int b" and "0 \<le> b" and "b \<le> 180"
  shows "\<bar>fl (fval x * 100)\<bar> \<le> of_int (b * 100)"
proof -
  have "\<bar>b * 100\<bar> < 2 ^ 53" using assms(2,3) by simp
  then have e: "fl (of_int (b * 100)) = of_int (b * 100)" by (rule fl_of_int)
  have "fval x * 100 \<le> of_int (b * 100)" "- (fval x * 100) \<le> of_int (b * 100)"
    using assms(1) by (auto simp: abs_le_iff)
  then have "fl (fval x * 100) \<le> of_int (b * 100)" "fl (- (fval x * 100)) \<le> of_int (b * 100)"
    using fl_mono e by metis+
  then show ?thesis by (simp add: abs_le_iff)
qed

lemma roundCoordinate_grid:
  assumes "finite64 x" and "\<bar>fval x\<bar> \<le> of_int b" and "0 \<le> b" and "b \<le> 180"
  shows "roundCoordinate x = gridFloat (hundredths x)" and "\<bar>hundredths x\<bar> \<le> b * 100"
proof -
  show k: "\<bar>hundredths x\<bar> \<le> b * 100"
    unfolding hundredths_def by (rule roundAway_bound [OF scaled_bound [OF assms(2-4)]])
  let ?y = "fmul x (Fin 100)"
  have "\<bar>fval x * 100\<bar> \<le> 2 ^ 200" using assms(2,4) by (simp add: abs_mult)
  then have y: "finite64 ?y" "fval ?y = fl (fval x * 100)"
    using mkFloat_finite [OF dblHalf_ge] by (simp_all add: fmul_100 [OF assms(1)])
  have z: "finite64 (mathRound ?y)" "fval (mathRound ?y) = of_int (hundredths x)"
    using mathRound_finite [OF y(1)] y(2) by (simp_all add: hundredths_def)
  have "(of_int \<bar>hundredths x\<bar> :: rat) \<le> of_int (b * 100)" using k by (simp only: of_int_le_iff)
  then have "\<bar>of_int (hundredths x) / 100 :: rat\<bar> \<le> 2 ^ 200" using assms(4) by simp
  then have w: "finite64 (fdiv (mathRound ?y) (Fin 100))"
    "fval (fdiv (mathRound ?y) (Fin 100)) = fl (of_int (hundredths x) / 100)"
    using mkFloat_finite [OF dblHalf_ge] by (simp_all add: fdiv_100 [OF z(1)] z(2))
  then show "roundCoordinate x = gridFloat (hundredths x)"
    by (simp add: roundCoordinate_def coordinateScale_def zeroFix_finite gridFloat_def)
qed

lemma hundredths_grid:
  assumes "\<bar>k\<bar> \<le> 18000"
  shows "hundredths (gridFloat k) = k"
proof (cases "k = 0")
  case True
  then show ?thesis by (simp add: hundredths_def gridFloat_def)
next
  case False
  let ?z = "fl (of_int k / 100) * 100"
  have e: "\<bar>?z - of_int k\<bar> \<le> 1/10000000" by (rule hundredth_error [OF assms])
  have "(1 :: rat) \<le> \<bar>of_int k\<bar>" and k: "\<bar>of_int k :: rat\<bar> \<le> 18000"
    using False assms by (simp_all flip: of_int_abs)
  with e have z: "1/2 \<le> \<bar>?z\<bar>" "\<bar>?z\<bar> \<le> 18001" by linarith+
  have "pw (- 1022) \<le> pw (- 1)" by (rule pw_mono) simp
  moreover have "pw (- 1) = 1/2" by simp
  ultimately have "pw (- 1022) \<le> \<bar>?z\<bar>" using z(1) by linarith
  then have "\<bar>fl ?z - ?z\<bar> \<le> \<bar>?z\<bar> / 2 ^ 53" by (rule fl_rel_error)
  with z(2) have "\<bar>fl ?z - ?z\<bar> \<le> 1/1000" by simp
  with e have "\<bar>fl ?z - of_int k\<bar> < 1/2" by linarith
  then show ?thesis by (simp add: hundredths_def gridFloat_def roundAway_near)
qed

lemma gridFloat_range:
  assumes "\<bar>k\<bar> \<le> b * 100" and "b \<le> 180"
  shows "\<bar>fval (gridFloat k)\<bar> \<le> of_int b"
proof -
  have "\<bar>b\<bar> < 2 ^ 53" using assms by simp
  then have e: "fl (of_int b) = of_int b" by (rule fl_of_int)
  have "(of_int k :: rat) \<le> of_int (b * 100)" "(of_int (- k) :: rat) \<le> of_int (b * 100)"
    using assms(1) by (simp_all only: of_int_le_iff)
  then have "of_int k / 100 \<le> (of_int b :: rat)" "- (of_int k / 100) \<le> (of_int b :: rat)" by simp_all
  then have "fl (of_int k / 100) \<le> of_int b" "fl (- (of_int k / 100)) \<le> of_int b"
    using fl_mono e by metis+
  then show ?thesis by (simp add: gridFloat_def abs_le_iff)
qed

lemma roundCoordinate_idem:
  assumes "\<bar>k\<bar> \<le> b * 100" and "0 \<le> b" and "b \<le> 180"
  shows "roundCoordinate (gridFloat k) = gridFloat k"
proof -
  have "\<bar>k\<bar> \<le> 18000" using assms by simp
  then have "hundredths (gridFloat k) = k" by (rule hundredths_grid)
  then show ?thesis
    using roundCoordinate_grid(1) [OF _ gridFloat_range [OF assms(1,3)] assms(2,3)]
    by (simp add: gridFloat_def)
qed

lemma roundCoordinate_error:
  assumes "finite64 x" and "\<bar>fval x\<bar> \<le> 180"
  shows "\<bar>fval (roundCoordinate x) - fval x\<bar> \<le> 5001/1000000"
proof -
  let ?k = "of_int (hundredths x) :: rat" and ?s = "fl (fval x * 100)"
  have g: "roundCoordinate x = gridFloat (hundredths x)" and b: "\<bar>hundredths x\<bar> \<le> 18000"
    using roundCoordinate_grid [OF assms(1), of 180] assms(2) by simp_all
  have 1: "\<bar>fl (?k / 100) * 100 - ?k\<bar> \<le> 1/10000000" by (rule hundredth_error [OF b])
  have 2: "\<bar>?k - ?s\<bar> \<le> 1/2" unfolding hundredths_def by (rule roundAway_error)
  have 3: "\<bar>?s - fval x * 100\<bar> \<le> 1/100000000"
  proof (cases "pw (- 1022) \<le> \<bar>fval x * 100\<bar>")
    case True
    then have "\<bar>?s - fval x * 100\<bar> \<le> \<bar>fval x * 100\<bar> / 2 ^ 53" by (rule fl_rel_error)
    also have "\<dots> \<le> 18000 / 2 ^ 53" using assms(2) by (simp add: abs_mult)
    also have "\<dots> \<le> 1/100000000" by simp
    finally show ?thesis .
  next
    case False
    have "pw (- 1022) \<le> pw (- 40)" by (rule pw_mono) simp
    then have "\<bar>fval x * 100\<bar> \<le> pw (- 40)" using False by linarith
    then have r: "- pw (- 40) \<le> fval x * 100" "fval x * 100 \<le> pw (- 40)" by (simp_all only: abs_le_iff, linarith)
    then have "fl (- pw (- 40)) \<le> ?s" "?s \<le> fl (pw (- 40))" by (simp_all only: fl_mono)
    then have "- pw (- 40) \<le> ?s" "?s \<le> pw (- 40)" by (simp_all only: fl_minus fl_pw)
    with r have "\<bar>?s - fval x * 100\<bar> \<le> 2 * pw (- 40)" by linarith
    also have "\<dots> \<le> 1/100000000" by simp
    finally show ?thesis .
  qed
  from 1 2 3 have "\<bar>fl (?k / 100) * 100 - fval x * 100\<bar> \<le> 5001/10000" by linarith
  then have "\<bar>(fl (?k / 100) - fval x) * 100\<bar> \<le> 5001/10000" by (simp only: left_diff_distrib)
  then have "\<bar>fl (?k / 100) - fval x\<bar> * 100 \<le> 5001/10000" by (simp only: abs_mult abs_numeral)
  then show ?thesis by (simp add: g gridFloat_def)
qed

subsection \<open>The result of normalisation\<close>

lemma badCoordinate_iff:
  "\<not> badCoordinate x b \<longleftrightarrow> finite64 x \<and> \<bar>fval x\<bar> \<le> of_int b" if "0 \<le> b"
  using that by (cases x) (auto simp: badCoordinate_def isNaN_def isInf_def abs_le_iff)

definition metaFields :: "Point \<Rightarrow> bytes list" where
  "metaFields p = [City p, District p, Region p, Country p, Timezone p]"

definition normalized :: "Point \<Rightarrow> bool" where
  "normalized p \<longleftrightarrow>
     (\<exists>a b. \<bar>a\<bar> \<le> 9000 \<and> \<bar>b\<bar> \<le> 18000 \<and> Latitude p = gridFloat a \<and> Longitude p = gridFloat b) \<and>
     Key p = locationKey (Latitude p) (Longitude p) \<and> list_all displaySafe (metaFields p)"

lemma collect_normalizeMetadata:
  "collect normalizeMetadata vs = Inr ws \<longleftrightarrow> ws = map TrimSpace vs \<and> list_all displaySafe ws"
  by (simp only: collect_all2 normalizeMetadata_iff list_all2_map_filter)

lemma Normalize_Inr:
  "Normalize p = Inr q \<longleftrightarrow>
     \<not> badCoordinate (Latitude p) 90 \<and> \<not> badCoordinate (Longitude p) 180 \<and>
     list_all displaySafe (map TrimSpace (metaFields p)) \<and>
     q = p\<lparr>City := TrimSpace (City p), District := TrimSpace (District p),
           Region := TrimSpace (Region p), Country := TrimSpace (Country p),
           Timezone := TrimSpace (Timezone p), Latitude := roundCoordinate (Latitude p),
           Longitude := roundCoordinate (Longitude p),
           Key := locationKey (roundCoordinate (Latitude p)) (roundCoordinate (Longitude p))\<rparr>"
proof -
  let ?c = "collect normalizeMetadata (metaFields p)"
  show ?thesis
  proof (cases ?c)
    case (Inl e)
    then have "\<not> list_all displaySafe (map TrimSpace (metaFields p))"
      using collect_normalizeMetadata [of "metaFields p"] by force
    with Inl show ?thesis by (auto simp: Normalize_def metaFields_def split: sum.splits)
  next
    case (Inr ws)
    then have ws: "ws = map TrimSpace (metaFields p) \<and> list_all displaySafe ws"
      by (rule collect_normalizeMetadata [THEN iffD1])
    have "ws = map TrimSpace (metaFields p)" and "list_all displaySafe (map TrimSpace (metaFields p))"
      using ws by blast+
    with Inr show ?thesis
      by (auto simp: Normalize_def metaFields_def Let_def simp del: collect.simps)
  qed
qed

lemma Normalize_Inl: "Normalize p = Inl e \<Longrightarrow> e = ErrInvalid"
  by (auto simp: Normalize_def Let_def split: if_splits sum.splits list.splits)

lemma gridFloat_ok: "\<bar>k\<bar> \<le> b * 100 \<Longrightarrow> b \<le> 180 \<Longrightarrow> 0 \<le> b \<Longrightarrow> \<not> badCoordinate (gridFloat k) b"
  using gridFloat_range [of k b] by (simp add: badCoordinate_iff) (simp add: gridFloat_def)

lemma Normalize_normalized: "Normalize p = Inr q \<Longrightarrow> normalized q"
proof -
  assume q: "Normalize p = Inr q"
  then have lat: "finite64 (Latitude p)" "\<bar>fval (Latitude p)\<bar> \<le> of_int 90"
    and lon: "finite64 (Longitude p)" "\<bar>fval (Longitude p)\<bar> \<le> of_int 180"
    by (simp_all add: Normalize_Inr badCoordinate_iff)
  from roundCoordinate_grid [OF lat] roundCoordinate_grid [OF lon] q
  show ?thesis by (auto simp: normalized_def Normalize_Inr metaFields_def)
qed

lemma Normalize_fixpoint: "normalized q \<Longrightarrow> Normalize q = Inr q"
proof -
  assume n: "normalized q"
  then obtain a b where ab: "\<bar>a\<bar> \<le> 90 * 100" "\<bar>b\<bar> \<le> 180 * 100" "Latitude q = gridFloat a"
    "Longitude q = gridFloat b" by (auto simp: normalized_def)
  have r: "roundCoordinate (Latitude q) = Latitude q" "roundCoordinate (Longitude q) = Longitude q"
    unfolding ab(3,4) by (rule roundCoordinate_idem [OF ab(1)], simp, simp,
        rule roundCoordinate_idem [OF ab(2)], simp, simp)
  have t: "\<And>f. displaySafe f \<Longrightarrow> TrimSpace f = f" by (simp add: displaySafe_def)
  have "\<not> badCoordinate (Latitude q) 90" "\<not> badCoordinate (Longitude q) 180"
    unfolding ab(3,4) by (rule gridFloat_ok [OF ab(1)], simp, simp,
        rule gridFloat_ok [OF ab(2)], simp, simp)
  with n r t show ?thesis by (simp add: Normalize_Inr normalized_def metaFields_def)
qed

lemma CacheKey_normalized:
  assumes "normalized p"
  obtains a b where "\<bar>a\<bar> \<le> 9000" "\<bar>b\<bar> \<le> 18000" "Latitude p = gridFloat a"
    "Longitude p = gridFloat b" "CacheKey p = dec2 a @ '','' @ dec2 b"
proof -
  from assms obtain a b where ab: "\<bar>a\<bar> \<le> 9000" "\<bar>b\<bar> \<le> 18000" "Latitude p = gridFloat a"
    "Longitude p = gridFloat b" by (auto simp: normalized_def)
  then have "CacheKey p = dec2 a @ '','' @ dec2 b"
    by (simp add: CacheKey_def coordinateString_def formatFixed2_grid)
  with ab that show thesis by blast
qed

lemma comma_split:
  assumes "xs @ '','' @ ys = xs' @ '','' @ ys'" "CHR '','' \<notin> set xs" "CHR '','' \<notin> set xs'"
  shows "xs = xs' \<and> ys = ys'"
  using assms
proof (induction xs arbitrary: xs')
  case Nil
  then show ?case by (cases xs') auto
next
  case (Cons x xs)
  then show ?case by (cases xs') auto
qed

lemma dec2_no_comma: "CHR '','' \<notin> set (dec2 k)"
  using dec2_bytes [of "CHR '',''" k] by (auto simp: isDigit_def inrange_def)

lemma CacheKey_inject:
  assumes "normalized p" "normalized q"
  shows "CacheKey p = CacheKey q \<longleftrightarrow> Latitude p = Latitude q \<and> Longitude p = Longitude q"
proof
  assume eq: "CacheKey p = CacheKey q"
  from assms(1) obtain a b where p: "Latitude p = gridFloat a" "Longitude p = gridFloat b"
    "CacheKey p = dec2 a @ '','' @ dec2 b" by (rule CacheKey_normalized)
  from assms(2) obtain c d where q: "Latitude q = gridFloat c" "Longitude q = gridFloat d"
    "CacheKey q = dec2 c @ '','' @ dec2 d" by (rule CacheKey_normalized)
  have "dec2 a = dec2 c \<and> dec2 b = dec2 d"
    by (rule comma_split) (use eq p(3) q(3) dec2_no_comma in auto)
  with p q show "Latitude p = Latitude q \<and> Longitude p = Longitude q" by (simp add: dec2_inject)
qed (simp add: CacheKey_def)

lemma normalized_safe:
  "normalized p \<Longrightarrow> displaySafe (City p) \<and> displaySafe (District p) \<and> displaySafe (Region p) \<and>
     displaySafe (Country p) \<and> displaySafe (Timezone p)"
  by (simp add: normalized_def metaFields_def)

subsection \<open>The parser of the location headers\<close>

lemma parseCoordinate_Inr:
  "parseCoordinate L v lo hi = Inr c \<Longrightarrow> length v \<le> 32 \<and> ParseFloat L v = Some c"
  by (auto simp: parseCoordinate_def split: if_splits option.splits)

lemma FromRequest_absent:
  "FromRequest L r = Inr None \<longleftrightarrow>
     TrimSpace (HeaderGet r HeaderLatitude) = [] \<and> TrimSpace (HeaderGet r HeaderLongitude) = [] \<and>
     TrimSpace (HeaderGet r HeaderProvider) = []"
  by (auto simp: FromRequest_def Let_def split: sum.splits)

lemma FromRequest_partial:
  "FromRequest L r = Inl ErrPartial \<longleftrightarrow>
     (let hs = map (\<lambda>h. TrimSpace (HeaderGet r h)) [HeaderLatitude, HeaderLongitude, HeaderProvider]
      in [] \<in> set hs \<and> (\<exists>h\<in>set hs. h \<noteq> []))"
  by (auto simp: FromRequest_def Let_def split: sum.splits)

lemma FromRequest_point:
  assumes "FromRequest L r = Inr (Some p)"
  shows "normalized p" and "Source p = ''device''" and "Precision p = ''city''"
    and "Provider p = TrimSpace (HeaderGet r HeaderProvider)" and "providerPattern (Provider p)"
    and "District p = []"
proof -
  from assms obtain lat lon where
    n: "Normalize (emptyPoint\<lparr>Latitude := lat, Longitude := lon,
          City := HeaderGet r HeaderCity, Region := HeaderGet r HeaderRegion,
          Country := HeaderGet r HeaderCountry, Timezone := HeaderGet r HeaderTimezone,
          Source := ''device'', Provider := TrimSpace (HeaderGet r HeaderProvider),
          Precision := ''city''\<rparr>) = Inr p"
    and pat: "providerPattern (TrimSpace (HeaderGet r HeaderProvider))"
    by (auto simp: FromRequest_def Let_def split: if_splits sum.splits)
  from n show "normalized p" by (rule Normalize_normalized)
  from n show "Source p = ''device''" "Precision p = ''city''"
    "Provider p = TrimSpace (HeaderGet r HeaderProvider)" "District p = []"
    by (auto simp: Normalize_Inr emptyPoint_def)
  with pat show "providerPattern (Provider p)" by simp
qed

lemma FromRequest_errors: "FromRequest L r = Inl e \<Longrightarrow> e = ErrPartial \<or> e = ErrInvalid"
  by (auto simp: FromRequest_def Let_def split: if_splits sum.splits)

subsection \<open>Overlaying localised names\<close>

lemma overlay_safe: "displaySafe c \<Longrightarrow> displaySafe (fst (overlay c v))"
  by (auto simp: overlay_def validatedLocalizedField_def normalizeMetadata_iff
      split: option.splits sum.splits if_splits)

lemma overlay_changed: "snd (overlay c v) \<longleftrightarrow> fst (overlay c v) \<noteq> c"
  by (auto simp: overlay_def split: option.splits)

lemma overlay_nonempty: "snd (overlay c v) \<Longrightarrow> fst (overlay c v) \<noteq> []"
  by (auto simp: overlay_def validatedLocalizedField_def split: option.splits sum.splits if_splits)

lemma ApplyLocalized_fst:
  "fst (ApplyLocalized p m) =
     p\<lparr>City := fst (overlay (City p) (lmCity m)), District := fst (overlay (District p) (lmDistrict m)),
       Region := fst (overlay (Region p) (lmRegion m)),
       Timezone := fst (overlay (Timezone p) (lmTimezone m))\<rparr>"
  by (simp add: ApplyLocalized_def Let_def split_beta)

lemma ApplyLocalized_changed: "snd (ApplyLocalized p m) \<longleftrightarrow> fst (ApplyLocalized p m) \<noteq> p"
proof -
  have "p\<lparr>City := c, District := d, Region := g, Timezone := t\<rparr> = p \<longleftrightarrow>
      c = City p \<and> d = District p \<and> g = Region p \<and> t = Timezone p" for c d g t
    by (cases p) auto
  then show ?thesis
    by (auto simp: ApplyLocalized_fst) (auto simp: ApplyLocalized_def Let_def split_beta overlay_changed)
qed

lemma ApplyLocalized_normalized: "normalized p \<Longrightarrow> normalized (fst (ApplyLocalized p m))"
  by (simp add: normalized_def ApplyLocalized_fst metaFields_def overlay_safe)

subsection \<open>Properties\<close>

text \<open>C33. Every point \<open>Normalize\<close> accepts comes out in normal form: coordinates on the two-decimal grid
  and in range, all text display-safe, the key derived from the coordinates. Normalising again
  changes nothing, the coordinates move by at most half a hundredth of a degree (plus float64
  rounding), and the provenance fields are kept.\<close>

theorem Normalize_projection:
  assumes "Normalize p = Inr q"
  shows "normalized q \<and> Normalize q = Inr q \<and>
    \<bar>fval (Latitude q) - fval (Latitude p)\<bar> \<le> 5001 / 1000000 \<and>
    \<bar>fval (Longitude q) - fval (Longitude p)\<bar> \<le> 5001 / 1000000 \<and>
    Source q = Source p \<and> Provider q = Provider p \<and> Precision q = Precision p"
proof -
  have n: "normalized q" using assms by (rule Normalize_normalized)
  have lat: "finite64 (Latitude p)" "\<bar>fval (Latitude p)\<bar> \<le> of_int 90"
    and lon: "finite64 (Longitude p)" "\<bar>fval (Longitude p)\<bar> \<le> of_int 180"
    and q: "Latitude q = roundCoordinate (Latitude p)" "Longitude q = roundCoordinate (Longitude p)"
      "Source q = Source p" "Provider q = Provider p" "Precision q = Precision p"
    using assms by (auto simp: Normalize_Inr badCoordinate_iff)
  show ?thesis
    using n Normalize_fixpoint [OF n] lat lon q
      roundCoordinate_error [of "Latitude p"] roundCoordinate_error [of "Longitude p"] by simp
qed

lemma Normalize_projection_witness:
  "\<exists>q. Normalize (emptyPoint\<lparr>Latitude := Fin (1 / 8), City := '' Ulm ''\<rparr>) = Inr q \<and>
     City q = ''Ulm'' \<and> Normalize q = Inr q"
proof -
  let ?p = "emptyPoint\<lparr>Latitude := Fin (1 / 8), City := '' Ulm ''\<rparr>"
  have "TrimSpace '' Ulm '' = ''Ulm''" "TrimSpace [] = []" "displaySafe ''Ulm''" by code_simp+
  then obtain q where q: "Normalize ?p = Inr q" and c: "City q = ''Ulm''"
    by (simp add: Normalize_Inr badCoordinate_iff emptyPoint_def metaFields_def)
  from Normalize_projection [OF q] q c show ?thesis by blast
qed

text \<open>On normalised points the cache key identifies the coordinates: two points share a cache
  entry exactly when they lie on the same grid point, and then they carry the same opaque key.\<close>

theorem CacheKey_identity:
  assumes "normalized p" and "normalized q"
  shows "(CacheKey p = CacheKey q \<longleftrightarrow> Latitude p = Latitude q \<and> Longitude p = Longitude q) \<and>
    (CacheKey p \<noteq> CacheKey q \<or> Key p = Key q)"
  using CacheKey_inject [OF assms] assms by (auto simp: normalized_def)

definition gridPoint :: "int \<Rightarrow> int \<Rightarrow> Point" where
  "gridPoint a b = emptyPoint\<lparr>Latitude := gridFloat a, Longitude := gridFloat b,
     Key := locationKey (gridFloat a) (gridFloat b)\<rparr>"

lemma gridPoint_normalized: "\<bar>a\<bar> \<le> 9000 \<Longrightarrow> \<bar>b\<bar> \<le> 18000 \<Longrightarrow> normalized (gridPoint a b)"
  by (auto simp: normalized_def gridPoint_def emptyPoint_def metaFields_def)

lemma CacheKey_identity_witness:
  "CacheKey (gridPoint 101 (- 5)) \<noteq> CacheKey (gridPoint 10 1) \<and> CacheKey (gridPoint 10 1) = CacheKey (gridPoint 10 1\<lparr>City := ''x''\<rparr>)"
proof -
  have "gridFloat 101 \<noteq> gridFloat 10" by code_simp
  moreover have "normalized (gridPoint 101 (- 5))" "normalized (gridPoint 10 1)" by (simp_all add: gridPoint_normalized)
  ultimately show ?thesis
    using CacheKey_identity [of "gridPoint 101 (- 5)" "gridPoint 10 1"] by (simp add: gridPoint_def CacheKey_def)
qed

text \<open>The device headers are all or nothing. No point is produced unless latitude, longitude and
  provider are all present; then it is in normal form and marked as the device's. All blank means
  absent, some blank is the partial error, every other failure is the invalid error.\<close>

theorem FromRequest_contract:
  "let blank = map (\<lambda>h. TrimSpace (HeaderGet r h) = []) [HeaderLatitude, HeaderLongitude, HeaderProvider]
   in case FromRequest L r of
        Inr None \<Rightarrow> list_all id blank
      | Inr (Some p) \<Rightarrow> \<not> list_ex id blank \<and> normalized p \<and> Source p = ''device'' \<and>
          Provider p = TrimSpace (HeaderGet r HeaderProvider) \<and> providerPattern (Provider p)
      | Inl e \<Rightarrow> if e = ErrPartial then list_ex id blank \<and> \<not> list_all id blank
          else e = ErrInvalid \<and> \<not> list_ex id blank"
proof (cases "FromRequest L r")
  case (Inl e)
  then show ?thesis by (auto simp: FromRequest_def Let_def split: if_splits sum.splits)
next
  case (Inr opt)
  show ?thesis
  proof (cases opt)
    case None
    then have e: "FromRequest L r = Inr None" using Inr by simp
    then show ?thesis using FromRequest_absent [of L r] by (simp add: e)
  next
    case (Some p)
    have "\<not> list_ex id (map (\<lambda>h. TrimSpace (HeaderGet r h) = []) [HeaderLatitude, HeaderLongitude, HeaderProvider])"
      using Inr Some by (auto simp: FromRequest_def Let_def split: if_splits sum.splits)
    then show ?thesis using FromRequest_point [of L r p] Inr Some by simp
  qed
qed

end
