(* ===== verification/NetAddr.thy ===== *)
theory NetAddr
  imports LocationPoint
begin

section \<open>Client addresses and forwarded headers: \<open>clientip.go\<close>, \<open>cloudflare.go\<close>\<close>

text \<open>
  \<open>net/netip\<close> prefixes as bit patterns, the \<open>IPExtractor\<close> that decides which address a request comes
  from, and the \<open>Cloudflare\<close> source of visitor-location headers. Both honour a header only from a
  direct peer in a configured network; the lemmas show that for every other peer the result is the
  same whatever headers the request carries.
\<close>

subsection \<open>\<open>netip\<close>\<close>

definition Is4In6 :: "addr \<Rightarrow> bool" where
  "Is4In6 a = (case a of V4 _ \<Rightarrow> False | V6 w _ \<Rightarrow> drop_bit 32 w = 0xFFFF)"

definition Unmap :: "addr \<Rightarrow> addr" where
  "Unmap a = (case a of V4 w \<Rightarrow> V4 w | V6 w z \<Rightarrow> if Is4In6 a then V4 (ucast w) else V6 w z)"

definition Zone :: "addr \<Rightarrow> bytes" where
  "Zone a = (case a of V4 _ \<Rightarrow> [] | V6 _ z \<Rightarrow> z)"

text \<open>\<open>Prefix.Contains\<close>: the families agree, the address has no zone and the leading bits agree.\<close>

fun Contains :: "prefix4or6 \<Rightarrow> addr \<Rightarrow> bool" where
  "Contains (Prefix (V4 p) n) (V4 w) = (drop_bit (32 - n) (p XOR w) = 0)"
| "Contains (Prefix (V6 p _) n) (V6 w z) = (z = [] \<and> drop_bit (128 - n) (p XOR w) = 0)"
| "Contains _ _ = False"

lemma drop_bit_xor_0_iff:
  "drop_bit n (a XOR b) = 0 \<longleftrightarrow> drop_bit n a = drop_bit n (b :: 'a::len word)"
proof -
  have "c XOR d = 0 \<longleftrightarrow> c = d" for c d :: "'a word"
    by (metis word_bw_assocs(3) xor.right_neutral xor_self_eq)
  then show ?thesis by (simp only: drop_bit_xor)
qed

declare Contains.simps(1,2) [simp del]

lemma Contains_V4 [simp]:
  "Contains (Prefix (V4 p) n) (V4 w) \<longleftrightarrow> drop_bit (32 - n) w = drop_bit (32 - n) p"
  by (simp only: Contains.simps drop_bit_xor_0_iff) auto

lemma Contains_V6 [simp]:
  "Contains (Prefix (V6 p zp) n) (V6 w z) \<longleftrightarrow> z = [] \<and> drop_bit (128 - n) w = drop_bit (128 - n) p"
  by (simp only: Contains.simps drop_bit_xor_0_iff) auto

lemma Unmap_not_4in6 [simp]: "\<not> Is4In6 (Unmap a)"
  by (auto simp: Unmap_def Is4In6_def split: addr.split)

lemma Unmap_idem [simp]: "Unmap (Unmap a) = Unmap a"
  by (cases a) (auto simp: Unmap_def Is4In6_def)

subsection \<open>\<open>IPExtractor\<close>\<close>

record IPExtractor =
  ipHeader :: bytes
  ipNets :: "prefix4or6 list"

definition NewIPExtractor :: "bytes \<Rightarrow> prefix4or6 list \<Rightarrow> IPExtractor" where
  "NewIPExtractor header trustedNets = \<lparr>ipHeader = TrimSpace header, ipNets = trustedNets\<rparr>"

text \<open>The only error is \<open>ErrNoClientIP\<close>, so a failure is \<open>None\<close>.\<close>

definition remoteAddr :: "golib \<Rightarrow> bytes \<Rightarrow> addr option" where
  "remoteAddr L value =
     (case SplitHostPort value of
        None \<Rightarrow>
          (case ParseAddr L (TrimSet {CHR ''['', CHR '']''} value) of
             None \<Rightarrow> None | Some a \<Rightarrow> Some (Unmap a))
      | Some (host, _) \<Rightarrow>
          (case ParseAddr L (TrimSet {CHR ''['', CHR '']''} host) of
             None \<Rightarrow> None | Some a \<Rightarrow> Some (Unmap a)))"

definition trusts :: "prefix4or6 list \<Rightarrow> addr \<Rightarrow> bool" where
  "trusts nets peer \<longleftrightarrow> list_ex (\<lambda>p. Contains p peer) nets"

definition ClientIP :: "golib \<Rightarrow> IPExtractor \<Rightarrow> request \<Rightarrow> addr option" where
  "ClientIP L e r =
     (case remoteAddr L (rRemoteAddr r) of
        None \<Rightarrow> None
      | Some peer \<Rightarrow>
          if ipHeader e \<noteq> [] \<and> trusts (ipNets e) peer then
            (let values = HeaderValues r (ipHeader e)
             in if length values = 1 then
                  (let value = TrimSpace (hd values)
                   in if value \<noteq> [] \<and> \<not> ContainsAny value [CHR '','', CHR '' '', CHR 0x09] then
                        (case ParseAddr L value of
                           None \<Rightarrow> None
                         | Some address \<Rightarrow> if Zone address = [] then Some (Unmap address) else None)
                      else None)
                else None)
          else Some peer)"

lemma remoteAddr_unmapped: "remoteAddr L v = Some a \<Longrightarrow> \<not> Is4In6 a"
  by (auto simp: remoteAddr_def split: option.splits)

lemma ClientIP_unmapped: "ClientIP L e r = Some a \<Longrightarrow> \<not> Is4In6 a"
  by (auto simp: ClientIP_def Let_def dest: remoteAddr_unmapped split: option.splits if_splits)

lemma ClientIP_no_peer [step_simps]: "remoteAddr L (rRemoteAddr r) = None \<Longrightarrow> ClientIP L e r = None"
  by (simp add: ClientIP_def)

lemma ClientIP_untrusted [step_simps]:
  "remoteAddr L (rRemoteAddr r) = Some peer \<Longrightarrow> ipHeader e = [] \<or> \<not> trusts (ipNets e) peer \<Longrightarrow>
   ClientIP L e r = Some peer"
  by (auto simp: ClientIP_def)

text \<open>From a trusted peer the address is the one the header names, and only the header counts.\<close>

lemma ClientIP_trusted:
  assumes "remoteAddr L (rRemoteAddr r) = Some peer" "ipHeader e \<noteq> []" "trusts (ipNets e) peer"
  shows "ClientIP L e r = Some a \<longleftrightarrow>
    (\<exists>v b. HeaderValues r (ipHeader e) = [v] \<and> ParseAddr L (TrimSpace v) = Some b \<and>
       TrimSpace v \<noteq> [] \<and> \<not> ContainsAny (TrimSpace v) [CHR '','', CHR '' '', CHR 0x09] \<and>
       Zone b = [] \<and> a = Unmap b)"
proof (cases "HeaderValues r (ipHeader e)")
  case (Cons v vs)
  then show ?thesis
    using assms by (cases vs) (auto simp: ClientIP_def Let_def split: option.split)
qed (use assms in \<open>simp add: ClientIP_def Let_def\<close>)

subsection \<open>Cloudflare visitor-location headers\<close>

definition CloudflareHeaderLatitude :: bytes where "CloudflareHeaderLatitude = ''CF-IPLatitude''"
definition CloudflareHeaderLongitude :: bytes where "CloudflareHeaderLongitude = ''CF-IPLongitude''"
definition CloudflareHeaderCity :: bytes where "CloudflareHeaderCity = ''CF-IPCity''"
definition CloudflareHeaderRegion :: bytes where "CloudflareHeaderRegion = ''CF-Region''"
definition CloudflareHeaderCountry :: bytes where "CloudflareHeaderCountry = ''CF-IPCountry''"
definition CloudflareHeaderTimezone :: bytes where "CloudflareHeaderTimezone = ''CF-Timezone''"

lemmas cloudflare_names = CloudflareHeaderLatitude_def CloudflareHeaderLongitude_def
  CloudflareHeaderCity_def CloudflareHeaderRegion_def CloudflareHeaderCountry_def
  CloudflareHeaderTimezone_def

text \<open>\<open>Inr None\<close>: the header is absent; \<open>Inl ErrInvalid\<close>: it is repeated or blank.\<close>

definition cloudflareHeader :: "request \<Rightarrow> bytes \<Rightarrow> locErr + bytes option" where
  "cloudflareHeader r name =
     (let values = HeaderValues r name
      in if values = [] then Inr None
         else if length values \<noteq> 1 then Inl ErrInvalid
         else
           (let value = TrimSpace (hd values)
            in if value = [] then Inl ErrInvalid else Inr (Some value)))"

definition cloudflareField :: "request \<Rightarrow> bytes \<Rightarrow> locErr + bytes" where
  "cloudflareField r name =
     (case cloudflareHeader r name of
        Inl _ \<Rightarrow> Inl ErrInvalid
      | Inr None \<Rightarrow> Inr []
      | Inr (Some value) \<Rightarrow>
          (case normalizeMetadata value of Inl _ \<Rightarrow> Inl ErrInvalid | Inr v \<Rightarrow> Inr v))"

definition cloudflarePoint :: "golib \<Rightarrow> request \<Rightarrow> bytes \<Rightarrow> bytes \<Rightarrow> locErr + Point" where
  "cloudflarePoint L r latitude longitude =
     (case parseCoordinate L latitude (- 90) 90 of
        Inl _ \<Rightarrow> Inl ErrInvalid
      | Inr lat \<Rightarrow>
          (case parseCoordinate L longitude (- 180) 180 of
             Inl _ \<Rightarrow> Inl ErrInvalid
           | Inr lon \<Rightarrow>
               (case collect (cloudflareField r) [CloudflareHeaderCity, CloudflareHeaderRegion,
                       CloudflareHeaderCountry, CloudflareHeaderTimezone] of
                  Inr [city, region, country, timezone] \<Rightarrow>
                    (case Normalize (emptyPoint\<lparr>Latitude := lat, Longitude := lon, Source := ''ip'',
                             Provider := ''cloudflare'', Precision := ''coarse'', City := city,
                             Region := region, Country := country, Timezone := timezone\<rparr>) of
                       Inl _ \<Rightarrow> Inl ErrInvalid | Inr p \<Rightarrow> Inr p)
                | _ \<Rightarrow> Inl ErrInvalid)))"

definition CloudflarePoint :: "golib \<Rightarrow> prefix4or6 list \<Rightarrow> request \<Rightarrow> locErr + Point option" where
  "CloudflarePoint L nets r =
     (case remoteAddr L (rRemoteAddr r) of
        None \<Rightarrow> Inr None
      | Some peer \<Rightarrow>
          if \<not> trusts nets peer then Inr None
          else
            (case cloudflareHeader r CloudflareHeaderLatitude of
               Inl _ \<Rightarrow> Inl ErrInvalid
             | Inr latitude \<Rightarrow>
                 (case cloudflareHeader r CloudflareHeaderLongitude of
                    Inl _ \<Rightarrow> Inl ErrInvalid
                  | Inr longitude \<Rightarrow>
                      (case (latitude, longitude) of
                         (None, None) \<Rightarrow> Inr None
                       | (Some lat, Some lon) \<Rightarrow> map_sum id Some (cloudflarePoint L r lat lon)
                       | _ \<Rightarrow> Inl ErrInvalid))))"

lemma cloudflarePoint_Inl: "cloudflarePoint L r a b = Inl e \<Longrightarrow> e = ErrInvalid"
  by (auto simp: cloudflarePoint_def split: sum.splits list.splits)

lemma cloudflarePoint_Inr:
  assumes "cloudflarePoint L r a b = Inr p"
  shows "normalized p \<and> Source p = ''ip'' \<and> Provider p = ''cloudflare'' \<and> Precision p = ''coarse''"
proof -
  from assms obtain q where q: "Normalize q = Inr p" and
    s: "Source q = ''ip''" "Provider q = ''cloudflare''" "Precision q = ''coarse''"
    by (auto simp: cloudflarePoint_def split: sum.splits list.splits)
  from Normalize_normalized [OF q] q s show ?thesis by (auto simp: Normalize_Inr)
qed

lemma CloudflarePoint_Inl: "CloudflarePoint L nets r = Inl e \<Longrightarrow> e = ErrInvalid"
  by (auto simp: CloudflarePoint_def map_sum_def dest: cloudflarePoint_Inl split: option.splits if_splits sum.splits)

lemma CloudflarePoint_Some:
  "CloudflarePoint L nets r = Inr (Some p) \<Longrightarrow>
     normalized p \<and> Source p = ''ip'' \<and> Provider p = ''cloudflare'' \<and> Precision p = ''coarse''"
  by (auto simp: CloudflarePoint_def map_sum_def dest: cloudflarePoint_Inr split: option.splits if_splits sum.splits)

lemma CloudflarePoint_untrusted [step_simps]:
  "(\<And>peer. remoteAddr L (rRemoteAddr r) = Some peer \<Longrightarrow> \<not> trusts nets peer) \<Longrightarrow>
   CloudflarePoint L nets r = Inr None"
  by (auto simp: CloudflarePoint_def split: option.split)

text \<open>A country-only bundle never activates the source.\<close>

lemma CloudflarePoint_no_pair [step_simps]:
  "HeaderValues r CloudflareHeaderLatitude = [] \<Longrightarrow> HeaderValues r CloudflareHeaderLongitude = [] \<Longrightarrow>
   CloudflarePoint L nets r = Inr None"
  by (simp add: CloudflarePoint_def cloudflareHeader_def Let_def split: option.split)

subsection \<open>Properties\<close>

text \<open>C32. Header spoofing cannot influence the client address. When the direct peer is not in a
  trusted network, the result is the peer's own address whatever headers the request carries; when
  it is, the result is the single, zone-free address of the configured header or no address at
  all, never the peer's by default. IPv4-mapped addresses are always unmapped.\<close>

theorem ClientIP_spoof_proof:
  assumes "remoteAddr L (rRemoteAddr r) = Some peer"
  shows "(if ipHeader e = [] \<or> \<not> trusts (ipNets e) peer
     then \<forall>headers. ClientIP L e (r\<lparr>rHeader := headers\<rparr>) = Some peer
     else ClientIP L e r = (case HeaderValues r (ipHeader e) of
         [v] \<Rightarrow>
           (if TrimSpace v = [] \<or> ContainsAny (TrimSpace v) [CHR '','', CHR '' '', CHR 0x09] then None
            else (case ParseAddr L (TrimSpace v) of None \<Rightarrow> None
                  | Some b \<Rightarrow> if Zone b = [] then Some (Unmap b) else None))
       | _ \<Rightarrow> None)) \<and>
    (\<forall>a. ClientIP L e r = Some a \<longrightarrow> \<not> Is4In6 a)"
proof (cases "ipHeader e = [] \<or> \<not> trusts (ipNets e) peer")
  case True
  then show ?thesis
    using assms ClientIP_unmapped [of L e r] by (auto simp: ClientIP_untrusted)
next
  case False
  have "ClientIP L e r = (case HeaderValues r (ipHeader e) of
         [v] \<Rightarrow>
           (if TrimSpace v = [] \<or> ContainsAny (TrimSpace v) [CHR '','', CHR '' '', CHR 0x09] then None
            else (case ParseAddr L (TrimSpace v) of None \<Rightarrow> None
                  | Some b \<Rightarrow> if Zone b = [] then Some (Unmap b) else None))
       | _ \<Rightarrow> None)"
    using False assms by (auto simp: ClientIP_def Let_def split: list.split option.split)
  then show ?thesis
    using False ClientIP_unmapped [of L e r] by simp
qed

definition sampleLib :: golib where
  "sampleLib = emptyLib\<lparr>ParseAddr := (\<lambda>s. if s = ''8.8.8.8'' then Some (V4 0x08080808)
     else if s = ''1.2.3.4'' then Some (V4 0x01020304) else None)\<rparr>"

definition spoofedRequest :: request where
  "spoofedRequest = emptyRequest\<lparr>rRemoteAddr := ''8.8.8.8:443'', rHeader := (\<lambda>_. [''1.2.3.4''])\<rparr>"

lemma remoteAddr_sample: "remoteAddr sampleLib ''8.8.8.8:443'' = Some (V4 0x08080808)"
  by code_simp

lemma ClientIP_spoof_proof_witness:
  "ClientIP sampleLib (NewIPExtractor ''X-Real-IP'' [Prefix (V4 0x0A000000) 8]) spoofedRequest =
     Some (V4 0x08080808)"
proof -
  let ?e = "NewIPExtractor ''X-Real-IP'' [Prefix (V4 0x0A000000) 8]"
  have "remoteAddr sampleLib (rRemoteAddr spoofedRequest) = Some (V4 0x08080808)"
    using remoteAddr_sample by (simp add: spoofedRequest_def)
  moreover have "\<not> trusts (ipNets ?e) (V4 0x08080808)"
    by (simp add: trusts_def NewIPExtractor_def)
  ultimately have "\<forall>hs. ClientIP sampleLib ?e (spoofedRequest\<lparr>rHeader := hs\<rparr>) = Some (V4 0x08080808)"
    using ClientIP_spoof_proof [of sampleLib spoofedRequest "V4 0x08080808" ?e] by auto
  then have "ClientIP sampleLib ?e (spoofedRequest\<lparr>rHeader := rHeader spoofedRequest\<rparr>) = Some (V4 0x08080808)"
    by (rule spec)
  then show ?thesis by simp
qed

end
