(* ===== verification/LocationSource.thy ===== *)
theory LocationSource
  imports NetAddr
begin

section \<open>The effective request location: \<open>internal/platform/location/source.go\<close>\<close>

text \<open>
  \<open>Source.EffectivePoint\<close> chooses between the device's explicit headers, trusted Cloudflare headers
  and IP inference. The interface \<open>Resolver\<close> is a field of the record, any function from addresses;
  the locale \<open>resolver\<close> states what \<open>EffectivePoint\<close>'s callers rely on, and the GeoIP store
  provides it. The lemmas give the result on every branch.
\<close>

record Resolved =
  resolvedPoint :: Point
  AccuracyKm :: "int option"

definition emptyResolved :: Resolved where
  "emptyResolved = \<lparr>resolvedPoint = emptyPoint, AccuracyKm = None\<rparr>"

record 'e Source =
  srcExtractor :: "IPExtractor option"
  srcResolver :: "(addr \<Rightarrow> 'e + Resolved) option"
  srcCloudflare :: "prefix4or6 list option"

text \<open>A nil \<open>*Source\<close> is \<open>None\<close>.\<close>

definition Enabled :: "'e Source option \<Rightarrow> bool" where
  "Enabled s \<longleftrightarrow> (case s of None \<Rightarrow> False
     | Some src \<Rightarrow> srcResolver src \<noteq> None \<or> srcCloudflare src \<noteq> None)"

text \<open>The IP-inference tail of \<open>EffectivePoint\<close>, from the test of \<open>s.resolver\<close> on.\<close>

definition inferPoint :: "golib \<Rightarrow> 'e Source \<Rightarrow> request \<Rightarrow> locErr + Point \<times> Resolved" where
  "inferPoint L src r =
     (case srcResolver src of
        None \<Rightarrow> Inl ErrLocationUnavailable
      | Some resolve \<Rightarrow>
          (case srcExtractor src of
             None \<Rightarrow> Inl ErrLocationUnavailable
           | Some extractor \<Rightarrow>
               (case ClientIP L extractor r of
                  None \<Rightarrow> Inl ErrLocationUnavailable
                | Some ip \<Rightarrow>
                    (case resolve ip of
                       Inl _ \<Rightarrow> Inl ErrLocationUnavailable
                     | Inr res \<Rightarrow>
                         (case Normalize (resolvedPoint res) of
                            Inl _ \<Rightarrow> Inl ErrLocationUnavailable
                          | Inr p \<Rightarrow> Inr (p, res\<lparr>resolvedPoint := p\<rparr>))))))"

definition EffectivePoint :: "golib \<Rightarrow> 'e Source option \<Rightarrow> request \<Rightarrow> locErr + Point \<times> Resolved" where
  "EffectivePoint L s r =
     (case FromRequest L r of
        Inl e \<Rightarrow> Inl e
      | Inr (Some point) \<Rightarrow> Inr (point, emptyResolved)
      | Inr None \<Rightarrow>
          (if \<not> Enabled s then Inl ErrRequired
           else
             (let src = the s
              in case srcCloudflare src of
                   None \<Rightarrow> inferPoint L src r
                 | Some nets \<Rightarrow>
                     (case CloudflarePoint L nets r of
                        Inl _ \<Rightarrow> Inl ErrLocationUnavailable
                      | Inr (Some p) \<Rightarrow> Inr (p, emptyResolved)
                      | Inr None \<Rightarrow> inferPoint L src r))))"

lemma inferPoint_Inl: "inferPoint L src r = Inl e \<Longrightarrow> e = ErrLocationUnavailable"
  by (auto simp: inferPoint_def split: option.splits sum.splits)

lemma inferPoint_Inr:
  "inferPoint L src r = Inr (p, res) \<longleftrightarrow>
     (\<exists>resolve x ip res'. srcResolver src = Some resolve \<and> srcExtractor src = Some x \<and>
        ClientIP L x r = Some ip \<and> resolve ip = Inr res' \<and> Normalize (resolvedPoint res') = Inr p \<and>
        res = res'\<lparr>resolvedPoint := p\<rparr>)"
  by (auto simp: inferPoint_def split: option.splits sum.splits)

lemma inferPoint_normalized: "inferPoint L src r = Inr (p, res) \<Longrightarrow> normalized p"
  by (auto simp: inferPoint_Inr intro: Normalize_normalized)

lemma inferPoint_unresolved [step_simps]:
  "srcResolver src = None \<Longrightarrow> inferPoint L src r = Inl ErrLocationUnavailable"
  by (simp add: inferPoint_def)

lemma EffectivePoint_explicit [step_simps]:
  "FromRequest L r = Inr (Some p) \<Longrightarrow> EffectivePoint L s r = Inr (p, emptyResolved)"
  "FromRequest L r = Inl e \<Longrightarrow> EffectivePoint L s r = Inl e"
  by (simp_all add: EffectivePoint_def)

lemma EffectivePoint_absent:
  assumes "FromRequest L r = Inr None"
  shows "\<not> Enabled s \<Longrightarrow> EffectivePoint L s r = Inl ErrRequired"
    and "s = Some src \<Longrightarrow> Enabled s \<Longrightarrow> srcCloudflare src = None \<Longrightarrow>
      EffectivePoint L s r = inferPoint L src r"
    and "s = Some src \<Longrightarrow> Enabled s \<Longrightarrow> srcCloudflare src = Some nets \<Longrightarrow>
      EffectivePoint L s r = (case CloudflarePoint L nets r of
         Inl _ \<Rightarrow> Inl ErrLocationUnavailable | Inr (Some p) \<Rightarrow> Inr (p, emptyResolved)
       | Inr None \<Rightarrow> inferPoint L src r)"
  using assms by (simp_all add: EffectivePoint_def)

lemma EffectivePoint_normalized:
  "EffectivePoint L s r = Inr (p, res) \<Longrightarrow> normalized p"
  by (auto simp: EffectivePoint_def Let_def dest: FromRequest_point(1) CloudflarePoint_Some
      inferPoint_normalized split: sum.splits option.splits if_splits)

text \<open>The errors a handler has to distinguish.\<close>

lemma EffectivePoint_errors:
  "EffectivePoint L s r = Inl e \<Longrightarrow>
     (FromRequest L r = Inl e \<and> (e = ErrPartial \<or> e = ErrInvalid)) \<or>
     (FromRequest L r = Inr None \<and> (if Enabled s then e = ErrLocationUnavailable else e = ErrRequired))"
  by (auto simp: EffectivePoint_def Let_def dest: FromRequest_errors inferPoint_Inl
      split: sum.splits option.splits if_splits)

subsection \<open>The resolver contract\<close>

text \<open>
  A resolver of the server answers only for addresses it accepts and returns normalised points
  whose source is \<open>ip\<close>. Then the second \<open>Normalize\<close> in \<open>EffectivePoint\<close> never fails and changes
  nothing: what the resolver says is what the device sees.
\<close>

locale resolver =
  fixes resolve :: "addr \<Rightarrow> 'e + Resolved" and accepts :: "addr \<Rightarrow> bool"
  assumes resolve_normalized: "resolve ip = Inr res \<Longrightarrow> normalized (resolvedPoint res)"
    and resolve_source: "resolve ip = Inr res \<Longrightarrow> Source (resolvedPoint res) = ''ip''"
    and resolve_accepts: "resolve ip = Inr res \<Longrightarrow> accepts ip"
begin

lemma infer_exact:
  assumes "srcResolver src = Some resolve" "srcExtractor src = Some x"
  shows "inferPoint L src r =
    (case ClientIP L x r of
       None \<Rightarrow> Inl ErrLocationUnavailable
     | Some ip \<Rightarrow> (case resolve ip of
         Inl _ \<Rightarrow> Inl ErrLocationUnavailable | Inr res \<Rightarrow> Inr (resolvedPoint res, res)))"
proof -
  have "Normalize (resolvedPoint res) = Inr (resolvedPoint res)" if "resolve ip = Inr res" for ip res
    using resolve_normalized [OF that] by (rule Normalize_fixpoint)
  then show ?thesis
    using assms by (auto simp: inferPoint_def split: option.split sum.split)
qed

lemma infer_accepted:
  assumes "srcResolver src = Some resolve" "srcExtractor src = Some x" "inferPoint L src r = Inr (p, res)"
  shows "Source p = ''ip'' \<and> (\<exists>ip. ClientIP L x r = Some ip \<and> accepts ip)"
  using assms(3) resolve_source resolve_accepts
  unfolding infer_exact [OF assms(1,2)] by (auto split: option.splits sum.splits)

end

end
