(* ===== verification/GeoStore.thy ===== *)
theory GeoStore
  imports GeoIP
begin

section \<open>The hot-reloading database store: \<open>Store\<close> of \<open>geoip.go\<close>\<close>

text \<open>
  \<open>reloadIfChanged\<close> runs in the poll goroutine and in \<open>Start\<close>; it releases the lock between its
  check and its installation, so the model has one step for each part, with the candidate of every
  goroutine that is between the two in \<open>stInflight\<close>. \<open>Close\<close> (behind \<open>sync.Once\<close>) takes the reader
  under the lock and closes it afterwards. \<open>stOpened\<close> and \<open>stShut\<close> record which reader handles were
  ever opened and closed; they are not part of the Go state, no operation reads them.
\<close>

record Store =
  stReader :: "reader option"
  stLoaded :: fileInfo
  stPolling :: bool
  stClosed :: bool
  stClosing :: "reader option"
  stInflight :: "(nat, reader \<times> fileInfo) gomap"
  stOpened :: "nat list"
  stShut :: "nat list"

definition newStore :: Store where
  "newStore = \<lparr>stReader = None, stLoaded = \<lparr>fiIdentity = 0, fiSize = 0, fiModTime = zero_time\<rparr>,
     stPolling = False, stClosed = False, stClosing = None, stInflight = [], stOpened = [], stShut = []\<rparr>"

definition isCityDatabase :: "bytes \<Rightarrow> bool" where
  "isCityDatabase databaseType \<longleftrightarrow> sublist ''City'' databaseType"

definition fileChanged :: "Store \<Rightarrow> fileInfo \<Rightarrow> bool" where
  "fileChanged s current \<longleftrightarrow>
     stReader s = None \<or> fiIdentity current \<noteq> fiIdentity (stLoaded s) \<or>
     fiSize (stLoaded s) \<noteq> fiSize current \<or> fiModTime (stLoaded s) \<noteq> fiModTime current"

text \<open>\<open>openReader\<close> may return a reader together with its error; the code closes it.\<close>

datatype openResult = OpenError "reader option" | Opened reader

definition shut :: "reader option \<Rightarrow> Store \<Rightarrow> Store" where
  "shut rd s = (case rd of None \<Rightarrow> s | Some r \<Rightarrow> s\<lparr>stShut := rdHandle r # stShut s\<rparr>)"

text \<open>\<open>reloadIfChanged\<close> of goroutine \<open>t\<close> up to the write lock.\<close>

definition reloadOpen :: "nat \<Rightarrow> fileInfo option \<Rightarrow> openResult \<Rightarrow> Store \<Rightarrow> Store" where
  "reloadOpen t stat result s =
     (case stat of
        None \<Rightarrow> s
      | Some current \<Rightarrow>
          if \<not> fileChanged s current then s
          else
            (case result of
               OpenError None \<Rightarrow> s
             | OpenError (Some r) \<Rightarrow> shut (Some r) (s\<lparr>stOpened := rdHandle r # stOpened s\<rparr>)
             | Opened r \<Rightarrow>
                 let s = s\<lparr>stOpened := rdHandle r # stOpened s\<rparr>
                 in if \<not> isCityDatabase (rdDatabaseType r) then shut (Some r) s
                    else s\<lparr>stInflight := AList.update t (r, current) (stInflight s)\<rparr>))"

text \<open>Its second part: install the candidate, or close it when the store was closed meanwhile.\<close>

definition reloadInstall :: "nat \<Rightarrow> Store \<Rightarrow> Store" where
  "reloadInstall t s =
     (case map_of (stInflight s) t of
        None \<Rightarrow> s
      | Some (r, current) \<Rightarrow>
          let s = s\<lparr>stInflight := AList.delete t (stInflight s)\<rparr>
          in if stClosed s then shut (Some r) s
             else shut (stReader s) (s\<lparr>stReader := Some r, stLoaded := current\<rparr>))"

definition startPolling :: "Store \<Rightarrow> Store" where
  "startPolling s = (if stClosed s \<or> stPolling s then s else s\<lparr>stPolling := True\<rparr>)"

definition closeTake :: "Store \<Rightarrow> Store" where
  "closeTake s =
     (if stClosed s then s
      else s\<lparr>stClosed := True, stClosing := stReader s, stReader := None\<rparr>)"

definition closeReader :: "Store \<Rightarrow> Store" where
  "closeReader s = shut (stClosing s) (s\<lparr>stClosing := None\<rparr>)"

subsection \<open>Interleavings\<close>

text \<open>
  A reload starts in a goroutine that has none in flight, only while the store is not closed
  (\<open>Start\<close>'s guard and the poll loop), and each opened reader is a fresh handle.
\<close>

fun openHandle :: "openResult \<Rightarrow> nat option" where
  "openHandle (OpenError r) = map_option rdHandle r"
| "openHandle (Opened r) = Some (rdHandle r)"

inductive geoStep :: "Store \<Rightarrow> Store \<Rightarrow> bool" where
  reload_open: "map_of (stInflight s) t = None \<Longrightarrow>
     (\<And>h. openHandle result = Some h \<Longrightarrow> h \<notin> set (stOpened s)) \<Longrightarrow>
     geoStep s (reloadOpen t stat result s)"
| reload_install: "geoStep s (reloadInstall t s)"
| start_polling: "geoStep s (startPolling s)"
| close_take: "geoStep s (closeTake s)"
| close_reader: "geoStep s (closeReader s)"

inductive geoReachable :: "Store \<Rightarrow> bool" where
  initial: "geoReachable newStore"
| step: "geoReachable s \<Longrightarrow> geoStep s s' \<Longrightarrow> geoReachable s'"

text \<open>The handles that are open: served, in flight, or being closed.\<close>

definition handleOf :: "reader option \<Rightarrow> nat list" where
  "handleOf rd = (case rd of None \<Rightarrow> [] | Some r \<Rightarrow> [rdHandle r])"

definition liveHandles :: "Store \<Rightarrow> nat list" where
  "liveHandles s = handleOf (stReader s) @ handleOf (stClosing s) @
     map (\<lambda>p. rdHandle (fst (snd p))) (stInflight s)"

definition geoInv :: "Store \<Rightarrow> bool" where
  "geoInv s \<longleftrightarrow> distinct (stOpened s) \<and> mset (stOpened s) = mset (liveHandles s @ stShut s) \<and>
     distinct (map fst (stInflight s)) \<and>
     (stClosed s \<longrightarrow> stReader s = None) \<and> (\<not> stClosed s \<longrightarrow> stClosing s = None) \<and>
     (\<forall>r. stReader s = Some r \<longrightarrow> isCityDatabase (rdDatabaseType r)) \<and>
     list_all (\<lambda>p. isCityDatabase (rdDatabaseType (fst (snd p)))) (stInflight s)"

lemma handleOf_simps [simp]: "handleOf None = []" "handleOf (Some r) = [rdHandle r]"
  by (simp_all add: handleOf_def)

lemma shut_fields [simp]:
  "stReader (shut rd s) = stReader s" "stLoaded (shut rd s) = stLoaded s"
  "stPolling (shut rd s) = stPolling s" "stClosed (shut rd s) = stClosed s"
  "stClosing (shut rd s) = stClosing s" "stInflight (shut rd s) = stInflight s"
  "stOpened (shut rd s) = stOpened s" "stShut (shut rd s) = handleOf rd @ stShut s"
  by (simp_all add: shut_def split: option.split)

lemma shut_live [simp]: "liveHandles (shut rd s) = liveHandles s"
  by (simp add: liveHandles_def)

lemma update_new: "map_of m k = None \<Longrightarrow> AList.update k v m = m @ [(k, v)]"
  by (induction m) (auto split: if_splits)

lemma mset_delete:
  assumes "distinct (map fst m)" "map_of m k = Some v"
  shows "mset (map g m) = add_mset (g (k, v)) (mset (map g (AList.delete k m)))"
  using assms
proof (induction m)
  case (Cons p m)
  obtain a b where p: "p = (a, b)" by force
  show ?case
  proof (cases "a = k")
    case True
    with Cons.prems p have "k \<notin> fst ` set m" "b = v" by auto
    then have "AList.delete k m = m" by (simp add: delete_id)
    with True p \<open>b = v\<close> show ?thesis by simp
  qed (use Cons p in auto)
qed simp

lemma reloadOpen_inv [inv_intros]:
  assumes inv: "geoInv s" and t: "map_of (stInflight s) t = None"
    and fresh: "\<And>h. openHandle result = Some h \<Longrightarrow> h \<notin> set (stOpened s)"
  shows "geoInv (reloadOpen t stat result s)"
proof -
  have "t \<notin> fst ` set (stInflight s)" using t by (simp add: map_of_eq_None_iff)
  then show ?thesis
    using inv fresh by (auto simp: reloadOpen_def geoInv_def liveHandles_def Let_def update_new [OF t]
        split: option.split openResult.split)
qed

lemma reloadInstall_inv [inv_intros]:
  assumes inv: "geoInv s"
  shows "geoInv (reloadInstall t s)"
proof (cases "map_of (stInflight s) t")
  case None
  then show ?thesis using inv by (simp add: reloadInstall_def)
next
  case (Some p)
  obtain r current where p: "p = (r, current)" by force
  have m: "mset (map (\<lambda>p. rdHandle (fst (snd p))) (stInflight s)) =
      add_mset (rdHandle r) (mset (map (\<lambda>p. rdHandle (fst (snd p))) (AList.delete t (stInflight s))))"
    using mset_delete [where m = "stInflight s" and k = t and v = p and g = "\<lambda>p. rdHandle (fst (snd p))"]
      Some inv p by (simp add: geoInv_def)
  have "(t, p) \<in> set (stInflight s)" using Some by (rule map_of_SomeD)
  then have "isCityDatabase (rdDatabaseType r)" using inv p by (auto simp: geoInv_def list_all_iff)
  moreover have "set (AList.delete t (stInflight s)) \<subseteq> set (stInflight s)"
    by (auto simp: AList.delete_eq)
  ultimately show ?thesis
    using Some p inv m by (auto simp: reloadInstall_def geoInv_def liveHandles_def Let_def list_all_iff)
qed

lemma other_inv [inv_intros]:
  "geoInv s \<Longrightarrow> geoInv (startPolling s)"
  "geoInv s \<Longrightarrow> geoInv (closeTake s)"
  "geoInv s \<Longrightarrow> geoInv (closeReader s)"
  by (auto simp: startPolling_def closeTake_def closeReader_def geoInv_def liveHandles_def)

lemma geoStep_inv: "geoStep s s' \<Longrightarrow> geoInv s \<Longrightarrow> geoInv s'"
  by (induction rule: geoStep.induct) (auto intro: inv_intros)

lemma newStore_inv: "geoInv newStore"
  by (simp add: geoInv_def newStore_def liveHandles_def)

lemma geoReachable_inv: "geoReachable s \<Longrightarrow> geoInv s"
  by (induction rule: geoReachable.induct) (auto intro: newStore_inv geoStep_inv)

subsection \<open>Properties of the location sources\<close>

text \<open>The sources are tried in a fixed order and never downgraded. Explicit device headers decide
  alone, valid or not; without inference the answer is \<open>ErrRequired\<close>; a malformed Cloudflare bundle
  ends in \<open>ErrLocationUnavailable\<close> whatever the resolver would say; a Cloudflare point is used as
  is, and only a bundle that is absent leads to the resolver. Every point returned is in normal form.\<close>

theorem EffectivePoint_precedence:
  "(case FromRequest L r of
      Inl e \<Rightarrow> EffectivePoint L s r = Inl e
    | Inr (Some p) \<Rightarrow> EffectivePoint L s r = Inr (p, emptyResolved)
    | Inr None \<Rightarrow>
        (case s of
           None \<Rightarrow> EffectivePoint L s r = Inl ErrRequired
         | Some src \<Rightarrow>
             (case (srcResolver src, srcCloudflare src) of
                (None, None) \<Rightarrow> EffectivePoint L s r = Inl ErrRequired
              | (_, None) \<Rightarrow> EffectivePoint L s r = inferPoint L src r
              | (_, Some nets) \<Rightarrow>
                  (case CloudflarePoint L nets r of
                     Inl _ \<Rightarrow> EffectivePoint L s r = Inl ErrLocationUnavailable
                   | Inr (Some p) \<Rightarrow> EffectivePoint L s r = Inr (p, emptyResolved)
                   | Inr None \<Rightarrow> EffectivePoint L s r = inferPoint L src r)))) \<and>
   (case EffectivePoint L s r of Inl _ \<Rightarrow> True | Inr (p, _) \<Rightarrow> normalized p)"
proof -
  have "case EffectivePoint L s r of Inl _ \<Rightarrow> True | Inr (p, _) \<Rightarrow> normalized p"
    using EffectivePoint_normalized [of L s r] by (auto split: sum.split)
  then show ?thesis
    by (auto simp: EffectivePoint_def Enabled_def split: sum.split option.split)
qed

text \<open>With the GeoIP store as the resolver, what the store answers is exactly what the device
  sees: the second normalisation never fails or alters the point, and the point is attributed to
  IP inference for an address that is geolocatable.\<close>

theorem inferPoint_geoip:
  assumes "srcResolver src = Some (Resolve rd)" and "srcExtractor src = Some x"
  shows "inferPoint L src r =
      (case ClientIP L x r of
         None \<Rightarrow> Inl ErrLocationUnavailable
       | Some ip \<Rightarrow> (case Resolve rd ip of
           Inl _ \<Rightarrow> Inl ErrLocationUnavailable | Inr res \<Rightarrow> Inr (resolvedPoint res, res))) \<and>
    (case inferPoint L src r of Inl _ \<Rightarrow> True
     | Inr (p, _) \<Rightarrow> Source p = ''ip'' \<and> (\<exists>ip. ClientIP L x r = Some ip \<and> isPublic (Unmap ip)))"
proof -
  have "case inferPoint L src r of Inl _ \<Rightarrow> True
     | Inr (p, _) \<Rightarrow> Source p = ''ip'' \<and> (\<exists>ip. ClientIP L x r = Some ip \<and> isPublic (Unmap ip))"
    using geoip.infer_accepted [OF assms] by (auto split: sum.split)
  then show ?thesis using geoip.infer_exact [OF assms, of L r] by simp
qed

definition sampleGeoSource :: "geoErr Source" where
  "sampleGeoSource = \<lparr>srcExtractor = Some (NewIPExtractor [] []), srcResolver = Some (Resolve None),
     srcCloudflare = None\<rparr>"

lemma inferPoint_geoip_witness:
  "inferPoint sampleLib sampleGeoSource spoofedRequest = Inl ErrLocationUnavailable"
proof -
  have "ClientIP sampleLib (NewIPExtractor [] []) spoofedRequest = Some (V4 0x08080808)"
    using remoteAddr_sample
    by (simp add: ClientIP_def spoofedRequest_def NewIPExtractor_def trusts_def)
  moreover have "\<exists>e. Resolve None (V4 0x08080808) = Inl e"
    by (simp add: Resolve_def Is4In6_def Let_def)
  ultimately show ?thesis
    using inferPoint_geoip [of sampleGeoSource None "NewIPExtractor [] []" sampleLib spoofedRequest]
    by (auto simp: sampleGeoSource_def)
qed

text \<open>An address without a zone is geolocatable exactly when it lies in none of the reserved and
  special-purpose ranges: the code's own list and the ranges behind the \<open>netip\<close> predicates.\<close>

theorem isPublic_exact:
  assumes "Zone ip = []"
  shows "isPublic ip \<longleftrightarrow> (\<forall>p\<in>set (reservedPrefixes @ specialPrefixes). \<not> Contains p ip)"
  by (rule isPublic_iff [OF assms])

lemma isPublic_exact_witness:
  "isPublic (V4 0x08080808) \<and> \<not> isPublic (V4 0x64400001)"
  using isPublic_exact [of "V4 0x08080808"] isPublic_exact [of "V4 0x64400001"]
  by (simp add: Zone_def reservedPrefixes_def specialPrefixes_def)

text \<open>C35. Over every interleaving of polls, starts and \<open>Close\<close>: no reader handle is closed twice, the
  reader being served is open and is a City database, nothing is served after \<open>Close\<close>, and once
  no reload is in flight and \<open>Close\<close> has finished, every reader ever opened has been closed.\<close>

theorem geoip_readers_closed_once:
  assumes "geoReachable s"
  shows "distinct (stShut s) \<and> set (stShut s) \<subseteq> set (stOpened s) \<and>
    (case stReader s of None \<Rightarrow> True
     | Some r \<Rightarrow> rdHandle r \<notin> set (stShut s) \<and> isCityDatabase (rdDatabaseType r) \<and> \<not> stClosed s) \<and>
    (\<not> (stClosed s \<and> stClosing s = None \<and> stInflight s = []) \<or> set (stShut s) = set (stOpened s))"
proof -
  have inv: "geoInv s" by (rule geoReachable_inv [OF assms])
  then have m: "mset (stOpened s) = mset (liveHandles s @ stShut s)" and d: "distinct (stOpened s)"
    by (simp_all add: geoInv_def)
  have dl: "distinct (liveHandles s @ stShut s)" using m d by (metis mset_eq_imp_distinct_iff)
  have sl: "set (stOpened s) = set (liveHandles s @ stShut s)" by (rule mset_eq_setD [OF m])
  show ?thesis
    using inv dl sl by (auto simp: geoInv_def liveHandles_def split: option.split)
qed

definition cityReader :: reader where
  "cityReader = \<lparr>rdHandle = 7, rdDatabaseType = ''GeoLite2-City'', rdCity = (\<lambda>_. None)\<rparr>"

definition reloadedStore :: Store where
  "reloadedStore = reloadInstall 1 (reloadOpen 1
     (Some \<lparr>fiIdentity = 3, fiSize = 10, fiModTime = 20\<rparr>) (Opened cityReader) newStore)"

lemma geoip_readers_closed_once_witness:
  "set (stShut (closeReader (closeTake reloadedStore))) = set (stOpened (closeReader (closeTake reloadedStore))) \<and>
   stOpened (closeReader (closeTake reloadedStore)) = [7]"
proof -
  have "geoReachable (closeReader (closeTake reloadedStore))"
    unfolding reloadedStore_def
    by (intro geoReachable.step [OF _ close_reader] geoReachable.step [OF _ close_take]
        geoReachable.step [OF _ reload_install] geoReachable.step [OF _ reload_open] geoReachable.initial)
      (simp_all add: newStore_def)
  moreover have "stOpened (closeReader (closeTake reloadedStore)) = [7] \<and>
    stClosed (closeReader (closeTake reloadedStore)) \<and> stClosing (closeReader (closeTake reloadedStore)) = None \<and>
    stInflight (closeReader (closeTake reloadedStore)) = []"
    by (simp add: reloadedStore_def cityReader_def reloadOpen_def reloadInstall_def closeTake_def
        closeReader_def newStore_def fileChanged_def isCityDatabase_def Let_def)
  ultimately show ?thesis using geoip_readers_closed_once by blast
qed

end
