(* ===== verification/GeoPolling.thy ===== *)
theory GeoPolling
  imports GeoStore
begin

section \<open>The operations of the database store, whole: \<open>Start\<close>, the poll loop and \<open>Close\<close>\<close>

text \<open>
  \<open>GeoStore\<close> cuts the operations of \<open>geoip.go\<close> where they release the lock. Here they are put together
  again: one goroutine at a time, with the file system's answers as arguments. The specification only
  knows whether the store runs and which database it serves; it is what the operations implement.
\<close>

definition reloadIfChanged :: "fileInfo option \<Rightarrow> openResult \<Rightarrow> Store \<Rightarrow> Store" where
  "reloadIfChanged stat result s = reloadInstall 0 (reloadOpen 0 stat result s)"

definition startStore :: "fileInfo option \<Rightarrow> openResult \<Rightarrow> Store \<Rightarrow> Store" where
  "startStore stat result s = (if stClosed s then s else startPolling (reloadIfChanged stat result s))"

text \<open>One tick of \<open>poll\<close>, which runs from \<open>Start\<close> until \<open>Close\<close> ends it.\<close>

definition pollTick :: "fileInfo option \<Rightarrow> openResult \<Rightarrow> Store \<Rightarrow> Store" where
  "pollTick stat result s = (if stPolling s \<and> \<not> stClosed s then reloadIfChanged stat result s else s)"

text \<open>\<open>Close\<close>: what it returns, and the store; \<open>fails\<close> is whether closing a reader fails.\<close>

definition closeStore :: "bool \<Rightarrow> Store \<Rightarrow> bool \<times> Store" where
  "closeStore fails s = (fails \<and> \<not> stClosed s \<and> stReader s \<noteq> None, closeReader (closeTake s))"

datatype geoEvent =
    StartEvent "fileInfo option" openResult
  | TickEvent "fileInfo option" openResult
  | CloseEvent bool

fun geoApply :: "geoEvent \<Rightarrow> Store \<Rightarrow> Store" where
  "geoApply (StartEvent stat result) s = startStore stat result s"
| "geoApply (TickEvent stat result) s = pollTick stat result s"
| "geoApply (CloseEvent fails) s = snd (closeStore fails s)"

subsection \<open>The specification\<close>

datatype phase = Created | Polling | Ended

type_synonym served = "phase \<times> (reader \<times> fileInfo) option"

definition better :: "fileInfo option \<Rightarrow> openResult \<Rightarrow> (reader \<times> fileInfo) option \<Rightarrow> (reader \<times> fileInfo) option" where
  "better stat result db =
     (case (stat, result) of
        (Some current, Opened r) \<Rightarrow>
          if isCityDatabase (rdDatabaseType r) \<and> map_option snd db \<noteq> Some current then Some (r, current) else db
      | _ \<Rightarrow> db)"

fun specStep :: "geoEvent \<Rightarrow> served \<Rightarrow> served" where
  "specStep (StartEvent stat result) (ph, db) = (if ph = Ended then (ph, db) else (Polling, better stat result db))"
| "specStep (TickEvent stat result) (ph, db) = (ph, if ph = Polling then better stat result db else db)"
| "specStep (CloseEvent _) _ = (Ended, None)"

definition servedBy :: "Store \<Rightarrow> served" where
  "servedBy s =
     (if stClosed s then Ended else if stPolling s then Polling else Created,
      map_option (\<lambda>r. (r, stLoaded s)) (stReader s))"

text \<open>The handles that a run opens at most.\<close>

fun handlesOf :: "geoEvent \<Rightarrow> nat list" where
  "handlesOf (StartEvent _ result) = (case openHandle result of None \<Rightarrow> [] | Some h \<Rightarrow> [h])"
| "handlesOf (TickEvent _ result) = (case openHandle result of None \<Rightarrow> [] | Some h \<Rightarrow> [h])"
| "handlesOf (CloseEvent _) = []"

subsection \<open>Refinement\<close>

definition quiet :: "Store \<Rightarrow> bool" where
  "quiet s \<longleftrightarrow> geoReachable s \<and> stInflight s = [] \<and> stClosing s = None"

lemma fileChanged_iff: "fileChanged s current \<longleftrightarrow> stReader s = None \<or> stLoaded s \<noteq> current"
  by (auto simp: fileChanged_def)

lemma reload_quiet:
  assumes "quiet s" and "\<And>h. openHandle result = Some h \<Longrightarrow> h \<notin> set (stOpened s)"
  shows "quiet (reloadIfChanged stat result s)"
proof -
  have "geoReachable (reloadOpen 0 stat result s)"
    using assms by (intro geoReachable.step [OF _ reload_open]) (auto simp: quiet_def)
  then have "geoReachable (reloadIfChanged stat result s)"
    unfolding reloadIfChanged_def by (rule geoReachable.step [OF _ reload_install])
  moreover have "stInflight (reloadIfChanged stat result s) = []" "stClosing (reloadIfChanged stat result s) = None"
    using assms(1) by (auto simp: quiet_def reloadIfChanged_def reloadOpen_def reloadInstall_def Let_def split: option.splits openResult.splits)
  ultimately show ?thesis by (simp add: quiet_def)
qed

lemma reload_serves:
  assumes "quiet s" "\<not> stClosed s"
  shows "map_option (\<lambda>r. (r, stLoaded (reloadIfChanged stat result s))) (stReader (reloadIfChanged stat result s)) =
      better stat result (map_option (\<lambda>r. (r, stLoaded s)) (stReader s))"
    "stPolling (reloadIfChanged stat result s) = stPolling s" "\<not> stClosed (reloadIfChanged stat result s)"
    "set (stOpened (reloadIfChanged stat result s)) \<subseteq> set (stOpened s) \<union> (case openHandle result of None \<Rightarrow> {} | Some h \<Rightarrow> {h})"
  using assms
  by (auto simp: quiet_def reloadIfChanged_def reloadOpen_def reloadInstall_def better_def fileChanged_iff Let_def
      split: option.splits openResult.splits)

lemma closed_serves_nothing: "quiet s \<Longrightarrow> stClosed s \<Longrightarrow> stReader s = None"
  using geoReachable_inv by (auto simp: quiet_def geoInv_def)

definition carriesOut :: "geoEvent \<Rightarrow> Store \<Rightarrow> Store \<Rightarrow> bool" where
  "carriesOut e s s' \<longleftrightarrow> quiet s' \<and> servedBy s' = specStep e (servedBy s) \<and> set (stOpened s') \<subseteq> set (stOpened s) \<union> set (handlesOf e)"

lemma start_carries:
  assumes "quiet s" and "\<And>h. openHandle result = Some h \<Longrightarrow> h \<notin> set (stOpened s)"
  shows "carriesOut (StartEvent stat result) s (startStore stat result s)"
proof (cases "stClosed s")
  case True
  with assms(1) show ?thesis by (simp add: carriesOut_def startStore_def servedBy_def closed_serves_nothing)
next
  case False
  let ?t = "reloadIfChanged stat result s"
  have "quiet ?t" by (rule reload_quiet [OF assms])
  then have "quiet (startPolling ?t)"
    using geoReachable.step [OF _ start_polling] by (auto simp: quiet_def startPolling_def)
  with reload_serves [OF assms(1) False, where stat = stat and result = result] False show ?thesis
    by (auto simp: carriesOut_def startStore_def startPolling_def servedBy_def split: option.splits)
qed

lemma tick_carries:
  assumes "quiet s" and "\<And>h. openHandle result = Some h \<Longrightarrow> h \<notin> set (stOpened s)"
  shows "carriesOut (TickEvent stat result) s (pollTick stat result s)"
proof (cases "stPolling s \<and> \<not> stClosed s")
  case True
  with reload_quiet [OF assms, where stat = stat] reload_serves [OF assms(1), where stat = stat and result = result] show ?thesis
    by (auto simp: carriesOut_def pollTick_def servedBy_def split: option.splits)
next
  case False
  with assms(1) show ?thesis by (auto simp: carriesOut_def pollTick_def servedBy_def)
qed

lemma close_carries:
  assumes "quiet s" shows "carriesOut (CloseEvent fails) s (snd (closeStore fails s))"
proof -
  have "geoReachable (closeReader (closeTake s))"
    using assms by (intro geoReachable.step [OF _ close_reader] geoReachable.step [OF _ close_take]) (simp add: quiet_def)
  moreover have "stReader (closeTake s) = None" using closed_serves_nothing [OF assms] by (simp add: closeTake_def)
  ultimately show ?thesis
    using assms by (auto simp: carriesOut_def closeStore_def quiet_def servedBy_def closeReader_def closeTake_def)
qed

lemma geoApply_carries:
  assumes "quiet s" and "set (handlesOf e) \<inter> set (stOpened s) = {}"
  shows "carriesOut e s (geoApply e s)"
  using assms by (cases e) (auto intro!: start_carries tick_carries close_carries split: option.splits)

lemma geoRun_carries:
  assumes "quiet s" and "distinct (concat (map handlesOf es))" and "set (concat (map handlesOf es)) \<inter> set (stOpened s) = {}"
  shows "quiet (fold geoApply es s) \<and> servedBy (fold geoApply es s) = fold specStep es (servedBy s)"
  using assms
proof (induction es arbitrary: s)
  case (Cons e es)
  then have "carriesOut e s (geoApply e s)" by (intro geoApply_carries) auto
  then have e: "quiet (geoApply e s)" "servedBy (geoApply e s) = specStep e (servedBy s)"
    "set (stOpened (geoApply e s)) \<subseteq> set (stOpened s) \<union> set (handlesOf e)" by (simp_all add: carriesOut_def)
  have "set (concat (map handlesOf es)) \<inter> set (stOpened (geoApply e s)) = {}"
    using e(3) Cons.prems(2,3) by auto
  with Cons.IH [OF e(1)] Cons.prems(2) e(2) show ?case by simp
qed simp

text \<open>C36. What the store serves after any run of \<open>Start\<close>, polls and \<open>Close\<close>, whatever the files are:
  the database of the last file that differed from the loaded one and opened as a City database. A
  missing, broken or wrong file keeps the previous database; nothing is loaded before \<open>Start\<close> or
  after \<open>Close\<close>, from where on nothing is served. Between two operations every reader that was ever
  opened is closed, except the one being served, and \<open>Resolve\<close> answers from that one.\<close>

theorem geo_serves_latest:
  assumes "distinct (concat (map handlesOf es))"
  shows "let s = fold geoApply es newStore; spec = fold specStep es (Created, None); db = map_option fst (snd spec)
    in servedBy s = spec \<and> Resolve (stReader s) = Resolve db \<and> distinct (stShut s) \<and>
       set (stOpened s) = set (stShut s) \<union> set (handleOf db) \<and> set (stShut s) \<inter> set (handleOf db) = {}"
proof -
  define s where "s = fold geoApply es newStore"
  have "quiet newStore" by (simp add: quiet_def geoReachable.initial) (simp add: newStore_def)
  moreover have "servedBy newStore = (Created, None)" "stOpened newStore = []" by (simp_all add: servedBy_def newStore_def)
  ultimately have q: "quiet s" and served: "servedBy s = fold specStep es (Created, None)"
    using geoRun_carries [OF _ assms(1), of newStore] by (simp_all add: s_def)
  have rd: "map_option fst (snd (fold specStep es (Created, None))) = stReader s"
    unfolding served [symmetric] by (cases "stReader s") (simp_all add: servedBy_def)
  have inv: "geoInv s" using q geoReachable_inv by (simp add: quiet_def)
  have m: "mset (stOpened s) = mset (handleOf (stReader s) @ stShut s)" and d: "distinct (stOpened s)"
    using inv q by (simp_all add: geoInv_def liveHandles_def quiet_def)
  then have "distinct (handleOf (stReader s) @ stShut s)" by (metis mset_eq_imp_distinct_iff)
  with mset_eq_setD [OF m] served show ?thesis unfolding Let_def rd s_def [symmetric] by auto
qed

text \<open>Started on one database, the store keeps it when the file becomes a country database, and ends.\<close>

lemma geo_serves_latest_witness:
  "servedBy (fold geoApply
       [StartEvent (Some \<lparr>fiIdentity = 3, fiSize = 10, fiModTime = 20\<rparr>) (Opened cityReader),
        TickEvent (Some \<lparr>fiIdentity = 4, fiSize = 11, fiModTime = 30\<rparr>) (Opened (cityReader\<lparr>rdHandle := 8, rdDatabaseType := ''GeoLite2-Country''\<rparr>))]
       newStore) = (Polling, Some (cityReader, \<lparr>fiIdentity = 3, fiSize = 10, fiModTime = 20\<rparr>))"
proof -
  have city: "isCityDatabase ''GeoLite2-City''" "\<not> isCityDatabase ''GeoLite2-Country''" by code_simp+
  show ?thesis
    by (subst geo_serves_latest [unfolded Let_def, THEN conjunct1]) (simp_all add: better_def city cityReader_def)
qed

end
