(* ===== verification/Limiters.thy ===== *)
theory Limiters
  imports GoLib
begin

section \<open>Per-device token buckets: \<open>ChangeLimiter\<close> and \<open>LocalizeLimiter\<close>\<close>

text \<open>
  The two limiters of \<open>internal/platform/location\<close>, with the float64 arithmetic the code runs:
  \<open>ChangeLimiter\<close> charges one token when an authenticated device moves to another normalised
  location, \<open>LocalizeLimiter\<close> charges one token per display-name lookup and holds one of a fixed
  number of in-flight slots until \<open>release\<close> is called. The clock reading \<open>l.now()\<close> is an argument.
  The invariant keeps every bucket between 0 and the capacity; a bucket's refill is bounded by the
  elapsed time, rounding included, which bounds the number of charges over any sequence of calls.
  Both limiters provide the \<open>Retain\<close> contract stated by the locale \<open>retainable\<close>.
\<close>

subsection \<open>Bucket arithmetic\<close>

text \<open>\<open>math.Min(l.capacity, bucket.tokens+float64(elapsed)/float64(l.interval))\<close>\<close>

definition refill :: "float64 \<Rightarrow> duration \<Rightarrow> float64 \<Rightarrow> duration \<Rightarrow> float64" where
  "refill capacity interval tok elapsed =
     mathMin capacity (fadd tok (fdiv (ofInt64 elapsed) (ofInt64 interval)))"

lemma ofInt64_nonneg: "0 \<le> e \<Longrightarrow> e < 2 ^ 63 \<Longrightarrow> ofInt64 e = Fin (fl (of_int e))"
proof -
  assume e: "0 \<le> e" "e < 2 ^ 63"
  then have "(of_int e :: rat) < of_int (2 ^ 63)" by (simp only: of_int_less_iff)
  then have "\<bar>of_int e :: rat\<bar> \<le> 2 ^ 200" using e(1) by simp
  then have "of_int e \<le> dblHalf" using dblHalf_ge [of "of_int e"] by linarith
  then show ?thesis using e(1) by (simp add: ofInt64_def mkFloat_nonneg)
qed

lemma fl_int_bounds:
  assumes "1 \<le> e" "e < 2 ^ 63"
  shows "1 \<le> fl (of_int e)" and "fl (of_int e) \<le> of_int e * (1 + 1 / 2 ^ 53)"
    and "fl (of_int e) \<le> 2 ^ 63"
proof -
  have "fl (of_int 1) \<le> fl (of_int e)" by (rule fl_mono) (use assms in simp)
  then show "1 \<le> fl (of_int e)" using fl_of_int [of 1] by simp
  have "pw (- 1022) \<le> pw 0" by (rule pw_mono) simp
  then have "pw (- 1022) \<le> \<bar>of_int e\<bar>" using assms(1) by simp
  then have "\<bar>fl (of_int e) - of_int e\<bar> \<le> \<bar>of_int e\<bar> / 2 ^ 53" by (rule fl_rel_error)
  moreover have "\<bar>of_int e :: rat\<bar> = of_int e" using assms(1) by simp
  ultimately show "fl (of_int e) \<le> of_int e * (1 + 1 / 2 ^ 53)"
    by (simp only: distrib_left mult_1_right times_divide_eq_right)
  have "(of_int e :: rat) \<le> of_int (2 ^ 63)" using assms(2) by (simp only: of_int_le_iff)
  then have "fl (of_int e) \<le> fl (pw 63)" by (intro fl_mono) simp
  also have "\<dots> = pw 63" by (rule fl_pw) simp
  finally show "fl (of_int e) \<le> 2 ^ 63" by simp
qed

lemma refill_Fin:
  assumes "0 \<le> t" "t \<le> c" "c \<le> 2 ^ 63" "0 < i" "i < 2 ^ 63" "0 < e" "e < 2 ^ 63"
  shows "refill (Fin c) i (Fin t) e =
    Fin (min c (fl (t + fl (fl (of_int e) / fl (of_int i)))))"
proof -
  let ?q = "fl (of_int e) / fl (of_int i)"
  have e: "1 \<le> fl (of_int e)" "fl (of_int e) \<le> 2 ^ 63" and i: "1 \<le> fl (of_int i)"
    using fl_int_bounds [of e] fl_int_bounds [of i] assms by simp_all
  have q0: "0 \<le> ?q" using e i by simp
  have "?q \<le> fl (of_int e) / 1" using e i by (intro divide_left_mono) auto
  then have q1: "?q \<le> 2 ^ 63" using e by simp
  have "(2 :: rat) ^ 63 \<le> 2 ^ 200" by simp
  with q1 have q2: "?q \<le> dblHalf" using dblHalf_ge [of ?q] abs_of_nonneg [OF q0] by linarith
  have "fl ?q \<le> fl (pw 63)" by (rule fl_mono) (use q1 in simp)
  then have f1: "fl ?q \<le> 2 ^ 63" using fl_pw [of 63] by simp
  have f0: "0 \<le> fl ?q" using q0 by (rule dbl.rnd_nonneg)
  have s: "t + fl ?q \<le> dblHalf" "0 \<le> t + fl ?q"
    using dblHalf_ge [of "t + fl ?q"] assms(1-3) f0 f1 by auto
  have n: "\<not> fl (of_int e) < 0" "\<not> fl (of_int i) < 0" "fl (of_int i) \<noteq> 0" using e i by auto
  have "fdiv (ofInt64 e) (ofInt64 i) = Fin (fl ?q)"
    using assms n q0 q2 by (simp add: ofInt64_nonneg neg_def fval_def mkFloat_nonneg)
  moreover have "fadd (Fin t) (Fin (fl ?q)) = Fin (fl (t + fl ?q))"
    using assms(1) f0 s by (simp add: neg_def fval_def mkFloat_nonneg)
  ultimately show ?thesis
    by (simp add: refill_def mathMin_def min_def fval_def not_less)
qed

text \<open>Taking one token: \<open>bucket.tokens--\<close>.\<close>

definition takeToken :: "float64 \<Rightarrow> float64" where
  "takeToken tok = fsub tok (Fin 1)"

lemma takeToken_Fin:
  assumes "1 \<le> t" "t \<le> 2 ^ 63"
  shows "takeToken (Fin t) = Fin (fl (t - 1))"
proof -
  have "t - 1 \<le> dblHalf" using dblHalf_ge [of "t - 1"] assms by simp
  then show ?thesis
    using assms by (simp add: takeToken_def fsub_def fneg_def neg_def fval_def mkFloat_nonneg)
qed

subsection \<open>ChangeLimiter\<close>

record deviceBucket =
  tokens :: float64
  updated :: time
  scope :: bytes

record ChangeLimiter =
  clCapacity :: float64
  clInterval :: duration
  clDevices :: "(bytes, deviceBucket) gomap"

definition NewChangeLimiter :: "int \<Rightarrow> duration \<Rightarrow> ChangeLimiter" where
  "NewChangeLimiter capacity interval =
     \<lparr>clCapacity = ofInt64 capacity, clInterval = interval, clDevices = []\<rparr>"

definition refillBucket :: "ChangeLimiter \<Rightarrow> time \<Rightarrow> deviceBucket \<Rightarrow> deviceBucket" where
  "refillBucket l now b =
     (let elapsed = time_sub now (updated b)
      in if 0 < elapsed
         then b\<lparr>tokens := refill (clCapacity l) (clInterval l) (tokens b) elapsed, updated := now\<rparr>
         else b)"

definition Allow :: "ChangeLimiter \<Rightarrow> time \<Rightarrow> bytes \<Rightarrow> bytes \<Rightarrow> (bool \<times> duration) \<times> ChangeLimiter" where
  "Allow l now deviceID sc =
     (case map_of (clDevices l) deviceID of
        None \<Rightarrow>
          ((True, 0), l\<lparr>clDevices := AList.update deviceID
             \<lparr>tokens = clCapacity l, updated = now, scope = sc\<rparr> (clDevices l)\<rparr>)
      | Some bucket \<Rightarrow>
          if scope bucket = sc then ((True, 0), l)
          else
            (let b = refillBucket l now bucket
             in if flt (tokens b) (Fin 1) then
                  (let missing = fsub (Fin 1) (tokens b)
                   in ((False, toInt64 (mathCeil (fmul missing (ofInt64 (clInterval l))))),
                       l\<lparr>clDevices := AList.update deviceID b (clDevices l)\<rparr>))
                else
                  ((True, 0), l\<lparr>clDevices := AList.update deviceID
                     (b\<lparr>tokens := takeToken (tokens b), scope := sc\<rparr>) (clDevices l)\<rparr>)))"

definition ChangeLimiter_Retain :: "bytes list \<Rightarrow> ChangeLimiter \<Rightarrow> ChangeLimiter" where
  "ChangeLimiter_Retain deviceIDs l =
     l\<lparr>clDevices := filter (\<lambda>p. fst p \<in> set deviceIDs) (clDevices l)\<rparr>"

subsection \<open>LocalizeLimiter\<close>

text \<open>
  \<open>slots\<close> is a buffered channel used as a counting semaphore; \<open>llHeld\<close> lists the handles (one per
  successful \<open>Try\<close>) whose \<open>release\<close> has not run yet, so \<open>length llHeld\<close> is the number of elements in
  the channel. \<open>sync.Once\<close> makes a second \<open>release\<close> of the same handle a no-op.
\<close>

record localizeBucket =
  lbTokens :: float64
  lbUpdated :: time

record LocalizeLimiter =
  llCapacity :: float64
  llInterval :: duration
  llConcurrency :: nat
  llHeld :: "nat list"
  llNext :: nat
  llDevices :: "(bytes, localizeBucket) gomap"

text \<open>\<open>NewLocalizeLimiter\<close> panics on an unusable configuration: \<open>None\<close>.\<close>

definition NewLocalizeLimiter :: "int \<Rightarrow> duration \<Rightarrow> int \<Rightarrow> LocalizeLimiter option" where
  "NewLocalizeLimiter capacity interval concurrency =
     (if capacity < 1 \<or> concurrency < 1 \<or> interval \<le> 0 then None
      else Some \<lparr>llCapacity = ofInt64 capacity, llInterval = interval,
                 llConcurrency = nat concurrency, llHeld = [], llNext = 0, llDevices = []\<rparr>)"

definition refillLocalize :: "LocalizeLimiter \<Rightarrow> time \<Rightarrow> localizeBucket \<Rightarrow> localizeBucket" where
  "refillLocalize l now b =
     (let elapsed = time_sub now (lbUpdated b)
      in if 0 < elapsed
         then b\<lparr>lbTokens := refill (llCapacity l) (llInterval l) (lbTokens b) elapsed, lbUpdated := now\<rparr>
         else b)"

definition Try :: "LocalizeLimiter \<Rightarrow> time \<Rightarrow> bytes \<Rightarrow> nat option \<times> LocalizeLimiter" where
  "Try l now deviceID =
     (if llConcurrency l \<le> length (llHeld l) then (None, l)
      else
        (let bucket = (case map_of (llDevices l) deviceID of
                         None \<Rightarrow> \<lparr>lbTokens = llCapacity l, lbUpdated = now\<rparr> | Some b \<Rightarrow> b);
             b = refillLocalize l now bucket
         in if flt (lbTokens b) (Fin 1)
            then (None, l\<lparr>llDevices := AList.update deviceID b (llDevices l)\<rparr>)
            else (Some (llNext l),
                  l\<lparr>llHeld := llNext l # llHeld l, llNext := Suc (llNext l),
                    llDevices := AList.update deviceID (b\<lparr>lbTokens := takeToken (lbTokens b)\<rparr>)
                      (llDevices l)\<rparr>)))"

definition release :: "nat \<Rightarrow> LocalizeLimiter \<Rightarrow> LocalizeLimiter" where
  "release h l = l\<lparr>llHeld := filter (\<lambda>x. x \<noteq> h) (llHeld l)\<rparr>"

definition LocalizeLimiter_Retain :: "bytes list \<Rightarrow> LocalizeLimiter \<Rightarrow> LocalizeLimiter" where
  "LocalizeLimiter_Retain deviceIDs l =
     l\<lparr>llDevices := filter (\<lambda>p. fst p \<in> set deviceIDs) (llDevices l)\<rparr>"

subsection \<open>Invariants\<close>

text \<open>The tokens of a bucket are a number between 0 and the (small, integral) capacity.\<close>

definition tokensOK :: "int \<Rightarrow> float64 \<Rightarrow> bool" where
  "tokensOK c tok \<longleftrightarrow> (case tok of Fin t \<Rightarrow> 0 \<le> t \<and> t \<le> of_int c | _ \<Rightarrow> False)"

definition limitsOK :: "int \<Rightarrow> duration \<Rightarrow> bool" where
  "limitsOK c i \<longleftrightarrow> 1 \<le> c \<and> c < 2 ^ 31 \<and> 0 < i \<and> i < 2 ^ 53 \<and> c * i < 2 ^ 46"

definition ChangeLimiter_inv :: "int \<Rightarrow> ChangeLimiter \<Rightarrow> bool" where
  "ChangeLimiter_inv c l \<longleftrightarrow> limitsOK c (clInterval l) \<and> clCapacity l = Fin (of_int c) \<and>
     distinct (map fst (clDevices l)) \<and> list_all (\<lambda>p. tokensOK c (tokens (snd p))) (clDevices l)"

definition LocalizeLimiter_inv :: "int \<Rightarrow> LocalizeLimiter \<Rightarrow> bool" where
  "LocalizeLimiter_inv c l \<longleftrightarrow> limitsOK c (llInterval l) \<and> llCapacity l = Fin (of_int c) \<and>
     distinct (map fst (llDevices l)) \<and> list_all (\<lambda>p. tokensOK c (lbTokens (snd p))) (llDevices l) \<and>
     distinct (llHeld l) \<and> list_all (\<lambda>h. h < llNext l) (llHeld l) \<and>
     length (llHeld l) \<le> llConcurrency l"

lemma tokensOK_E: "tokensOK c tok \<Longrightarrow> \<exists>t. tok = Fin t \<and> 0 \<le> t \<and> t \<le> of_int c"
  by (cases tok) (auto simp: tokensOK_def)

lemma small_int: "limitsOK c i \<Longrightarrow> (of_int c :: rat) \<le> 2 ^ 31"
proof -
  assume "limitsOK c i"
  then have "c \<le> 2 ^ 31" by (simp add: limitsOK_def)
  then have "(of_int c :: rat) \<le> of_int (2 ^ 31)" by (simp only: of_int_le_iff)
  then show ?thesis by simp
qed

lemma refill_ok:
  assumes "tokensOK c tok" "limitsOK c i" "0 < e" "e < 2 ^ 63"
  shows "tokensOK c (refill (Fin (of_int c)) i tok e)"
proof -
  from assms(1) obtain t where t: "tok = Fin t" "0 \<le> t" "t \<le> of_int c" by (auto dest: tokensOK_E)
  let ?q = "fl (fl (of_int e) / fl (of_int i))"
  have "1 \<le> fl (of_int e)" "1 \<le> fl (of_int i)"
    using fl_int_bounds(1) [of e] fl_int_bounds(1) [of i] assms by (simp_all add: limitsOK_def)
  then have "0 \<le> ?q" by (simp add: dbl.rnd_nonneg)
  then have "0 \<le> min (of_int c) (fl (t + ?q))" using t by (intro dbl.refill_range) auto
  moreover have "refill (Fin (of_int c)) i (Fin t) e = Fin (min (of_int c) (fl (t + ?q)))"
    using t assms small_int [OF assms(2)] by (intro refill_Fin) (auto simp: limitsOK_def)
  ultimately show ?thesis by (simp add: t tokensOK_def)
qed

lemma takeToken_ok:
  assumes "tokensOK c tok" "limitsOK c i" "\<not> flt tok (Fin 1)"
  shows "tokensOK c (takeToken tok)" and "fval (takeToken tok) = fl (fval tok - 1)"
proof -
  from assms(1) obtain t where t: "tok = Fin t" "0 \<le> t" "t \<le> of_int c" by (auto dest: tokensOK_E)
  with assms(3) have t1: "1 \<le> t" by (simp add: fval_def)
  have "\<bar>c\<bar> < 2 ^ 53" using assms(2) by (simp add: limitsOK_def)
  with t t1 have "0 \<le> fl (t - 1)" "fl (t - 1) \<le> of_int (c - 1)" by (blast intro: dbl.take_range)+
  moreover have e: "takeToken (Fin t) = Fin (fl (t - 1))"
    using t t1 small_int [OF assms(2)] by (intro takeToken_Fin) auto
  ultimately show "tokensOK c (takeToken tok)" by (simp add: t tokensOK_def)
  show "fval (takeToken tok) = fl (fval tok - 1)" by (simp add: t e fval_def)
qed

lemma full_ok: "limitsOK c i \<Longrightarrow> tokensOK c (Fin (of_int c))"
  by (simp add: tokensOK_def limitsOK_def)

lemma time_sub_lt: "time_sub a b < 2 ^ 63"
  by (simp add: time_sub_def)

lemma refill_elapsed_ok:
  assumes "tokensOK c tok" "limitsOK c i" "0 < time_sub now t"
  shows "tokensOK c (refill (Fin (of_int c)) i tok (time_sub now t))"
  using assms by (intro refill_ok time_sub_lt)

lemma list_all_update:
  "list_all (\<lambda>p. P (snd p)) m \<Longrightarrow> P v \<Longrightarrow> list_all (\<lambda>p. P (snd p)) (AList.update k v m)"
  by (induction m) auto

lemma list_all_lookup: "list_all (\<lambda>p. P (snd p)) m \<Longrightarrow> map_of m k = Some v \<Longrightarrow> P v"
  by (induction m) (auto split: if_splits)

lemma refillBucket_ok:
  assumes "ChangeLimiter_inv c l" "tokensOK c (tokens b)"
  shows "tokensOK c (tokens (refillBucket l now b))"
  using assms by (simp add: refillBucket_def ChangeLimiter_inv_def Let_def refill_elapsed_ok)

lemma refillLocalize_ok:
  assumes "LocalizeLimiter_inv c l" "tokensOK c (lbTokens b)"
  shows "tokensOK c (lbTokens (refillLocalize l now b))"
  using assms by (simp add: refillLocalize_def LocalizeLimiter_inv_def Let_def refill_elapsed_ok)

lemma NewChangeLimiter_inv [inv_intros]:
  "limitsOK c i \<Longrightarrow> ChangeLimiter_inv c (NewChangeLimiter c i)"
  using ofInt64_nonneg [of c] fl_of_int [of c]
  by (auto simp: ChangeLimiter_inv_def NewChangeLimiter_def limitsOK_def)

lemma NewLocalizeLimiter_inv [inv_intros]:
  "limitsOK c i \<Longrightarrow> NewLocalizeLimiter c i k = Some l \<Longrightarrow> LocalizeLimiter_inv c l"
  using ofInt64_nonneg [of c] fl_of_int [of c]
  by (auto simp: LocalizeLimiter_inv_def NewLocalizeLimiter_def limitsOK_def split: if_splits)

lemma Allow_inv [inv_intros]:
  assumes inv: "ChangeLimiter_inv c l"
  shows "ChangeLimiter_inv c (snd (Allow l now d sc))"
proof (cases "map_of (clDevices l) d")
  case None
  with inv full_ok show ?thesis
    by (auto simp: Allow_def ChangeLimiter_inv_def intro!: list_all_update)
next
  case (Some b)
  from inv have "list_all (\<lambda>p. tokensOK c (tokens (snd p))) (clDevices l)"
    by (simp add: ChangeLimiter_inv_def)
  then have "tokensOK c (tokens b)" using Some by (rule list_all_lookup)
  then have ok: "tokensOK c (tokens (refillBucket l now b))" by (rule refillBucket_ok [OF inv])
  from inv have lim: "limitsOK c (clInterval l)" by (simp add: ChangeLimiter_inv_def)
  from Some inv ok takeToken_ok(1) [OF ok lim] show ?thesis
    by (auto simp: Allow_def ChangeLimiter_inv_def Let_def intro!: list_all_update)
qed

lemma Try_inv [inv_intros]:
  assumes inv: "LocalizeLimiter_inv c l"
  shows "LocalizeLimiter_inv c (snd (Try l now d))"
proof -
  let ?b0 = "case map_of (llDevices l) d of
      None \<Rightarrow> \<lparr>lbTokens = llCapacity l, lbUpdated = now\<rparr> | Some b \<Rightarrow> b"
  from inv have lim: "limitsOK c (llInterval l)" by (simp add: LocalizeLimiter_inv_def)
  from inv have all: "list_all (\<lambda>p. tokensOK c (lbTokens (snd p))) (llDevices l)"
    and cap: "llCapacity l = Fin (of_int c)" by (simp_all add: LocalizeLimiter_inv_def)
  have "tokensOK c (lbTokens ?b0)"
    by (cases "map_of (llDevices l) d") (simp_all add: cap full_ok [OF lim] list_all_lookup [OF all])
  then have ok: "tokensOK c (lbTokens (refillLocalize l now ?b0))" by (rule refillLocalize_ok [OF inv])
  from inv have fresh: "llNext l \<notin> set (llHeld l)" and held: "list_all (\<lambda>h. h < Suc (llNext l)) (llHeld l)"
    by (auto simp: LocalizeLimiter_inv_def list_all_iff)
  from inv ok takeToken_ok(1) [OF ok lim] fresh held show ?thesis
    by (auto simp: Try_def LocalizeLimiter_inv_def Let_def simp del: option.case_eq_if
        intro!: list_all_update)
qed

lemma release_inv [inv_intros]: "LocalizeLimiter_inv c l \<Longrightarrow> LocalizeLimiter_inv c (release h l)"
  by (auto simp: release_def LocalizeLimiter_inv_def list_all_iff intro: order_trans [OF length_filter_le])

lemma ChangeLimiter_Retain_inv [inv_intros]:
  "ChangeLimiter_inv c l \<Longrightarrow> ChangeLimiter_inv c (ChangeLimiter_Retain ids l)"
  by (auto simp: ChangeLimiter_Retain_def ChangeLimiter_inv_def list_all_iff distinct_map_filter)

lemma LocalizeLimiter_Retain_inv [inv_intros]:
  "LocalizeLimiter_inv c l \<Longrightarrow> LocalizeLimiter_inv c (LocalizeLimiter_Retain ids l)"
  by (auto simp: LocalizeLimiter_Retain_def LocalizeLimiter_inv_def list_all_iff distinct_map_filter)

subsection \<open>What a refill and a charge do to the budget, rounding included\<close>

lemma fl_upper:
  assumes "0 \<le> x" "x \<le> 2 ^ 46"
  shows "fl x \<le> x + 1 / 100"
proof (cases "pw (- 1022) \<le> x")
  case True
  with assms have "\<bar>fl x - x\<bar> \<le> x / 2 ^ 53" using fl_rel_error [of x] by simp
  then have "fl x - x \<le> x / 2 ^ 53" by (simp only: abs_le_iff)
  moreover have "x / 2 ^ 53 \<le> 2 ^ 46 / 2 ^ 53" using assms by (intro divide_right_mono) auto
  moreover have "(2 ^ 46 / 2 ^ 53 :: rat) \<le> 1 / 100" by simp
  ultimately show ?thesis by linarith
next
  case False
  then have "fl x \<le> fl (pw (- 1022))" by (intro fl_mono) simp
  also have "\<dots> = pw (- 1022)" by (rule fl_pw) simp
  also have "\<dots> \<le> pw (- 7)" by (rule pw_mono) simp
  also have "\<dots> = 1 / 128" by (simp add: power_int_minus)
  finally show ?thesis using assms(1) by linarith
qed

lemma fl_rel_upper:
  assumes "pw (- 1022) \<le> x"
  shows "fl x \<le> x + x / 2 ^ 53"
proof -
  have "0 < x" using assms pw_pos [of "- 1022"] by linarith
  then have "\<bar>fl x - x\<bar> \<le> x / 2 ^ 53" using fl_rel_error [of x] assms by simp
  then show ?thesis by (simp only: abs_le_iff) linarith
qed

lemma slack: "d \<le> t + a \<Longrightarrow> a \<le> r * (1 + 1 / 1000) \<Longrightarrow> 0 \<le> r \<Longrightarrow> d \<le> t + 101 / 100 * (r :: rat)"
  by (simp add: distrib_left)

lemma slack128: "d - 1 / 128 * r \<le> t + a \<Longrightarrow> a \<le> r * (1 + 1 / 1000) \<Longrightarrow> 0 \<le> r \<Longrightarrow>
    d \<le> t + 101 / 100 * (r :: rat)"
  by (simp add: distrib_left)

lemma refill_gain:
  assumes t: "0 \<le> t" "t \<le> of_int c" and lim: "limitsOK c i" and e: "0 < e" "e < 2 ^ 63"
  shows "fval (refill (Fin (of_int c)) i (Fin t) e) \<le> t + 101 / 100 * (of_int e / of_int i)"
proof -
  let ?x = "fl (of_int e) / of_int i" and ?r = "of_int e / of_int i :: rat"
  have i0: "0 < i" and i1: "i < 2 ^ 53" using lim by (simp_all add: limitsOK_def)
  have fi: "fl (of_int i) = of_int i" using i0 i1 by (intro fl_of_int) simp
  have f: "1 \<le> fl (of_int e)" "fl (of_int e) \<le> of_int e * (1 + 1 / 2 ^ 53)"
    using fl_int_bounds [of e] e by auto
  have eq: "refill (Fin (of_int c)) i (Fin t) e =
      Fin (min (of_int c) (fl (t + fl ?x)))"
    using refill_Fin [of t "of_int c" i e] t lim e small_int [OF lim] by (simp add: fi limitsOK_def)
  have tiny: "pw (- 1022) \<le> 1 / of_int i"
  proof -
    have "(of_int i :: rat) \<le> of_int (2 ^ 53)" using i1 by (simp only: of_int_le_iff)
    then have "1 / (2 ^ 53 :: rat) \<le> 1 / of_int i" using i0 by (intro divide_left_mono) auto
    moreover have "pw (- 1022) \<le> pw (- 53)" by (rule pw_mono) simp
    moreover have "pw (- 53) = 1 / 2 ^ 53" by (simp add: power_int_minus)
    ultimately show ?thesis by linarith
  qed
  have x1: "1 / of_int i \<le> ?x" using f i0 by (intro divide_right_mono) auto
  have x2: "?x \<le> ?r * (1 + 1 / 2 ^ 53)"
    using divide_right_mono [OF f(2), of "of_int i"] i0 by simp
  have "fl ?x \<le> ?x + ?x / 2 ^ 53" by (rule fl_rel_upper) (use tiny x1 in linarith)
  then have "fl ?x \<le> ?x * (1 + 1 / 2 ^ 53)" by (simp add: distrib_left)
  also have "\<dots> \<le> ?r * (1 + 1 / 2 ^ 53) * (1 + 1 / 2 ^ 53)" by (rule mult_right_mono [OF x2]) simp
  also have "\<dots> \<le> ?r * (1 + 1 / 1000)"
  proof -
    have "0 \<le> ?r" using e i0 by simp
    then have "?r * ((1 + 1 / 2 ^ 53) * (1 + 1 / 2 ^ 53)) \<le> ?r * (1 + 1 / 1000)"
      by (intro mult_left_mono) auto
    then show ?thesis by (simp only: mult.assoc)
  qed
  finally have q: "fl ?x \<le> ?r * (1 + 1 / 1000)" .
  have q0: "0 \<le> fl ?x" using e i0 by (intro dbl.rnd_nonneg divide_nonneg_nonneg) auto
  have r1: "1 / of_int i \<le> ?r" using e i0 by (intro divide_right_mono) auto
  have r0: "0 \<le> ?r" using e i0 by simp
  show ?thesis
  proof (cases "of_int c \<le> t + fl ?x")
    case True
    then have "of_int c \<le> t + 101 / 100 * ?r" using q r0 by (rule slack)
    then show ?thesis unfolding eq by (simp add: fval_def min.coboundedI1)
  next
    case False
    have s: "fl (t + fl ?x) \<le> (t + fl ?x) + (t + fl ?x) / 2 ^ 53"
    proof (rule fl_rel_upper)
      have "fl (1 / of_int i) \<le> fl ?x" by (rule fl_mono [OF x1])
      moreover have "pw (- 1022) \<le> fl (1 / of_int i)"
        using fl_mono [OF tiny] fl_pw [of "- 1022"] by simp
      ultimately show "pw (- 1022) \<le> t + fl ?x" using t(1) by linarith
    qed
    have "(t + fl ?x) / 2 ^ 53 \<le> of_int c / 2 ^ 53" using False by (intro divide_right_mono) auto
    also have "\<dots> \<le> 1 / 128 / of_int i"
    proof -
      have "of_int (c * i) \<le> (of_int (2 ^ 46) :: rat)"
        using lim by (simp only: of_int_le_iff) (simp add: limitsOK_def)
      then show ?thesis using i0 by (simp add: field_simps)
    qed
    also have "\<dots> \<le> 1 / 128 * ?r" using r1 by simp
    finally have "fl (t + fl ?x) \<le> t + fl ?x + 1 / 128 * ?r" using s by linarith
    then have "fl (t + fl ?x) - 1 / 128 * ?r \<le> t + fl ?x" by linarith
    then have "fl (t + fl ?x) \<le> t + 101 / 100 * ?r" using q r0 by (rule slack128)
    then show ?thesis unfolding eq by (simp add: fval_def min.coboundedI2)
  qed
qed

lemma takeToken_cost:
  assumes "tokensOK c tok" "limitsOK c i" "\<not> flt tok (Fin 1)"
  shows "fval (takeToken tok) \<le> fval tok - 99 / 100"
proof -
  from assms(1) obtain t where t: "tok = Fin t" "0 \<le> t" "t \<le> of_int c" by (auto dest: tokensOK_E)
  with assms(3) have "1 \<le> t" by (simp add: fval_def)
  moreover have "t - 1 \<le> 2 ^ 46" using t small_int [OF assms(2)] by simp
  ultimately have "fl (t - 1) \<le> t - 1 + 1 / 100" by (intro fl_upper) auto
  then show ?thesis using takeToken_ok(2) [OF assms] t by (simp add: fval_def)
qed

subsection \<open>Decisions\<close>

lemma ofInt64_interval: "limitsOK c i \<Longrightarrow> ofInt64 i = Fin (of_int i)"
  using ofInt64_nonneg [of i] fl_of_int [of i] by (simp add: limitsOK_def)

lemma delay_range:
  assumes tok: "tokensOK c tok" and lim: "limitsOK c i" and low: "flt tok (Fin 1)"
  shows "0 \<le> toInt64 (mathCeil (fmul (fsub (Fin 1) tok) (ofInt64 i)))"
    and "toInt64 (mathCeil (fmul (fsub (Fin 1) tok) (ofInt64 i))) \<le> i"
proof -
  from tok obtain t where t: "tok = Fin t" "0 \<le> t" by (auto dest: tokensOK_E)
  with low have t1: "t < 1" by (simp add: fval_def)
  have i: "0 < i" "i < 2 ^ 53" using lim by (simp_all add: limitsOK_def)
  then have fi: "fl (of_int i) = of_int i" by (intro fl_of_int) simp
  have m: "0 \<le> fl (1 - t)" "fl (1 - t) \<le> 1"
    using dbl.rnd_nonneg [of "1 - t"] fl_mono [of "1 - t" 1] fl_of_int [of 1] t t1 by simp_all
  have h: "1 - t \<le> dblHalf" using dblHalf_ge [of "1 - t"] t t1 by simp
  let ?p = "fl (1 - t) * of_int i"
  have p: "0 \<le> ?p" "?p \<le> of_int i" using m i by (simp_all add: mult_left_le_one_le)
  have "(of_int i :: rat) \<le> of_int (2 ^ 53)" using i by (simp only: of_int_le_iff)
  then have ph: "?p \<le> dblHalf" using dblHalf_ge [of ?p] p by simp
  have f: "0 \<le> fl ?p" "fl ?p \<le> of_int i"
    using dbl.rnd_nonneg [OF p(1)] fl_mono [OF p(2)] by (simp_all add: fi)
  have sub: "fsub (Fin 1) tok = Fin (fl (1 - t))"
    using t t1 h by (simp add: fsub_def fneg_def neg_def fval_def mkFloat_nonneg)
  have "fmul (Fin (fl (1 - t))) (Fin (of_int i)) = Fin (fl ?p)"
    using m i p ph by (simp add: neg_def fval_def mkFloat_nonneg not_less)
  then have e: "toInt64 (mathCeil (fmul (fsub (Fin 1) tok) (ofInt64 i))) = \<lceil>fl ?p\<rceil>"
    using f(1) by (simp add: sub ofInt64_interval [OF lim] mathCeil_def toInt64_def fval_def Let_def)
  show "0 \<le> toInt64 (mathCeil (fmul (fsub (Fin 1) tok) (ofInt64 i)))"
    and "toInt64 (mathCeil (fmul (fsub (Fin 1) tok) (ofInt64 i))) \<le> i"
    unfolding e using f by (simp_all add: ceiling_le_iff)
qed

lemma Allow_new [step_simps]:
  "map_of (clDevices l) d = None \<Longrightarrow> fst (Allow l now d sc) = (True, 0) \<and>
   map_of (clDevices (snd (Allow l now d sc))) d =
     Some \<lparr>tokens = clCapacity l, updated = now, scope = sc\<rparr>"
  by (simp add: Allow_def)

lemma Allow_same_scope [step_simps]:
  "map_of (clDevices l) d = Some b \<Longrightarrow> scope b = sc \<Longrightarrow> Allow l now d sc = ((True, 0), l)"
  by (simp add: Allow_def)

lemma scope_refillBucket [simp]: "scope (refillBucket l now b) = scope b"
  by (simp add: refillBucket_def Let_def)

lemma Allow_other [step_simps]: "d \<noteq> d' \<Longrightarrow>
    map_of (clDevices (snd (Allow l now d sc))) d' = map_of (clDevices l) d'"
  by (simp add: Allow_def Let_def split: option.split)

lemma Allow_lookup_tokens:
  assumes "ChangeLimiter_inv c l" "map_of (clDevices l) d = Some b"
  shows "tokensOK c (tokens b)"
proof -
  from assms(1) have "list_all (\<lambda>p. tokensOK c (tokens (snd p))) (clDevices l)"
    by (simp add: ChangeLimiter_inv_def)
  then show ?thesis using assms(2) by (rule list_all_lookup)
qed

text \<open>A denied move keeps the granted scope and advises a wait of at most one interval.\<close>

lemma Allow_denied:
  assumes inv: "ChangeLimiter_inv c l" and deny: "Allow l now d sc = ((False, w), l')"
  shows "0 \<le> w \<and> w \<le> clInterval l \<and> map_option scope (map_of (clDevices l') d) =
    map_option scope (map_of (clDevices l) d)"
proof -
  from deny obtain b where b: "map_of (clDevices l) d = Some b" and ne: "scope b \<noteq> sc"
    and low: "flt (tokens (refillBucket l now b)) (Fin 1)"
    and w: "w = toInt64 (mathCeil (fmul (fsub (Fin 1) (tokens (refillBucket l now b)))
              (ofInt64 (clInterval l))))"
    and l': "l' = l\<lparr>clDevices := AList.update d (refillBucket l now b) (clDevices l)\<rparr>"
    by (auto simp: Allow_def Let_def split: option.splits if_splits)
  have "tokensOK c (tokens (refillBucket l now b))"
    using inv Allow_lookup_tokens [OF inv b] by (rule refillBucket_ok)
  moreover have "limitsOK c (clInterval l)" using inv by (simp add: ChangeLimiter_inv_def)
  ultimately show ?thesis using delay_range low by (simp add: w l' b)
qed

subsection \<open>Metered resources: the budget bounds every sequence of calls\<close>

text \<open>
  A resource is metered when each granted call costs at least 99/100 of a unit of a potential that
  never becomes negative and that no call raises. Then any sequence of calls is granted at most
  as often as the initial potential pays for. The two limiters are metered: the potential is the
  bucket plus what the time left in the observed window can still refill.
\<close>

fun grants :: "('c \<Rightarrow> 's \<Rightarrow> bool \<times> 's) \<Rightarrow> 'c list \<Rightarrow> 's \<Rightarrow> nat" where
  "grants step [] s = 0"
| "grants step (c # cs) s =
     (if fst (step c s) then 1 else 0) + grants step cs (snd (step c s))"

locale metered =
  fixes step :: "'c \<Rightarrow> 's \<Rightarrow> bool \<times> 's"
    and inv :: "'s \<Rightarrow> bool" and ok :: "'c \<Rightarrow> bool" and pot :: "'s \<Rightarrow> rat"
  assumes step_inv: "inv s \<Longrightarrow> ok c \<Longrightarrow> inv (snd (step c s))"
    and pot_nonneg: "inv s \<Longrightarrow> 0 \<le> pot s"
    and pot_granted: "inv s \<Longrightarrow> ok c \<Longrightarrow> fst (step c s) \<Longrightarrow> pot (snd (step c s)) + 99 / 100 \<le> pot s"
    and pot_mono: "inv s \<Longrightarrow> ok c \<Longrightarrow> pot (snd (step c s)) \<le> pot s"
begin

lemma grants_bound: "inv s \<Longrightarrow> list_all ok cs \<Longrightarrow> 99 / 100 * of_nat (grants step cs s) \<le> pot s"
proof (induction cs arbitrary: s)
  case (Cons c cs)
  let ?s = "snd (step c s)"
  have IH: "99 / 100 * of_nat (grants step cs ?s) \<le> pot ?s"
    using Cons step_inv by simp
  show ?case
  proof (cases "fst (step c s)")
    case True
    then have "pot ?s + 99 / 100 \<le> pot s" using Cons pot_granted by simp
    then show ?thesis using IH True by (simp add: distrib_left)
  next
    case False
    have "pot ?s \<le> pot s" using Cons pot_mono by simp
    then show ?thesis using IH False by simp
  qed
qed (use pot_nonneg in simp)

end

definition bucketPot :: "time \<Rightarrow> duration \<Rightarrow> float64 \<Rightarrow> time \<Rightarrow> rat" where
  "bucketPot T i tok upd = fval tok + 101 / 100 * (of_int (T - upd) / of_int i)"

lemma bucketPot_mono_time:
  "0 < i \<Longrightarrow> s \<le> t \<Longrightarrow> bucketPot T i tok t \<le> bucketPot T i tok s"
  by (simp add: bucketPot_def divide_right_mono)

lemma bucketPot_nonneg: "tokensOK c tok \<Longrightarrow> 0 < i \<Longrightarrow> u \<le> T \<Longrightarrow> 0 \<le> bucketPot T i tok u"
  by (auto simp: bucketPot_def fval_def dest!: tokensOK_E)

lemma refill_pot:
  assumes tok: "tokensOK c tok" and lim: "limitsOK c i" and e: "0 < time_sub now u"
  shows "bucketPot T i (refill (Fin (of_int c)) i tok (time_sub now u)) now \<le> bucketPot T i tok u"
proof -
  from tok obtain t where t: "tok = Fin t" "0 \<le> t" "t \<le> of_int c" by (auto dest: tokensOK_E)
  have i0: "0 < i" using lim by (simp add: limitsOK_def)
  have "u < now" using e by (simp only: time_sub_pos_iff)
  then have le: "time_sub now u \<le> now - u" by (intro time_sub_le) simp
  have "fval (refill (Fin (of_int c)) i (Fin t) (time_sub now u)) \<le>
      t + 101 / 100 * (of_int (time_sub now u) / of_int i)"
    using t lim e time_sub_lt by (intro refill_gain) auto
  also have "\<dots> \<le> t + 101 / 100 * (of_int (now - u) / of_int i)"
    using le i0 by (intro add_left_mono mult_left_mono divide_right_mono) auto
  finally have "fval (refill (Fin (of_int c)) i (Fin t) (time_sub now u)) \<le>
      t + 101 / 100 * (of_int (now - u) / of_int i)" .
  moreover have "of_int (T - u) / of_int i = (of_int (T - now) / of_int i + of_int (now - u) / of_int i :: rat)"
    by (simp add: add_divide_distrib [symmetric])
  ultimately show ?thesis by (simp add: bucketPot_def t(1) fval_def distrib_left)
qed

lemma takeToken_pot:
  assumes "tokensOK c tok" "limitsOK c i" "\<not> flt tok (Fin 1)"
  shows "bucketPot T i (takeToken tok) u + 99 / 100 \<le> bucketPot T i tok u"
  using takeToken_cost [OF assms] by (simp add: bucketPot_def)

lemma refillBucket_pot:
  assumes inv: "ChangeLimiter_inv c l" and b: "tokensOK c (tokens b)"
  shows "bucketPot T (clInterval l) (tokens (refillBucket l now b)) (updated (refillBucket l now b))
    \<le> bucketPot T (clInterval l) (tokens b) (updated b)"
  using inv b by (auto simp: refillBucket_def ChangeLimiter_inv_def Let_def intro: refill_pot)

lemma refillLocalize_pot:
  assumes inv: "LocalizeLimiter_inv c l" and b: "tokensOK c (lbTokens b)"
  shows "bucketPot T (llInterval l) (lbTokens (refillLocalize l now b)) (lbUpdated (refillLocalize l now b))
    \<le> bucketPot T (llInterval l) (lbTokens b) (lbUpdated b)"
  using inv b by (auto simp: refillLocalize_def LocalizeLimiter_inv_def Let_def intro: refill_pot)

subsection \<open>The location-change limiter is metered\<close>

text \<open>
  The calls other goroutines interleave: \<open>Allow\<close> for any device, and \<open>Retain\<close> with any set that
  keeps the observed device. A step grants when it moves the observed device to another scope.
\<close>

datatype changeCall = AllowCall bytes time bytes | RetainCall "bytes list"

definition moves :: "ChangeLimiter \<Rightarrow> bytes \<Rightarrow> bytes \<Rightarrow> bool" where
  "moves l d sc \<longleftrightarrow> (case map_of (clDevices l) d of None \<Rightarrow> False | Some b \<Rightarrow> scope b \<noteq> sc)"

fun changeStep :: "bytes \<Rightarrow> changeCall \<Rightarrow> ChangeLimiter \<Rightarrow> bool \<times> ChangeLimiter" where
  "changeStep d (AllowCall d' now sc) l =
     (let r = Allow l now d' sc in (d' = d \<and> fst (fst r) \<and> moves l d sc, snd r))"
| "changeStep d (RetainCall ids) l = (False, ChangeLimiter_Retain ids l)"

fun changeCallOK :: "bytes \<Rightarrow> time \<Rightarrow> time \<Rightarrow> changeCall \<Rightarrow> bool" where
  "changeCallOK d S T (AllowCall d' now sc) = (S \<le> now \<and> now \<le> T)"
| "changeCallOK d S T (RetainCall ids) = (d \<in> set ids)"

definition changePot :: "time \<Rightarrow> time \<Rightarrow> bytes \<Rightarrow> ChangeLimiter \<Rightarrow> rat" where
  "changePot S T d l = (case map_of (clDevices l) d of
     None \<Rightarrow> bucketPot T (clInterval l) (clCapacity l) S
   | Some b \<Rightarrow> bucketPot T (clInterval l) (tokens b) (updated b))"

definition changeInv :: "int \<Rightarrow> time \<Rightarrow> time \<Rightarrow> bytes \<Rightarrow> ChangeLimiter \<Rightarrow> bool" where
  "changeInv c S T d l \<longleftrightarrow> ChangeLimiter_inv c l \<and> S \<le> T \<and>
     (\<forall>b. map_of (clDevices l) d = Some b \<longrightarrow> updated b \<le> T)"

lemma updated_refillBucket: "updated b \<le> T \<Longrightarrow> now \<le> T \<Longrightarrow> updated (refillBucket l now b) \<le> T"
  by (simp add: refillBucket_def Let_def)

lemma Allow_config [simp]:
  "clInterval (snd (Allow l now d sc)) = clInterval l"
  "clCapacity (snd (Allow l now d sc)) = clCapacity l"
  by (simp_all add: Allow_def Let_def split: option.split)

text \<open>The three ways \<open>Allow\<close> can leave the bucket of the device it is called for.\<close>

lemma Allow_lookup_cases:
  obtains (new) "map_of (clDevices l) d = None"
      "map_of (clDevices (snd (Allow l now d sc))) d =
        Some \<lparr>tokens = clCapacity l, updated = now, scope = sc\<rparr>"
  | (same) b where "map_of (clDevices l) d = Some b" "scope b = sc" "snd (Allow l now d sc) = l"
  | (denied) b where "map_of (clDevices l) d = Some b" "\<not> fst (fst (Allow l now d sc))"
      "map_of (clDevices (snd (Allow l now d sc))) d = Some (refillBucket l now b)"
  | (charged) b where "map_of (clDevices l) d = Some b" "\<not> flt (tokens (refillBucket l now b)) (Fin 1)"
      "map_of (clDevices (snd (Allow l now d sc))) d = Some (refillBucket l now b
        \<lparr>tokens := takeToken (tokens (refillBucket l now b)), scope := sc\<rparr>)"
proof (cases "map_of (clDevices l) d")
  case None
  then show ?thesis using new by (simp add: Allow_def)
next
  case (Some b)
  show ?thesis
    using Some same denied charged
    by (cases "scope b = sc"; cases "flt (tokens (refillBucket l now b)) (Fin 1)")
      (simp_all add: Allow_def Let_def)
qed

lemma changeStep_pot:
  assumes inv: "changeInv c S T d l" and ok: "changeCallOK d S T call"
  shows "changePot S T d (snd (changeStep d call l)) +
    (if fst (changeStep d call l) then 99 / 100 else 0) \<le> changePot S T d l"
proof (cases call)
  case (RetainCall ids)
  then show ?thesis
    using ok by (simp add: changePot_def ChangeLimiter_Retain_def
        map_of_filter_keys [of "\<lambda>k. k \<in> set ids"] split: option.split)
next
  case (AllowCall d' now sc)
  have linv: "ChangeLimiter_inv c l" and i0: "0 < clInterval l" and lim: "limitsOK c (clInterval l)"
    using inv by (simp_all add: changeInv_def ChangeLimiter_inv_def limitsOK_def)
  have now: "S \<le> now" "now \<le> T" using ok AllowCall by simp_all
  show ?thesis
  proof (cases "d' = d")
    case False
    then show ?thesis using AllowCall
      by (simp add: Let_def changePot_def Allow_other split: option.split)
  next
    case True
    show ?thesis
    proof (cases rule: Allow_lookup_cases [where l = l and d = d and now = now and sc = sc])
      case new
      then show ?thesis
        using now i0 by (simp add: AllowCall True Let_def changePot_def moves_def bucketPot_mono_time)
    next
      case (same b)
      then show ?thesis by (simp add: AllowCall True Let_def changePot_def moves_def)
    next
      case (denied b)
      then show ?thesis
        using refillBucket_pot [OF linv Allow_lookup_tokens [OF linv denied(1)]]
        by (simp add: AllowCall True Let_def changePot_def)
    next
      case (charged b)
      note tok = Allow_lookup_tokens [OF linv charged(1)]
      have "bucketPot T (clInterval l) (takeToken (tokens (refillBucket l now b)))
          (updated (refillBucket l now b)) + 99 / 100 \<le>
        bucketPot T (clInterval l) (tokens (refillBucket l now b)) (updated (refillBucket l now b))"
        by (rule takeToken_pot [OF refillBucket_ok [OF linv tok] lim charged(2)])
      also have "\<dots> \<le> bucketPot T (clInterval l) (tokens b) (updated b)"
        by (rule refillBucket_pot [OF linv tok])
      finally show ?thesis
        using charged by (simp add: AllowCall True Let_def changePot_def)
    qed
  qed
qed

lemma changeStep_inv:
  assumes "changeInv c S T d l" and "changeCallOK d S T call"
  shows "changeInv c S T d (snd (changeStep d call l))"
proof (cases call)
  case (RetainCall ids)
  then show ?thesis
    using assms by (simp add: changeInv_def ChangeLimiter_Retain_inv)
      (simp add: ChangeLimiter_Retain_def map_of_filter_keys [of "\<lambda>k. k \<in> set ids"])
next
  case (AllowCall d' now sc)
  have "updated b' \<le> T" if b': "map_of (clDevices (snd (Allow l now d' sc))) d = Some b'" for b'
  proof (cases "d' = d")
    case True
    show ?thesis
      by (cases rule: Allow_lookup_cases [where l = l and d = d and now = now and sc = sc])
        (use assms AllowCall True b' in \<open>auto simp: changeInv_def updated_refillBucket\<close>)
  qed (use assms AllowCall b' in \<open>auto simp: changeInv_def Allow_other\<close>)
  then show ?thesis
    using assms AllowCall by (simp add: changeInv_def Let_def Allow_inv)
qed

lemma changePot_nonneg: "changeInv c S T d l \<Longrightarrow> 0 \<le> changePot S T d l"
  using Allow_lookup_tokens [of c l d] full_ok [of c "clInterval l"]
  by (auto simp: changePot_def changeInv_def ChangeLimiter_inv_def limitsOK_def
      intro!: bucketPot_nonneg [of c] split: option.split)

interpretation change: metered "changeStep d" "changeInv c S T d" "changeCallOK d S T" "changePot S T d"
  for c S T d
proof unfold_locales
  fix l call
  assume a: "changeInv c S T d l" "changeCallOK d S T call"
  show "changeInv c S T d (snd (changeStep d call l))" using a by (rule changeStep_inv)
  show "changePot S T d (snd (changeStep d call l)) \<le> changePot S T d l"
    using changeStep_pot [OF a] by (simp split: if_splits)
  assume "fst (changeStep d call l)"
  then show "changePot S T d (snd (changeStep d call l)) + 99 / 100 \<le> changePot S T d l"
    using changeStep_pot [OF a] by simp
qed (rule changePot_nonneg)

subsection \<open>The localization limiter is metered\<close>

datatype localizeCall = TryCall bytes time | ReleaseCall nat | LocalizeRetain "bytes list"

fun localizeStep :: "bytes \<Rightarrow> localizeCall \<Rightarrow> LocalizeLimiter \<Rightarrow> bool \<times> LocalizeLimiter" where
  "localizeStep d (TryCall d' now) l =
     (let r = Try l now d' in (d' = d \<and> fst r \<noteq> None, snd r))"
| "localizeStep d (ReleaseCall h) l = (False, release h l)"
| "localizeStep d (LocalizeRetain ids) l = (False, LocalizeLimiter_Retain ids l)"

fun localizeCallOK :: "bytes \<Rightarrow> time \<Rightarrow> time \<Rightarrow> localizeCall \<Rightarrow> bool" where
  "localizeCallOK d S T (TryCall d' now) = (S \<le> now \<and> now \<le> T)"
| "localizeCallOK d S T (ReleaseCall h) = True"
| "localizeCallOK d S T (LocalizeRetain ids) = (d \<in> set ids)"

definition localizePot :: "time \<Rightarrow> time \<Rightarrow> bytes \<Rightarrow> LocalizeLimiter \<Rightarrow> rat" where
  "localizePot S T d l = (case map_of (llDevices l) d of
     None \<Rightarrow> bucketPot T (llInterval l) (llCapacity l) S
   | Some b \<Rightarrow> bucketPot T (llInterval l) (lbTokens b) (lbUpdated b))"

definition localizeInv :: "int \<Rightarrow> time \<Rightarrow> time \<Rightarrow> bytes \<Rightarrow> LocalizeLimiter \<Rightarrow> bool" where
  "localizeInv c S T d l \<longleftrightarrow> LocalizeLimiter_inv c l \<and> S \<le> T \<and>
     (\<forall>b. map_of (llDevices l) d = Some b \<longrightarrow> lbUpdated b \<le> T)"

definition bucketOf :: "LocalizeLimiter \<Rightarrow> bytes \<Rightarrow> time \<Rightarrow> localizeBucket" where
  "bucketOf l d now = (case map_of (llDevices l) d of
     None \<Rightarrow> \<lparr>lbTokens = llCapacity l, lbUpdated = now\<rparr> | Some b \<Rightarrow> b)"

lemma Try_config [simp]:
  "llInterval (snd (Try l now d)) = llInterval l" "llCapacity (snd (Try l now d)) = llCapacity l"
  "llConcurrency (snd (Try l now d)) = llConcurrency l"
  by (simp_all add: Try_def Let_def)

lemma Try_other [step_simps]:
  "d \<noteq> d' \<Longrightarrow> map_of (llDevices (snd (Try l now d))) d' = map_of (llDevices l) d'"
  by (simp add: Try_def Let_def)

lemma Try_cases:
  obtains (busy) "llConcurrency l \<le> length (llHeld l)" "Try l now d = (None, l)"
  | (denied) "length (llHeld l) < llConcurrency l" "fst (Try l now d) = None"
      "llHeld (snd (Try l now d)) = llHeld l"
      "map_of (llDevices (snd (Try l now d))) d = Some (refillLocalize l now (bucketOf l d now))"
  | (granted) "length (llHeld l) < llConcurrency l" "fst (Try l now d) = Some (llNext l)"
      "llHeld (snd (Try l now d)) = llNext l # llHeld l"
      "\<not> flt (lbTokens (refillLocalize l now (bucketOf l d now))) (Fin 1)"
      "map_of (llDevices (snd (Try l now d))) d = Some (refillLocalize l now (bucketOf l d now)
        \<lparr>lbTokens := takeToken (lbTokens (refillLocalize l now (bucketOf l d now)))\<rparr>)"
  by (cases "llConcurrency l \<le> length (llHeld l)";
      cases "flt (lbTokens (refillLocalize l now (bucketOf l d now))) (Fin 1)")
    (simp_all add: Try_def Let_def bucketOf_def [symmetric])

lemma bucketOf_ok:
  assumes inv: "LocalizeLimiter_inv c l"
  shows "tokensOK c (lbTokens (bucketOf l d now))"
proof -
  from inv have all: "list_all (\<lambda>p. tokensOK c (lbTokens (snd p))) (llDevices l)"
    and cap: "llCapacity l = Fin (of_int c)" and lim: "limitsOK c (llInterval l)"
    by (simp_all add: LocalizeLimiter_inv_def)
  show ?thesis
    by (cases "map_of (llDevices l) d")
      (simp_all add: bucketOf_def cap full_ok [OF lim] list_all_lookup [OF all])
qed

lemma bucketOf_pot:
  assumes "localizeInv c S T d l" "S \<le> now"
  shows "bucketPot T (llInterval l) (lbTokens (bucketOf l d now)) (lbUpdated (bucketOf l d now))
    \<le> localizePot S T d l"
  using assms by (auto simp: bucketOf_def localizePot_def localizeInv_def LocalizeLimiter_inv_def
      limitsOK_def bucketPot_mono_time split: option.split)

lemma localizeStep_pot:
  assumes inv: "localizeInv c S T d l" and ok: "localizeCallOK d S T call"
  shows "localizePot S T d (snd (localizeStep d call l)) +
    (if fst (localizeStep d call l) then 99 / 100 else 0) \<le> localizePot S T d l"
proof (cases call)
  case (LocalizeRetain ids)
  then show ?thesis
    using ok by (simp add: localizePot_def LocalizeLimiter_Retain_def
        map_of_filter_keys [of "\<lambda>k. k \<in> set ids"] split: option.split)
next
  case (ReleaseCall h)
  then show ?thesis by (simp add: localizePot_def release_def split: option.split)
next
  case (TryCall d' now)
  have linv: "LocalizeLimiter_inv c l" and lim: "limitsOK c (llInterval l)"
    using inv by (simp_all add: localizeInv_def LocalizeLimiter_inv_def)
  let ?b = "bucketOf l d now"
  have pot: "bucketPot T (llInterval l) (lbTokens ?b) (lbUpdated ?b) \<le> localizePot S T d l"
    using bucketOf_pot [OF inv] ok TryCall by simp
  note ref = order_trans [OF refillLocalize_pot [OF linv bucketOf_ok [OF linv]] pot]
  show ?thesis
  proof (cases "d' = d")
    case False
    then show ?thesis using TryCall
      by (simp add: Let_def localizePot_def Try_other split: option.split)
  next
    case True
    show ?thesis
    proof (cases rule: Try_cases [where l = l and d = d and now = now])
      case busy
      then show ?thesis by (simp add: TryCall True Let_def)
    next
      case denied
      then show ?thesis using ref by (simp add: TryCall True Let_def localizePot_def)
    next
      case granted
      have "bucketPot T (llInterval l) (takeToken (lbTokens (refillLocalize l now ?b)))
          (lbUpdated (refillLocalize l now ?b)) + 99 / 100 \<le>
        bucketPot T (llInterval l) (lbTokens (refillLocalize l now ?b)) (lbUpdated (refillLocalize l now ?b))"
        by (rule takeToken_pot [OF refillLocalize_ok [OF linv bucketOf_ok [OF linv]] lim granted(4)])
      also note ref
      finally show ?thesis using granted by (simp add: TryCall True Let_def localizePot_def)
    qed
  qed
qed

lemma lbUpdated_refill: "lbUpdated b \<le> T \<Longrightarrow> now \<le> T \<Longrightarrow> lbUpdated (refillLocalize l now b) \<le> T"
  by (simp add: refillLocalize_def Let_def)

lemma localizeStep_inv:
  assumes "localizeInv c S T d l" and "localizeCallOK d S T call"
  shows "localizeInv c S T d (snd (localizeStep d call l))"
proof (cases call)
  case (LocalizeRetain ids)
  then show ?thesis
    using assms by (simp add: localizeInv_def LocalizeLimiter_Retain_inv)
      (simp add: LocalizeLimiter_Retain_def map_of_filter_keys [of "\<lambda>k. k \<in> set ids"])
next
  case (ReleaseCall h)
  then show ?thesis
    using assms by (simp add: localizeInv_def release_inv) (simp add: release_def)
next
  case (TryCall d' now)
  have b: "lbUpdated (bucketOf l d now) \<le> T"
    using assms TryCall by (auto simp: bucketOf_def localizeInv_def split: option.split)
  have "lbUpdated b' \<le> T" if b': "map_of (llDevices (snd (Try l now d'))) d = Some b'" for b'
  proof (cases "d' = d")
    case True
    show ?thesis
      by (cases rule: Try_cases [where l = l and d = d and now = now])
        (use assms TryCall True b b' in \<open>auto simp: localizeInv_def lbUpdated_refill\<close>)
  qed (use assms TryCall b' in \<open>auto simp: localizeInv_def Try_other\<close>)
  then show ?thesis
    using assms TryCall by (simp add: localizeInv_def Let_def Try_inv)
qed

lemma localizePot_nonneg: "localizeInv c S T d l \<Longrightarrow> 0 \<le> localizePot S T d l"
  using bucketOf_ok [of c l d] full_ok [of c "llInterval l"]
  by (auto simp: localizePot_def localizeInv_def LocalizeLimiter_inv_def limitsOK_def bucketOf_def
      intro!: bucketPot_nonneg [of c] split: option.splits)

interpretation lookups: metered "localizeStep d" "localizeInv c S T d" "localizeCallOK d S T"
  "localizePot S T d" for c S T d
proof unfold_locales
  fix l call
  assume a: "localizeInv c S T d l" "localizeCallOK d S T call"
  show "localizeInv c S T d (snd (localizeStep d call l))" using a by (rule localizeStep_inv)
  show "localizePot S T d (snd (localizeStep d call l)) \<le> localizePot S T d l"
    using localizeStep_pot [OF a] by (simp split: if_splits)
  assume "fst (localizeStep d call l)"
  then show "localizePot S T d (snd (localizeStep d call l)) + 99 / 100 \<le> localizePot S T d l"
    using localizeStep_pot [OF a] by simp
qed (rule localizePot_nonneg)

text \<open>Releasing a handle twice is the same as releasing it once, and frees exactly its own slot.\<close>

lemma release_idem: "release h (release h l) = release h l"
  by (simp add: release_def)

lemma release_slot:
  "LocalizeLimiter_inv c l \<Longrightarrow> h \<in> set (llHeld l) \<Longrightarrow>
   length (llHeld (release h l)) = length (llHeld l) - 1"
proof -
  assume a: "LocalizeLimiter_inv c l" "h \<in> set (llHeld l)"
  then have "distinct (llHeld l)" by (simp add: LocalizeLimiter_inv_def)
  then have "removeAll h (llHeld l) = remove1 h (llHeld l)" by (simp add: distinct_remove1_removeAll)
  moreover have "removeAll h (llHeld l) = filter (\<lambda>x. x \<noteq> h) (llHeld l)"
    by (simp add: removeAll_filter_not_eq) (metis (no_types, lifting) filter_cong)
  ultimately show ?thesis using a(2) by (simp add: release_def length_remove1)
qed

subsection \<open>Retain\<close>

text \<open>
  What \<open>runtimeManager\<close> relies on when it installs another set of devices: the state of every kept
  device survives, the state of every other device is gone.
\<close>

locale retainable =
  fixes retain :: "bytes list \<Rightarrow> 's \<Rightarrow> 's" and look :: "'s \<Rightarrow> bytes \<Rightarrow> 'b option"
    and inv :: "'s \<Rightarrow> bool"
  assumes look_retain: "look (retain ids s) d = (if d \<in> set ids then look s d else None)"
    and retain_inv: "inv s \<Longrightarrow> inv (retain ids s)"
begin

lemma retain_kept: "d \<in> set ids \<Longrightarrow> look (retain ids s) d = look s d"
  by (simp add: look_retain)

lemma retain_dom: "look (retain ids s) d = Some b \<Longrightarrow> d \<in> set ids"
  by (simp add: look_retain split: if_splits)

text \<open>A device revoked by one activation and enrolled again by a later one starts afresh.\<close>

lemma revoked_restarts: "d \<notin> set ids \<Longrightarrow> look (retain ids' (retain ids s)) d = None"
  by (simp add: look_retain)

lemma retain_same: "look (retain ids (retain ids s)) d = look (retain ids s) d"
  by (simp add: look_retain)

end

interpretation changeRetain: retainable ChangeLimiter_Retain "\<lambda>l. map_of (clDevices l)" "ChangeLimiter_inv c"
  for c
  by unfold_locales
    (simp_all add: ChangeLimiter_Retain_inv,
     simp add: ChangeLimiter_Retain_def map_of_filter_keys [of "\<lambda>k. k \<in> set ids" for ids])

interpretation localizeRetain: retainable LocalizeLimiter_Retain "\<lambda>l. map_of (llDevices l)"
  "LocalizeLimiter_inv c" for c
  by unfold_locales
    (simp_all add: LocalizeLimiter_Retain_inv,
     simp add: LocalizeLimiter_Retain_def map_of_filter_keys [of "\<lambda>k. k \<in> set ids" for ids])

subsection \<open>Properties\<close>

lemma Allow_granted:
  assumes "Allow l now d sc = ((True, w), l')"
  shows "w = 0 \<and> map_option scope (map_of (clDevices l') d) = Some sc"
  using assms by (auto simp: Allow_def Let_def split: option.splits if_splits)

text \<open>A call of \<open>Allow\<close> keeps every bucket between 0 and the capacity and touches no other
  device. Granted, it advises no wait and the device's scope is the requested one; denied, the
  device keeps the scope it was last granted and the advised wait is between 0 and one refill
  interval.\<close>

theorem Allow_decision:
  assumes "ChangeLimiter_inv c l" and "Allow l now d sc = ((ok, w), l')"
  shows "ChangeLimiter_inv c l' \<and>
    (\<forall>d'. d' = d \<or> map_of (clDevices l') d' = map_of (clDevices l) d') \<and>
    (if ok then w = 0 \<and> map_option scope (map_of (clDevices l') d) = Some sc
     else 0 \<le> w \<and> w \<le> clInterval l \<and>
       map_option scope (map_of (clDevices l') d) = map_option scope (map_of (clDevices l) d))"
proof -
  have l': "l' = snd (Allow l now d sc)" using assms(2) by simp
  have "ChangeLimiter_inv c l'" unfolding l' by (rule Allow_inv [OF assms(1)])
  moreover have "\<forall>d'. d' = d \<or> map_of (clDevices l') d' = map_of (clDevices l) d'"
    unfolding l' using Allow_other [of d] by metis
  ultimately show ?thesis
    using assms Allow_granted [of l now d sc w l'] Allow_denied [of c l now d sc w l'] by simp
qed

definition spentLimiter :: ChangeLimiter where
  "spentLimiter = \<lparr>clCapacity = Fin 4, clInterval = 2,
     clDevices = [(''d'', \<lparr>tokens = Fin 0, updated = 0, scope = ''a''\<rparr>)]\<rparr>"

lemma spentLimiter_inv: "ChangeLimiter_inv 4 spentLimiter"
  by (simp add: spentLimiter_def ChangeLimiter_inv_def limitsOK_def tokensOK_def)

lemma spentLimiter_Allow: "Allow spentLimiter 1 ''d'' ''b'' =
    ((False, 1), \<lparr>clCapacity = Fin 4, clInterval = 2,
     clDevices = [(''d'', \<lparr>tokens = Fin (1 / 2), updated = 1, scope = ''a''\<rparr>)]\<rparr>)"
  by code_simp

lemma Allow_decision_witness:
  "fst (Allow spentLimiter 1 ''d'' ''b'') = (False, 1) \<and>
   ChangeLimiter_inv 4 (snd (Allow spentLimiter 1 ''d'' ''b''))"
  using Allow_decision [OF spentLimiter_inv spentLimiter_Allow] by (simp add: spentLimiter_Allow)

text \<open>C34. Over any window \<open>[S, T]\<close> and any interleaving of calls for any devices, the moves granted
  to one device of a fresh limiter are at most its burst capacity plus one per refill interval,
  within one percent for the rounding of the float64 buckets.\<close>

theorem change_rate_bound:
  assumes "limitsOK c i" and "S \<le> T" and "list_all (changeCallOK d S T) calls"
  shows "99 / 100 * of_nat (grants (changeStep d) calls (NewChangeLimiter c i))
    \<le> of_int c + 101 / 100 * (of_int (T - S) / (of_int i :: rat))"
proof -
  have inv: "changeInv c S T d (NewChangeLimiter c i)"
    using assms NewChangeLimiter_inv [of c i] by (simp add: changeInv_def) (simp add: NewChangeLimiter_def)
  have "clCapacity (NewChangeLimiter c i) = Fin (of_int c)"
    using NewChangeLimiter_inv [OF assms(1)] by (simp add: ChangeLimiter_inv_def)
  then have "changePot S T d (NewChangeLimiter c i) =
      of_int c + 101 / 100 * (of_int (T - S) / of_int i)"
    by (simp add: changePot_def NewChangeLimiter_def bucketPot_def fval_def)
  then show ?thesis using change.grants_bound [OF inv assms(3)] by simp
qed

definition sampleMoves :: "changeCall list" where
  "sampleMoves = [AllowCall ''d'' 0 ''a'', AllowCall ''d'' 1 ''b'', AllowCall ''e'' 1 ''b'',
     AllowCall ''d'' 1 ''c'', AllowCall ''d'' 5 ''d'']"

lemma sampleMoves_grants: "grants (changeStep ''d'') sampleMoves (NewChangeLimiter 1 2) = 2"
  by code_simp

lemma change_rate_bound_witness:
  "99 / 100 * of_nat (grants (changeStep ''d'') sampleMoves (NewChangeLimiter 1 2)) \<le>
     (of_int 1 + 101 / 100 * (of_int (5 - 0) / of_int 2) :: rat) \<and>
   grants (changeStep ''d'') sampleMoves (NewChangeLimiter 1 2) = 2"
  using change_rate_bound [of 1 2 0 5 "''d''" sampleMoves] sampleMoves_grants
  by (simp add: limitsOK_def sampleMoves_def)

lemma Try_held:
  "fst (Try l now d) = Some h \<Longrightarrow> llHeld (snd (Try l now d)) = h # llHeld l"
  "fst (Try l now d) = None \<Longrightarrow> llHeld (snd (Try l now d)) = llHeld l"
  by (cases rule: Try_cases [where l = l and d = d and now = now]; simp)+

text \<open>\<open>Try\<close> keeps the limiter's invariant, so at most \<open>concurrency\<close> lookups are in flight; a
  rejection for lack of a slot leaves the whole limiter, the device's budget included, unchanged;
  a grant takes exactly one fresh slot, which releasing the handle gives back.\<close>

theorem Try_slots:
  assumes inv: "LocalizeLimiter_inv c l"
  shows "LocalizeLimiter_inv c (snd (Try l now d)) \<and>
    length (llHeld (snd (Try l now d))) \<le> llConcurrency l \<and>
    (if llConcurrency l \<le> length (llHeld l) then Try l now d = (None, l)
     else case fst (Try l now d) of
       None \<Rightarrow> llHeld (snd (Try l now d)) = llHeld l
     | Some h \<Rightarrow> h \<notin> set (llHeld l) \<and> length (llHeld (snd (Try l now d))) = Suc (length (llHeld l)) \<and>
         llHeld (release h (snd (Try l now d))) = llHeld l)"
proof -
  have inv': "LocalizeLimiter_inv c (snd (Try l now d))" by (rule Try_inv [OF inv])
  then have "length (llHeld (snd (Try l now d))) \<le> llConcurrency l"
    by (simp add: LocalizeLimiter_inv_def)
  moreover have "h \<notin> set (llHeld l) \<and> llHeld (release h (snd (Try l now d))) = llHeld l"
    if "fst (Try l now d) = Some h" for h
  proof -
    have "distinct (h # llHeld l)"
      using inv' Try_held(1) [OF that] by (simp add: LocalizeLimiter_inv_def)
    then show ?thesis using Try_held(1) [OF that] by (auto simp: release_def filter_id_conv)
  qed
  moreover have "Try l now d = (None, l)" if "llConcurrency l \<le> length (llHeld l)"
    using that by (simp add: Try_def)
  ultimately show ?thesis
    using inv' Try_held [of l now d] by (simp split: option.split)
qed

definition busyLimiter :: LocalizeLimiter where
  "busyLimiter = \<lparr>llCapacity = Fin 20, llInterval = 300000000000, llConcurrency = 1,
     llHeld = [0], llNext = 1, llDevices = [(''d'', \<lparr>lbTokens = Fin 3, lbUpdated = 0\<rparr>)]\<rparr>"

lemma Try_slots_witness: "Try busyLimiter 7 ''d'' = (None, busyLimiter)"
proof -
  have "LocalizeLimiter_inv 20 busyLimiter"
    by (simp add: busyLimiter_def LocalizeLimiter_inv_def limitsOK_def tokensOK_def)
  from Try_slots [OF this, of 7 "''d''"] show ?thesis by (simp add: busyLimiter_def)
qed

text \<open>The display-name lookups granted to one device of a fresh limiter over any window, with
  calls of other devices and releases interleaved, are bounded by its capacity plus one per refill
  interval, within one percent for rounding.\<close>

theorem localize_rate_bound:
  assumes "limitsOK c i" and "NewLocalizeLimiter c i k = Some l"
    and "S \<le> T" and "list_all (localizeCallOK d S T) calls"
  shows "99 / 100 * of_nat (grants (localizeStep d) calls l)
    \<le> of_int c + 101 / 100 * (of_int (T - S) / (of_int i :: rat))"
proof -
  have linv: "LocalizeLimiter_inv c l" using assms NewLocalizeLimiter_inv by blast
  have l: "llDevices l = []" "llInterval l = i"
    using assms(2) by (auto simp: NewLocalizeLimiter_def split: if_splits)
  have inv: "localizeInv c S T d l" using assms(3) linv l by (simp add: localizeInv_def)
  have "localizePot S T d l = of_int c + 101 / 100 * (of_int (T - S) / of_int i)"
    using linv by (simp add: localizePot_def l bucketPot_def fval_def LocalizeLimiter_inv_def)
  then show ?thesis using lookups.grants_bound [OF inv assms(4)] by simp
qed

definition sampleLookups :: "localizeCall list" where
  "sampleLookups = [TryCall ''d'' 0, ReleaseCall 0, TryCall ''d'' 1, TryCall ''d'' 2, ReleaseCall 1,
     TryCall ''d'' 3]"

lemma localize_rate_bound_witness:
  "\<exists>l. NewLocalizeLimiter 2 300000000000 4 = Some l \<and>
    99 / 100 * of_nat (grants (localizeStep ''d'') sampleLookups l) \<le>
     (of_int 2 + 101 / 100 * (of_int (3 - 0) / of_int 300000000000) :: rat)"
proof -
  obtain l where l: "NewLocalizeLimiter 2 300000000000 4 = Some l"
    by (simp add: NewLocalizeLimiter_def)
  have "limitsOK 2 300000000000" by (simp add: limitsOK_def)
  from localize_rate_bound [OF this l, of 0 3 "''d''" sampleLookups] l show ?thesis
    by (simp add: sampleLookups_def)
qed

end
