(* ===== verification/WeatherModel.thy ===== *)
theory WeatherModel
  imports LocationPoint
begin

section \<open>Normalised weather data: \<open>internal/modules/weather/model.go\<close>, \<open>provider.go\<close>\<close>

text \<open>
  The records the provider client fills and the cache stores, one Isabelle record per Go struct,
  pointers as options. \<open>Data any\<close> is the sum \<open>dataset\<close> of the four types the code puts into it.
  Provider errors are reduced to what the service asks of them: \<open>DiagnosticClass\<close>, \<open>RetryDelay\<close> and
  whether they wrap a context error.
\<close>

type_synonym Kind = bytes

definition KindCurrent :: Kind where "KindCurrent = ''current''"
definition KindHourly :: Kind where "KindHourly = ''hourly''"
definition KindDaily :: Kind where "KindDaily = ''daily''"
definition KindAlerts :: Kind where "KindAlerts = ''alerts''"

lemmas kind_defs = KindCurrent_def KindHourly_def KindDaily_def KindAlerts_def

record WeatherSource =
  wsID :: bytes
  wsName :: bytes
  wsAttributionURL :: bytes

record PublicLocation =
  plCity :: bytes
  plDistrict :: bytes
  plRegion :: bytes
  plCountry :: bytes
  plTimezone :: bytes
  plSource :: bytes
  plProvider :: bytes
  plPrecision :: bytes
  plLocationKey :: bytes

record Current =
  cuObservedAt :: time
  cuTemperatureC :: float64
  cuFeelsLikeC :: float64
  cuConditionCode :: bytes
  cuConditionText :: bytes
  cuWindDegrees :: float64
  cuWindDirection :: bytes
  cuWindScale :: bytes
  cuWindSpeedKMH :: float64
  cuHumidityPercent :: float64
  cuPrecipitationMM :: float64
  cuPressureHPA :: float64
  cuVisibilityKM :: float64
  cuCloudPercent :: "float64 option"
  cuDewPointC :: "float64 option"

record Hour =
  hoForecastAt :: time
  hoTemperatureC :: float64
  hoConditionCode :: bytes
  hoConditionText :: bytes
  hoWindDegrees :: float64
  hoWindDirection :: bytes
  hoWindScale :: bytes
  hoWindSpeedKMH :: float64
  hoHumidityPercent :: float64
  hoPrecipitationChance :: float64
  hoPrecipitationMM :: float64
  hoPressureHPA :: float64
  hoCloudPercent :: "float64 option"
  hoDewPointC :: "float64 option"

record Day =
  dyDate :: bytes
  dySunrise :: "time option"
  dySunset :: "time option"
  dyMoonrise :: "time option"
  dyMoonset :: "time option"
  dyMoonPhase :: bytes
  dyMoonPhaseCode :: bytes
  dyTemperatureMaxC :: float64
  dyTemperatureMinC :: float64
  dyConditionDayCode :: bytes
  dyConditionDayText :: bytes
  dyConditionNightCode :: bytes
  dyConditionNightText :: bytes
  dyWindDayDegrees :: float64
  dyWindDayDirection :: bytes
  dyWindDayScale :: bytes
  dyWindDaySpeedKMH :: float64
  dyWindNightDegrees :: float64
  dyWindNightDirection :: bytes
  dyWindNightScale :: bytes
  dyWindNightSpeedKMH :: float64
  dyHumidityPercent :: float64
  dyPrecipitationMM :: float64
  dyPressureHPA :: float64
  dyVisibilityKM :: float64
  dyCloudPercent :: "float64 option"
  dyUVIndex :: float64

record Alert =
  alID :: bytes
  alTitle :: bytes
  alIssuingAuthority :: bytes
  alTypeCode :: bytes
  alTypeName :: bytes
  alSeverity :: bytes
  alStatus :: bytes
  alIssuedAt :: time
  alStartsAt :: "time option"
  alEndsAt :: "time option"
  alUrgency :: bytes
  alCertainty :: bytes
  alDescription :: bytes
  alInstruction :: bytes
  alContentTruncated :: bool

record Alerts =
  asDetailURL :: bytes
  asTruncated :: bool
  asItems :: "Alert list"

datatype dataset = DNone | DCurrent Current | DHourly "Hour list" | DDaily "Day list" | DAlerts Alerts

record ProviderResult =
  prUpdatedAt :: time
  prData :: dataset

record Envelope =
  evSource :: WeatherSource
  evLocation :: PublicLocation
  evFetchedAt :: time
  evUpdatedAt :: time
  evValidUntil :: time
  evStale :: bool
  evData :: dataset

text \<open>A provider error, by what \<open>errors.As\<close> and \<open>errors.Is\<close> find in its chain.\<close>

record providerError =
  peClass :: "bytes option"
  peRetryDelay :: "duration option"
  peDeadlineExceeded :: bool
  peCanceled :: bool

record ProviderDiagnostics =
  pdStatus :: bytes
  pdBlockedUntil :: "time option"

definition publicLocation :: "Point \<Rightarrow> PublicLocation" where
  "publicLocation point =
     \<lparr>plCity = City point, plDistrict = District point, plRegion = Region point,
      plCountry = Country point, plTimezone = Timezone point, plSource = Source point,
      plProvider = Provider point, plPrecision = Precision point, plLocationKey = Key point\<rparr>"

end
