(* ===== verification/WeatherCache.thy ===== *)
theory WeatherCache
  imports WeatherModel
begin

section \<open>The weather cache: \<open>Service\<close> of \<open>internal/modules/weather/service.go\<close>\<close>

text \<open>
  Cache entries are heap objects: \<open>svEntries\<close> maps keys to addresses, \<open>svHeap\<close> holds the entries, so
  that a refresh which outlives the eviction of its location still writes to the object it was
  started for, as in Go. The \<open>wait\<close> channels are numbers; \<open>svClosedChans\<close> lists the closed ones.
  \<open>Get\<close> is cut where it gives up the lock: \<open>getEnter\<close>, the loop body \<open>getIterate\<close>, the provider call
  outside the lock, \<open>finishRefresh\<close> and \<open>getReturn\<close>.
\<close>

definition initialRetryDelay :: duration where "initialRetryDelay = 5 * second"
definition maximumRetryDelay :: duration where "maximumRetryDelay = 5 * minute"

record policy =
  freshFor :: duration
  staleFor :: duration

record cacheKey =
  ckLocation :: bytes
  ckKind :: Kind

record cacheEntry =
  ceResult :: ProviderResult
  ceFetchedAt :: time
  ceValidUntil :: time
  ceStaleUntil :: time
  ceHasValue :: bool
  ceRefreshing :: bool
  ceWait :: "nat option"
  ceLastError :: "providerError option"
  ceRetryAfter :: time
  ceFailures :: nat

definition newEntry :: cacheEntry where
  "newEntry =
     \<lparr>ceResult = \<lparr>prUpdatedAt = zero_time, prData = DNone\<rparr>, ceFetchedAt = zero_time,
      ceValidUntil = zero_time, ceStaleUntil = zero_time, ceHasValue = False, ceRefreshing = False,
      ceWait = None, ceLastError = None, ceRetryAfter = zero_time, ceFailures = 0\<rparr>"

record kindCounters =
  kcRequests :: nat
  kcFreshHits :: nat
  kcStaleHits :: nat
  kcFetchSuccesses :: nat
  kcFetchFailures :: nat

definition zeroCounters :: kindCounters where
  "zeroCounters = \<lparr>kcRequests = 0, kcFreshHits = 0, kcStaleHits = 0, kcFetchSuccesses = 0, kcFetchFailures = 0\<rparr>"

record CacheOptions =
  coCurrentTTL :: duration
  coCurrentStaleMax :: duration
  coHourlyTTL :: duration
  coHourlyStaleMax :: duration
  coDailyTTL :: duration
  coDailyStaleMax :: duration
  coAlertsTTL :: duration
  coAlertsStaleMax :: duration
  coMaxLocations :: int

record Service =
  svSource :: WeatherSource
  svPolicies :: "(Kind, policy) gomap"
  svMaximum :: int
  svStarted :: time
  svEntries :: "(cacheKey, nat) gomap"
  svHeap :: "nat \<Rightarrow> cacheEntry"
  svNextEntry :: nat
  svNextChan :: nat
  svClosedChans :: "nat list"
  svLocations :: "bytes list"
  svLru :: "bytes list"
  svCounters :: "(Kind, kindCounters) gomap"
  svLastSuccessAt :: time
  svLastErrorAt :: time
  svLastErrorClass :: bytes

definition NewService :: "WeatherSource \<Rightarrow> time \<Rightarrow> CacheOptions \<Rightarrow> Service" where
  "NewService src started options =
     \<lparr>svSource = src,
      svPolicies = [(KindCurrent, \<lparr>freshFor = coCurrentTTL options, staleFor = coCurrentStaleMax options\<rparr>),
        (KindHourly, \<lparr>freshFor = coHourlyTTL options, staleFor = coHourlyStaleMax options\<rparr>),
        (KindDaily, \<lparr>freshFor = coDailyTTL options, staleFor = coDailyStaleMax options\<rparr>),
        (KindAlerts, \<lparr>freshFor = coAlertsTTL options, staleFor = coAlertsStaleMax options\<rparr>)],
      svMaximum = coMaxLocations options, svStarted = started, svEntries = [],
      svHeap = (\<lambda>_. newEntry), svNextEntry = 0, svNextChan = 0, svClosedChans = [],
      svLocations = [], svLru = [],
      svCounters = [(KindCurrent, zeroCounters), (KindHourly, zeroCounters), (KindDaily, zeroCounters),
        (KindAlerts, zeroCounters)],
      svLastSuccessAt = zero_time, svLastErrorAt = zero_time, svLastErrorClass = []\<rparr>"

text \<open>\<open>s.counters[kind].f++\<close>; an absent kind would be a nil dereference, which \<open>Get\<close> rules out first.\<close>

definition bump :: "(kindCounters \<Rightarrow> kindCounters) \<Rightarrow> Kind \<Rightarrow> Service \<Rightarrow> Service" where
  "bump f kind s = s\<lparr>svCounters := map (\<lambda>p. if fst p = kind then (fst p, f (snd p)) else p) (svCounters s)\<rparr>"

subsection \<open>Retry delays\<close>

fun backoff :: "nat \<Rightarrow> duration \<Rightarrow> duration" where
  "backoff 0 delay = delay"
| "backoff (Suc n) delay = (if delay < maximumRetryDelay then backoff n (int64 (delay * 2)) else delay)"

definition retryDelay :: "providerError \<Rightarrow> nat \<Rightarrow> (duration \<Rightarrow> duration) \<Rightarrow> duration" where
  "retryDelay err failures jitter =
     (let advised = (case peRetryDelay err of None \<Rightarrow> 0 | Some delay \<Rightarrow> delay)
      in if 0 < advised then advised
         else
           (let failures = (if failures = 0 then 1 else failures);
                delay = backoff (failures - 1) initialRetryDelay;
                delay = (if maximumRetryDelay < delay then maximumRetryDelay else delay)
            in jitter delay))"

text \<open>The eight random bytes are \<open>w\<close>; \<open>None\<close> when \<open>rand.Read\<close> fails. \<open>delay\<close> is positive wherever it is called.\<close>

definition jitterDelay :: "64 word option \<Rightarrow> duration \<Rightarrow> duration" where
  "jitterDelay random delay =
     (let minimum = int64 (delay * 80) div 100; span = int64 (delay * 40) div 100
      in case random of
           None \<Rightarrow> delay
         | Some w \<Rightarrow>
             (let result = minimum + uint w mod (span + 1)
              in if maximumRetryDelay < result then maximumRetryDelay else result))"

definition diagnosticErrorClass :: "providerError \<Rightarrow> bytes" where
  "diagnosticErrorClass err =
     (case peClass err of
        Some c \<Rightarrow> c
      | None \<Rightarrow>
          if peDeadlineExceeded err then ''timeout''
          else if peCanceled err then ''cancelled'' else ''unknown'')"

subsection \<open>The locked sections\<close>

text \<open>One round of the eviction loop removes the location at the back of the list and its entries.\<close>

fun evictOldest :: "nat \<Rightarrow> Service \<Rightarrow> Service" where
  "evictOldest 0 s = s"
| "evictOldest (Suc fuel) s =
     (if \<not> svMaximum s < int (length (svLocations s)) then s
      else if svLru s = [] then s
      else
        (let oldKey = last (svLru s)
         in evictOldest fuel (s\<lparr>svLocations := removeAll oldKey (svLocations s), svLru := butlast (svLru s),
              svEntries := filter (\<lambda>p. ckLocation (fst p) \<noteq> oldKey) (svEntries s)\<rparr>)))"

text \<open>The loop runs at most once per list element, so the list's length is enough fuel.\<close>

definition touchLocationLocked :: "bytes \<Rightarrow> Service \<Rightarrow> Service" where
  "touchLocationLocked key s =
     (if key \<in> set (svLocations s) then s\<lparr>svLru := key # removeAll key (svLru s)\<rparr>
      else
        (let s = s\<lparr>svLru := key # svLru s, svLocations := key # svLocations s\<rparr>
         in evictOldest (length (svLru s)) s))"

definition envelopeFrom :: "cacheEntry \<Rightarrow> Point \<Rightarrow> WeatherSource \<Rightarrow> bool \<Rightarrow> Envelope" where
  "envelopeFrom entry point src stale =
     \<lparr>evSource = src, evLocation = publicLocation point, evFetchedAt = ceFetchedAt entry,
      evUpdatedAt = prUpdatedAt (ceResult entry), evValidUntil = ceValidUntil entry, evStale = stale,
      evData = prData (ceResult entry)\<rparr>"

definition beginRefreshLocked :: "nat \<Rightarrow> Service \<Rightarrow> Service" where
  "beginRefreshLocked e s =
     s\<lparr>svHeap := (svHeap s)(e := (svHeap s e)\<lparr>ceRefreshing := True, ceWait := Some (svNextChan s)\<rparr>),
       svNextChan := Suc (svNextChan s)\<rparr>"

definition finishRefresh :: "time \<Rightarrow> (duration \<Rightarrow> duration) \<Rightarrow> nat \<Rightarrow> Kind \<Rightarrow> policy \<Rightarrow>
    providerError + ProviderResult \<Rightarrow> Service \<Rightarrow> Service" where
  "finishRefresh now jitter e kind pol result s =
     (let entry = svHeap s e;
          (entry, s) =
            (case result of
               Inr res \<Rightarrow>
                 (entry\<lparr>ceResult := res, ceFetchedAt := now, ceValidUntil := now + freshFor pol,
                    ceStaleUntil := now + staleFor pol, ceHasValue := True, ceLastError := None,
                    ceRetryAfter := zero_time, ceFailures := 0\<rparr>,
                  (bump (\<lambda>c. c\<lparr>kcFetchSuccesses := Suc (kcFetchSuccesses c)\<rparr>) kind s)\<lparr>svLastSuccessAt := now\<rparr>)
             | Inl err \<Rightarrow>
                 (entry\<lparr>ceLastError := Some err, ceFailures := Suc (ceFailures entry),
                    ceRetryAfter := now + retryDelay err (Suc (ceFailures entry)) jitter\<rparr>,
                  (bump (\<lambda>c. c\<lparr>kcFetchFailures := Suc (kcFetchFailures c)\<rparr>) kind s)
                    \<lparr>svLastErrorAt := now, svLastErrorClass := diagnosticErrorClass err\<rparr>))
      in s\<lparr>svHeap := (svHeap s)(e := entry\<lparr>ceRefreshing := False, ceWait := None\<rparr>),
           svClosedChans := (case ceWait entry of None \<Rightarrow> [] | Some c \<Rightarrow> [c]) @ svClosedChans s\<rparr>)"

text \<open>\<open>s.entries[key]\<close>, creating an empty entry when there is none.\<close>

definition lookupEntry :: "cacheKey \<Rightarrow> Service \<Rightarrow> nat \<times> Service" where
  "lookupEntry key s =
     (case map_of (svEntries s) key of
        Some e \<Rightarrow> (e, s)
      | None \<Rightarrow>
          (svNextEntry s,
           s\<lparr>svEntries := AList.update key (svNextEntry s) (svEntries s),
             svHeap := (svHeap s)(svNextEntry s := newEntry), svNextEntry := Suc (svNextEntry s)\<rparr>))"

text \<open>
  What one pass through the loop of \<open>Get\<close> ends in: an envelope (with the entry whose background
  refresh was started, if any), an error (\<open>None\<close> is \<open>ErrUnavailable\<close> itself), a channel to wait on,
  or the decision to fetch synchronously into an entry.
\<close>

datatype getOutcome =
    GetFresh Envelope
  | GetStale Envelope "nat option"
  | GetUnavailable "providerError option"
  | GetWait nat
  | GetFetch nat

definition getIterate :: "time \<Rightarrow> Kind \<Rightarrow> Point \<Rightarrow> Service \<Rightarrow> getOutcome \<times> Service" where
  "getIterate now kind point s =
     (let key = \<lparr>ckLocation = CacheKey point, ckKind = kind\<rparr>;
          s = touchLocationLocked (ckLocation key) s;
          (e, s) = lookupEntry key s;
          entry = svHeap s e
      in if ceHasValue entry \<and> now < ceValidUntil entry then
           (GetFresh (envelopeFrom entry point (svSource s) False),
            bump (\<lambda>c. c\<lparr>kcFreshHits := Suc (kcFreshHits c)\<rparr>) kind s)
         else if ceHasValue entry \<and> now < ceStaleUntil entry then
           (let s = bump (\<lambda>c. c\<lparr>kcStaleHits := Suc (kcStaleHits c)\<rparr>) kind s
            in if \<not> ceRefreshing entry \<and> \<not> now < ceRetryAfter entry
               then (GetStale (envelopeFrom entry point (svSource s) True) (Some e), beginRefreshLocked e s)
               else (GetStale (envelopeFrom entry point (svSource s) True) None, s))
         else if \<not> ceRefreshing entry \<and> now < ceRetryAfter entry then (GetUnavailable (ceLastError entry), s)
         else if ceRefreshing entry then (GetWait (the (ceWait entry)), s)
         else (GetFetch e, beginRefreshLocked e s))"

text \<open>The policy lookup and the request counter in front of the loop; \<open>None\<close> is an unsupported kind.\<close>

definition getEnter :: "Kind \<Rightarrow> Service \<Rightarrow> (policy \<times> Service) option" where
  "getEnter kind s =
     (case map_of (svPolicies s) kind of
        None \<Rightarrow> None
      | Some pol \<Rightarrow> Some (pol, bump (\<lambda>c. c\<lparr>kcRequests := Suc (kcRequests c)\<rparr>) kind s))"

text \<open>The envelope of a synchronous fetch that succeeded.\<close>

definition getReturn :: "nat \<Rightarrow> Point \<Rightarrow> Service \<Rightarrow> Envelope" where
  "getReturn e point s = envelopeFrom (svHeap s e) point (svSource s) False"

subsection \<open>What each section changes\<close>

lemma bump_fields [simp]:
  "svSource (bump f k s) = svSource s" "svPolicies (bump f k s) = svPolicies s"
  "svMaximum (bump f k s) = svMaximum s" "svEntries (bump f k s) = svEntries s"
  "svHeap (bump f k s) = svHeap s" "svNextEntry (bump f k s) = svNextEntry s"
  "svNextChan (bump f k s) = svNextChan s" "svClosedChans (bump f k s) = svClosedChans s"
  "svLocations (bump f k s) = svLocations s" "svLru (bump f k s) = svLru s"
  by (simp_all add: bump_def)

lemma evictOldest_fields [simp]:
  "svSource (evictOldest n s) = svSource s" "svPolicies (evictOldest n s) = svPolicies s"
  "svMaximum (evictOldest n s) = svMaximum s" "svHeap (evictOldest n s) = svHeap s"
  "svNextEntry (evictOldest n s) = svNextEntry s" "svNextChan (evictOldest n s) = svNextChan s"
  "svClosedChans (evictOldest n s) = svClosedChans s" "svCounters (evictOldest n s) = svCounters s"
  by (induction n s rule: evictOldest.induct) (simp_all add: Let_def)

lemma touch_fields [simp]:
  "svSource (touchLocationLocked k s) = svSource s" "svPolicies (touchLocationLocked k s) = svPolicies s"
  "svMaximum (touchLocationLocked k s) = svMaximum s" "svHeap (touchLocationLocked k s) = svHeap s"
  "svNextEntry (touchLocationLocked k s) = svNextEntry s"
  "svNextChan (touchLocationLocked k s) = svNextChan s"
  "svClosedChans (touchLocationLocked k s) = svClosedChans s"
  by (simp_all add: touchLocationLocked_def Let_def)

subsection \<open>The least-recently-used list\<close>

definition lruInv :: "Service \<Rightarrow> bool" where
  "lruInv s \<longleftrightarrow> 1 \<le> svMaximum s \<and> distinct (svLru s) \<and> distinct (svLocations s) \<and>
     set (svLru s) = set (svLocations s) \<and> int (length (svLru s)) \<le> svMaximum s \<and>
     distinct (map fst (svEntries s)) \<and> list_all (\<lambda>p. ckLocation (fst p) \<in> set (svLru s)) (svEntries s)"

lemma evictOldest_exact:
  assumes "distinct (svLru s)" "distinct (svLocations s)" "set (svLru s) = set (svLocations s)"
    and "0 \<le> svMaximum s" "length (svLru s) \<le> n"
  shows "svLru (evictOldest n s) = take (nat (svMaximum s)) (svLru s)"
    and "distinct (svLocations (evictOldest n s))"
    and "set (svLocations (evictOldest n s)) = set (take (nat (svMaximum s)) (svLru s))"
    and "svEntries (evictOldest n s) =
      filter (\<lambda>p. ckLocation (fst p) \<notin> set (drop (nat (svMaximum s)) (svLru s))) (svEntries s)"
proof -
  have "svLru (evictOldest n s) = take (nat (svMaximum s)) (svLru s) \<and>
    distinct (svLocations (evictOldest n s)) \<and>
    set (svLocations (evictOldest n s)) = set (take (nat (svMaximum s)) (svLru s)) \<and>
    svEntries (evictOldest n s) =
      filter (\<lambda>p. ckLocation (fst p) \<notin> set (drop (nat (svMaximum s)) (svLru s))) (svEntries s)"
    using assms
  proof (induction n s rule: evictOldest.induct)
    case (2 fuel s)
    let ?m = "nat (svMaximum s)" and ?l = "svLru s" and ?k = "last (svLru s)"
    let ?s = "s\<lparr>svLocations := removeAll ?k (svLocations s), svLru := butlast ?l,
      svEntries := filter (\<lambda>p. ckLocation (fst p) \<noteq> ?k) (svEntries s)\<rparr>"
    have len: "length (svLocations s) = length ?l"
      using 2(2-4) by (metis distinct_card)
    show ?case
    proof (cases "svMaximum s < int (length (svLocations s))")
      case False
      then have "length ?l \<le> ?m" using len by simp
      then show ?thesis using False 2(2-5) by simp
    next
      case True
      then have m: "?m < length ?l" using len 2(5) by linarith
      then have ne: "?l \<noteq> []" by auto
      then obtain xs k where l: "?l = xs @ [k]" by (cases ?l rule: rev_cases) auto
      have d: "k \<notin> set xs" "distinct xs" using 2(2) l by simp_all
      have st: "set xs = set (removeAll k (svLocations s))" using d l 2(4) by auto
      have e: "evictOldest (Suc fuel) s = evictOldest fuel ?s"
        using True ne by (simp add: Let_def)
      have tk: "take ?m xs = take ?m ?l" and dr: "set (drop ?m ?l) = insert k (set (drop ?m xs))"
        using m l by simp_all
      have IH: "svLru (evictOldest fuel ?s) = take ?m xs \<and> distinct (svLocations (evictOldest fuel ?s)) \<and>
          set (svLocations (evictOldest fuel ?s)) = set (take ?m xs) \<and>
          svEntries (evictOldest fuel ?s) = filter (\<lambda>p. ckLocation (fst p) \<notin> set (drop ?m xs))
              (filter (\<lambda>p. ckLocation (fst p) \<noteq> k) (svEntries s))"
        using 2(1) [OF _ ne refl] True d(2) st 2(3,5,6) l by (simp add: distinct_removeAll)
      show ?thesis using IH unfolding e tk dr by (auto simp: conj_commute)
    qed
  qed simp
  then show "svLru (evictOldest n s) = take (nat (svMaximum s)) (svLru s)"
    and "distinct (svLocations (evictOldest n s))"
    and "set (svLocations (evictOldest n s)) = set (take (nat (svMaximum s)) (svLru s))"
    and "svEntries (evictOldest n s) =
      filter (\<lambda>p. ckLocation (fst p) \<notin> set (drop (nat (svMaximum s)) (svLru s))) (svEntries s)"
    by blast+
qed

text \<open>Touching a location moves it to the front; when the list is full the last one is dropped.\<close>

lemma touch_exact:
  assumes inv: "lruInv s"
  shows "svLru (touchLocationLocked k s) = take (nat (svMaximum s)) (k # removeAll k (svLru s))"
    and "lruInv (touchLocationLocked k s)"
    and "svEntries (touchLocationLocked k s) =
      filter (\<lambda>p. ckLocation (fst p) \<in> set (svLru (touchLocationLocked k s))) (svEntries s)"
proof -
  let ?l = "svLru s" and ?m = "nat (svMaximum s)"
  have m: "0 < ?m" and l: "distinct ?l" "set ?l = set (svLocations s)" "length ?l \<le> ?m"
    and e: "\<forall>p\<in>set (svEntries s). ckLocation (fst p) \<in> set ?l"
    using inv by (auto simp: lruInv_def list_all_iff)
  have "svLru (touchLocationLocked k s) = take ?m (k # removeAll k ?l) \<and>
    lruInv (touchLocationLocked k s) \<and>
    svEntries (touchLocationLocked k s) =
      filter (\<lambda>p. ckLocation (fst p) \<in> set (svLru (touchLocationLocked k s))) (svEntries s)"
  proof (cases "k \<in> set (svLocations s)")
    case True
    have "length (removeAll k ?l) = length ?l - 1"
      using True l by (simp add: distinct_remove1_removeAll [symmetric] length_remove1)
    moreover have "0 < length ?l" using True l(2) by auto
    ultimately have len: "length (k # removeAll k ?l) \<le> ?m" using l(3) by simp
    then have "take ?m (k # removeAll k ?l) = k # removeAll k ?l" by simp
    moreover have "insert k (set ?l) = set ?l" using True l(2) by auto
    ultimately show ?thesis
      using True inv len e
      by (auto simp: touchLocationLocked_def lruInv_def distinct_removeAll list_all_iff filter_id_conv)
  next
    case False
    let ?s = "s\<lparr>svLru := k # svLru s, svLocations := k # svLocations s\<rparr>"
    have k: "k \<notin> set ?l" using False l(2) by simp
    have r: "removeAll k ?l = ?l" using k by simp
    have pre: "distinct (svLru ?s)" "distinct (svLocations ?s)" "set (svLru ?s) = set (svLocations ?s)"
      "0 \<le> svMaximum ?s" "length (svLru ?s) \<le> length (svLru ?s)"
      using inv k l(2) False by (simp_all add: lruInv_def)
    note ex = evictOldest_exact [OF pre]
    have t: "touchLocationLocked k s = evictOldest (length (svLru ?s)) ?s"
      using False by (simp add: touchLocationLocked_def Let_def)
    have lru: "svLru (touchLocationLocked k s) = take ?m (k # ?l)"
      unfolding t using ex(1) by simp
    have part: "x \<in> set (take ?m (k # ?l)) \<longleftrightarrow> x \<notin> set (drop ?m (k # ?l))" if "x \<in> set ?l" for x
    proof -
      have "distinct (k # ?l)" using k l(1) by simp
      then have "set (take ?m (k # ?l)) \<inter> set (drop ?m (k # ?l)) = {}"
        by (rule set_take_disj_set_drop_if_distinct) simp
      moreover have "x \<in> set (take ?m (k # ?l)) \<union> set (drop ?m (k # ?l))"
        using that by (metis append_take_drop_id list.set_intros(2) set_append)
      ultimately show ?thesis by blast
    qed
    have ent: "svEntries (touchLocationLocked k s) =
        filter (\<lambda>p. ckLocation (fst p) \<in> set (take ?m (k # ?l))) (svEntries s)"
      unfolding t ex(4) using e part by (auto intro!: filter_cong)
    have "distinct (take ?m (k # ?l))" using k l(1) by (intro distinct_take) simp
    moreover have "set (svLocations (touchLocationLocked k s)) = set (take ?m (k # ?l))"
      unfolding t ex(3) by simp
    moreover have "distinct (svLocations (touchLocationLocked k s))" unfolding t by (rule ex(2))
    ultimately have "lruInv (touchLocationLocked k s)"
      using inv lru ent by (auto simp: lruInv_def list_all_iff distinct_map_filter)
    then show ?thesis using lru ent r by simp
  qed
  then show "svLru (touchLocationLocked k s) = take ?m (k # removeAll k ?l)"
    and "lruInv (touchLocationLocked k s)"
    and "svEntries (touchLocationLocked k s) =
      filter (\<lambda>p. ckLocation (fst p) \<in> set (svLru (touchLocationLocked k s))) (svEntries s)"
    by blast+
qed

lemma touch_front:
  assumes "lruInv s"
  shows "k \<in> set (svLru (touchLocationLocked k s))"
proof -
  have "0 < nat (svMaximum s)" using assms by (simp add: lruInv_def)
  then show ?thesis using touch_exact(1) [OF assms, of k] by (cases "nat (svMaximum s)") auto
qed

lemma lookupEntry_fields:
  assumes "lookupEntry key s = (e, s')"
  shows "svSource s' = svSource s" "svPolicies s' = svPolicies s" "svMaximum s' = svMaximum s"
    "svLru s' = svLru s" "svLocations s' = svLocations s" "svNextChan s' = svNextChan s"
    "svClosedChans s' = svClosedChans s" "map_of (svEntries s') key = Some e"
  using assms by (auto simp: lookupEntry_def split: option.splits)

lemma list_all_update_pair: "list_all P m \<Longrightarrow> P (k, v) \<Longrightarrow> list_all P (AList.update k v m)"
  by (induction m) auto

lemma lookupEntry_lruInv:
  "lruInv s \<Longrightarrow> ckLocation key \<in> set (svLru s) \<Longrightarrow> lookupEntry key s = (e, s') \<Longrightarrow> lruInv s'"
  by (auto simp: lookupEntry_def lruInv_def list_all_update_pair split: option.splits)

subsection \<open>The concurrent system\<close>

text \<open>
  \<open>fetches\<close> are the provider calls under way, synchronous or in a background goroutine; \<open>owner\<close>
  remembers for which key an entry was created (no operation reads it). One step is one critical
  section: a request entering \<open>Get\<close>, a pass through its loop, or the end of a provider call with any
  result. The predicate \<open>answers\<close> is what the provider promises of a successful result; clock
  readings and jitter are arbitrary, so nothing depends on their order.
\<close>

record fetch =
  feEntry :: nat
  fePoint :: Point
  feKind :: Kind
  fePolicy :: policy

record cacheSystem =
  csService :: Service
  csFetches :: "fetch list"
  csOwner :: "nat \<Rightarrow> cacheKey"

definition keyOf :: "Kind \<Rightarrow> Point \<Rightarrow> cacheKey" where
  "keyOf kind point = \<lparr>ckLocation = CacheKey point, ckKind = kind\<rparr>"

fun startedFetch :: "Kind \<Rightarrow> Point \<Rightarrow> policy \<Rightarrow> getOutcome \<Rightarrow> fetch list" where
  "startedFetch kind point pol (GetFetch e) = [\<lparr>feEntry = e, fePoint = point, feKind = kind, fePolicy = pol\<rparr>]"
| "startedFetch kind point pol (GetStale env (Some e)) = [\<lparr>feEntry = e, fePoint = point, feKind = kind, fePolicy = pol\<rparr>]"
| "startedFetch kind point pol _ = []"

inductive cacheStep :: "(cacheKey \<Rightarrow> ProviderResult \<Rightarrow> bool) \<Rightarrow> cacheSystem \<Rightarrow> cacheSystem \<Rightarrow> bool"
  for answers where
  enter: "getEnter kind (csService y) = Some (pol, s') \<Longrightarrow>
    cacheStep answers y (y\<lparr>csService := s'\<rparr>)"
| iterate: "map_of (svPolicies (csService y)) kind = Some pol \<Longrightarrow>
    getIterate now kind point (csService y) = (out, s') \<Longrightarrow>
    cacheStep answers y
      (y\<lparr>csService := s', csFetches := startedFetch kind point pol out @ csFetches y,
         csOwner := (csOwner y)(the (map_of (svEntries s') (keyOf kind point)) := keyOf kind point)\<rparr>)"
| finish: "f \<in> set (csFetches y) \<Longrightarrow>
    (\<And>res. result = Inr res \<Longrightarrow> answers (keyOf (feKind f) (fePoint f)) res) \<Longrightarrow>
    cacheStep answers y
      (y\<lparr>csService := finishRefresh now jitter (feEntry f) (feKind f) (fePolicy f) result (csService y),
         csFetches := remove1 f (csFetches y)\<rparr>)"

inductive cacheReachable :: "(cacheKey \<Rightarrow> ProviderResult \<Rightarrow> bool) \<Rightarrow> CacheOptions \<Rightarrow> cacheSystem \<Rightarrow> bool"
  for answers options where
  initial: "cacheReachable answers options
    \<lparr>csService = NewService src started options, csFetches = [], csOwner = (\<lambda>_. undefined)\<rparr>"
| step: "cacheReachable answers options y \<Longrightarrow> cacheStep answers y y' \<Longrightarrow> cacheReachable answers options y'"

text \<open>The entry table: resident keys point to entries created for them.\<close>

definition entryInv :: "cacheSystem \<Rightarrow> bool" where
  "entryInv y \<longleftrightarrow> (let s = csService y in
     \<forall>k e. map_of (svEntries s) k = Some e \<longrightarrow> e < svNextEntry s \<and> csOwner y e = k)"

text \<open>Single flight: a fetch under way per refreshing entry, for the key the entry belongs to.\<close>

definition flightInv :: "cacheSystem \<Rightarrow> bool" where
  "flightInv y \<longleftrightarrow> (let s = csService y in
     distinct (map feEntry (csFetches y)) \<and>
     (\<forall>e < svNextEntry s. ceRefreshing (svHeap s e) \<longleftrightarrow> e \<in> feEntry ` set (csFetches y)) \<and>
     (\<forall>f\<in>set (csFetches y). feEntry f < svNextEntry s \<and>
        csOwner y (feEntry f) = keyOf (feKind f) (fePoint f) \<and>
        map_of (svPolicies s) (feKind f) = Some (fePolicy f)))"

text \<open>No lost wake-up: a channel is closed, or it belongs to exactly one entry that is refreshing.\<close>

definition waitOK :: "nat \<Rightarrow> nat \<Rightarrow> nat set \<Rightarrow> (nat \<Rightarrow> nat option) \<Rightarrow> bool" where
  "waitOK n chans gone w \<longleftrightarrow>
     (\<forall>e<n. \<forall>c. w e = Some c \<longrightarrow> c < chans \<and> c \<notin> gone) \<and>
     (\<forall>c<chans. c \<in> gone \<or> (\<exists>e<n. w e = Some c)) \<and> (\<forall>c\<in>gone. c < chans) \<and>
     (\<forall>e<n. \<forall>e'<n. \<forall>c. w e = Some c \<longrightarrow> w e' = Some c \<longrightarrow> e = e')"

definition waitInv :: "cacheSystem \<Rightarrow> bool" where
  "waitInv y \<longleftrightarrow> (let s = csService y in
     (\<forall>e < svNextEntry s. ceRefreshing (svHeap s e) \<longleftrightarrow> ceWait (svHeap s e) \<noteq> None) \<and>
     waitOK (svNextEntry s) (svNextChan s) (set (svClosedChans s)) (\<lambda>e. ceWait (svHeap s e)))"

lemma waitOK_I:
  assumes "\<And>e c. e < n \<Longrightarrow> w e = Some c \<Longrightarrow> c < chans \<and> c \<notin> gone"
    and "\<And>c. c < chans \<Longrightarrow> c \<notin> gone \<Longrightarrow> \<exists>e<n. w e = Some c"
    and "\<And>c. c \<in> gone \<Longrightarrow> c < chans"
    and "\<And>e e' c. e < n \<Longrightarrow> e' < n \<Longrightarrow> w e = Some c \<Longrightarrow> w e' = Some c \<Longrightarrow> e = e'"
  shows "waitOK n chans gone w"
  using assms unfolding waitOK_def by blast

lemma waitOK_D:
  assumes "waitOK n chans gone w"
  shows "e < n \<Longrightarrow> w e = Some c \<Longrightarrow> c < chans \<and> c \<notin> gone"
    and "c < chans \<Longrightarrow> c \<notin> gone \<Longrightarrow> \<exists>e<n. w e = Some c"
    and "c \<in> gone \<Longrightarrow> c < chans"
    and "e < n \<Longrightarrow> e' < n \<Longrightarrow> w e = Some c \<Longrightarrow> w e' = Some c \<Longrightarrow> e = e'"
  using assms unfolding waitOK_def by blast+

lemma waitOK_new:
  assumes ok: "waitOK n chans gone w" and new: "w' n = None" and old: "\<And>e. e < n \<Longrightarrow> w' e = w e"
  shows "waitOK (Suc n) chans gone w'"
proof (rule waitOK_I)
  fix e c assume "e < Suc n" "w' e = Some c"
  then show "c < chans \<and> c \<notin> gone" using new old waitOK_D(1) [OF ok] by (auto simp: less_Suc_eq)
next
  fix c assume "c < chans" "c \<notin> gone"
  then obtain e where "e < n" "w e = Some c" using waitOK_D(2) [OF ok] by blast
  then show "\<exists>e<Suc n. w' e = Some c" using old [of e] by (intro exI [of _ e]) simp
next
  fix e e' c assume "e < Suc n" "e' < Suc n" "w' e = Some c" "w' e' = Some c"
  then show "e = e'" using new old waitOK_D(4) [OF ok, of e e' c] by (auto simp: less_Suc_eq)
qed (rule waitOK_D(3) [OF ok])

lemma waitOK_begin:
  assumes ok: "waitOK n chans gone w" and e: "e < n" and free: "w e = None"
    and w': "\<And>x. w' x = (if x = e then Some chans else w x)"
  shows "waitOK n (Suc chans) gone w'"
proof (rule waitOK_I)
  have fresh: "chans \<notin> gone" using waitOK_D(3) [OF ok, of chans] by auto
  fix x c assume "x < n" "w' x = Some c"
  then show "c < Suc chans \<and> c \<notin> gone"
    using waitOK_D(1) [OF ok, of x c] fresh by (auto simp: w' split: if_splits)
next
  fix c assume c: "c < Suc chans" "c \<notin> gone"
  show "\<exists>x<n. w' x = Some c"
  proof (cases "c = chans")
    case False
    then obtain x where "x < n" "w x = Some c" using waitOK_D(2) [OF ok, of c] c by auto
    then show ?thesis using free by (intro exI [of _ x]) (auto simp: w')
  qed (use e in \<open>auto simp: w'\<close>)
next
  fix c assume "c \<in> gone"
  then show "c < Suc chans" using waitOK_D(3) [OF ok, of c] by simp
next
  fix x x' c assume "x < n" "x' < n" "w' x = Some c" "w' x' = Some c"
  then show "x = x'"
    using waitOK_D(4) [OF ok, of x x' c] waitOK_D(1) [OF ok, of x c] waitOK_D(1) [OF ok, of x' c]
    by (auto simp: w' split: if_splits)
qed

lemma waitOK_finish:
  assumes ok: "waitOK n chans gone w" and e: "e < n" and held: "w e = Some c"
    and w': "\<And>x. w' x = (if x = e then None else w x)"
  shows "waitOK n chans (insert c gone) w'"
proof (rule waitOK_I)
  fix x d assume x: "x < n" and "w' x = Some d"
  then have ne: "x \<noteq> e" and wx: "w x = Some d" by (simp_all add: w' split: if_splits)
  then have "d \<noteq> c" using waitOK_D(4) [OF ok x e _ held] by blast
  then show "d < chans \<and> d \<notin> insert c gone" using waitOK_D(1) [OF ok x wx] by simp
next
  fix d assume d: "d < chans" "d \<notin> insert c gone"
  then obtain x where "x < n" "w x = Some d" using waitOK_D(2) [OF ok, of d] by auto
  then show "\<exists>x<n. w' x = Some d" using held d by (intro exI [of _ x]) (auto simp: w')
next
  fix d assume "d \<in> insert c gone"
  then show "d < chans" using waitOK_D(1) [OF ok e held] waitOK_D(3) [OF ok, of d] by auto
next
  fix x x' d assume "x < n" "x' < n" "w' x = Some d" "w' x' = Some d"
  then show "x = x'" using waitOK_D(4) [OF ok, of x x' d] by (auto simp: w' split: if_splits)
qed

text \<open>Every value came from a fetch for the entry's own key, and its deadlines follow the kind's policy.\<close>

definition valueInv :: "(cacheKey \<Rightarrow> ProviderResult \<Rightarrow> bool) \<Rightarrow> cacheSystem \<Rightarrow> bool" where
  "valueInv answers y \<longleftrightarrow> (let s = csService y in
     \<forall>e < svNextEntry s. ceHasValue (svHeap s e) \<longrightarrow>
       answers (csOwner y e) (ceResult (svHeap s e)) \<and>
       (\<exists>pol. map_of (svPolicies s) (ckKind (csOwner y e)) = Some pol \<and>
          ceValidUntil (svHeap s e) = ceFetchedAt (svHeap s e) + freshFor pol \<and>
          ceStaleUntil (svHeap s e) = ceFetchedAt (svHeap s e) + staleFor pol))"

definition cacheInv :: "(cacheKey \<Rightarrow> ProviderResult \<Rightarrow> bool) \<Rightarrow> cacheSystem \<Rightarrow> bool" where
  "cacheInv answers y \<longleftrightarrow> lruInv (csService y) \<and> entryInv y \<and> flightInv y \<and> waitInv y \<and> valueInv answers y"

lemmas cache_invs = cacheInv_def entryInv_def flightInv_def waitInv_def valueInv_def Let_def

subsection \<open>Every critical section keeps the invariant\<close>

lemma bump_inv [simp]:
  "cacheInv answers (y\<lparr>csService := bump f k s\<rparr>) = cacheInv answers (y\<lparr>csService := s\<rparr>)"
  by (simp add: cache_invs lruInv_def)

text \<open>Three of the invariants only depend on the heap, the channels and the policies.\<close>

lemma heap_cong:
  assumes "svHeap s' = svHeap (csService y)" "svNextEntry s' = svNextEntry (csService y)"
    "svPolicies s' = svPolicies (csService y)" "svNextChan s' = svNextChan (csService y)"
    "svClosedChans s' = svClosedChans (csService y)"
  shows "flightInv (y\<lparr>csService := s'\<rparr>) = flightInv y" "waitInv (y\<lparr>csService := s'\<rparr>) = waitInv y"
    "valueInv answers (y\<lparr>csService := s'\<rparr>) = valueInv answers y"
  by (simp_all add: flightInv_def waitInv_def valueInv_def Let_def assms)

lemma touch_inv [inv_intros]:
  assumes "cacheInv answers y"
  shows "cacheInv answers (y\<lparr>csService := touchLocationLocked k (csService y)\<rparr>)"
proof -
  let ?s = "csService y" and ?t = "touchLocationLocked k (csService y)"
  have l: "lruInv ?s" using assms by (simp add: cacheInv_def)
  then have d: "distinct (map fst (svEntries ?s))" by (simp add: lruInv_def)
  have sub: "map_of (svEntries ?t) x = Some e \<Longrightarrow> map_of (svEntries ?s) x = Some e" for x e
    using touch_exact(3) [OF l, of k] map_of_filter_distinct [OF d]
    by (auto split: option.splits if_splits)
  have "entryInv (y\<lparr>csService := ?t\<rparr>)"
    using assms sub by (auto simp: cacheInv_def entryInv_def Let_def)
  then show ?thesis
    using assms touch_exact(2) [OF l] by (simp add: cacheInv_def heap_cong)
qed

lemma lookup_inv [inv_intros]:
  assumes inv: "cacheInv answers y" and res: "ckLocation key \<in> set (svLru (csService y))"
    and look: "lookupEntry key (csService y) = (e, s')"
  shows "cacheInv answers (y\<lparr>csService := s', csOwner := (csOwner y)(e := key)\<rparr>)"
    and "e < svNextEntry s'"
proof -
  let ?s = "csService y"
  have l: "lruInv s'" using lookupEntry_lruInv [OF _ res look] inv by (simp add: cacheInv_def)
  show "cacheInv answers (y\<lparr>csService := s', csOwner := (csOwner y)(e := key)\<rparr>)"
  proof (cases "map_of (svEntries ?s) key")
    case (Some e')
    then have "s' = ?s" "e = e'" using look by (simp_all add: lookupEntry_def)
    moreover have "csOwner y e' = key" using inv Some by (auto simp: cacheInv_def entryInv_def Let_def)
    ultimately have "y\<lparr>csService := s', csOwner := (csOwner y)(e := key)\<rparr> = y" by (simp add: fun_upd_idem)
    then show ?thesis using inv by simp
  next
    case None
    then have e: "e = svNextEntry ?s" using look by (simp add: lookupEntry_def)
    have s': "s' = ?s\<lparr>svEntries := AList.update key (svNextEntry ?s) (svEntries ?s),
        svHeap := (svHeap ?s)(svNextEntry ?s := newEntry), svNextEntry := Suc (svNextEntry ?s)\<rparr>"
      using look None by (auto simp: lookupEntry_def)
    let ?y = "y\<lparr>csService := s', csOwner := (csOwner y)(e := key)\<rparr>"
    have en: "x < svNextEntry ?s \<and> csOwner y x = k" if "map_of (svEntries ?s) k = Some x" for k x
      using inv that by (auto simp: cacheInv_def entryInv_def Let_def)
    have "entryInv ?y" unfolding entryInv_def Let_def
    proof (intro allI impI)
      fix k x
      assume "map_of (svEntries (csService ?y)) k = Some x"
      then have "k = key \<and> x = e \<or> k \<noteq> key \<and> map_of (svEntries ?s) k = Some x"
        by (auto simp: s' e split: if_splits)
      then show "x < svNextEntry (csService ?y) \<and> csOwner ?y x = k"
        using en [of k x] by (auto simp: s' e)
    qed
    moreover have hp: "svHeap s' x = svHeap ?s x" "csOwner ?y x = csOwner y x" if "x < svNextEntry ?s" for x
      using that by (simp_all add: s' e)
    moreover have nw: "svHeap s' e = newEntry" "svNextEntry s' = Suc e" "e = svNextEntry ?s"
      "svNextChan s' = svNextChan ?s" "svClosedChans s' = svClosedChans ?s" "svPolicies s' = svPolicies ?s"
      by (simp_all add: s' e)
    moreover have "flightInv ?y"
      using inv hp nw by (auto simp: cacheInv_def flightInv_def Let_def less_Suc_eq newEntry_def)
    moreover have "waitInv ?y"
    proof -
      have w: "waitInv y" using inv by (simp add: cacheInv_def)
      then have "waitOK (Suc e) (svNextChan ?s) (set (svClosedChans ?s)) (\<lambda>x. ceWait (svHeap s' x))"
        using hp nw by (intro waitOK_new) (auto simp: waitInv_def Let_def newEntry_def)
      then show ?thesis
        using w hp nw by (auto simp: waitInv_def Let_def less_Suc_eq newEntry_def)
    qed
    moreover have "valueInv answers ?y"
      using inv hp nw by (auto simp: cacheInv_def valueInv_def Let_def less_Suc_eq newEntry_def)
    ultimately show ?thesis using l by (simp add: cacheInv_def)
  qed
  show "e < svNextEntry s'"
    using look inv by (auto simp: lookupEntry_def cacheInv_def entryInv_def Let_def split: option.splits)
qed

lemma beginRefresh_fields [simp]:
  "svSource (beginRefreshLocked e s) = svSource s" "svPolicies (beginRefreshLocked e s) = svPolicies s"
  "svMaximum (beginRefreshLocked e s) = svMaximum s" "svEntries (beginRefreshLocked e s) = svEntries s"
  "svNextEntry (beginRefreshLocked e s) = svNextEntry s" "svClosedChans (beginRefreshLocked e s) = svClosedChans s"
  "svLocations (beginRefreshLocked e s) = svLocations s" "svLru (beginRefreshLocked e s) = svLru s"
  "svNextChan (beginRefreshLocked e s) = Suc (svNextChan s)"
  by (simp_all add: beginRefreshLocked_def)

lemma begin_lruInv [simp]: "lruInv (beginRefreshLocked e s) = lruInv s"
  by (simp add: lruInv_def)

lemma begin_inv [inv_intros]:
  assumes inv: "cacheInv answers y" and e: "e < svNextEntry (csService y)"
    and idle: "\<not> ceRefreshing (svHeap (csService y) e)"
    and own: "csOwner y e = keyOf kind point" and pol: "map_of (svPolicies (csService y)) kind = Some pol"
  shows "cacheInv answers (y\<lparr>csService := beginRefreshLocked e (csService y),
    csFetches := \<lparr>feEntry = e, fePoint = point, feKind = kind, fePolicy = pol\<rparr> # csFetches y\<rparr>)"
proof -
  let ?y = "y\<lparr>csService := beginRefreshLocked e (csService y),
    csFetches := \<lparr>feEntry = e, fePoint = point, feKind = kind, fePolicy = pol\<rparr> # csFetches y\<rparr>"
  have "lruInv (csService ?y)" "entryInv ?y"
    using inv by (simp_all add: cacheInv_def entryInv_def Let_def)
  moreover have "flightInv ?y"
    using inv e idle own pol by (auto simp: cacheInv_def flightInv_def Let_def beginRefreshLocked_def)
  moreover have "waitInv ?y"
  proof -
    let ?s = "csService y"
    have w: "waitInv y" using inv by (simp add: cacheInv_def)
    have ne: "ceWait (svHeap ?s e) = None" using w e idle by (simp add: waitInv_def Let_def)
    have "waitOK (svNextEntry ?s) (Suc (svNextChan ?s)) (set (svClosedChans ?s))
        (\<lambda>x. ceWait (svHeap (csService ?y) x))"
      by (rule waitOK_begin [OF _ e, of _ _ "\<lambda>x. ceWait (svHeap ?s x)"])
        (use w ne in \<open>simp_all add: waitInv_def Let_def beginRefreshLocked_def\<close>)
    then show ?thesis
      using w by (auto simp: waitInv_def Let_def beginRefreshLocked_def)
  qed
  moreover have "valueInv answers ?y"
    using inv by (auto simp: cacheInv_def valueInv_def Let_def beginRefreshLocked_def)
  ultimately show ?thesis by (simp add: cacheInv_def)
qed

lemma finishRefresh_fields [simp]:
  "svSource (finishRefresh now j e k p r s) = svSource s"
  "svPolicies (finishRefresh now j e k p r s) = svPolicies s"
  "svMaximum (finishRefresh now j e k p r s) = svMaximum s"
  "svEntries (finishRefresh now j e k p r s) = svEntries s"
  "svNextEntry (finishRefresh now j e k p r s) = svNextEntry s"
  "svNextChan (finishRefresh now j e k p r s) = svNextChan s"
  "svLocations (finishRefresh now j e k p r s) = svLocations s"
  "svLru (finishRefresh now j e k p r s) = svLru s"
  "svClosedChans (finishRefresh now j e k p r s) =
     (case ceWait (svHeap s e) of None \<Rightarrow> [] | Some c \<Rightarrow> [c]) @ svClosedChans s"
  by (simp_all add: finishRefresh_def Let_def split: sum.split)

lemma finishRefresh_other [simp]:
  "e' \<noteq> e \<Longrightarrow> svHeap (finishRefresh now j e k p r s) e' = svHeap s e'"
  by (simp add: finishRefresh_def Let_def split: sum.split)

lemma finishRefresh_entry [simp]:
  "ceRefreshing (svHeap (finishRefresh now j e k p r s) e) = False"
  "ceWait (svHeap (finishRefresh now j e k p r s) e) = None"
  by (simp_all add: finishRefresh_def Let_def split: sum.split)

lemma finishRefresh_success:
  "svHeap (finishRefresh now j e k p (Inr res) s) e = (svHeap s e)\<lparr>ceResult := res, ceFetchedAt := now,
     ceValidUntil := now + freshFor p, ceStaleUntil := now + staleFor p, ceHasValue := True,
     ceLastError := None, ceRetryAfter := zero_time, ceFailures := 0, ceRefreshing := False, ceWait := None\<rparr>"
  by (simp add: finishRefresh_def Let_def)

lemma finishRefresh_failure:
  "svHeap (finishRefresh now j e k p (Inl err) s) e = (svHeap s e)\<lparr>ceLastError := Some err,
     ceFailures := Suc (ceFailures (svHeap s e)),
     ceRetryAfter := now + retryDelay err (Suc (ceFailures (svHeap s e))) j,
     ceRefreshing := False, ceWait := None\<rparr>"
  by (simp add: finishRefresh_def Let_def)

lemma finish_lruInv [simp]: "lruInv (finishRefresh now j e k p r s) = lruInv s"
  by (simp add: lruInv_def)

lemma finish_inv [inv_intros]:
  assumes inv: "cacheInv answers y" and f: "f \<in> set (csFetches y)"
    and ans: "\<And>res. result = Inr res \<Longrightarrow> answers (keyOf (feKind f) (fePoint f)) res"
  shows "cacheInv answers (y\<lparr>csService :=
      finishRefresh now jitter (feEntry f) (feKind f) (fePolicy f) result (csService y),
    csFetches := remove1 f (csFetches y)\<rparr>)" (is "cacheInv answers ?y")
proof -
  let ?s = "csService y" and ?e = "feEntry f"
  have fl: "flightInv y" and w: "waitInv y" and v: "valueInv answers y" using inv by (simp_all add: cacheInv_def)
  have e: "?e < svNextEntry ?s" and own: "csOwner y ?e = keyOf (feKind f) (fePoint f)"
    and pol: "map_of (svPolicies ?s) (feKind f) = Some (fePolicy f)" and ref: "ceRefreshing (svHeap ?s ?e)"
    using fl f by (auto simp: flightInv_def Let_def)
  have d: "distinct (map feEntry (csFetches y))" using fl by (simp add: flightInv_def Let_def)
  have rm: "feEntry ` set (remove1 f (csFetches y)) = feEntry ` set (csFetches y) - {?e}"
    using d f by (auto simp: distinct_map inj_on_def)
  have "lruInv (csService ?y)" "entryInv ?y"
    using inv by (simp_all add: cacheInv_def entryInv_def Let_def)
  moreover have "flightInv ?y"
  proof -
    have "distinct (map feEntry (remove1 f (csFetches y)))"
      using d by (simp add: distinct_map inj_on_diff)
    moreover have "ceRefreshing (svHeap (csService ?y) e) \<longleftrightarrow> e \<in> feEntry ` set (csFetches ?y)"
      if "e < svNextEntry ?s" for e
      using fl that rm by (cases "e = ?e") (auto simp: flightInv_def Let_def)
    moreover have "set (remove1 f (csFetches y)) \<subseteq> set (csFetches y)" by (rule set_remove1_subset)
    ultimately show ?thesis using fl by (auto simp: flightInv_def Let_def)
  qed
  moreover have "waitInv ?y"
  proof -
    obtain c where c: "ceWait (svHeap ?s ?e) = Some c" using w e ref by (auto simp: waitInv_def Let_def)
    have hw: "ceWait (svHeap (csService ?y) x) = (if x = ?e then None else ceWait (svHeap ?s x))"
      and hr: "ceRefreshing (svHeap (csService ?y) x) = (if x = ?e then False else ceRefreshing (svHeap ?s x))" for x
      by simp_all
    have "waitOK (svNextEntry ?s) (svNextChan ?s) (insert c (set (svClosedChans ?s)))
        (\<lambda>x. ceWait (svHeap (csService ?y) x))"
      by (rule waitOK_finish [OF _ e, of _ _ "\<lambda>x. ceWait (svHeap ?s x)"])
        (use w c hw in \<open>simp_all add: waitInv_def Let_def\<close>)
    then show ?thesis
      using w hw hr by (simp add: waitInv_def Let_def c)
  qed
  moreover have "valueInv answers ?y"
  proof (cases result)
    case (Inr res)
    show ?thesis unfolding valueInv_def Let_def
    proof (intro allI impI)
      fix x
      assume x: "x < svNextEntry (csService ?y)" "ceHasValue (svHeap (csService ?y) x)"
      show "answers (csOwner ?y x) (ceResult (svHeap (csService ?y) x)) \<and>
        (\<exists>pol. map_of (svPolicies (csService ?y)) (ckKind (csOwner ?y x)) = Some pol \<and>
          ceValidUntil (svHeap (csService ?y) x) = ceFetchedAt (svHeap (csService ?y) x) + freshFor pol \<and>
          ceStaleUntil (svHeap (csService ?y) x) = ceFetchedAt (svHeap (csService ?y) x) + staleFor pol)"
      proof (cases "x = ?e")
        case True
        then show ?thesis using own pol ans [OF Inr] by (simp add: Inr finishRefresh_success keyOf_def)
      next
        case False
        then show ?thesis using v x by (simp add: valueInv_def Let_def)
      qed
    qed
  next
    case (Inl err)
    have "ceHasValue (svHeap (csService ?y) x) = ceHasValue (svHeap ?s x)"
      "ceResult (svHeap (csService ?y) x) = ceResult (svHeap ?s x)"
      "ceFetchedAt (svHeap (csService ?y) x) = ceFetchedAt (svHeap ?s x)"
      "ceValidUntil (svHeap (csService ?y) x) = ceValidUntil (svHeap ?s x)"
      "ceStaleUntil (svHeap (csService ?y) x) = ceStaleUntil (svHeap ?s x)" for x
      by (cases "x = ?e"; simp add: Inl finishRefresh_failure)+
    then show ?thesis using v by (simp add: valueInv_def Let_def)
  qed
  ultimately show ?thesis by (simp add: cacheInv_def)
qed

subsection \<open>One pass of \<open>Get\<close>\<close>

text \<open>The state a pass works on: the location touched, the entry found or created.\<close>

definition located :: "Kind \<Rightarrow> Point \<Rightarrow> Service \<Rightarrow> nat \<times> Service" where
  "located kind point s = lookupEntry (keyOf kind point) (touchLocationLocked (CacheKey point) s)"

lemma located_inv:
  assumes inv: "cacheInv answers y" and loc: "located kind point (csService y) = (e, s)"
  shows "cacheInv answers (y\<lparr>csService := s, csOwner := (csOwner y)(e := keyOf kind point)\<rparr>)"
    and "e < svNextEntry s" and "map_of (svEntries s) (keyOf kind point) = Some e"
    and "svPolicies s = svPolicies (csService y)" and "svSource s = svSource (csService y)"
proof -
  let ?y = "y\<lparr>csService := touchLocationLocked (CacheKey point) (csService y)\<rparr>"
  have t: "cacheInv answers ?y" using inv by (rule touch_inv)
  have f: "ckLocation (keyOf kind point) \<in> set (svLru (csService ?y))"
    using touch_front [of "csService y" "CacheKey point"] inv by (simp add: cacheInv_def keyOf_def)
  have look: "lookupEntry (keyOf kind point) (csService ?y) = (e, s)" using loc by (simp add: located_def)
  show "cacheInv answers (y\<lparr>csService := s, csOwner := (csOwner y)(e := keyOf kind point)\<rparr>)"
    using lookup_inv(1) [OF t f look] by simp
  show "e < svNextEntry s" using lookup_inv(2) [OF t f look] .
  show "map_of (svEntries s) (keyOf kind point) = Some e" using lookupEntry_fields(8) [OF look] .
  show "svPolicies s = svPolicies (csService y)" "svSource s = svSource (csService y)"
    using lookupEntry_fields(1,2) [OF look] by simp_all
qed

text \<open>The outcome by the state of the entry, one case per branch of the loop body.\<close>

lemma getIterate_cases:
  assumes get: "getIterate now kind point s = (out, s')" and loc: "located kind point s = (e, s1)"
  obtains (fresh) "ceHasValue (svHeap s1 e)" "now < ceValidUntil (svHeap s1 e)"
      "out = GetFresh (envelopeFrom (svHeap s1 e) point (svSource s1) False)"
      "s' = bump (\<lambda>c. c\<lparr>kcFreshHits := Suc (kcFreshHits c)\<rparr>) kind s1"
  | (refresh) "ceHasValue (svHeap s1 e)" "\<not> now < ceValidUntil (svHeap s1 e)" "now < ceStaleUntil (svHeap s1 e)"
      "\<not> ceRefreshing (svHeap s1 e)" "\<not> now < ceRetryAfter (svHeap s1 e)"
      "out = GetStale (envelopeFrom (svHeap s1 e) point (svSource s1) True) (Some e)"
      "s' = beginRefreshLocked e (bump (\<lambda>c. c\<lparr>kcStaleHits := Suc (kcStaleHits c)\<rparr>) kind s1)"
  | (stale) "ceHasValue (svHeap s1 e)" "\<not> now < ceValidUntil (svHeap s1 e)" "now < ceStaleUntil (svHeap s1 e)"
      "ceRefreshing (svHeap s1 e) \<or> now < ceRetryAfter (svHeap s1 e)"
      "out = GetStale (envelopeFrom (svHeap s1 e) point (svSource s1) True) None"
      "s' = bump (\<lambda>c. c\<lparr>kcStaleHits := Suc (kcStaleHits c)\<rparr>) kind s1"
  | (cooling) "\<not> (ceHasValue (svHeap s1 e) \<and> (now < ceValidUntil (svHeap s1 e) \<or> now < ceStaleUntil (svHeap s1 e)))"
      "\<not> ceRefreshing (svHeap s1 e)" "now < ceRetryAfter (svHeap s1 e)"
      "out = GetUnavailable (ceLastError (svHeap s1 e))" "s' = s1"
  | (wait) "\<not> (ceHasValue (svHeap s1 e) \<and> (now < ceValidUntil (svHeap s1 e) \<or> now < ceStaleUntil (svHeap s1 e)))"
      "ceRefreshing (svHeap s1 e)" "out = GetWait (the (ceWait (svHeap s1 e)))" "s' = s1"
  | (sync) "\<not> (ceHasValue (svHeap s1 e) \<and> (now < ceValidUntil (svHeap s1 e) \<or> now < ceStaleUntil (svHeap s1 e)))"
      "\<not> ceRefreshing (svHeap s1 e)" "\<not> now < ceRetryAfter (svHeap s1 e)"
      "out = GetFetch e" "s' = beginRefreshLocked e s1"
proof -
  have g: "getIterate now kind point s =
    (let entry = svHeap s1 e
      in if ceHasValue entry \<and> now < ceValidUntil entry then
           (GetFresh (envelopeFrom entry point (svSource s1) False),
            bump (\<lambda>c. c\<lparr>kcFreshHits := Suc (kcFreshHits c)\<rparr>) kind s1)
         else if ceHasValue entry \<and> now < ceStaleUntil entry then
           (let s = bump (\<lambda>c. c\<lparr>kcStaleHits := Suc (kcStaleHits c)\<rparr>) kind s1
            in if \<not> ceRefreshing entry \<and> \<not> now < ceRetryAfter entry
               then (GetStale (envelopeFrom entry point (svSource s) True) (Some e), beginRefreshLocked e s)
               else (GetStale (envelopeFrom entry point (svSource s) True) None, s))
         else if \<not> ceRefreshing entry \<and> now < ceRetryAfter entry then (GetUnavailable (ceLastError entry), s1)
         else if ceRefreshing entry then (GetWait (the (ceWait entry)), s1)
         else (GetFetch e, beginRefreshLocked e s1))"
    using loc by (simp add: getIterate_def located_def keyOf_def Let_def)
  let ?E = "svHeap s1 e"
  show thesis
  proof (cases "ceHasValue ?E \<and> now < ceValidUntil ?E")
    case True
    then show ?thesis using get by (intro fresh) (simp_all add: g)
  next
    case old: False
    show ?thesis
    proof (cases "ceHasValue ?E \<and> now < ceStaleUntil ?E")
      case True
      show ?thesis
      proof (cases "\<not> ceRefreshing ?E \<and> \<not> now < ceRetryAfter ?E")
        case ref: True
        show ?thesis using get True old ref by (intro refresh) (simp_all add: g Let_def)
      next
        case False
        then show ?thesis using get True old by (intro stale) (auto simp: g Let_def split: if_splits)
      qed
    next
      case False
      with old have none: "\<not> (ceHasValue ?E \<and> (now < ceValidUntil ?E \<or> now < ceStaleUntil ?E))" by blast
      show ?thesis
      proof (cases "ceRefreshing ?E")
        case True
        then show ?thesis using get none old False by (intro wait) (auto simp: g)
      next
        case idle: False
        show ?thesis
        proof (cases "now < ceRetryAfter ?E")
          case True
          then show ?thesis using get none old False idle by (intro cooling) (auto simp: g)
        next
          case late: False
          show ?thesis using get none old False idle late by (intro sync) (auto simp: g)
        qed
      qed
    qed
  qed
qed

lemma bump_keeps: "cacheInv answers y \<Longrightarrow> cacheInv answers (y\<lparr>csService := bump f k (csService y)\<rparr>)"
  by simp

lemma iterate_inv:
  assumes inv: "cacheInv answers y" and pol: "map_of (svPolicies (csService y)) kind = Some pol"
    and get: "getIterate now kind point (csService y) = (out, s')"
  shows "cacheInv answers (y\<lparr>csService := s', csFetches := startedFetch kind point pol out @ csFetches y,
    csOwner := (csOwner y)(the (map_of (svEntries s') (keyOf kind point)) := keyOf kind point)\<rparr>)"
proof -
  obtain e s1 where loc: "located kind point (csService y) = (e, s1)" by force
  note li = located_inv [OF inv loc]
  obtain z where z: "z = y\<lparr>csService := s1, csOwner := (csOwner y)(e := keyOf kind point)\<rparr>" by blast
  have zinv: "cacheInv answers z" and zs: "csService z = s1" and zo: "csOwner z e = keyOf kind point"
    using li(1) by (simp_all add: z)
  have pol1: "map_of (svPolicies s1) kind = Some pol" using pol li(4) by simp
  let ?f = "\<lparr>feEntry = e, fePoint = point, feKind = kind, fePolicy = pol\<rparr>"
  have started: "cacheInv answers (w\<lparr>csService := beginRefreshLocked e (csService w), csFetches := ?f # csFetches w\<rparr>)"
    if "w = z \<or> w = z\<lparr>csService := bump f kind (csService z)\<rparr>" and "\<not> ceRefreshing (svHeap s1 e)" for w f
  proof (rule begin_inv)
    show "cacheInv answers w" using that(1) zinv bump_keeps [OF zinv] by blast
  qed (use that li(2) pol1 zs zo in auto)
  have upd: "y\<lparr>csService := s, csFetches := fs, csOwner := (csOwner y)(e := keyOf kind point)\<rparr> =
      z\<lparr>csService := s, csFetches := fs\<rparr>" for s fs
    by (cases y) (simp add: z)
  have keep: "y\<lparr>csService := s', csOwner := (csOwner y)(e := keyOf kind point)\<rparr> = z\<lparr>csService := s'\<rparr>"
    by (cases y) (simp add: z)
  have zz: "z\<lparr>csService := s1\<rparr> = z" by (simp add: z)
  have zf: "csFetches z = csFetches y" by (simp add: z)
  show ?thesis
    using get loc
  proof (cases rule: getIterate_cases)
    case fresh
    then show ?thesis using li(3) bump_keeps [OF zinv] keep zs by simp
  next
    case refresh
    then show ?thesis using li(3) started [of "z\<lparr>csService := bump f kind (csService z)\<rparr>" f for f]
      by (simp add: upd zs zf)
  next
    case stale
    then show ?thesis using li(3) bump_keeps [OF zinv] keep zs by simp
  next
    case cooling
    then show ?thesis using li(3) zinv keep zz by simp
  next
    case wait
    then show ?thesis using li(3) zinv keep zz by simp
  next
    case sync
    then show ?thesis using li(3) started [of z] by (simp add: upd zs zf)
  qed
qed

lemma cacheStep_inv: "cacheStep answers y y' \<Longrightarrow> cacheInv answers y \<Longrightarrow> cacheInv answers y'"
proof (induction rule: cacheStep.induct)
  case (enter kind y pol s')
  then show ?case by (auto simp: getEnter_def split: option.splits)
next
  case (iterate y kind pol now point out s')
  then show ?case by (intro iterate_inv)
next
  case (finish f y result now jitter)
  then show ?case by (intro finish_inv)
qed

lemma NewService_inv: "1 \<le> coMaxLocations options \<Longrightarrow>
    cacheInv answers \<lparr>csService = NewService src started options, csFetches = [], csOwner = w\<rparr>"
  by (simp add: cacheInv_def lruInv_def entryInv_def flightInv_def waitInv_def waitOK_def valueInv_def
      NewService_def)

lemma cacheReachable_inv:
  "cacheReachable answers options y \<Longrightarrow> 1 \<le> coMaxLocations options \<Longrightarrow> cacheInv answers y"
  by (induction rule: cacheReachable.induct) (auto intro: NewService_inv cacheStep_inv)

lemma cacheStep_config:
  "cacheStep answers y y' \<Longrightarrow> svPolicies (csService y') = svPolicies (csService y) \<and>
     svMaximum (csService y') = svMaximum (csService y)"
proof (induction rule: cacheStep.induct)
  case (enter kind y pol s')
  then show ?case by (auto simp: getEnter_def split: option.splits)
next
  case (iterate y kind pol now point out s')
  obtain e s1 where loc: "located kind point (csService y) = (e, s1)" by force
  then have "svPolicies s1 = svPolicies (csService y)" "svMaximum s1 = svMaximum (csService y)"
    unfolding located_def by (auto dest: lookupEntry_fields)
  from iterate(2) loc this show ?case by (cases rule: getIterate_cases) simp_all
qed simp

lemma cacheReachable_config:
  "cacheReachable answers options y \<Longrightarrow> svMaximum (csService y) = coMaxLocations options \<and>
     svPolicies (csService y) = svPolicies (NewService src started options)"
  by (induction rule: cacheReachable.induct) (auto dest: cacheStep_config simp: NewService_def)

subsection \<open>Retry delays\<close>

lemma retry_constants: "initialRetryDelay = 5000000000" "maximumRetryDelay = 300000000000"
  by (simp_all add: initialRetryDelay_def maximumRetryDelay_def duration_defs)

lemma backoff_closed:
  "0 < d \<Longrightarrow> d \<le> 2 * maximumRetryDelay \<Longrightarrow>
   min maximumRetryDelay (backoff n d) = min maximumRetryDelay (d * 2 ^ n)"
proof (induction n arbitrary: d)
  case (Suc n)
  show ?case
  proof (cases "d < maximumRetryDelay")
    case True
    then have "int64 (d * 2) = d * 2" using Suc.prems by (intro int64_id) (simp_all add: retry_constants)
    then have "backoff (Suc n) d = backoff n (d * 2)" using True by simp
    then show ?thesis using Suc.IH [of "d * 2"] Suc.prems True by (simp add: mult.assoc)
  next
    case False
    have "(1::int) \<le> 2 ^ Suc n" by (rule one_le_power) simp
    then have "d * 1 \<le> d * 2 ^ Suc n" using Suc.prems(1) by (intro mult_left_mono) auto
    then show ?thesis using False by simp
  qed
qed simp

lemma retryDelay_backoff:
  assumes "peRetryDelay err = None" "1 \<le> n"
  shows "retryDelay err n jitter = jitter (min maximumRetryDelay (initialRetryDelay * 2 ^ (n - 1)))"
proof -
  have "min maximumRetryDelay (backoff (n - 1) initialRetryDelay) =
      min maximumRetryDelay (initialRetryDelay * 2 ^ (n - 1))"
    by (rule backoff_closed) (simp_all add: retry_constants)
  moreover have "(if maximumRetryDelay < d then maximumRetryDelay else d) = min maximumRetryDelay d" for d
    by simp
  ultimately show ?thesis using assms by (simp add: retryDelay_def Let_def)
qed

lemma retryDelay_advised:
  "peRetryDelay err = Some d \<Longrightarrow> 0 < d \<Longrightarrow> retryDelay err n jitter = d"
  by (simp add: retryDelay_def)

lemma jitterDelay_bounds:
  assumes "0 < d" "d \<le> maximumRetryDelay"
  shows "d * 80 div 100 \<le> jitterDelay w d" and "jitterDelay w d \<le> maximumRetryDelay"
    and "jitterDelay w d * 100 \<le> d * 120"
proof -
  have i: "int64 (d * 80) = d * 80" "int64 (d * 40) = d * 40"
    using assms by (simp_all add: retry_constants)
  have m: "0 \<le> uint x mod (d * 40 div 100 + 1)" "uint x mod (d * 40 div 100 + 1) \<le> d * 40 div 100"
    for x :: "64 word"
  proof -
    have p: "0 < d * 40 div 100 + 1" using assms(1) by (simp add: pos_imp_zdiv_nonneg_iff add_nonneg_pos)
    show "0 \<le> uint x mod (d * 40 div 100 + 1)" using p by simp
    show "uint x mod (d * 40 div 100 + 1) \<le> d * 40 div 100" using pos_mod_bound [OF p, of "uint x"] by simp
  qed
  have le: "d * 80 div 100 \<le> d" using assms(1) by simp
  have fl: "x div 100 * 100 \<le> x" for x :: int
    using div_mult_mod_eq [of x 100] pos_mod_sign [of 100 x] by linarith
  have sum: "(d * 80 div 100 + d * 40 div 100) * 100 \<le> d * 120" "d * 100 \<le> d * 120"
    using fl [of "d * 80"] fl [of "d * 40"] assms(1) by (simp_all add: distrib_right)
  show "d * 80 div 100 \<le> jitterDelay w d"
  proof (cases w)
    case (Some x)
    then show ?thesis using m(1) [of x] le assms(2) unfolding jitterDelay_def Let_def i
      by (simp only: option.case split: if_splits) linarith
  qed (use le in \<open>simp add: jitterDelay_def Let_def\<close>)
  show "jitterDelay w d \<le> maximumRetryDelay"
    using assms by (simp add: jitterDelay_def Let_def split: option.split)
  show "jitterDelay w d * 100 \<le> d * 120"
  proof (cases w)
    case (Some x)
    have "jitterDelay w d \<le> d * 80 div 100 + uint x mod (d * 40 div 100 + 1)"
      unfolding jitterDelay_def Let_def i Some by simp
    also have "\<dots> \<le> d * 80 div 100 + d * 40 div 100" using m(2) [of x] by linarith
    finally show ?thesis using sum(1) by linarith
  qed (use sum in \<open>simp add: jitterDelay_def Let_def\<close>)
qed

subsection \<open>Properties\<close>

text \<open>C6. Single flight and no lost wake-up. In every reachable state of the cache, however requests,
  evictions and provider calls interleave, each entry has at most one provider call under way, an
  entry is marked as refreshing exactly while that call runs, the call is for the entry's own key,
  and every channel a request may be waiting on is closed or will be closed by a running call.\<close>

theorem cache_single_flight:
  assumes "cacheReachable answers options y" and "1 \<le> coMaxLocations options"
  shows "distinct (map feEntry (csFetches y)) \<and>
    (\<forall>(key, e) \<in> set (svEntries (csService y)).
       ceRefreshing (svHeap (csService y) e) =
         (\<exists>f\<in>set (csFetches y). feEntry f = e \<and> keyOf (feKind f) (fePoint f) = key)) \<and>
    (\<forall>c < svNextChan (csService y). c \<in> set (svClosedChans (csService y)) \<or>
       (\<exists>f\<in>set (csFetches y). ceWait (svHeap (csService y) (feEntry f)) = Some c))"
proof -
  let ?s = "csService y"
  have inv: "cacheInv answers y" by (rule cacheReachable_inv [OF assms])
  then have en: "e < svNextEntry ?s \<and> csOwner y e = k" if "(k, e) \<in> set (svEntries ?s)" for k e
    using that map_of_eq_Some_iff [of "svEntries ?s"] by (auto simp: cacheInv_def entryInv_def lruInv_def Let_def)
  have fl: "ceRefreshing (svHeap ?s e) \<longleftrightarrow> e \<in> feEntry ` set (csFetches y)" if "e < svNextEntry ?s" for e
    using inv that by (simp add: cacheInv_def flightInv_def Let_def)
  have ow: "csOwner y (feEntry f) = keyOf (feKind f) (fePoint f)" if "f \<in> set (csFetches y)" for f
    using inv that by (simp add: cacheInv_def flightInv_def Let_def)
  have ok: "waitOK (svNextEntry ?s) (svNextChan ?s) (set (svClosedChans ?s)) (\<lambda>e. ceWait (svHeap ?s e))"
    using inv by (simp add: cacheInv_def waitInv_def Let_def)
  have w: "c \<in> set (svClosedChans ?s) \<or> (\<exists>e < svNextEntry ?s. ceWait (svHeap ?s e) = Some c)"
    if "c < svNextChan ?s" for c
    using waitOK_D(2) [OF ok that] by blast
  have wr: "ceWait (svHeap ?s e) = Some c \<Longrightarrow> e < svNextEntry ?s \<Longrightarrow> ceRefreshing (svHeap ?s e)" for e c
    using inv by (auto simp: cacheInv_def waitInv_def Let_def)
  have "distinct (map feEntry (csFetches y))" using inv by (simp add: cacheInv_def flightInv_def Let_def)
  moreover have "ceRefreshing (svHeap ?s e) =
      (\<exists>f\<in>set (csFetches y). feEntry f = e \<and> keyOf (feKind f) (fePoint f) = key)"
    if "(key, e) \<in> set (svEntries ?s)" for key e
    using en [OF that] fl [of e] ow by auto
  moreover have "c \<in> set (svClosedChans ?s) \<or> (\<exists>f\<in>set (csFetches y). ceWait (svHeap ?s (feEntry f)) = Some c)"
    if "c < svNextChan ?s" for c
    using w [OF that] wr fl by blast
  ultimately show ?thesis by auto
qed

definition sampleOptions :: CacheOptions where
  "sampleOptions = \<lparr>coCurrentTTL = 600, coCurrentStaleMax = 3600, coHourlyTTL = 1800,
     coHourlyStaleMax = 21600, coDailyTTL = 21600, coDailyStaleMax = 86400, coAlertsTTL = 300,
     coAlertsStaleMax = 900, coMaxLocations = 1\<rparr>"

definition sampleSource :: WeatherSource where
  "sampleSource = \<lparr>wsID = ''s'', wsName = ''S'', wsAttributionURL = ''u''\<rparr>"

definition bootSystem :: "(nat \<Rightarrow> cacheKey) \<Rightarrow> cacheSystem" where
  "bootSystem w = \<lparr>csService = NewService sampleSource 0 sampleOptions, csFetches = [], csOwner = w\<rparr>"

text \<open>A request for a location the cache does not know: the pass decides to fetch into entry 0.\<close>

definition fetchSystem :: "cacheSystem" where
  "fetchSystem =
     (let y = bootSystem (\<lambda>_. undefined);
          r = getIterate 100 KindDaily (gridPoint 1 2) (csService y)
      in y\<lparr>csService := snd r, csFetches := startedFetch KindDaily (gridPoint 1 2)
             \<lparr>freshFor = 21600, staleFor = 86400\<rparr> (fst r) @ csFetches y,
           csOwner := (csOwner y)(the (map_of (svEntries (snd r)) (keyOf KindDaily (gridPoint 1 2))) :=
             keyOf KindDaily (gridPoint 1 2))\<rparr>)"

lemma sample_get: "getIterate 100 KindDaily (gridPoint 1 2) (NewService sampleSource 0 sampleOptions) =
    (GetFetch 0, beginRefreshLocked 0 ((NewService sampleSource 0 sampleOptions)
      \<lparr>svLru := [CacheKey (gridPoint 1 2)], svLocations := [CacheKey (gridPoint 1 2)],
       svEntries := [(keyOf KindDaily (gridPoint 1 2), 0)], svHeap := (\<lambda>_. newEntry)(0 := newEntry),
       svNextEntry := 1\<rparr>))"
  by (simp add: getIterate_def NewService_def sampleOptions_def touchLocationLocked_def Let_def
      lookupEntry_def keyOf_def newEntry_def zero_time_def)

lemma fetchSystem_reachable: "cacheReachable (\<lambda>_ _. True) sampleOptions fetchSystem"
proof -
  let ?y = "bootSystem (\<lambda>_. undefined)"
  have b: "cacheReachable (\<lambda>_ _. True) sampleOptions ?y"
    unfolding bootSystem_def by (rule cacheReachable.initial)
  have p: "map_of (svPolicies (csService ?y)) KindDaily = Some \<lparr>freshFor = 21600, staleFor = 86400\<rparr>"
    by (simp add: bootSystem_def NewService_def sampleOptions_def kind_defs)
  have "cacheStep (\<lambda>_ _. True) ?y fetchSystem"
    unfolding fetchSystem_def Let_def by (rule cacheStep.iterate [OF p]) simp
  then show ?thesis by (rule cacheReachable.step [OF b])
qed

lemma fetchSystem_facts:
  "csFetches fetchSystem = [\<lparr>feEntry = 0, fePoint = gridPoint 1 2, feKind = KindDaily,
     fePolicy = \<lparr>freshFor = 21600, staleFor = 86400\<rparr>\<rparr>]"
  "svEntries (csService fetchSystem) = [(keyOf KindDaily (gridPoint 1 2), 0)]"
  "svNextChan (csService fetchSystem) = 1"
  by (simp_all add: fetchSystem_def bootSystem_def sample_get Let_def beginRefreshLocked_def)
    (simp_all add: NewService_def)

lemma cache_single_flight_witness:
  "ceRefreshing (svHeap (csService fetchSystem) 0) \<and>
   (0 \<in> set (svClosedChans (csService fetchSystem)) \<or> ceWait (svHeap (csService fetchSystem) 0) = Some 0)"
  using cache_single_flight [OF fetchSystem_reachable]
  by (simp add: fetchSystem_facts) (simp add: sampleOptions_def)



text \<open>C28. The location bound. In every reachable state at most \<open>MaxLocations\<close> locations are resident
  and every cached entry belongs to one of them; a request puts its location at the front of the
  list and drops exactly the locations beyond the bound, least recently used first.\<close>

theorem cache_lru_bound:
  assumes "cacheReachable answers options y" and "1 \<le> coMaxLocations options"
  shows "int (length (svLru (csService y))) \<le> coMaxLocations options \<and>
    set (svLru (csService y)) = set (svLocations (csService y)) \<and> distinct (svLru (csService y)) \<and>
    (\<forall>(key, e) \<in> set (svEntries (csService y)). ckLocation key \<in> set (svLru (csService y))) \<and>
    svLru (snd (getIterate now kind point (csService y))) =
      take (nat (coMaxLocations options)) (CacheKey point # removeAll (CacheKey point) (svLru (csService y)))"
proof -
  let ?s = "csService y"
  have l: "lruInv ?s" using cacheReachable_inv [OF assms] by (simp add: cacheInv_def)
  have m: "svMaximum ?s = coMaxLocations options" using cacheReachable_config [OF assms(1)] by simp
  obtain e s1 where loc: "located kind point ?s = (e, s1)" by force
  obtain out s' where get: "getIterate now kind point ?s = (out, s')" by force
  have "svLru s1 = svLru (touchLocationLocked (CacheKey point) ?s)"
    using loc lookupEntry_fields(4) by (simp add: located_def)
  moreover have "svLru s' = svLru s1"
    using get loc by (cases rule: getIterate_cases) simp_all
  ultimately have "svLru s' = take (nat (svMaximum ?s)) (CacheKey point # removeAll (CacheKey point) (svLru ?s))"
    using touch_exact(1) [OF l] by simp
  then show ?thesis using l m get by (auto simp: lruInv_def list_all_iff)
qed

lemma cache_lru_bound_witness:
  "svLru (snd (getIterate 300 KindDaily (gridPoint 3 4) (csService fetchSystem))) = [CacheKey (gridPoint 3 4)]"
  using cache_lru_bound [OF fetchSystem_reachable, of 300 KindDaily "gridPoint 3 4"]
  by (simp add: sampleOptions_def)

text \<open>Stale-if-error. A failed refresh keeps the cached result and its deadlines, opens the gate
  for waiting requests and starts a cool-down whose length is the provider's advice when it gives a
  positive one, and otherwise the jittered exponential back-off \<open>min (5 s * 2^(n-1)) (5 min)\<close> for the
  \<open>n\<close>-th failure in a row, between 80 percent of that value and 120 percent or five minutes; a
  success replaces the result and forgets the failures.\<close>

theorem finishRefresh_backoff:
  "let entry = svHeap s e; failed = svHeap (finishRefresh now (jitterDelay w) e kind pol (Inl err) s) e;
       stored = svHeap (finishRefresh now (jitterDelay w) e kind pol (Inr res) s) e;
       n = ceFailures entry; delay = ceRetryAfter failed - now;
       base = min (5 * minute) (5 * second * 2 ^ n)
   in ceResult failed = ceResult entry \<and> ceHasValue failed = ceHasValue entry \<and>
      ceFetchedAt failed = ceFetchedAt entry \<and> ceValidUntil failed = ceValidUntil entry \<and>
      ceStaleUntil failed = ceStaleUntil entry \<and> \<not> ceRefreshing failed \<and> ceFailures failed = Suc n \<and>
      (case peRetryDelay err of
         Some d \<Rightarrow> if 0 < d then delay = d else True
       | None \<Rightarrow> base * 80 div 100 \<le> delay \<and> delay * 100 \<le> base * 120 \<and> 0 < delay \<and> delay \<le> 5 * minute) \<and>
      ceResult stored = res \<and> ceHasValue stored \<and> ceFailures stored = 0 \<and>
      evData (getReturn e point (finishRefresh now (jitterDelay w) e kind pol (Inr res) s)) = prData res"
proof -
  let ?n = "ceFailures (svHeap s e)"
  let ?base = "min (5 * minute) (5 * second * 2 ^ ?n)"
  have c: "5 * minute = maximumRetryDelay" "5 * second = initialRetryDelay"
    by (simp_all add: maximumRetryDelay_def initialRetryDelay_def)
  have "(1::int) \<le> 2 ^ ?n" by simp
  then have b: "5 * second \<le> ?base" "?base \<le> maximumRetryDelay"
    by (simp_all add: duration_defs maximumRetryDelay_def)
  have b0: "0 < ?base" using b(1) by (simp add: duration_defs)
  have "?base * 80 div 100 \<le> jitterDelay w ?base \<and> jitterDelay w ?base * 100 \<le> ?base * 120 \<and>
      0 < jitterDelay w ?base \<and> jitterDelay w ?base \<le> 5 * minute"
  proof -
    have "5 * second * 80 div 100 \<le> ?base * 80 div 100" using b(1) by (intro zdiv_mono1) simp_all
    then have "0 < ?base * 80 div 100" by (simp add: duration_defs)
    then show ?thesis using jitterDelay_bounds [OF b0 b(2), of w] c by linarith
  qed
  moreover have "retryDelay err (Suc ?n) (jitterDelay w) = jitterDelay w ?base" if "peRetryDelay err = None"
    using retryDelay_backoff [OF that, of "Suc ?n"] c by simp
  ultimately show ?thesis
    by (simp add: Let_def finishRefresh_failure finishRefresh_success getReturn_def envelopeFrom_def
        retryDelay_advised split: option.split)
qed

end
