(* ===== verification/QWeatherClient.thy ===== *)
theory QWeatherClient
  imports WeatherCache
begin

section \<open>The QWeather client: \<open>client.go\<close>, \<open>jwt.go\<close> and \<open>geo.go\<close> of \<open>internal/providers/qweather\<close>\<close>

text \<open>
  The client classifies each HTTP exchange, retries once where that can help, and keeps a circuit
  (\<open>blockedUntil\<close>) that rate limits and credential failures of weather requests open. One exchange
  is a value of \<open>exchange\<close>: everything \<open>requestOnce\<close> observes of the network, of its context and of
  the clock. \<open>json.Unmarshal\<close> into a Go struct is a function argument.
\<close>

datatype contextError = ContextCanceled | ContextDeadlineExceeded

datatype ErrorClass = ErrorBadRequest | ErrorCredentials | ErrorRateLimit | ErrorServer | ErrorResponse

fun className :: "ErrorClass \<Rightarrow> bytes" where
  "className ErrorBadRequest = ''bad_request''"
| "className ErrorCredentials = ''credentials''"
| "className ErrorRateLimit = ''rate_limit''"
| "className ErrorServer = ''server''"
| "className ErrorResponse = ''response''"

record UpstreamError =
  ueHTTPStatus :: int
  ueCode :: bytes
  ueClass :: ErrorClass
  ueDelay :: duration

datatype clientError =
    ErrCircuitOpen
  | ErrClosed
  | ContextError contextError
  | Upstream UpstreamError
  | TimedOut
  | Failed bytes

definition maxResponseSize :: nat where "maxResponseSize = 1024 * 1024"
definition retryBaseDelay :: duration where "retryBaseDelay = 200 * millisecond"
definition maximumConcurrency :: nat where "maximumConcurrency = 8"
definition badRequestRetryDelay :: duration where "badRequestRetryDelay = 15 * minute"

text \<open>What the weather service sees of an error: \<open>DiagnosticClass\<close>, \<open>RetryDelay\<close>, context errors.\<close>

definition asProviderError :: "clientError \<Rightarrow> providerError" where
  "asProviderError e =
     (case e of
        Upstream u \<Rightarrow> \<lparr>peClass = Some (className (ueClass u)), peRetryDelay = Some (ueDelay u),
          peDeadlineExceeded = False, peCanceled = False\<rparr>
      | ContextError c \<Rightarrow> \<lparr>peClass = None, peRetryDelay = None,
          peDeadlineExceeded = (c = ContextDeadlineExceeded), peCanceled = (c = ContextCanceled)\<rparr>
      | TimedOut \<Rightarrow> \<lparr>peClass = None, peRetryDelay = None, peDeadlineExceeded = True, peCanceled = False\<rparr>
      | _ \<Rightarrow> \<lparr>peClass = None, peRetryDelay = None, peDeadlineExceeded = False, peCanceled = False\<rparr>)"

record Client =
  clCircuitCooldown :: duration
  clSlots :: nat
  clBlockedUntil :: time
  clClosed :: bool

definition clientReady :: "time \<Rightarrow> Client \<Rightarrow> clientError option" where
  "clientReady now c =
     (if clClosed c then Some ErrClosed
      else if now < clBlockedUntil c then Some ErrCircuitOpen else None)"

definition clientDiagnostics :: "time \<Rightarrow> Client \<Rightarrow> ProviderDiagnostics" where
  "clientDiagnostics now c =
     (if clClosed c then \<lparr>pdStatus = ''closed'', pdBlockedUntil = None\<rparr>
      else if now < clBlockedUntil c then \<lparr>pdStatus = ''blocked'', pdBlockedUntil = Some (clBlockedUntil c)\<rparr>
      else \<lparr>pdStatus = ''ready'', pdBlockedUntil = None\<rparr>)"

definition clientClose :: "Client \<Rightarrow> Client" where
  "clientClose c = c\<lparr>clClosed := True\<rparr>"

definition blockFor :: "time \<Rightarrow> duration \<Rightarrow> Client \<Rightarrow> Client" where
  "blockFor now delay c =
     (let until = now + delay
      in if clBlockedUntil c < until then c\<lparr>clBlockedUntil := until\<rparr> else c)"

text \<open>\<open>time.Duration(seconds) * time.Second\<close> is 64-bit arithmetic.\<close>

definition retryAfter :: "golib \<Rightarrow> bytes \<Rightarrow> time \<Rightarrow> duration" where
  "retryAfter L value now =
     (let limit = (\<lambda>delay. if 15 * minute < delay then 15 * minute else delay);
          byDate = (case HttpParseTime L value of
                      Some retryAt \<Rightarrow> if now < retryAt then limit (time_sub retryAt now) else minute
                    | None \<Rightarrow> minute)
      in case Atoi (TrimSpace value) of
           Some seconds \<Rightarrow> if 0 < seconds then limit (int64 (seconds * second)) else byDate
         | None \<Rightarrow> byDate)"

text \<open>The delay before the second attempt; \<open>None\<close> when \<open>rand.Read\<close> fails.\<close>

definition clientRetryDelay :: "64 word option \<Rightarrow> duration" where
  "clientRetryDelay random =
     (case random of None \<Rightarrow> retryBaseDelay
      | Some w \<Rightarrow> retryBaseDelay + uint w mod (100 * millisecond))"

subsection \<open>One exchange\<close>

record httpResponse =
  hrStatus :: int
  hrRetryAfter :: bytes
  hrBody :: bytes

datatype exchange =
    SigningFails
  | RequestInvalid
  | DoFails "contextError option" bool
  | ReadFails "contextError option" bool
  | Responds httpResponse

text \<open>An attempt: the exchange and the two clock readings the classification takes.\<close>

record attempt =
  atExchange :: exchange
  atNow :: time
  atBlockNow :: time

definition upstream :: "int \<Rightarrow> bytes \<Rightarrow> ErrorClass \<Rightarrow> duration \<Rightarrow> clientError" where
  "upstream status code cls delay =
     Upstream \<lparr>ueHTTPStatus = status, ueCode = code, ueClass = cls, ueDelay = delay\<rparr>"

text \<open>
  The classification of a response that was read completely. The result is the body or the error,
  whether a retry may help, and the client. \<open>decode\<close> is \<open>json.Unmarshal\<close> into \<open>commonResponse\<close>, of
  which only the code is used.
\<close>

definition classify :: "golib \<Rightarrow> (bytes \<Rightarrow> bytes option) \<Rightarrow> bool \<Rightarrow> attempt \<Rightarrow> httpResponse \<Rightarrow> Client \<Rightarrow>
    (clientError + bytes) \<times> bool \<times> Client" where
  "classify L decode circuitOnFailure a r c =
     (let open_for = (\<lambda>delay. if circuitOnFailure then blockFor (atBlockNow a) delay c else c);
          status = hrStatus r
      in if maxResponseSize < length (hrBody r) then (Inl (Failed ''qweather response exceeds 1 MiB''), False, c)
         else if status = 429 then
           (let delay = retryAfter L (hrRetryAfter r) (atNow a)
            in (Inl (upstream status [] ErrorRateLimit delay), False, open_for delay))
         else if status = 400 then (Inl (upstream status [] ErrorBadRequest badRequestRetryDelay), False, c)
         else if status = 401 \<or> status = 403 then
           (Inl (upstream status [] ErrorCredentials (clCircuitCooldown c)), False, open_for (clCircuitCooldown c))
         else if 500 \<le> status then (Inl (upstream status [] ErrorServer 0), True, c)
         else if status \<noteq> 200 then (Inl (upstream status [] ErrorResponse 0), False, c)
         else
           (case decode (hrBody r) of
              None \<Rightarrow> (Inl (Failed ''decode qweather status''), False, c)
            | Some code \<Rightarrow>
                if code = ''200'' then (Inr (hrBody r), False, c)
                else if code = ''400'' then (Inl (upstream 0 code ErrorBadRequest badRequestRetryDelay), False, c)
                else if code = ''401'' \<or> code = ''403'' then
                  (Inl (upstream 0 code ErrorCredentials (clCircuitCooldown c)), False,
                   open_for (clCircuitCooldown c))
                else if code = ''429'' then
                  (let delay = retryAfter L (hrRetryAfter r) (atNow a)
                   in (Inl (upstream 0 code ErrorRateLimit delay), False, open_for delay))
                else if HasPrefix code ''5'' then (Inl (upstream 0 code ErrorServer 0), True, c)
                else (Inl (upstream 0 code ErrorResponse 0), False, c)))"

definition requestOnce :: "golib \<Rightarrow> (bytes \<Rightarrow> bytes option) \<Rightarrow> bool \<Rightarrow> attempt \<Rightarrow> Client \<Rightarrow>
    (clientError + bytes) \<times> bool \<times> Client" where
  "requestOnce L decode circuitOnFailure a c =
     (case atExchange a of
        SigningFails \<Rightarrow> (Inl (Failed ''sign qweather request''), False, c)
      | RequestInvalid \<Rightarrow> (Inl (Failed ''invalid request''), False, c)
      | DoFails (Some e) _ \<Rightarrow> (Inl (ContextError e), False, c)
      | DoFails None True \<Rightarrow> (Inl TimedOut, True, c)
      | DoFails None False \<Rightarrow> (Inl (Failed ''qweather network request failed''), True, c)
      | ReadFails (Some e) _ \<Rightarrow> (Inl (ContextError e), False, c)
      | ReadFails None True \<Rightarrow> (Inl TimedOut, True, c)
      | ReadFails None False \<Rightarrow> (Inl (Failed ''qweather response read failed''), True, c)
      | Responds r \<Rightarrow> classify L decode circuitOnFailure a r c)"

text \<open>
  The loop of \<open>requestWithQuery\<close>; \<open>attempts\<close> gives what attempt \<open>i\<close> meets and \<open>sleeps\<close> whether the
  context ends during the delay after it. Fuel 2 is the loop bound of the code.
\<close>

fun requestLoop :: "golib \<Rightarrow> (bytes \<Rightarrow> bytes option) \<Rightarrow> bool \<Rightarrow> (nat \<Rightarrow> attempt) \<Rightarrow> (nat \<Rightarrow> contextError option) \<Rightarrow>
    nat \<Rightarrow> nat \<Rightarrow> Client \<Rightarrow> (clientError + bytes) \<times> nat \<times> Client" where
  "requestLoop L decode circ attempts sleeps 0 i c = (Inl (Failed ''qweather request failed''), i, c)"
| "requestLoop L decode circ attempts sleeps (Suc fuel) i c =
     (case requestOnce L decode circ (attempts i) c of
        (Inr body, _, c) \<Rightarrow> (Inr body, Suc i, c)
      | (Inl e, retry, c) \<Rightarrow>
          if \<not> retry \<or> i = 1 then (Inl e, Suc i, c)
          else
            (case sleeps i of
               Some x \<Rightarrow> (Inl (ContextError x), Suc i, c)
             | None \<Rightarrow> requestLoop L decode circ attempts sleeps fuel (Suc i) c))"

text \<open>The middle component counts the exchanges made.\<close>

definition requestWithQuery :: "golib \<Rightarrow> (bytes \<Rightarrow> bytes option) \<Rightarrow> bool \<Rightarrow> time \<Rightarrow> (nat \<Rightarrow> attempt) \<Rightarrow>
    (nat \<Rightarrow> contextError option) \<Rightarrow> Client \<Rightarrow> (clientError + bytes) \<times> nat \<times> Client" where
  "requestWithQuery L decode circ now attempts sleeps c =
     (case clientReady now c of
        Some e \<Rightarrow> (Inl e, 0, c)
      | None \<Rightarrow> requestLoop L decode circ attempts sleeps 2 0 c)"

subsection \<open>Fetching under the concurrency limit\<close>

text \<open>
  \<open>acquire\<close> selects between a free slot and the end of the context; the argument says that it took
  the second branch. \<open>None\<close>: neither is ready and the goroutine stays blocked.
\<close>

definition acquire :: "contextError option \<Rightarrow> Client \<Rightarrow> (clientError + Client) option" where
  "acquire ctx c =
     (case ctx of
        Some e \<Rightarrow> Some (Inl (ContextError e))
      | None \<Rightarrow> if clSlots c < maximumConcurrency then Some (Inr (c\<lparr>clSlots := Suc (clSlots c)\<rparr>)) else None)"

definition releaseSlot :: "Client \<Rightarrow> Client" where
  "releaseSlot c = c\<lparr>clSlots := clSlots c - 1\<rparr>"

definition kindPath :: "Kind \<Rightarrow> bytes option" where
  "kindPath kind =
     (if kind = KindCurrent then Some ''/v7/weather/now''
      else if kind = KindHourly then Some ''/v7/weather/24h''
      else if kind = KindDaily then Some ''/v7/weather/7d''
      else if kind = KindAlerts then Some ''/v7/warning/now'' else None)"

text \<open>
  \<open>Fetch\<close> around the exchange: the kind's path, a slot held while the request runs, and the parser
  of the kind. \<open>run\<close> is \<open>request\<close> for this path and point.
\<close>

definition Fetch :: "(bytes \<Rightarrow> Client \<Rightarrow> (clientError + bytes) \<times> nat \<times> Client) \<Rightarrow> (Kind \<Rightarrow> bytes \<Rightarrow> bytes + ProviderResult) \<Rightarrow>
    contextError option \<Rightarrow> Kind \<Rightarrow> Client \<Rightarrow> ((clientError + ProviderResult) \<times> Client) option" where
  "Fetch run parse ctx kind c =
     (case kindPath kind of
        None \<Rightarrow> Some (Inl (Failed ''unsupported weather kind''), c)
      | Some path \<Rightarrow>
          (case acquire ctx c of
             None \<Rightarrow> None
           | Some (Inl e) \<Rightarrow> Some (Inl e, c)
           | Some (Inr c1) \<Rightarrow>
               Some (case run path c1 of
                  (Inl e, _, c2) \<Rightarrow> (Inl e, releaseSlot c2)
                | (Inr body, _, c2) \<Rightarrow>
                    (case parse kind body of
                       Inl m \<Rightarrow> (Inl (Failed m), releaseSlot c2)
                     | Inr res \<Rightarrow> (Inr res, releaseSlot c2)))))"

subsection \<open>Display names from GeoAPI\<close>

record geoLocation =
  glName :: bytes
  glAdm1 :: bytes
  glAdm2 :: bytes
  glTz :: bytes

definition maximumLocalizedNameRunes :: nat where "maximumLocalizedNameRunes = 128"

definition validLocalizedName :: "bytes \<Rightarrow> bytes option" where
  "validLocalizedName v =
     (let value = TrimSpace v
      in if value = [] \<or> \<not> ValidString value \<or> maximumLocalizedNameRunes < RuneCount value then None
         else if list_ex IsControl (runes value) then None else Some value)"

definition localizedMetadata :: "geoLocation \<Rightarrow> LocalizedMetadata option" where
  "localizedMetadata matched =
     (let city = (if TrimSpace (glAdm2 matched) = [] then glName matched else glAdm2 matched);
          fields = map validLocalizedName [city, glName matched, glAdm1 matched, glTz matched];
          text = (\<lambda>x. case x of None \<Rightarrow> [] | Some v \<Rightarrow> v)
      in if list_all (\<lambda>x. x = None) fields then None
         else Some \<lparr>lmCity = text (fields ! 0), lmDistrict = text (fields ! 1),
                lmRegion = text (fields ! 2), lmTimezone = text (fields ! 3)\<rparr>)"

text \<open>
  \<open>Localize\<close>: the lookup runs with \<open>circuitOnFailure = false\<close> and under the same slots as \<open>Fetch\<close>;
  \<open>decodeGeo\<close> is \<open>json.Unmarshal\<close> into \<open>geoLookupResponse\<close>.
\<close>

definition Localize :: "(bool \<Rightarrow> Client \<Rightarrow> (clientError + bytes) \<times> nat \<times> Client) \<Rightarrow> (bytes \<Rightarrow> geoLocation list option) \<Rightarrow>
    contextError option \<Rightarrow> Client \<Rightarrow> ((clientError + LocalizedMetadata) \<times> Client) option" where
  "Localize run decodeGeo ctx c =
     (case acquire ctx c of
        None \<Rightarrow> None
      | Some (Inl e) \<Rightarrow> Some (Inl e, c)
      | Some (Inr c1) \<Rightarrow>
          Some (case run False c1 of
             (Inl e, _, c2) \<Rightarrow> (Inl e, releaseSlot c2)
           | (Inr body, _, c2) \<Rightarrow>
               (case decodeGeo body of
                  None \<Rightarrow> (Inl (Failed ''decode qweather geo response''), releaseSlot c2)
                | Some [] \<Rightarrow> (Inl (Failed ''qweather geo response has no location''), releaseSlot c2)
                | Some (matched # _) \<Rightarrow>
                    (case localizedMetadata matched of
                       None \<Rightarrow> (Inl (Failed ''qweather geo response has no usable names''), releaseSlot c2)
                     | Some m \<Rightarrow> (Inr m, releaseSlot c2)))))"

subsection \<open>Keys and request tokens: \<open>jwt.go\<close>\<close>

definition PublicKeyFingerprint :: "golib \<Rightarrow> bytes \<Rightarrow> bytes option" where
  "PublicKeyFingerprint L privateKeyPEM =
     (case pemDecode L privateKeyPEM of
        None \<Rightarrow> None
      | Some (blockType, contents, rest) \<Rightarrow>
          if rest \<noteq> [] \<or> blockType \<noteq> ''PRIVATE KEY'' then None
          else (case parsePKCS8 L contents of
                  None \<Rightarrow> None
                | Some OtherKey \<Rightarrow> None
                | Some (Ed25519Key privateKey) \<Rightarrow> Some (b64RawURL L (sha256 L (ed25519Public L privateKey)))))"

record signer =
  sgPrivateKey :: bytes
  sgCredentialID :: bytes
  sgProjectID :: bytes

definition newSigner :: "golib \<Rightarrow> bytes \<Rightarrow> bytes \<Rightarrow> bytes \<Rightarrow> signer option" where
  "newSigner L privateKeyPEM credentialID projectID =
     (case pemDecode L privateKeyPEM of
        None \<Rightarrow> None
      | Some (blockType, contents, rest) \<Rightarrow>
          if rest \<noteq> [] \<or> blockType \<noteq> ''PRIVATE KEY'' then None
          else (case parsePKCS8 L contents of
                  None \<Rightarrow> None
                | Some OtherKey \<Rightarrow> None
                | Some (Ed25519Key privateKey) \<Rightarrow>
                    Some \<lparr>sgPrivateKey = privateKey, sgCredentialID = credentialID, sgProjectID = projectID\<rparr>))"

text \<open>A key that can be shown can be signed with, and the other way round.\<close>

lemma newSigner_fingerprint:
  "newSigner L pem credentialID projectID = Some s \<Longrightarrow>
     PublicKeyFingerprint L pem = Some (b64RawURL L (sha256 L (ed25519Public L (sgPrivateKey s)))) \<and>
     sgCredentialID s = credentialID \<and> sgProjectID s = projectID"
  "newSigner L pem credentialID projectID = None \<longleftrightarrow> PublicKeyFingerprint L pem = None"
  by (auto simp: newSigner_def PublicKeyFingerprint_def split: option.splits if_splits privateKey.splits)

text \<open>
  \<open>signer.token\<close>: the JWT header and claims in the field order of the Go structs. \<open>marshal\<close> is
  \<open>json.Marshal\<close>; \<open>Unix()\<close> rounds towards minus infinity.
\<close>

definition unixSeconds :: "time \<Rightarrow> int" where
  "unixSeconds t = t div second"

definition tokenClaims :: "bytes \<Rightarrow> time \<Rightarrow> json" where
  "tokenClaims projectID now = JObj
     [(''sub'', JStr projectID), (''iat'', JInt (unixSeconds (now - 30 * second))),
      (''exp'', JInt (unixSeconds (now + 5 * minute)))]"

definition token :: "golib \<Rightarrow> (json \<Rightarrow> bytes) \<Rightarrow> signer \<Rightarrow> time \<Rightarrow> bytes" where
  "token L marshal s now =
     (let header = marshal (JObj [(''alg'', JStr ''EdDSA''), (''kid'', JStr (sgCredentialID s))]);
          claims = marshal (tokenClaims (sgProjectID s) now);
          unsigned = b64RawURL L header @ ''.'' @ b64RawURL L claims
      in unsigned @ ''.'' @ b64RawURL L (ed25519Sign L (sgPrivateKey s) unsigned))"

text \<open>A token is valid when it is made, tolerates clocks 29 seconds behind, and lives 5.5 minutes.\<close>

lemma token_window:
  "unixSeconds (now - 30 * second) \<le> unixSeconds now - 29 \<and> unixSeconds now < unixSeconds (now + 5 * minute) \<and>
   unixSeconds (now + 5 * minute) - unixSeconds (now - 30 * second) = 330"
proof -
  have "unixSeconds (now + k * second) = unixSeconds now + k" for k
    by (simp add: unixSeconds_def duration_defs)
  from this [of "- 30"] this [of 300] show ?thesis by (simp add: duration_defs)
qed

subsection \<open>The circuit\<close>

text \<open>\<open>c'\<close> is \<open>c\<close> with a circuit that is open at least as long.\<close>

definition blockedFurther :: "Client \<Rightarrow> Client \<Rightarrow> bool" where
  "blockedFurther c c' \<longleftrightarrow> clBlockedUntil c \<le> clBlockedUntil c' \<and> c' = c\<lparr>clBlockedUntil := clBlockedUntil c'\<rparr>"

lemma blockedFurther_refl [simp]: "blockedFurther c c"
  by (simp add: blockedFurther_def)

lemma blockedFurther_trans: "blockedFurther a b \<Longrightarrow> blockedFurther b c \<Longrightarrow> blockedFurther a c"
  by (cases a; cases b; cases c) (simp add: blockedFurther_def)

lemma blockFor_further: "blockedFurther c (blockFor now d c)"
  by (cases c) (simp add: blockedFurther_def blockFor_def Let_def)

lemma blockFor_ready: "0 < d \<Longrightarrow> \<not> clClosed c \<Longrightarrow> t < now + d \<Longrightarrow> clientReady t (blockFor now d c) = Some ErrCircuitOpen"
  by (auto simp: clientReady_def blockFor_def Let_def)

lemma classify_circuit:
  assumes "classify L decode circ a r c = (res, retry, c')"
  shows "blockedFurther c c'" and "\<not> circ \<Longrightarrow> c' = c"
  using assms blockFor_further
  by (auto simp: classify_def Let_def split: if_splits option.splits)

lemma requestOnce_circuit:
  assumes "requestOnce L decode circ a c = (res, retry, c')"
  shows "blockedFurther c c'" and "\<not> circ \<Longrightarrow> c' = c"
  using assms classify_circuit
  by (auto simp: requestOnce_def split: exchange.splits option.splits bool.splits)

text \<open>What a retry can help: network failures, timeouts and server errors; nothing else is repeated.\<close>

definition retryable :: "clientError \<Rightarrow> bool" where
  "retryable e \<longleftrightarrow> e = TimedOut \<or> e = Failed ''qweather network request failed'' \<or>
     e = Failed ''qweather response read failed'' \<or> (\<exists>u. e = Upstream u \<and> ueClass u = ErrorServer)"

lemma requestOnce_retry:
  assumes "requestOnce L decode circ a c = (res, retry, c')"
  shows "retry \<longleftrightarrow> (\<exists>e. res = Inl e \<and> retryable e)"
  using assms
  by (auto simp: requestOnce_def classify_def upstream_def retryable_def Let_def
      split: exchange.splits option.splits bool.splits if_splits)

lemma requestLoop_circuit:
  assumes "requestLoop L decode circ attempts sleeps fuel i c = (res, n, c')"
  shows "blockedFurther c c'" and "\<not> circ \<Longrightarrow> c' = c"
  using assms
  by (induction fuel arbitrary: i c)
    (auto split: prod.splits sum.splits if_splits option.splits
      dest: requestOnce_circuit intro: blockedFurther_trans)

lemma requestLoop_count:
  "requestLoop L decode circ attempts sleeps fuel i c = (res, n, c') \<Longrightarrow> i \<le> n \<and> n \<le> i + fuel"
proof (induction fuel arbitrary: i c)
  case (Suc fuel)
  show ?case
  proof (cases "\<exists>x. requestLoop L decode circ attempts sleeps fuel (Suc i) x = (res, n, c')")
    case True
    then show ?thesis using Suc.IH [of "Suc i"] by fastforce
  next
    case False
    then show ?thesis using Suc.prems by (auto split: prod.splits sum.splits if_splits option.splits)
  qed
qed simp

text \<open>A second exchange is made only after a first one that failed in a way a retry can help.\<close>

lemma requestLoop_second:
  assumes "requestLoop L decode circ attempts sleeps 2 0 c = (res, n, c')" and "n = 2"
  shows "\<exists>e. fst (requestOnce L decode circ (attempts 0) c) = Inl e \<and> retryable e \<and> sleeps 0 = None"
  using assms requestOnce_retry [of L decode circ "attempts 0" c]
  by (auto simp: numeral_2_eq_2 split: prod.splits sum.splits if_splits option.splits)

lemma retryAfter_le: "retryAfter L v now \<le> 15 * minute"
  by (auto simp: retryAfter_def Let_def duration_defs split: option.split)

lemma retryAfter_pos:
  assumes "\<forall>n. Atoi (TrimSpace v) = Some n \<longrightarrow> n \<le> 9223372036"
  shows "0 < retryAfter L v now"
proof -
  have pos: "0 < int64 (n * second)" if "0 < n" "n \<le> 9223372036" for n
  proof -
    have "int64 (n * second) = n * second" using that by (intro int64_id) (simp_all add: duration_defs)
    then show ?thesis using that by (simp add: duration_defs)
  qed
  show ?thesis
    using assms pos time_sub_pos_iff [of _ now]
    by (auto simp: retryAfter_def Let_def duration_defs split: option.split)
qed

text \<open>Above that the multiplication wraps: a server asking for a very long pause gets none.\<close>

lemma retryAfter_overflow: "retryAfter L ''9223372037'' now = - 9223372036709551616"
proof -
  have "TrimSpace ''9223372037'' = ''9223372037''" by code_simp
  moreover have "Atoi ''9223372037'' = Some 9223372037"
    by (simp add: Atoi_def isDigit_def inrange_def digitsVal_def)
  ultimately show ?thesis by (simp add: retryAfter_def Let_def int64_def duration_defs)
qed

subsection \<open>Properties\<close>

text \<open>C29. A request makes at most two exchanges, and a second one only after a first that failed
  in a way a retry can help (network, timeout, server error) and a completed pause; with the
  circuit open or the client closed it makes none. The circuit is never shortened, and requests
  made with \<open>circuitOnFailure = false\<close> leave the client untouched, so best-effort lookups cannot
  make weather unavailable.\<close>

theorem requestWithQuery_bounded:
  assumes "requestWithQuery L decode circ now attempts sleeps c = (res, n, c')"
  shows "n \<le> 2 \<and> blockedFurther c c' \<and> (circ \<or> c' = c) \<and>
    (case clientReady now c of Some e \<Rightarrow> n = 0 \<and> res = Inl e \<and> c' = c | None \<Rightarrow> 1 \<le> n \<or> \<not> is_ok res) \<and>
    (n \<noteq> 2 \<or> (\<exists>e. fst (requestOnce L decode circ (attempts 0) c) = Inl e \<and> retryable e \<and> sleeps 0 = None))"
proof (cases "clientReady now c")
  case (Some e)
  then show ?thesis using assms by (auto simp: requestWithQuery_def)
next
  case None
  then have loop: "requestLoop L decode circ attempts sleeps 2 0 c = (res, n, c')"
    using assms by (simp add: requestWithQuery_def)
  have "1 \<le> n" using loop by (auto simp: numeral_2_eq_2 split: prod.splits sum.splits if_splits option.splits)
  then show ?thesis
    using None requestLoop_circuit [OF loop] requestLoop_count [OF loop] requestLoop_second [OF loop] by auto
qed

definition sampleClient :: Client where
  "sampleClient = \<lparr>clCircuitCooldown = 60 * second, clSlots = 0, clBlockedUntil = zero_time, clClosed = False\<rparr>"

definition forbidden :: attempt where
  "forbidden = \<lparr>atExchange = Responds \<lparr>hrStatus = 403, hrRetryAfter = [], hrBody = []\<rparr>, atNow = 5, atBlockNow = 5\<rparr>"

lemma requestWithQuery_bounded_witness:
  "blockedFurther sampleClient (snd (snd (requestWithQuery emptyLib (\<lambda>_. None) True 5 (\<lambda>_. forbidden) (\<lambda>_. None) sampleClient))) \<and>
   fst (snd (requestWithQuery emptyLib (\<lambda>_. None) True 5 (\<lambda>_. forbidden) (\<lambda>_. None) sampleClient)) = 1"
proof -
  have r: "requestWithQuery emptyLib (\<lambda>_. None) True 5 (\<lambda>_. forbidden) (\<lambda>_. None) sampleClient =
    (Inl (upstream 403 [] ErrorCredentials (60 * second)), 1, sampleClient\<lparr>clBlockedUntil := 5 + 60 * second\<rparr>)"
    by (simp add: requestWithQuery_def clientReady_def sampleClient_def forbidden_def numeral_2_eq_2
        requestOnce_def classify_def maxResponseSize_def blockFor_def Let_def zero_time_def duration_defs)
  from requestWithQuery_bounded [OF r] show ?thesis by (simp add: r)
qed

text \<open>Account-level rejections open the circuit. After a weather request answered 401 or 403, by
  status or by code, every request before the end of the cool-down fails with \<open>ErrCircuitOpen\<close>
  without an exchange, and the weather service holds the entry back for the same time.\<close>

theorem credentials_open_circuit:
  assumes "atExchange a = Responds r" and "length (hrBody r) \<le> maxResponseSize"
    and "hrStatus r = 401 \<or> hrStatus r = 403 \<or>
      (hrStatus r = 200 \<and> (decode (hrBody r) = Some ''401'' \<or> decode (hrBody r) = Some ''403''))"
    and "\<not> clClosed c" and "now < atBlockNow a + clCircuitCooldown c"
    and "requestOnce L decode True a c = (res, retry, c')"
  shows "requestWithQuery L decode circ now attempts sleeps c' = (Inl ErrCircuitOpen, 0, c') \<and> \<not> retry \<and>
    (\<exists>e. res = Inl e \<and> peRetryDelay (asProviderError e) = Some (clCircuitCooldown c) \<and>
       peClass (asProviderError e) = Some ''credentials'')"
proof -
  have c': "c' = blockFor (atBlockNow a) (clCircuitCooldown c) c" and nr: "\<not> retry"
    and e: "\<exists>e. res = Inl e \<and> peRetryDelay (asProviderError e) = Some (clCircuitCooldown c) \<and>
       peClass (asProviderError e) = Some ''credentials''"
    using assms by (auto simp: requestOnce_def classify_def upstream_def asProviderError_def Let_def)
  have "clientReady now c' = Some ErrCircuitOpen"
    using assms(4,5) by (auto simp: c' clientReady_def blockFor_def Let_def)
  then show ?thesis using nr e by (simp add: requestWithQuery_def)
qed

lemma credentials_open_circuit_witness:
  "requestWithQuery emptyLib (\<lambda>_. None) False (40 * second) (\<lambda>_. forbidden) (\<lambda>_. None)
     (sampleClient\<lparr>clBlockedUntil := 5 + 60 * second\<rparr>) =
   (Inl ErrCircuitOpen, 0, sampleClient\<lparr>clBlockedUntil := 5 + 60 * second\<rparr>)"
proof -
  have r: "requestOnce emptyLib (\<lambda>_. None) True forbidden sampleClient =
    (Inl (upstream 403 [] ErrorCredentials (60 * second)), False, sampleClient\<lparr>clBlockedUntil := 5 + 60 * second\<rparr>)"
    by (simp add: sampleClient_def forbidden_def requestOnce_def classify_def maxResponseSize_def
        blockFor_def Let_def zero_time_def duration_defs)
  show ?thesis
    using credentials_open_circuit [OF _ _ _ _ _ r, of "\<lparr>hrStatus = 403, hrRetryAfter = [], hrBody = []\<rparr>" "40 * second"]
    by (simp add: forbidden_def sampleClient_def maxResponseSize_def duration_defs)
qed

text \<open>The pause taken from \<open>Retry-After\<close> is at most 15 minutes, and it is positive for every header
  whose number of seconds does not exceed 9223372036; for the next number the 64-bit product wraps
  to a negative duration, with which \<open>blockFor\<close> does not open the circuit.\<close>

theorem retryAfter_bounds:
  "retryAfter L v now \<le> 15 * minute \<and>
   (0 < retryAfter L v now \<or> (\<exists>n. Atoi (TrimSpace v) = Some n \<and> 9223372036 < n)) \<and>
   retryAfter L ''9223372037'' now < 0 \<and>
   blockFor now (retryAfter L ''9223372037'' now) (c\<lparr>clBlockedUntil := now\<rparr>) = c\<lparr>clBlockedUntil := now\<rparr>"
  using retryAfter_le [of L v now] retryAfter_pos [of v L now] retryAfter_overflow [of L now]
  by (auto simp: blockFor_def Let_def not_less)

end
