(* ===== verification/QWeatherRequest.thy ===== *)
theory QWeatherRequest
  imports QWeatherClient "HOL-Library.List_Lexorder" "HOL-Library.Char_ord"
begin

section \<open>What the client sends: the requests of \<open>client.go\<close> and \<open>geo.go\<close>\<close>

text \<open>
  The query, the endpoint and the headers of an upstream request. \<open>url.Values\<close> is an association list
  with one value per key, as both callers only use \<open>Set\<close>; \<open>Encode\<close> escapes both sides and sorts by key.
  The lemmas say what the provider can learn of a device: its cell of the two-decimal grid.
\<close>

type_synonym urlValues = "(bytes, bytes) gomap"

definition valuesSet :: "bytes \<Rightarrow> bytes \<Rightarrow> urlValues \<Rightarrow> urlValues" where
  "valuesSet key v values = AList.update key v values"

text \<open>\<open>url.QueryEscape\<close>.\<close>

definition unreserved :: "char \<Rightarrow> bool" where
  "unreserved c \<longleftrightarrow> inrange 97 122 (byteval c) \<or> inrange 65 90 (byteval c) \<or> isDigit c \<or> c \<in> set ''-_.~''"

definition upperHex :: "nat \<Rightarrow> char" where
  "upperHex n = (if n < 10 then byte (48 + n) else byte (55 + n))"

definition escapeByte :: "char \<Rightarrow> bytes" where
  "escapeByte c =
     (if unreserved c then [c] else if c = CHR '' '' then ''+''
      else [CHR ''%'', upperHex (byteval c div 16), upperHex (byteval c mod 16)])"

definition QueryEscape :: "bytes \<Rightarrow> bytes" where
  "QueryEscape s = concat (map escapeByte s)"

fun joinWith :: "bytes \<Rightarrow> bytes list \<Rightarrow> bytes" where
  "joinWith sep [] = []"
| "joinWith sep [x] = x"
| "joinWith sep (x # y # xs) = x @ sep @ joinWith sep (y # xs)"

definition queryEncode :: "urlValues \<Rightarrow> bytes" where
  "queryEncode values = joinWith ''&'' (map (\<lambda>(key, v). QueryEscape key @ ''='' @ QueryEscape v) (sort_key fst values))"

subsection \<open>The requests\<close>

definition locationParameter :: "Point \<Rightarrow> bytes" where
  "locationParameter p = formatFixed2 (Longitude p) @ '','' @ formatFixed2 (Latitude p)"

text \<open>\<open>request\<close>: the query of a weather call.\<close>

definition weatherQuery :: "bytes \<Rightarrow> bytes \<Rightarrow> Point \<Rightarrow> urlValues" where
  "weatherQuery language unit p =
     valuesSet ''unit'' unit (valuesSet ''lang'' language (valuesSet ''location'' (locationParameter p) []))"

definition geoLookupPath :: bytes where "geoLookupPath = ''/geo/v2/city/lookup''"

text \<open>The query of \<open>Localize\<close>.\<close>

definition geoQuery :: "bytes \<Rightarrow> Point \<Rightarrow> urlValues" where
  "geoQuery language p =
     valuesSet ''lang'' language (valuesSet ''number'' ''1'' (valuesSet ''location'' (locationParameter p) []))"

text \<open>The path and the query that \<open>requestWithQuery\<close> puts into its copy of the base URL.\<close>

definition endpoint :: "url \<Rightarrow> bytes \<Rightarrow> urlValues \<Rightarrow> bytes \<times> bytes" where
  "endpoint base path query = (TrimRightSet {CHR ''/''} (uPath base) @ path, queryEncode query)"

definition requestHeaders :: "golib \<Rightarrow> (json \<Rightarrow> bytes) \<Rightarrow> signer \<Rightarrow> time \<Rightarrow> (bytes \<times> bytes) list" where
  "requestHeaders L marshal s now =
     [(''Authorization'', ''Bearer '' @ token L marshal s now), (''Accept'', ''application/json''), (''User-Agent'', ''mt-server/1'')]"

record upstreamRequest =
  urMethod :: bytes
  urHost :: bytes
  urPath :: bytes
  urQuery :: bytes
  urHeaders :: "(bytes \<times> bytes) list"

definition buildRequest :: "golib \<Rightarrow> (json \<Rightarrow> bytes) \<Rightarrow> url \<Rightarrow> signer \<Rightarrow> time \<Rightarrow> bytes \<Rightarrow> urlValues \<Rightarrow> upstreamRequest" where
  "buildRequest L marshal base s now path query =
     \<lparr>urMethod = ''GET'', urHost = uHost base, urPath = fst (endpoint base path query), urQuery = snd (endpoint base path query),
      urHeaders = requestHeaders L marshal s now\<rparr>"

subsection \<open>What it shows of a device\<close>

lemma sorted_keys:
  "sort_key fst [(''location'', x), (''lang'', y), (''unit'', z)] = [(''lang'', y), (''location'', x), (''unit'', z :: bytes)]"
  "sort_key fst [(''location'', x), (''number'', z), (''lang'', y)] = [(''lang'', y), (''location'', x), (''number'', z :: bytes)]"
  by (simp_all add: less_eq_char_def)

lemma escape_keys:
  "QueryEscape ''lang'' = ''lang''" "QueryEscape ''location'' = ''location''" "QueryEscape ''unit'' = ''unit''"
  "QueryEscape ''number'' = ''number''" "QueryEscape ''1'' = ''1''"
  by code_simp+

lemma weatherQuery_text:
  "queryEncode (weatherQuery language unit p) =
     ''lang='' @ QueryEscape language @ ''&location='' @ QueryEscape (locationParameter p) @ ''&unit='' @ QueryEscape unit"
  by (simp add: queryEncode_def weatherQuery_def valuesSet_def sorted_keys escape_keys)

lemma geoQuery_text:
  "queryEncode (geoQuery language p) =
     ''lang='' @ QueryEscape language @ ''&location='' @ QueryEscape (locationParameter p) @ ''&number=1''"
  by (simp add: queryEncode_def geoQuery_def valuesSet_def sorted_keys escape_keys)

text \<open>The parameter of a normalised point: its cell, in hundredths of a degree.\<close>

lemma escape_append: "QueryEscape (x @ y) = QueryEscape x @ QueryEscape y"
  by (simp add: QueryEscape_def)

lemma escape_plain: "list_all unreserved s \<Longrightarrow> QueryEscape s = s"
  by (induction s) (simp_all add: QueryEscape_def escapeByte_def)

lemma escape_dec2: "QueryEscape (dec2 k) = dec2 k"
  by (rule escape_plain) (use dec2_bytes in \<open>fastforce simp: list_all_iff unreserved_def\<close>)

lemma location_text:
  assumes "normalized p"
  obtains a b where "Latitude p = gridFloat a" "Longitude p = gridFloat b" "CacheKey p = dec2 a @ '','' @ dec2 b"
    "QueryEscape (locationParameter p) = dec2 b @ ''%2C'' @ dec2 a"
proof -
  from assms obtain a b where ab: "\<bar>a\<bar> \<le> 9000" "\<bar>b\<bar> \<le> 18000" "Latitude p = gridFloat a" "Longitude p = gridFloat b"
    by (auto simp: normalized_def)
  have c: "QueryEscape '','' = ''%2C''" by code_simp
  have f: "formatFixed2 (gridFloat a) = dec2 a" "formatFixed2 (gridFloat b) = dec2 b"
    using ab(1,2) by (simp_all add: formatFixed2_grid)
  have "QueryEscape (locationParameter p) = QueryEscape (dec2 b) @ QueryEscape '','' @ QueryEscape (dec2 a)"
    by (simp only: locationParameter_def ab f escape_append)
  then have "QueryEscape (locationParameter p) = dec2 b @ ''%2C'' @ dec2 a" by (simp only: escape_dec2 c)
  moreover have "CacheKey p = dec2 a @ '','' @ dec2 b" by (simp add: CacheKey_def coordinateString_def ab f)
  ultimately show thesis using that ab by blast
qed

lemma location_inject:
  assumes "normalized p" "normalized q"
  shows "QueryEscape (locationParameter p) = QueryEscape (locationParameter q) \<longleftrightarrow> CacheKey p = CacheKey q"
proof
  from assms(1) obtain a b where p: "CacheKey p = dec2 a @ '','' @ dec2 b" "QueryEscape (locationParameter p) = dec2 b @ ''%2C'' @ dec2 a"
    by (rule location_text)
  from assms(2) obtain c d where q: "CacheKey q = dec2 c @ '','' @ dec2 d" "QueryEscape (locationParameter q) = dec2 d @ ''%2C'' @ dec2 c"
    by (rule location_text)
  have free: "CHR ''%'' \<notin> set (dec2 k)" for k using dec2_bytes by (fastforce simp: isDigit_def inrange_def)
  assume "QueryEscape (locationParameter p) = QueryEscape (locationParameter q)"
  then have e: "dec2 b @ CHR ''%'' # (''2C'' @ dec2 a) = dec2 d @ CHR ''%'' # (''2C'' @ dec2 c)" using p q by simp
  then have "takeWhile (\<lambda>x. x \<noteq> CHR ''%'') (dec2 b @ CHR ''%'' # (''2C'' @ dec2 a)) =
      takeWhile (\<lambda>x. x \<noteq> CHR ''%'') (dec2 d @ CHR ''%'' # (''2C'' @ dec2 c))" by simp
  moreover have "takeWhile (\<lambda>x. x \<noteq> CHR ''%'') (dec2 k) = dec2 k" for k
    using free [of k] by (auto simp: takeWhile_eq_all_conv)
  ultimately have "dec2 b = dec2 d" by (simp add: takeWhile_tail)
  with e p q show "CacheKey p = CacheKey q" by simp
next
  assume "CacheKey p = CacheKey q"
  then have "Latitude p = Latitude q \<and> Longitude p = Longitude q" using CacheKey_inject [OF assms] by simp
  then show "QueryEscape (locationParameter p) = QueryEscape (locationParameter q)" by (simp add: locationParameter_def)
qed

text \<open>C30. What an upstream request shows. Two normalised points are sent as the same weather request
  and as the same name lookup exactly when they lie in the same cell of the two-decimal grid, the one
  the cache is keyed by; the query is the cell's coordinates and settings of the server, so city,
  provenance, accuracy and every finer digit stay with the server. The request is signed: its bearer
  token carries the claims of this project, five minutes ahead and half a minute back, under a
  signature that verifies with the public key whose fingerprint the management interface shows.
  Assumed: Ed25519 signatures verify.\<close>

theorem upstream_request_coarse:
  assumes "normalized p" and "normalized q" and "newSigner L pem credentialID projectID = Some s"
    and "\<And>k m. verify (ed25519Public L k) m (ed25519Sign L k m)"
  shows "(buildRequest L marshal base s now path (weatherQuery language unit p) =
      buildRequest L marshal base s now path (weatherQuery language unit q) \<longleftrightarrow> CacheKey p = CacheKey q) \<and>
    (buildRequest L marshal base s now geoLookupPath (geoQuery language p) =
      buildRequest L marshal base s now geoLookupPath (geoQuery language q) \<longleftrightarrow> CacheKey p = CacheKey q) \<and>
    (\<exists>public header signature.
       map_of (urHeaders (buildRequest L marshal base s now path (weatherQuery language unit p))) ''Authorization'' =
         Some (''Bearer '' @ header @ ''.'' @ b64RawURL L (marshal (tokenClaims projectID now)) @ ''.'' @ b64RawURL L signature) \<and>
       verify public (header @ ''.'' @ b64RawURL L (marshal (tokenClaims projectID now))) signature \<and>
       PublicKeyFingerprint L pem = Some (b64RawURL L (sha256 L public)))"
proof -
  note s = newSigner_fingerprint(1) [OF assms(3)]
  have "verify (ed25519Public L (sgPrivateKey s)) m (ed25519Sign L (sgPrivateKey s) m)" for m by (rule assms(4))
  then have "\<exists>public header signature.
       map_of (urHeaders (buildRequest L marshal base s now path (weatherQuery language unit p))) ''Authorization'' =
         Some (''Bearer '' @ header @ ''.'' @ b64RawURL L (marshal (tokenClaims projectID now)) @ ''.'' @ b64RawURL L signature) \<and>
       verify public (header @ ''.'' @ b64RawURL L (marshal (tokenClaims projectID now))) signature \<and>
       PublicKeyFingerprint L pem = Some (b64RawURL L (sha256 L public))"
    using s by (intro exI [of _ "ed25519Public L (sgPrivateKey s)"] exI [of _ "b64RawURL L (marshal (JObj [(''alg'', JStr ''EdDSA''), (''kid'', JStr credentialID)]))"]
        exI [of _ "ed25519Sign L (sgPrivateKey s) (b64RawURL L (marshal (JObj [(''alg'', JStr ''EdDSA''), (''kid'', JStr credentialID)])) @
          ''.'' @ b64RawURL L (marshal (tokenClaims projectID now)))"])
      (simp add: buildRequest_def requestHeaders_def token_def Let_def)
  moreover have "snd (endpoint base path' (weatherQuery language unit p)) = snd (endpoint base path' (weatherQuery language unit q)) \<longleftrightarrow>
      CacheKey p = CacheKey q" for path'
    by (simp add: endpoint_def weatherQuery_text location_inject [OF assms(1,2)])
  moreover have "snd (endpoint base path' (geoQuery language p)) = snd (endpoint base path' (geoQuery language q)) \<longleftrightarrow>
      CacheKey p = CacheKey q" for path'
    by (simp add: endpoint_def geoQuery_text location_inject [OF assms(1,2)])
  ultimately show ?thesis by (simp add: buildRequest_def endpoint_def)
qed

lemma upstream_request_coarse_witness:
  "buildRequest emptyLib (\<lambda>_. []) \<lparr>uScheme = [], uHost = [], uHostname = [], uPort = [], uHasUser = False, uPath = ''/'', uRawPath = [],
       uRawQuery = [], uForceQuery = False, uFragment = [], uString = []\<rparr> \<lparr>sgPrivateKey = ''K'', sgCredentialID = ''C'', sgProjectID = ''P''\<rparr> 0
       ''/v7'' (weatherQuery ''zh'' ''m'' (gridPoint 101 (- 5))) \<noteq>
   buildRequest emptyLib (\<lambda>_. []) \<lparr>uScheme = [], uHost = [], uHostname = [], uPort = [], uHasUser = False, uPath = ''/'', uRawPath = [],
       uRawQuery = [], uForceQuery = False, uFragment = [], uString = []\<rparr> \<lparr>sgPrivateKey = ''K'', sgCredentialID = ''C'', sgProjectID = ''P''\<rparr> 0
       ''/v7'' (weatherQuery ''zh'' ''m'' (gridPoint 10 1))"
proof -
  have n: "normalized (gridPoint 101 (- 5))" "normalized (gridPoint 10 1)" by (simp_all add: gridPoint_normalized)
  have "gridFloat 101 \<noteq> gridFloat 10" by code_simp
  then have "CacheKey (gridPoint 101 (- 5)) \<noteq> CacheKey (gridPoint 10 1)"
    using CacheKey_inject [OF n] by (simp add: gridPoint_def)
  moreover have "newSigner emptyLib ''K'' ''C'' ''P'' = Some \<lparr>sgPrivateKey = ''K'', sgCredentialID = ''C'', sgProjectID = ''P''\<rparr>"
    by (simp add: newSigner_def emptyLib_def)
  ultimately show ?thesis
    using upstream_request_coarse [OF n, of emptyLib "''K''" "''C''" "''P''" _ "\<lambda>public m signature. signature = public @ m"]
    by (simp add: emptyLib_def)
qed

end
