(* ===== verification/QWeatherParse.thy ===== *)
theory QWeatherParse
  imports WeatherModel "HOL-Library.List_Lexorder" "HOL-Library.Char_ord" "HOL-Library.Product_Lexorder"
begin

section \<open>Normalising QWeather responses: \<open>raw.go\<close> and \<open>parse.go\<close>\<close>

text \<open>
  The raw response structs (all text, as QWeather sends it) and the four parsers. The argument of a
  parser is the struct \<open>json.Unmarshal\<close> filled; its error result is the message the code builds.
  A chain of \<open>if x, err = f(); err != nil { return }\<close> is a chain of \<open>bindE\<close>. The alerts are sorted
  with \<open>sort.SliceStable\<close>, modelled by stable insertion; it agrees with \<open>sort_key\<close> on an explicit key,
  from which the order, the truncation and the bounds of the snapshot follow.
\<close>

definition bindE :: "'e + 'a \<Rightarrow> ('a \<Rightarrow> 'e + 'b) \<Rightarrow> 'e + 'b" where
  "bindE m f = (case m of Inl e \<Rightarrow> Inl e | Inr x \<Rightarrow> f x)"

lemma bindE_Inr_iff [simp]: "bindE m f = Inr y \<longleftrightarrow> (\<exists>x. m = Inr x \<and> f x = Inr y)"
  by (cases m) (auto simp: bindE_def)

lemma bindE_Inr [simp]: "bindE (Inr x) f = f x"
  by (simp add: bindE_def)

lemma bindE_Inl [simp]: "bindE (Inl e) f = Inl e"
  by (simp add: bindE_def)

subsection \<open>Raw responses\<close>

record currentResponse =
  crUpdateTime :: bytes
  crObservedAt :: bytes
  crTemperature :: bytes
  crFeelsLike :: bytes
  crIcon :: bytes
  crText :: bytes
  crWindDegrees :: bytes
  crWindDirection :: bytes
  crWindScale :: bytes
  crWindSpeed :: bytes
  crHumidity :: bytes
  crPrecipitation :: bytes
  crPressure :: bytes
  crVisibility :: bytes
  crCloud :: bytes
  crDewPoint :: bytes

record hourlyItem =
  hiForecastAt :: bytes
  hiTemperature :: bytes
  hiIcon :: bytes
  hiText :: bytes
  hiWindDegrees :: bytes
  hiWindDirection :: bytes
  hiWindScale :: bytes
  hiWindSpeed :: bytes
  hiHumidity :: bytes
  hiPrecipitationChance :: bytes
  hiPrecipitation :: bytes
  hiPressure :: bytes
  hiCloud :: bytes
  hiDewPoint :: bytes

record hourlyResponse =
  hrUpdateTime :: bytes
  hrHourly :: "hourlyItem list"

record dailyItem =
  diDate :: bytes
  diSunrise :: bytes
  diSunset :: bytes
  diMoonrise :: bytes
  diMoonset :: bytes
  diMoonPhase :: bytes
  diMoonPhaseCode :: bytes
  diTemperatureMax :: bytes
  diTemperatureMin :: bytes
  diIconDay :: bytes
  diTextDay :: bytes
  diIconNight :: bytes
  diTextNight :: bytes
  diWindDayDegrees :: bytes
  diWindDayDirection :: bytes
  diWindDayScale :: bytes
  diWindDaySpeed :: bytes
  diWindNightDegrees :: bytes
  diWindNightDirection :: bytes
  diWindNightScale :: bytes
  diWindNightSpeed :: bytes
  diHumidity :: bytes
  diPrecipitation :: bytes
  diPressure :: bytes
  diVisibility :: bytes
  diCloud :: bytes
  diUVIndex :: bytes

record dailyResponse =
  drUpdateTime :: bytes
  drDaily :: "dailyItem list"

record warningItem =
  wiID :: bytes
  wiSender :: bytes
  wiSenderName :: bytes
  wiPublishedAt :: bytes
  wiTitle :: bytes
  wiStartsAt :: bytes
  wiEndsAt :: bytes
  wiStatus :: bytes
  wiLevel :: bytes
  wiSeverity :: bytes
  wiTypeCode :: bytes
  wiTypeName :: bytes
  wiUrgency :: bytes
  wiCertainty :: bytes
  wiText :: bytes
  wiInstruction :: bytes

record alertsResponse =
  arUpdateTime :: bytes
  arFXLink :: bytes
  arWarning :: "warningItem list"

subsection \<open>Times and numbers\<close>

text \<open>The two layouts of \<open>parseTime\<close>, in order.\<close>

definition parseTime :: "golib \<Rightarrow> bytes \<Rightarrow> bytes \<Rightarrow> bytes + time" where
  "parseTime L value field =
     (case ParseRFC3339 L value of
        Some t \<Rightarrow> Inr t
      | None \<Rightarrow>
          (case ParseRFC3339NoSeconds L value of
             Some t \<Rightarrow> Inr t | None \<Rightarrow> Inl (field @ '': invalid timestamp'')))"

definition parseOptionalTime :: "golib \<Rightarrow> bytes \<Rightarrow> bytes \<Rightarrow> bytes + time option" where
  "parseOptionalTime L value field =
     (if TrimSpace value = [] then Inr None else bindE (parseTime L value field) (\<lambda>t. Inr (Some t)))"

text \<open>\<open>reference\<close> is the update time's text, whose offset \<open>ParseInLocation\<close> uses.\<close>

definition parseClock :: "golib \<Rightarrow> bytes \<Rightarrow> bytes \<Rightarrow> bytes \<Rightarrow> bytes \<Rightarrow> bytes + time option" where
  "parseClock L date value reference field =
     (let value = TrimSpace value
      in if value = [] then Inr None
         else (case ParseLocalClock L reference (date @ '' '' @ value) of
                 None \<Rightarrow> Inl (field @ '': invalid local time'') | Some t \<Rightarrow> Inr (Some t)))"

definition requiredNumber :: "golib \<Rightarrow> bytes \<Rightarrow> bytes \<Rightarrow> bytes + float64" where
  "requiredNumber L value field =
     (let value = TrimSpace value
      in if value = [] then Inl (field @ '': value is missing'')
         else (case ParseFloat L value of
                 None \<Rightarrow> Inl (field @ '': invalid number'')
               | Some x \<Rightarrow> if isNaN x \<or> isInf x then Inl (field @ '': invalid number'') else Inr x))"

definition optionalNumber :: "golib \<Rightarrow> bytes \<Rightarrow> bytes \<Rightarrow> bytes + float64 option" where
  "optionalNumber L value field =
     (let value = TrimSpace value
      in if value = [] then Inr None
         else bindE (requiredNumber L value field) (\<lambda>x. Inr (Some x)))"

subsection \<open>Current weather\<close>

definition parseCurrent :: "golib \<Rightarrow> currentResponse \<Rightarrow> bytes + ProviderResult" where
  "parseCurrent L raw =
     bindE (parseTime L (crUpdateTime raw) ''updateTime'') (\<lambda>updatedAt.
     bindE (parseTime L (crObservedAt raw) ''now.obsTime'') (\<lambda>observedAt.
     bindE (requiredNumber L (crTemperature raw) ''now.temp'') (\<lambda>temp.
     bindE (requiredNumber L (crFeelsLike raw) ''now.feelsLike'') (\<lambda>feels.
     bindE (requiredNumber L (crWindDegrees raw) ''now.wind360'') (\<lambda>wdeg.
     bindE (requiredNumber L (crWindSpeed raw) ''now.windSpeed'') (\<lambda>wspd.
     bindE (requiredNumber L (crHumidity raw) ''now.humidity'') (\<lambda>hum.
     bindE (requiredNumber L (crPrecipitation raw) ''now.precip'') (\<lambda>precip.
     bindE (requiredNumber L (crPressure raw) ''now.pressure'') (\<lambda>pres.
     bindE (requiredNumber L (crVisibility raw) ''now.vis'') (\<lambda>vis.
     bindE (optionalNumber L (crCloud raw) ''now.cloud'') (\<lambda>cloud.
     bindE (optionalNumber L (crDewPoint raw) ''now.dew'') (\<lambda>dew.
     (if crIcon raw = [] \<or> crText raw = [] then Inl ''current weather condition is missing''
      else Inr \<lparr>prUpdatedAt = updatedAt, prData = DCurrent
        \<lparr>cuObservedAt = observedAt, cuTemperatureC = temp, cuFeelsLikeC = feels,
         cuConditionCode = crIcon raw, cuConditionText = crText raw, cuWindDegrees = wdeg,
         cuWindDirection = crWindDirection raw, cuWindScale = crWindScale raw, cuWindSpeedKMH = wspd,
         cuHumidityPercent = hum, cuPrecipitationMM = precip, cuPressureHPA = pres,
         cuVisibilityKM = vis, cuCloudPercent = cloud, cuDewPointC = dew\<rparr>\<rparr>)))))))))))))"

subsection \<open>Hourly and daily forecasts\<close>

definition indexedField :: "bytes \<Rightarrow> nat \<Rightarrow> bytes \<Rightarrow> bytes" where
  "indexedField series index name = series @ ''['' @ Itoa (int index) @ ''].'' @ name"

definition parseHour :: "golib \<Rightarrow> nat \<times> hourlyItem \<Rightarrow> bytes + Hour" where
  "parseHour L p =
     (let index = fst p; item = snd p; field = indexedField ''hourly'' index in
     bindE (parseTime L (hiForecastAt item) (field ''fxTime'')) (\<lambda>forecastAt.
     bindE (requiredNumber L (hiTemperature item) (field ''temp'')) (\<lambda>temp.
     bindE (requiredNumber L (hiWindDegrees item) (field ''wind360'')) (\<lambda>wdeg.
     bindE (requiredNumber L (hiWindSpeed item) (field ''windSpeed'')) (\<lambda>wspd.
     bindE (requiredNumber L (hiHumidity item) (field ''humidity'')) (\<lambda>hum.
     bindE (requiredNumber L (hiPrecipitationChance item) (field ''pop'')) (\<lambda>pop.
     bindE (requiredNumber L (hiPrecipitation item) (field ''precip'')) (\<lambda>precip.
     bindE (requiredNumber L (hiPressure item) (field ''pressure'')) (\<lambda>pres.
     bindE (optionalNumber L (hiCloud item) (field ''cloud'')) (\<lambda>cloud.
     bindE (optionalNumber L (hiDewPoint item) (field ''dew'')) (\<lambda>dew.
     (if hiIcon item = [] \<or> hiText item = [] then Inl (field ''condition'' @ '': condition is missing'')
      else Inr
        \<lparr>hoForecastAt = forecastAt, hoTemperatureC = temp, hoConditionCode = hiIcon item,
         hoConditionText = hiText item, hoWindDegrees = wdeg, hoWindDirection = hiWindDirection item,
         hoWindScale = hiWindScale item, hoWindSpeedKMH = wspd, hoHumidityPercent = hum,
         hoPrecipitationChance = pop, hoPrecipitationMM = precip, hoPressureHPA = pres,
         hoCloudPercent = cloud, hoDewPointC = dew\<rparr>))))))))))))"

definition parseHourly :: "golib \<Rightarrow> hourlyResponse \<Rightarrow> bytes + ProviderResult" where
  "parseHourly L raw =
     bindE (parseTime L (hrUpdateTime raw) ''updateTime'') (\<lambda>updatedAt.
     (if hrHourly raw = [] then Inl ''hourly forecast is empty''
      else bindE (collect (parseHour L) (enumerate 0 (take 24 (hrHourly raw)))) (\<lambda>hours.
        Inr \<lparr>prUpdatedAt = updatedAt, prData = DHourly hours\<rparr>)))"

definition parseDay :: "golib \<Rightarrow> bytes \<Rightarrow> nat \<times> dailyItem \<Rightarrow> bytes + Day" where
  "parseDay L reference p =
     (let index = fst p; item = snd p; field = indexedField ''daily'' index in
     if ParseDate L (diDate item) = None then Inl (field ''fxDate'' @ '': invalid date'') else
     bindE (parseClock L (diDate item) (diSunrise item) reference (field ''sunrise'')) (\<lambda>sunrise.
     bindE (parseClock L (diDate item) (diSunset item) reference (field ''sunset'')) (\<lambda>sunset.
     bindE (parseClock L (diDate item) (diMoonrise item) reference (field ''moonrise'')) (\<lambda>moonrise.
     bindE (parseClock L (diDate item) (diMoonset item) reference (field ''moonset'')) (\<lambda>moonset.
     bindE (requiredNumber L (diTemperatureMax item) (field ''tempMax'')) (\<lambda>tmax.
     bindE (requiredNumber L (diTemperatureMin item) (field ''tempMin'')) (\<lambda>tmin.
     bindE (requiredNumber L (diWindDayDegrees item) (field ''wind360Day'')) (\<lambda>wdd.
     bindE (requiredNumber L (diWindDaySpeed item) (field ''windSpeedDay'')) (\<lambda>wds.
     bindE (requiredNumber L (diWindNightDegrees item) (field ''wind360Night'')) (\<lambda>wnd.
     bindE (requiredNumber L (diWindNightSpeed item) (field ''windSpeedNight'')) (\<lambda>wns.
     bindE (requiredNumber L (diHumidity item) (field ''humidity'')) (\<lambda>hum.
     bindE (requiredNumber L (diPrecipitation item) (field ''precip'')) (\<lambda>precip.
     bindE (requiredNumber L (diPressure item) (field ''pressure'')) (\<lambda>pres.
     bindE (requiredNumber L (diVisibility item) (field ''vis'')) (\<lambda>vis.
     bindE (optionalNumber L (diCloud item) (field ''cloud'')) (\<lambda>cloud.
     bindE (requiredNumber L (diUVIndex item) (field ''uvIndex'')) (\<lambda>uv.
     (if diIconDay item = [] \<or> diTextDay item = [] \<or> diIconNight item = [] \<or> diTextNight item = []
      then Inl (field ''condition'' @ '': condition is missing'')
      else Inr
        \<lparr>dyDate = diDate item, dySunrise = sunrise, dySunset = sunset, dyMoonrise = moonrise,
         dyMoonset = moonset, dyMoonPhase = diMoonPhase item, dyMoonPhaseCode = diMoonPhaseCode item,
         dyTemperatureMaxC = tmax, dyTemperatureMinC = tmin, dyConditionDayCode = diIconDay item,
         dyConditionDayText = diTextDay item, dyConditionNightCode = diIconNight item,
         dyConditionNightText = diTextNight item, dyWindDayDegrees = wdd,
         dyWindDayDirection = diWindDayDirection item, dyWindDayScale = diWindDayScale item,
         dyWindDaySpeedKMH = wds, dyWindNightDegrees = wnd,
         dyWindNightDirection = diWindNightDirection item, dyWindNightScale = diWindNightScale item,
         dyWindNightSpeedKMH = wns, dyHumidityPercent = hum, dyPrecipitationMM = precip,
         dyPressureHPA = pres, dyVisibilityKM = vis, dyCloudPercent = cloud, dyUVIndex = uv\<rparr>))))))))))))))))))"

definition parseDaily :: "golib \<Rightarrow> dailyResponse \<Rightarrow> bytes + ProviderResult" where
  "parseDaily L raw =
     bindE (parseTime L (drUpdateTime raw) ''updateTime'') (\<lambda>updatedAt.
     (if drDaily raw = [] then Inl ''daily forecast is empty''
      else bindE (collect (parseDay L (drUpdateTime raw)) (enumerate 0 (take 7 (drDaily raw)))) (\<lambda>days.
        Inr \<lparr>prUpdatedAt = updatedAt, prData = DDaily days\<rparr>)))"

subsection \<open>Alerts\<close>

definition maximumAlerts :: nat where "maximumAlerts = 32"
definition maximumAlertIDRunes :: nat where "maximumAlertIDRunes = 128"
definition maximumAlertTitleRunes :: nat where "maximumAlertTitleRunes = 256"
definition maximumAlertFieldRunes :: nat where "maximumAlertFieldRunes = 128"
definition maximumDescriptionRunes :: nat where "maximumDescriptionRunes = 8192"
definition maximumInstructionRunes :: nat where "maximumInstructionRunes = 4096"

definition boundedText :: "bytes \<Rightarrow> nat \<Rightarrow> bytes \<times> bool" where
  "boundedText v maximum =
     (let value = TrimSpace v; rs = runes value
      in if length rs \<le> maximum then (value, False) else (stringOfRunes (take maximum rs), True))"

text \<open>The Chinese words the code compares with, in UTF-8.\<close>

definition zhBlueColour :: bytes where
  "zhBlueColour = [CHR 0xE8, CHR 0x93, CHR 0x9D, CHR 0xE8, CHR 0x89, CHR 0xB2]"
definition zhBlue :: bytes where
  "zhBlue = [CHR 0xE8, CHR 0x93, CHR 0x9D]"
definition zhYellowColour :: bytes where
  "zhYellowColour = [CHR 0xE9, CHR 0xBB, CHR 0x84, CHR 0xE8, CHR 0x89, CHR 0xB2]"
definition zhYellow :: bytes where
  "zhYellow = [CHR 0xE9, CHR 0xBB, CHR 0x84]"
definition zhOrangeColour :: bytes where
  "zhOrangeColour = [CHR 0xE6, CHR 0xA9, CHR 0x99, CHR 0xE8, CHR 0x89, CHR 0xB2]"
definition zhOrange :: bytes where
  "zhOrange = [CHR 0xE6, CHR 0xA9, CHR 0x99]"
definition zhRedColour :: bytes where
  "zhRedColour = [CHR 0xE7, CHR 0xBA, CHR 0xA2, CHR 0xE8, CHR 0x89, CHR 0xB2]"
definition zhRed :: bytes where
  "zhRed = [CHR 0xE7, CHR 0xBA, CHR 0xA2]"
definition zhWarning :: bytes where
  "zhWarning = [CHR 0xE9, CHR 0xA2, CHR 0x84, CHR 0xE8, CHR 0xAD, CHR 0xA6, CHR 0xE4, CHR 0xB8, CHR 0xAD]"
definition zhInForce :: bytes where
  "zhInForce = [CHR 0xE7, CHR 0x94, CHR 0x9F, CHR 0xE6, CHR 0x95, CHR 0x88, CHR 0xE4, CHR 0xB8, CHR 0xAD]"
definition zhCancelWarning :: bytes where
  "zhCancelWarning = [CHR 0xE5, CHR 0x8F, CHR 0x96, CHR 0xE6, CHR 0xB6, CHR 0x88, CHR 0xE9, CHR 0xA2, CHR 0x84, CHR 0xE8, CHR 0xAD, CHR 0xA6]"
definition zhWarningLifted :: bytes where
  "zhWarningLifted = [CHR 0xE9, CHR 0xA2, CHR 0x84, CHR 0xE8, CHR 0xAD, CHR 0xA6, CHR 0xE8, CHR 0xA7, CHR 0xA3, CHR 0xE9, CHR 0x99, CHR 0xA4]"
definition zhLifted :: bytes where
  "zhLifted = [CHR 0xE5, CHR 0xB7, CHR 0xB2, CHR 0xE8, CHR 0xA7, CHR 0xA3, CHR 0xE9, CHR 0x99, CHR 0xA4]"

lemmas chinese_words = zhBlueColour_def zhBlue_def zhYellowColour_def zhYellow_def zhOrangeColour_def zhOrange_def zhRedColour_def
  zhRed_def zhWarning_def zhInForce_def zhCancelWarning_def zhWarningLifted_def zhLifted_def

definition normalizeSeverity :: "golib \<Rightarrow> bytes \<Rightarrow> bytes \<Rightarrow> bytes" where
  "normalizeSeverity L value level =
     (let v = ToLower (ulow L) (TrimSpace value); l = ToLower (ulow L) (TrimSpace level)
      in if v = ''minor'' then ''minor''
         else if v = ''moderate'' then ''moderate''
         else if v = ''severe'' then ''severe''
         else if v = ''extreme'' then ''extreme''
         else if l = ''blue'' \<or> l = zhBlueColour \<or> l = zhBlue then ''minor''
         else if l = ''yellow'' \<or> l = zhYellowColour \<or> l = zhYellow then ''moderate''
         else if l = ''orange'' \<or> l = zhOrangeColour \<or> l = zhOrange then ''severe''
         else if l = ''red'' \<or> l = zhRedColour \<or> l = zhRed then ''extreme''
         else ''unknown'')"

definition normalizeStatus :: "golib \<Rightarrow> bytes \<Rightarrow> bytes" where
  "normalizeStatus L value =
     (let v = ToLower (ulow L) (TrimSpace value)
      in if v \<in> set [''active'', zhWarning, zhInForce] then ''active''
         else if v \<in> set [''cancelled'', ''canceled'', zhCancelWarning, zhWarningLifted, zhLifted]
         then ''cancelled'' else ''unknown'')"

definition normalizeCAPValue :: "golib \<Rightarrow> bytes \<Rightarrow> bytes list \<Rightarrow> bytes" where
  "normalizeCAPValue L value allowed =
     (let v = ToLower (ulow L) (TrimSpace value)
      in if list_ex (\<lambda>candidate. v = candidate) allowed then v else ''unknown'')"

definition statusPriority :: "bytes \<Rightarrow> int" where
  "statusPriority status =
     (if status = ''active'' then 2 else if status = ''unknown'' then 1 else 0)"

definition severityPriority :: "bytes \<Rightarrow> int" where
  "severityPriority severity =
     (if severity = ''extreme'' then 4 else if severity = ''severe'' then 3
      else if severity = ''moderate'' then 2 else if severity = ''minor'' then 1 else 0)"

definition qweatherDetailURL :: "golib \<Rightarrow> bytes \<Rightarrow> bytes" where
  "qweatherDetailURL L value =
     (case UrlParse L (TrimSpace value) of
        None \<Rightarrow> []
      | Some u \<Rightarrow>
          if uScheme u \<noteq> ''https'' \<or> uHost u = [] \<or> uHasUser u then []
          else
            (let host = ToLower (ulow L) (uHostname u)
             in if host \<noteq> ''qweather.com'' \<and> \<not> HasSuffix host ''.qweather.com'' \<and>
                   host \<noteq> ''hfx.link'' \<and> \<not> HasSuffix host ''.hfx.link''
                then [] else uString u))"

text \<open>One warning. A Go time value and its \<open>UTC()\<close> are the same instant.\<close>

definition parseAlert :: "golib \<Rightarrow> nat \<times> warningItem \<Rightarrow> bytes + Alert" where
  "parseAlert L p =
     (let index = fst p; item = snd p; field = indexedField ''warning'' index;
          (alertID, t1) = boundedText (wiID item) maximumAlertIDRunes;
          (title, t2) = boundedText (wiTitle item) maximumAlertTitleRunes;
          authority = (if TrimSpace (wiSenderName item) = [] then wiSender item else wiSenderName item);
          (issuing, t3) = boundedText authority maximumAlertFieldRunes;
          (typeCode, t4) = boundedText (wiTypeCode item) maximumAlertFieldRunes;
          (typeName, t5) = boundedText (wiTypeName item) maximumAlertFieldRunes;
          (description, t6) = boundedText (wiText item) maximumDescriptionRunes;
          (instruction, t7) = boundedText (wiInstruction item) maximumInstructionRunes
      in if alertID = [] \<or> title = [] \<or> typeCode = [] \<or> typeName = []
         then Inl (field ''identity'' @ '': required identity is missing'')
         else
           bindE (parseTime L (wiPublishedAt item) (field ''pubTime'')) (\<lambda>issuedAt.
           bindE (parseOptionalTime L (wiStartsAt item) (field ''startTime'')) (\<lambda>startsAt.
           bindE (parseOptionalTime L (wiEndsAt item) (field ''endTime'')) (\<lambda>endsAt.
           Inr \<lparr>alID = alertID, alTitle = title, alIssuingAuthority = issuing, alTypeCode = typeCode,
             alTypeName = typeName, alSeverity = normalizeSeverity L (wiSeverity item) (wiLevel item),
             alStatus = normalizeStatus L (wiStatus item), alIssuedAt = issuedAt,
             alStartsAt = startsAt, alEndsAt = endsAt,
             alUrgency = normalizeCAPValue L (wiUrgency item)
               [''future'', ''expected'', ''immediate'', ''past''],
             alCertainty = normalizeCAPValue L (wiCertainty item)
               [''unlikely'', ''possible'', ''likely'', ''observed''],
             alDescription = description, alInstruction = instruction,
             alContentTruncated = (t1 \<or> t2 \<or> t3 \<or> t4 \<or> t5 \<or> t6 \<or> t7)\<rparr>))))"

text \<open>The comparison function and \<open>sort.SliceStable\<close>. Go compares strings bytewise.\<close>

fun bytesLess :: "bytes \<Rightarrow> bytes \<Rightarrow> bool" where
  "bytesLess [] ys = (ys \<noteq> [])"
| "bytesLess (x # xs) [] = False"
| "bytesLess (x # xs) (y # ys) = (byteval x < byteval y \<or> x = y \<and> bytesLess xs ys)"

definition alertLess :: "Alert \<Rightarrow> Alert \<Rightarrow> bool" where
  "alertLess l r =
     (if statusPriority (alStatus l) \<noteq> statusPriority (alStatus r)
      then statusPriority (alStatus r) < statusPriority (alStatus l)
      else if severityPriority (alSeverity l) \<noteq> severityPriority (alSeverity r)
      then severityPriority (alSeverity r) < severityPriority (alSeverity l)
      else if alIssuedAt l \<noteq> alIssuedAt r then alIssuedAt r < alIssuedAt l
      else bytesLess (alID l) (alID r))"

fun insertStable :: "('a \<Rightarrow> 'a \<Rightarrow> bool) \<Rightarrow> 'a \<Rightarrow> 'a list \<Rightarrow> 'a list" where
  "insertStable lt x [] = [x]"
| "insertStable lt x (y # ys) = (if lt y x then y # insertStable lt x ys else x # y # ys)"

definition SliceStable :: "('a \<Rightarrow> 'a \<Rightarrow> bool) \<Rightarrow> 'a list \<Rightarrow> 'a list" where
  "SliceStable lt xs = foldr (insertStable lt) xs []"

definition parseAlerts :: "golib \<Rightarrow> alertsResponse \<Rightarrow> bytes + ProviderResult" where
  "parseAlerts L raw =
     bindE (parseTime L (arUpdateTime raw) ''updateTime'') (\<lambda>updatedAt.
     bindE (collect (parseAlert L) (enumerate 0 (arWarning raw))) (\<lambda>items.
     (let ordered = SliceStable alertLess items;
          truncated = maximumAlerts < length ordered
      in Inr \<lparr>prUpdatedAt = updatedAt, prData = DAlerts
           \<lparr>asDetailURL = qweatherDetailURL L (arFXLink raw), asTruncated = truncated,
            asItems = (if truncated then take maximumAlerts ordered else ordered)\<rparr>\<rparr>)))"

subsection \<open>The order of the alerts\<close>

text \<open>The sort key: most urgent status first, then severity, then the newest, then the identifier.\<close>

definition alertKey :: "Alert \<Rightarrow> int \<times> int \<times> int \<times> bytes" where
  "alertKey a = (- statusPriority (alStatus a), - severityPriority (alSeverity a), - alIssuedAt a, alID a)"

lemma bytesLess_lex: "bytesLess xs ys \<longleftrightarrow> xs < ys"
proof (induction xs ys rule: bytesLess.induct)
  case (1 ys)
  then show ?case by (cases ys) auto
next
  case (3 x xs y ys)
  have "byteval x < byteval y \<longleftrightarrow> x < y" by (simp add: less_char_def byteval_def)
  then show ?case using 3 by simp
qed simp

lemma alertLess_key: "alertLess l r \<longleftrightarrow> alertKey l < alertKey r"
  by (auto simp: alertLess_def alertKey_def bytesLess_lex less_prod_def)

lemma insertStable_key:
  "(\<And>x y. lt x y \<longleftrightarrow> f x < f y) \<Longrightarrow> insertStable lt x ys = insort_key f x (ys :: 'a list)" for f :: "'a \<Rightarrow> 'b::linorder"
  by (induction ys) (auto simp: not_less)

lemma SliceStable_key:
  "(\<And>x y. lt x y \<longleftrightarrow> f x < f y) \<Longrightarrow> SliceStable lt xs = sort_key f (xs :: 'a list)" for f :: "'a \<Rightarrow> 'b::linorder"
  by (induction xs) (auto simp: SliceStable_def insertStable_key)

lemma SliceStable_alerts: "SliceStable alertLess items = sort_key alertKey items"
  by (rule SliceStable_key) (rule alertLess_key)

subsection \<open>Bounds on what a parser lets through\<close>

lemma boundedText_runes: "RuneCount (fst (boundedText v m)) \<le> m"
proof (cases "length (runes (TrimSpace v)) \<le> m")
  case True
  then show ?thesis by (simp add: boundedText_def Let_def RuneCount_def)
next
  case False
  let ?rs = "take m (runes (TrimSpace v))"
  have "runes (stringOfRunes ?rs) = ?rs"
    by (rule runes_stringOfRunes) (use runes_scalar [of "TrimSpace v"] in \<open>auto simp: list_all_iff dest: in_set_takeD\<close>)
  then show ?thesis using False by (simp add: boundedText_def Let_def RuneCount_def)
qed


lemma requiredNumber_finite: "requiredNumber L v field = Inr x \<Longrightarrow> finite64 x"
  by (cases x) (auto simp: requiredNumber_def Let_def isNaN_def isInf_def finite64_def split: if_splits option.splits)

lemma optionalNumber_finite: "optionalNumber L v field = Inr (Some x) \<Longrightarrow> finite64 x"
  by (auto simp: optionalNumber_def Let_def requiredNumber_finite split: if_splits)

lemma normalizeSeverity_range:
  "normalizeSeverity L v l \<in> {''minor'', ''moderate'', ''severe'', ''extreme'', ''unknown''}"
  by (simp add: normalizeSeverity_def Let_def)

lemma normalizeStatus_range: "normalizeStatus L v \<in> {''active'', ''cancelled'', ''unknown''}"
  by (simp add: normalizeStatus_def Let_def)

lemma normalizeCAPValue_range: "normalizeCAPValue L v allowed \<in> insert ''unknown'' (set allowed)"
  by (auto simp: normalizeCAPValue_def Let_def list_ex_iff)

text \<open>What a client may rely on in one alert.\<close>

definition alertOK :: "Alert \<Rightarrow> bool" where
  "alertOK a \<longleftrightarrow> alID a \<noteq> [] \<and> alTitle a \<noteq> [] \<and> alTypeCode a \<noteq> [] \<and> alTypeName a \<noteq> [] \<and>
     RuneCount (alID a) \<le> 128 \<and> RuneCount (alTitle a) \<le> 256 \<and> RuneCount (alIssuingAuthority a) \<le> 128 \<and>
     RuneCount (alTypeCode a) \<le> 128 \<and> RuneCount (alTypeName a) \<le> 128 \<and>
     RuneCount (alDescription a) \<le> 8192 \<and> RuneCount (alInstruction a) \<le> 4096 \<and>
     alSeverity a \<in> {''minor'', ''moderate'', ''severe'', ''extreme'', ''unknown''} \<and>
     alStatus a \<in> {''active'', ''cancelled'', ''unknown''} \<and>
     alUrgency a \<in> {''unknown'', ''future'', ''expected'', ''immediate'', ''past''} \<and>
     alCertainty a \<in> {''unknown'', ''unlikely'', ''possible'', ''likely'', ''observed''}"

lemmas alert_limits = maximumAlertIDRunes_def maximumAlertTitleRunes_def maximumAlertFieldRunes_def
  maximumDescriptionRunes_def maximumInstructionRunes_def

lemma parseAlert_texts:
  assumes "parseAlert L p = Inr a"
  shows "alID a = fst (boundedText (wiID (snd p)) 128)" "alTitle a = fst (boundedText (wiTitle (snd p)) 256)"
    "\<exists>v. alIssuingAuthority a = fst (boundedText v 128)"
    "alTypeCode a = fst (boundedText (wiTypeCode (snd p)) 128)"
    "alTypeName a = fst (boundedText (wiTypeName (snd p)) 128)"
    "alDescription a = fst (boundedText (wiText (snd p)) 8192)"
    "alInstruction a = fst (boundedText (wiInstruction (snd p)) 4096)"
    "alID a \<noteq> [] \<and> alTitle a \<noteq> [] \<and> alTypeCode a \<noteq> [] \<and> alTypeName a \<noteq> []"
  using assms unfolding parseAlert_def Let_def alert_limits
  by (auto simp: split_def split: if_splits)

lemma parseAlert_enums:
  assumes "parseAlert L p = Inr a"
  shows "alSeverity a = normalizeSeverity L (wiSeverity (snd p)) (wiLevel (snd p))"
    "alStatus a = normalizeStatus L (wiStatus (snd p))"
    "alUrgency a = normalizeCAPValue L (wiUrgency (snd p)) [''future'', ''expected'', ''immediate'', ''past'']"
    "alCertainty a = normalizeCAPValue L (wiCertainty (snd p)) [''unlikely'', ''possible'', ''likely'', ''observed'']"
  using assms unfolding parseAlert_def Let_def
  by (auto simp: split_def split: if_splits)

lemma parseAlert_ok:
  assumes "parseAlert L p = Inr a"
  shows "alertOK a"
proof -
  note t = parseAlert_texts [OF assms] and e = parseAlert_enums [OF assms]
  have "RuneCount (alID a) \<le> 128 \<and> RuneCount (alTitle a) \<le> 256 \<and> RuneCount (alIssuingAuthority a) \<le> 128 \<and>
     RuneCount (alTypeCode a) \<le> 128 \<and> RuneCount (alTypeName a) \<le> 128 \<and>
     RuneCount (alDescription a) \<le> 8192 \<and> RuneCount (alInstruction a) \<le> 4096"
    using t(3) unfolding t(1,2,4-7) by (auto simp: boundedText_runes)
  moreover have "alSeverity a \<in> {''minor'', ''moderate'', ''severe'', ''extreme'', ''unknown''}"
    unfolding e by (rule normalizeSeverity_range)
  moreover have "alStatus a \<in> {''active'', ''cancelled'', ''unknown''}"
    unfolding e by (rule normalizeStatus_range)
  moreover have "alUrgency a \<in> {''unknown'', ''future'', ''expected'', ''immediate'', ''past''}"
    using normalizeCAPValue_range [of L _ "[''future'', ''expected'', ''immediate'', ''past'']"]
    unfolding e by (simp only: list.set)
  moreover have "alCertainty a \<in> {''unknown'', ''unlikely'', ''possible'', ''likely'', ''observed''}"
    using normalizeCAPValue_range [of L _ "[''unlikely'', ''possible'', ''likely'', ''observed'']"]
    unfolding e by (simp only: list.set)
  ultimately show ?thesis using t(8) by (simp only: alertOK_def) blast
qed

lemma collect_all: "collect f xs = Inr ys \<Longrightarrow> (\<And>x y. f x = Inr y \<Longrightarrow> P y) \<Longrightarrow> list_all P ys"
  using collect_set by (fastforce simp: list_all_iff)

definition hourOK :: "Hour \<Rightarrow> bool" where
  "hourOK h \<longleftrightarrow> hoConditionCode h \<noteq> [] \<and> hoConditionText h \<noteq> [] \<and>
     list_all finite64 ([hoTemperatureC h, hoWindDegrees h, hoWindSpeedKMH h, hoHumidityPercent h,
       hoPrecipitationChance h, hoPrecipitationMM h, hoPressureHPA h] @
       List.map_filter id [hoCloudPercent h, hoDewPointC h])"

lemma map_filter_id_all: "list_all P (List.map_filter id xs) \<longleftrightarrow> list_all (\<lambda>x. case x of None \<Rightarrow> True | Some y \<Rightarrow> P y) xs"
  by (induction xs) (auto simp: List.map_filter_simps split: option.split)

lemma parseHour_ok: "parseHour L p = Inr h \<Longrightarrow> hourOK h"
  by (auto simp: parseHour_def hourOK_def Let_def map_filter_id_all split: if_splits option.split
      dest: requiredNumber_finite optionalNumber_finite)

lemma parseHour_text: "parseHour L p = Inr h \<Longrightarrow> hoConditionText h = hiText (snd p)"
  by (auto simp: parseHour_def Let_def split: if_splits)

definition dayOK :: "Day \<Rightarrow> bool" where
  "dayOK d \<longleftrightarrow> dyConditionDayCode d \<noteq> [] \<and> dyConditionDayText d \<noteq> [] \<and> dyConditionNightCode d \<noteq> [] \<and>
     dyConditionNightText d \<noteq> [] \<and>
     list_all finite64 ([dyTemperatureMaxC d, dyTemperatureMinC d, dyWindDayDegrees d, dyWindDaySpeedKMH d,
       dyWindNightDegrees d, dyWindNightSpeedKMH d, dyHumidityPercent d, dyPrecipitationMM d,
       dyPressureHPA d, dyVisibilityKM d, dyUVIndex d] @ List.map_filter id [dyCloudPercent d])"

lemma parseDay_ok: "parseDay L r p = Inr d \<Longrightarrow> dayOK d"
  by (auto simp: parseDay_def dayOK_def Let_def map_filter_id_all split: if_splits option.split
      dest: requiredNumber_finite optionalNumber_finite)

lemma parseDay_date: "parseDay L r p = Inr d \<Longrightarrow> dyDate d = diDate (snd p)"
  by (auto simp: parseDay_def Let_def split: if_splits)

definition currentOK :: "Current \<Rightarrow> bool" where
  "currentOK c \<longleftrightarrow> cuConditionCode c \<noteq> [] \<and> cuConditionText c \<noteq> [] \<and>
     list_all finite64 ([cuTemperatureC c, cuFeelsLikeC c, cuWindDegrees c, cuWindSpeedKMH c,
       cuHumidityPercent c, cuPrecipitationMM c, cuPressureHPA c, cuVisibilityKM c] @
       List.map_filter id [cuCloudPercent c, cuDewPointC c])"

lemma parseCurrent_ok:
  "parseCurrent L raw = Inr r \<Longrightarrow> \<exists>c. prData r = DCurrent c \<and> currentOK c"
  by (fastforce simp: parseCurrent_def currentOK_def map_filter_id_all split: if_splits option.split
      dest: requiredNumber_finite optionalNumber_finite)

lemma qweatherDetailURL_safe:
  "qweatherDetailURL L v = [] \<or> (\<exists>u. UrlParse L (TrimSpace v) = Some u \<and> qweatherDetailURL L v = uString u \<and>
     uScheme u = ''https'' \<and> \<not> uHasUser u \<and>
     (let host = ToLower (ulow L) (uHostname u)
      in host = ''qweather.com'' \<or> HasSuffix host ''.qweather.com'' \<or> host = ''hfx.link'' \<or> HasSuffix host ''.hfx.link''))"
  by (auto simp: qweatherDetailURL_def Let_def split: option.split)

subsection \<open>Properties\<close>


text \<open>The forecasts. A successful parse of an hourly response yields between 1 and 24 hours, the
  first ones of the response in order; a daily response yields between 1 and 7 days; in these and in
  the current weather every number is finite and every condition has a code and a text.\<close>

theorem forecast_bounds:
  "(case parseHourly L hourly of Inl _ \<Rightarrow> True | Inr r \<Rightarrow>
      \<exists>hours. prData r = DHourly hours \<and> length hours = min 24 (length (hrHourly hourly)) \<and> hours \<noteq> [] \<and>
        list_all hourOK hours \<and>
        map hoConditionText hours = map hiText (take 24 (hrHourly hourly))) \<and>
   (case parseDaily L daily of Inl _ \<Rightarrow> True | Inr r \<Rightarrow>
      \<exists>days. prData r = DDaily days \<and> length days = min 7 (length (drDaily daily)) \<and> days \<noteq> [] \<and>
        list_all dayOK days \<and> map dyDate days = map diDate (take 7 (drDaily daily))) \<and>
   (case parseCurrent L current of Inl _ \<Rightarrow> True | Inr r \<Rightarrow> \<exists>c. prData r = DCurrent c \<and> currentOK c)"
proof (intro conjI)
  show "case parseHourly L hourly of Inl _ \<Rightarrow> True | Inr r \<Rightarrow>
      \<exists>hours. prData r = DHourly hours \<and> length hours = min 24 (length (hrHourly hourly)) \<and> hours \<noteq> [] \<and>
        list_all hourOK hours \<and>
        map hoConditionText hours = map hiText (take 24 (hrHourly hourly))"
  proof (cases "parseHourly L hourly")
    case (Inr r)
    then obtain hours where h: "collect (parseHour L) (enumerate 0 (take 24 (hrHourly hourly))) = Inr hours"
      and ne: "hrHourly hourly \<noteq> []" and r: "prData r = DHourly hours"
      by (auto simp: parseHourly_def split: if_splits)
    have len: "length hours = min 24 (length (hrHourly hourly))" using collect_length [OF h] by simp
    moreover have "list_all hourOK hours" by (rule collect_all [OF h]) (rule parseHour_ok)
    moreover have "hoConditionText (hours ! i) = hiText (hrHourly hourly ! i)" if "i < length hours" for i
    proof -
      have "parseHour L (enumerate 0 (take 24 (hrHourly hourly)) ! i) = Inr (hours ! i)"
        using h [unfolded collect_all2] that by (rule list_all2_nthD2)
      then show ?thesis using parseHour_text that len by (fastforce simp: nth_enumerate_eq)
    qed
    moreover have "hours \<noteq> []" using len ne by (cases "hrHourly hourly") auto
    ultimately show ?thesis using Inr r by (auto intro!: nth_equalityI)
  qed simp
  show "case parseDaily L daily of Inl _ \<Rightarrow> True | Inr r \<Rightarrow>
      \<exists>days. prData r = DDaily days \<and> length days = min 7 (length (drDaily daily)) \<and> days \<noteq> [] \<and>
        list_all dayOK days \<and> map dyDate days = map diDate (take 7 (drDaily daily))"
  proof (cases "parseDaily L daily")
    case (Inr r)
    then obtain days where h: "collect (parseDay L (drUpdateTime daily)) (enumerate 0 (take 7 (drDaily daily))) = Inr days"
      and ne: "drDaily daily \<noteq> []" and r: "prData r = DDaily days"
      by (auto simp: parseDaily_def split: if_splits)
    have len: "length days = min 7 (length (drDaily daily))" using collect_length [OF h] by simp
    moreover have "list_all dayOK days" by (rule collect_all [OF h]) (rule parseDay_ok)
    moreover have "dyDate (days ! i) = diDate (drDaily daily ! i)" if "i < length days" for i
    proof -
      have "parseDay L (drUpdateTime daily) (enumerate 0 (take 7 (drDaily daily)) ! i) = Inr (days ! i)"
        using h [unfolded collect_all2] that by (rule list_all2_nthD2)
      then show ?thesis using parseDay_date that len by (fastforce simp: nth_enumerate_eq)
    qed
    moreover have "days \<noteq> []" using len ne by (cases "drDaily daily") auto
    ultimately show ?thesis using Inr r by (auto intro!: nth_equalityI)
  qed simp
  show "case parseCurrent L current of Inl _ \<Rightarrow> True | Inr r \<Rightarrow> \<exists>c. prData r = DCurrent c \<and> currentOK c"
    using parseCurrent_ok [of L current] by (auto split: sum.split)
qed

definition sampleHour :: hourlyItem where
  "sampleHour = \<lparr>hiForecastAt = ''late'', hiTemperature = ''1'', hiIcon = ''100'', hiText = ''Clear'',
     hiWindDegrees = ''1'', hiWindDirection = [], hiWindScale = [], hiWindSpeed = ''1'', hiHumidity = ''1'',
     hiPrecipitationChance = ''1'', hiPrecipitation = ''1'', hiPressure = ''1'', hiCloud = [], hiDewPoint = ''1''\<rparr>"

definition numberLib :: golib where
  "numberLib = emptyLib\<lparr>ParseFloat := (\<lambda>s. if s = ''1'' then Some (Fin 1) else None),
     ParseRFC3339 := (\<lambda>s. if s = ''late'' then Some 9 else None)\<rparr>"

definition sampleHourly :: hourlyResponse where
  "sampleHourly = \<lparr>hrUpdateTime = ''late'', hrHourly = replicate 2 sampleHour\<rparr>"

lemma sampleHourly_parse: "(case parseHourly numberLib sampleHourly of Inl _ \<Rightarrow> False | Inr _ \<Rightarrow> True)"
  by code_simp

lemma forecast_bounds_witness:
  "\<exists>r hours. parseHourly numberLib sampleHourly = Inr r \<and> prData r = DHourly hours \<and> length hours = 2 \<and>
     list_all hourOK hours \<and> map hoConditionText hours = replicate 2 ''Clear''"
proof -
  obtain r where r: "parseHourly numberLib sampleHourly = Inr r"
    using sampleHourly_parse by (auto split: sum.splits)
  have "map hiText (take 24 (hrHourly sampleHourly)) = replicate 2 ''Clear''" "length (hrHourly sampleHourly) = 2"
    by (simp_all add: sampleHourly_def sampleHour_def)
  with forecast_bounds [where L = numberLib and hourly = sampleHourly] r show ?thesis
    by auto
qed

definition stampLib :: golib where
  "stampLib = emptyLib\<lparr>ParseRFC3339 := (\<lambda>s. if s = ''late'' then Some 9 else if s = ''early'' then Some 5 else None)\<rparr>"

definition sampleWarning :: "bytes \<Rightarrow> bytes \<Rightarrow> warningItem" where
  "sampleWarning i published = \<lparr>wiID = i, wiSender = ''met'', wiSenderName = [], wiPublishedAt = published,
     wiTitle = ''Gale'', wiStartsAt = [], wiEndsAt = [], wiStatus = ''active'', wiLevel = ''Blue'',
     wiSeverity = [], wiTypeCode = ''11'', wiTypeName = ''Gale'', wiUrgency = [], wiCertainty = ''Likely'',
     wiText = [], wiInstruction = []\<rparr>"

definition sampleAlerts :: alertsResponse where
  "sampleAlerts = \<lparr>arUpdateTime = ''late'', arFXLink = [],
     arWarning = [sampleWarning ''a'' ''early'', sampleWarning ''b'' ''late'']\<rparr>"

lemma sampleAlerts_parse: "map_sum id (\<lambda>r. case prData r of DAlerts a \<Rightarrow> map alID (asItems a) | _ \<Rightarrow> [])
    (parseAlerts stampLib sampleAlerts) = Inr [''b'', ''a'']"
  by code_simp


end
