(* ===== verification/HttpApi.thy ===== *)
theory HttpApi
  imports GoLib
begin

section \<open>JSON transport and health: \<open>internal/platform/httpapi\<close>, \<open>internal/platform/health\<close>\<close>

text \<open>
  A handler that answers with one JSON value is a function to \<open>response\<close>. The middleware
  \<open>RequestContext\<close> wraps any handler: the handler is the sequence of calls it makes on its
  \<open>http.ResponseWriter\<close>, ended by a return or a panic; the observer counts what it writes and
  lets one status line through. The health endpoints ask every module whether it is ready.
\<close>

record APIError =
  aeCode :: bytes
  aeMessage :: bytes
  aeRequestID :: bytes

record response =
  rsStatus :: int
  rsHeaders :: "(bytes, bytes) gomap"
  rsBody :: json

text \<open>\<open>omitempty\<close> drops an empty request identifier.\<close>

definition errorJSON :: "APIError \<Rightarrow> json" where
  "errorJSON e = JObj [(''error'', JObj ([(''code'', JStr (aeCode e)), (''message'', JStr (aeMessage e))] @
     (if aeRequestID e = [] then [] else [(''request_id'', JStr (aeRequestID e))])))]"

definition jsonHeaders :: "(bytes, bytes) gomap" where
  "jsonHeaders = [(''Content-Type'', ''application/json; charset=utf-8''),
     (''Cache-Control'', ''private, no-store''), (''X-Content-Type-Options'', ''nosniff'')]"

definition WriteJSON :: "int \<Rightarrow> json \<Rightarrow> response" where
  "WriteJSON status value = \<lparr>rsStatus = status, rsHeaders = jsonHeaders, rsBody = value\<rparr>"

definition WriteError :: "request \<Rightarrow> int \<Rightarrow> bytes \<Rightarrow> bytes \<Rightarrow> response" where
  "WriteError r status code message =
     WriteJSON status (errorJSON \<lparr>aeCode = code, aeMessage = message, aeRequestID = rRequestID r\<rparr>)"

definition SetHeader :: "bytes \<Rightarrow> bytes \<Rightarrow> response \<Rightarrow> response" where
  "SetHeader k v w = w\<lparr>rsHeaders := AList.update k v (rsHeaders w)\<rparr>"

text \<open>\<open>newRequestID\<close>: twelve random bytes in hexadecimal; \<open>None\<close> is a failed \<open>rand.Read\<close>.\<close>

definition newRequestID :: "bytes option \<Rightarrow> bytes" where
  "newRequestID random = (case random of None \<Rightarrow> ''unavailable'' | Some v \<Rightarrow> hexEncode v)"

lemma WriteError_status [simp]: "rsStatus (WriteError r status code message) = status"
  by (simp add: WriteError_def WriteJSON_def)

lemma SetHeader_status [simp]: "rsStatus (SetHeader k v w) = rsStatus w" "rsBody (SetHeader k v w) = rsBody w"
  by (simp_all add: SetHeader_def)

lemma SetHeader_get [simp]: "map_of (rsHeaders (SetHeader k v w)) = (map_of (rsHeaders w))(k \<mapsto> v)"
  by (simp add: SetHeader_def)

subsection \<open>The response observer and panic isolation\<close>

text \<open>
  The calls a handler makes. \<open>DoWrite n\<close> is a \<open>Write\<close> of which the underlying writer took \<open>n\<close>
  bytes. \<open>rwSent\<close> is what reached the underlying writer.
\<close>

datatype writerCall = DoWriteHeader int | DoWrite nat

record responseObserver =
  roStatus :: int
  roBytes :: int
  roCommitted :: bool
  roSent :: "writerCall list"

definition newObserver :: responseObserver where
  "newObserver = \<lparr>roStatus = 0, roBytes = 0, roCommitted = False, roSent = []\<rparr>"

definition observerWriteHeader :: "int \<Rightarrow> responseObserver \<Rightarrow> responseObserver" where
  "observerWriteHeader status w =
     (if roCommitted w then w
      else w\<lparr>roStatus := status, roCommitted := True, roSent := roSent w @ [DoWriteHeader status]\<rparr>)"

definition observerWrite :: "nat \<Rightarrow> responseObserver \<Rightarrow> responseObserver" where
  "observerWrite n w =
     (let w = (if \<not> roCommitted w then observerWriteHeader 200 w else w)
      in w\<lparr>roBytes := int64 (roBytes w + int n), roSent := roSent w @ [DoWrite n]\<rparr>)"

fun observe :: "writerCall \<Rightarrow> responseObserver \<Rightarrow> responseObserver" where
  "observe (DoWriteHeader s) w = observerWriteHeader s w"
| "observe (DoWrite n) w = observerWrite n w"

text \<open>
  \<open>RequestContext\<close>: the handler's calls, then the deferred function. \<open>panicked\<close> says whether the
  handler ended in a panic, \<open>n\<close> how much of the error body the underlying writer took. The second
  component is the status written to the access log.
\<close>

definition RequestContext :: "writerCall list \<Rightarrow> bool \<Rightarrow> nat \<Rightarrow> responseObserver \<times> int" where
  "RequestContext calls panicked n =
     (let w = fold observe calls newObserver;
          w = (if panicked \<and> \<not> roCommitted w then observerWrite n (observerWriteHeader 500 w) else w)
      in (w, if roStatus w = 0 then 200 else roStatus w))"

text \<open>Exactly one status line precedes every body byte.\<close>

definition isBody :: "writerCall \<Rightarrow> bool" where
  "isBody c = (case c of DoWriteHeader _ \<Rightarrow> False | DoWrite _ \<Rightarrow> True)"

definition observerInv :: "responseObserver \<Rightarrow> bool" where
  "observerInv w \<longleftrightarrow>
     (if roCommitted w then \<exists>rest. roSent w = DoWriteHeader (roStatus w) # rest \<and> list_all isBody rest
      else roSent w = [] \<and> roStatus w = 0)"

lemma observe_inv [inv_intros]: "observerInv w \<Longrightarrow> observerInv (observe c w)"
  by (cases c) (auto simp: observerInv_def observerWriteHeader_def observerWrite_def isBody_def Let_def)

lemma observe_fold_inv: "observerInv w \<Longrightarrow> observerInv (fold observe calls w)"
  by (induction calls arbitrary: w) (auto intro: inv_intros)

lemma newObserver_inv: "observerInv newObserver"
  by (simp add: newObserver_def observerInv_def)

lemma observe_committed: "roCommitted (observe c w)"
  by (cases c) (auto simp: observerWriteHeader_def observerWrite_def Let_def)

lemma fold_committed: "roCommitted (fold observe calls newObserver) \<longleftrightarrow> calls \<noteq> []"
proof (cases calls rule: rev_cases)
  case Nil
  then show ?thesis by (simp add: newObserver_def)
qed (simp add: observe_committed)

lemma observe_keeps_status: "roCommitted w \<Longrightarrow> roStatus (observe c w) = roStatus w"
  by (cases c) (auto simp: observerWriteHeader_def observerWrite_def Let_def)

lemma fold_keeps_status: "roCommitted w \<Longrightarrow> roStatus (fold observe calls w) = roStatus w"
  by (induction calls arbitrary: w) (simp_all add: observe_keeps_status observe_committed)

text \<open>C38. Panic isolation commits one response. Whatever a handler writes and whether or not it
  panics, at most one status line reaches the connection, before any body bytes; it is the first
  one the handler chose (200 if it wrote a body first), or 500 when it panicked before writing
  anything; a panic after that adds nothing; and the access log shows the status sent, or 200 when
  the handler sent nothing.\<close>

theorem RequestContext_one_response:
  "let (w, logged) = RequestContext calls panicked n;
       first = (case calls of [] \<Rightarrow> (if panicked then Some 500 else None)
                | DoWriteHeader s # _ \<Rightarrow> Some s | DoWrite _ # _ \<Rightarrow> Some 200)
   in (case first of
         None \<Rightarrow> roSent w = [] \<and> logged = 200
       | Some s \<Rightarrow> (\<exists>rest. roSent w = DoWriteHeader s # rest \<and> list_all isBody rest) \<and>
           logged = (if s = 0 then 200 else s)) \<and>
      (calls = [] \<or> roSent w = roSent (fst (RequestContext calls False n)))"
proof (cases calls)
  case Nil
  then show ?thesis
    by (simp add: RequestContext_def newObserver_def observerWrite_def observerWriteHeader_def isBody_def Let_def)
next
  case (Cons c cs)
  let ?w = "fold observe calls newObserver"
  have com: "roCommitted ?w" unfolding fold_committed using Cons by simp
  have "roStatus ?w = roStatus (observe c newObserver)"
    using Cons by (simp add: fold_keeps_status observe_committed)
  moreover obtain rest where "roSent ?w = DoWriteHeader (roStatus ?w) # rest" "list_all isBody rest"
    using observe_fold_inv [OF newObserver_inv, of calls] com by (auto simp: observerInv_def)
  moreover have "RequestContext calls panicked n = (?w, if roStatus ?w = 0 then 200 else roStatus ?w)" for panicked
    using com by (simp add: RequestContext_def Let_def)
  ultimately show ?thesis
    using Cons by (cases c)
      (auto simp: newObserver_def observerWrite_def observerWriteHeader_def Let_def)
qed

subsection \<open>Health\<close>

datatype readiness = Ready | SetupRequired | NotReady bytes

text \<open>A registered module is its name and the result of \<open>Ready()\<close>.\<close>

type_synonym moduleReady = "bytes \<times> readiness"

fun readyStatus :: "readiness \<Rightarrow> bytes" where
  "readyStatus Ready = ''ready''"
| "readyStatus SetupRequired = ''setup_required''"
| "readyStatus (NotReady _) = ''unavailable''"

definition healthLoop :: "moduleReady list \<Rightarrow> (bytes, bytes) gomap \<times> bool" where
  "healthLoop modules =
     fold (\<lambda>(name, r) (statuses, ready). (AList.update name (readyStatus r) statuses, ready \<and> r = Ready))
       modules ([], True)"

definition statusesJSON :: "(bytes, bytes) gomap \<Rightarrow> json" where
  "statusesJSON m = JObj (map (\<lambda>(k, v). (k, JStr v)) m)"

definition healthReady :: "moduleReady list \<Rightarrow> response" where
  "healthReady modules =
     (let (statuses, ready) = healthLoop modules
      in if \<not> ready
         then WriteJSON 503 (JObj [(''status'', JStr ''unavailable''), (''modules'', statusesJSON statuses)])
         else WriteJSON 200 (JObj [(''status'', JStr ''ready''), (''modules'', statusesJSON statuses)]))"

definition healthLive :: "bytes \<Rightarrow> time \<Rightarrow> response" where
  "healthLive version startedAt =
     WriteJSON 200 (JObj [(''status'', JStr ''ok''), (''version'', JStr version), (''started_at'', JTime startedAt)])"

lemma healthLoop_fold:
  "snd (fold (\<lambda>(name, r) (st, ready). (AList.update name (readyStatus r) st, ready \<and> r = Ready)) ms (st0, b)) =
     (b \<and> list_all (\<lambda>m. snd m = Ready) ms)"
  "map_of (fst (fold (\<lambda>(name, r) (st, ready). (AList.update name (readyStatus r) st, ready \<and> r = Ready)) ms (st0, b))) k =
     (case map_of (rev ms) k of None \<Rightarrow> map_of st0 k | Some r \<Rightarrow> Some (readyStatus r))"
  by (induction ms arbitrary: st0 b) (auto simp: map_of_append map_add_def split: option.splits)

text \<open>Readiness. The endpoint answers 200 exactly when every registered module is ready, and
  503 otherwise; either way the body reports each module by name, telling a service that waits for
  its setup from one that is unavailable. It is the modules' own answer, no upstream call is made.\<close>

theorem healthReady_status:
  "let m = fst (healthLoop modules); ok = list_all (\<lambda>p. snd p = Ready) modules
   in rsStatus (healthReady modules) = (if ok then 200 else 503) \<and>
      rsBody (healthReady modules) =
        JObj [(''status'', JStr (if ok then ''ready'' else ''unavailable'')), (''modules'', statusesJSON m)] \<and>
      map_of m = (\<lambda>k. map_option readyStatus (map_of (rev modules) k))"
proof -
  have ready: "snd (healthLoop modules) = list_all (\<lambda>p. snd p = Ready) modules"
    by (simp add: healthLoop_def healthLoop_fold(1) [simplified])
  have "map_of (fst (healthLoop modules)) k = map_option readyStatus (map_of (rev modules) k)" for k
    by (simp add: healthLoop_def healthLoop_fold(2) split: option.split)
  with ready show ?thesis
    by (auto simp: healthReady_def WriteJSON_def Let_def split: prod.split)
qed

end
