(* ===== verification/DeviceAuth.thy ===== *)
theory DeviceAuth
  imports HttpApi
begin

section \<open>Device authentication: \<open>internal/platform/auth/auth.go\<close>\<close>

text \<open>
  A device token is verified by its SHA-256 digest, which is all the server stores. The middleware
  compares the digest of the presented token with every credential. SHA-256 is a parameter; where a
  lemma needs it, its digests have 32 bytes.
\<close>

record Credential =
  crDeviceID :: bytes
  crHash :: bytes

definition CredentialFromHex :: "bytes \<Rightarrow> bytes \<Rightarrow> Credential option" where
  "CredentialFromHex deviceID value =
     (case hexDecode value of
        None \<Rightarrow> None
      | Some decoded \<Rightarrow>
          if length decoded \<noteq> 32 \<or> deviceID = [] then None
          else Some \<lparr>crDeviceID = deviceID, crHash = decoded\<rparr>)"

definition HashToken :: "golib \<Rightarrow> bytes \<Rightarrow> bytes" where
  "HashToken L token = hexEncode (sha256 L token)"

definition bearerToken :: "bytes \<Rightarrow> bytes option" where
  "bearerToken value =
     (if 512 < length value then None
      else (let parts = Fields value
            in if length parts \<noteq> 2 \<or> \<not> EqualFoldASCII (parts ! 0) ''Bearer'' \<or> parts ! 1 = [] then None
               else Some (parts ! 1)))"

text \<open>The loop of \<open>Wrap\<close>: it does not stop at the first match.\<close>

fun matchCredentials :: "bytes \<Rightarrow> Credential list \<Rightarrow> bool \<times> bytes \<Rightarrow> bool \<times> bytes" where
  "matchCredentials candidate [] acc = acc"
| "matchCredentials candidate (c # cs) (matched, deviceID) =
     (let equal = (candidate = crHash c)
      in matchCredentials candidate cs (matched \<or> equal, if equal then crDeviceID c else deviceID))"

definition unauthorized :: "request \<Rightarrow> response" where
  "unauthorized r =
     (let w = WriteError r 401 ''unauthorized'' ''authentication required''
      in w\<lparr>rsHeaders := (''WWW-Authenticate'', ''Bearer'') # rsHeaders w\<rparr>)"

text \<open>\<open>Wrap\<close>: either the 401 response, or the device the next handler sees as its principal.\<close>

definition Wrap :: "golib \<Rightarrow> Credential list \<Rightarrow> request \<Rightarrow> response + bytes" where
  "Wrap L credentials r =
     (case bearerToken (HeaderGet r ''Authorization'') of
        None \<Rightarrow> Inl (unauthorized r)
      | Some token \<Rightarrow>
          (let (matched, deviceID) = matchCredentials (sha256 L token) credentials (False, [])
           in if \<not> matched then Inl (unauthorized r) else Inr deviceID))"

definition NewForToken :: "golib \<Rightarrow> bytes \<Rightarrow> Credential list" where
  "NewForToken L token = [\<lparr>crDeviceID = ''default'', crHash = sha256 L token\<rparr>]"

lemma matchCredentials_filter:
  "matchCredentials h cs (m, d) =
     (let hits = filter (\<lambda>c. crHash c = h) cs
      in (m \<or> hits \<noteq> [], if hits = [] then d else crDeviceID (last hits)))"
proof (induction cs arbitrary: m d)
  case (Cons c cs)
  then show ?case by (cases "filter (\<lambda>c. crHash c = h) cs") (auto simp: Let_def)
qed simp

lemma Wrap_eq:
  "Wrap L credentials r =
     (case bearerToken (HeaderGet r ''Authorization'') of
        None \<Rightarrow> Inl (unauthorized r)
      | Some token \<Rightarrow>
          (let hits = filter (\<lambda>c. crHash c = sha256 L token) credentials
           in if hits = [] then Inl (unauthorized r) else Inr (crDeviceID (last hits))))"
  by (auto simp: Wrap_def matchCredentials_filter Let_def split: option.split)

lemma CredentialFromHex_HashToken:
  "length (sha256 L token) = 32 \<Longrightarrow> d \<noteq> [] \<Longrightarrow>
    CredentialFromHex d (HashToken L token) = Some \<lparr>crDeviceID = d, crHash = sha256 L token\<rparr>"
  by (simp add: CredentialFromHex_def HashToken_def hexDecode_hexEncode)

lemma CredentialFromHex_hash: "CredentialFromHex d h = Some c \<Longrightarrow> hexDecode h = Some (crHash c) \<and> crDeviceID c = d"
  by (auto simp: CredentialFromHex_def split: option.splits if_splits)

subsection \<open>Issued tokens\<close>

text \<open>The tokens the server issues are base64url text: visible ASCII without spaces.\<close>

definition visibleASCII :: "bytes \<Rightarrow> bool" where
  "visibleASCII s \<longleftrightarrow> list_all (\<lambda>c. inrange 0x21 0x7E (byteval c)) s"

lemma visible_not_space:
  assumes "inrange 0x21 0x7E (byteval c)" shows "spaceAt spaceSeqs (c # s) = None"
proof -
  have "find (\<lambda>p. p \<noteq> [] \<and> prefix p (c # s)) spaceSeqs = None"
    unfolding find_None_iff using assms by (auto simp: spaceSeqs_def inrange_def)
  then show ?thesis by (simp add: spaceAt_def)
qed

lemma fieldsAux_visible: "visibleASCII s \<Longrightarrow> fieldsAux cur (s @ t) = fieldsAux (cur @ s) t"
  by (induction s arbitrary: cur) (simp_all add: visibleASCII_def visible_not_space)

lemma fieldsAux_space: "fieldsAux cur (CHR '' '' # s) = (if cur = [] then [] else [cur]) @ fieldsAux [] s"
proof -
  have "spaceAt spaceSeqs (CHR '' '' # s) = Some 1" by (simp add: spaceAt_def spaceSeqs_def)
  then show ?thesis by simp
qed

lemma bearerToken_issued:
  assumes "visibleASCII t" and "t \<noteq> []" and "length t \<le> 505"
  shows "bearerToken (''Bearer '' @ t) = Some t"
proof -
  have "visibleASCII ''Bearer''" by (simp add: visibleASCII_def inrange_def)
  then have "Fields (''Bearer'' @ CHR '' '' # t) = [''Bearer'', t]"
    using fieldsAux_visible [of "''Bearer''" "[]" "CHR '' '' # t"] fieldsAux_visible [OF assms(1), of "[]" "[]"] assms(2)
    by (simp add: Fields_def fieldsAux_space del: fieldsAux.simps(2))
  with assms show ?thesis by (simp add: bearerToken_def EqualFoldASCII_def Let_def)
qed

text \<open>The credentials of a list of issued tokens, through their stored verifiers.\<close>

definition issuedCredentials :: "golib \<Rightarrow> (bytes \<times> bytes) list \<Rightarrow> Credential list" where
  "issuedCredentials L issued = List.map_filter (\<lambda>(d, t). CredentialFromHex d (HashToken L t)) issued"

lemma issuedCredentials_map:
  assumes "\<And>t. length (sha256 L t) = 32" and "list_all (\<lambda>(d, t). d \<noteq> []) issued"
  shows "issuedCredentials L issued = map (\<lambda>(d, t). \<lparr>crDeviceID = d, crHash = sha256 L t\<rparr>) issued"
  using assms(2) unfolding issuedCredentials_def
  by (induction issued) (auto simp: List.map_filter_simps CredentialFromHex_HashToken assms(1))

lemma filter_unique: "distinct (map f xs) \<Longrightarrow> x \<in> set xs \<Longrightarrow> filter (\<lambda>y. f y = f x) xs = [x]"
proof (induction xs)
  case (Cons y ys)
  show ?case
  proof (cases "f y = f x")
    case True
    with Cons.prems have "y = x" by (auto simp: image_iff)
    moreover have "filter (\<lambda>y. f y = f x) ys = []" using Cons.prems True by (auto simp: filter_empty_conv image_iff)
    ultimately show ?thesis by simp
  next
    case False
    with Cons show ?thesis by auto
  qed
qed simp

text \<open>Device authentication. With the verifiers of a list of issued tokens stored, a request is
  let through as device \<open>d\<close> exactly when its \<open>Authorization\<close> header is a bearer header with the
  token issued to \<open>d\<close>; every issued token so presented is accepted, and everything else is answered
  401 with a \<open>WWW-Authenticate\<close> challenge. Assumed of SHA-256: digests of 32 bytes, and no collision
  between the presented token and the issued ones.\<close>

theorem Wrap_issued:
  assumes "\<And>t. length (sha256 L t) = 32"
    and "list_all (\<lambda>(d, t). d \<noteq> []) issued" and "distinct (map snd issued)"
    and "inj_on (sha256 L) (set (map snd issued) \<union> set_option (bearerToken (HeaderGet r ''Authorization'')))"
  shows "(Wrap L (issuedCredentials L issued) r = Inr d \<longleftrightarrow>
      (\<exists>t. bearerToken (HeaderGet r ''Authorization'') = Some t \<and> (d, t) \<in> set issued)) \<and>
    (case Wrap L (issuedCredentials L issued) r of Inr _ \<Rightarrow> True
     | Inl w \<Rightarrow> rsStatus w = 401 \<and> map_of (rsHeaders w) ''WWW-Authenticate'' = Some ''Bearer'') \<and>
    ((d, t) \<in> set issued \<and> visibleASCII t \<and> t \<noteq> [] \<and> length t \<le> 505 \<and> HeaderGet r ''Authorization'' = ''Bearer '' @ t \<longrightarrow>
      Wrap L (issuedCredentials L issued) r = Inr d)"
proof -
  let ?W = "Wrap L (issuedCredentials L issued) r"
  have iff: "?W = Inr d \<longleftrightarrow> (\<exists>t. bearerToken (HeaderGet r ''Authorization'') = Some t \<and> (d, t) \<in> set issued)"
  proof (cases "bearerToken (HeaderGet r ''Authorization'')")
    case (Some t)
    let ?hits = "filter (\<lambda>p. snd p = t) issued"
    have "filter (\<lambda>c. crHash c = sha256 L t) (issuedCredentials L issued) =
        map (\<lambda>(d, t). \<lparr>crDeviceID = d, crHash = sha256 L t\<rparr>) (filter (\<lambda>(d, u). sha256 L u = sha256 L t) issued)"
      by (simp add: issuedCredentials_map [OF assms(1,2)] filter_map comp_def case_prod_unfold)
    also have "filter (\<lambda>(d, u). sha256 L u = sha256 L t) issued = ?hits"
      using assms(4) Some by (intro filter_cong) (auto simp: inj_on_def image_iff)
    finally have hits: "?W = (if ?hits = [] then Inl (unauthorized r) else Inr (fst (last ?hits)))"
      by (simp add: Wrap_eq Some Let_def last_map case_prod_unfold)
    show ?thesis
    proof (cases "?hits = []")
      case True
      with hits Some show ?thesis by (force simp: filter_empty_conv)
    next
      case False
      then obtain p where p: "p \<in> set issued" "snd p = t" by (auto simp: filter_empty_conv)
      have e: "?hits = [p]" using filter_unique [OF assms(3) p(1)] p(2) by simp
      have "(d, t) \<in> set issued \<longleftrightarrow> (d, t) \<in> set ?hits" by simp
      also have "\<dots> \<longleftrightarrow> d = fst p" unfolding e using p(2) by (cases p) auto
      finally have "(d, t) \<in> set issued \<longleftrightarrow> d = fst p" .
      moreover note e
      ultimately show ?thesis using hits Some by auto
    qed
  qed (simp add: Wrap_def)
  moreover have "rsStatus (unauthorized r) = 401 \<and> map_of (rsHeaders (unauthorized r)) ''WWW-Authenticate'' = Some ''Bearer''"
    by (simp add: unauthorized_def Let_def)
  moreover have "?W = Inl w \<Longrightarrow> w = unauthorized r" for w
    by (auto simp: Wrap_eq Let_def split: option.splits if_splits)
  ultimately show ?thesis
    using bearerToken_issued [of t] by (auto split: sum.split)
qed

lemma Wrap_issued_witness:
  "Wrap padLib (issuedCredentials padLib [(''a'', ''one''), (''b'', ''two'')])
     (emptyRequest\<lparr>rHeader := (\<lambda>h. if h = ''Authorization'' then [''Bearer two''] else [])\<rparr>) = Inr ''b''"
proof -
  let ?r = "emptyRequest\<lparr>rHeader := (\<lambda>h. if h = ''Authorization'' then [''Bearer two''] else [])\<rparr>"
  have h: "HeaderGet ?r ''Authorization'' = ''Bearer '' @ ''two''" by (simp add: HeaderGet_def)
  have v: "visibleASCII ''two''" by (simp add: visibleASCII_def inrange_def)
  have b: "bearerToken (''Bearer '' @ ''two'') = Some ''two''" by (rule bearerToken_issued [OF v]) simp_all
  show ?thesis
    using Wrap_issued [of padLib "[(''a'', ''one''), (''b'', ''two'')]" ?r "''b''" "''two''"] v
    unfolding h b by (auto simp: padLib_def inj_on_def)
qed

end
