(* ===== verification/StateModel.thy ===== *)
theory StateModel
  imports GoLib
begin

section \<open>The persistent configuration: the data types of \<open>internal/platform/state/state.go\<close>\<close>

text \<open>
  One record per Go struct. \<open>uint32\<close> and \<open>uint8\<close> fields are words; \<open>int\<close> and \<open>int64\<close> fields are
  integers, which \<open>json\<close> decoding keeps in the 64-bit range. Slices are lists, so a nil and an empty
  slice are the same value here; no branch of the server tells them apart.
\<close>

record PasswordHash =
  phAlgorithm :: bytes
  phSalt :: bytes
  phDigest :: bytes
  phMemoryKiB :: "32 word"
  phIterations :: "32 word"
  phParallelism :: "8 word"

record AdminState =
  asPassword :: PasswordHash
  asPublicOrigins :: "bytes list"

record QWeatherState =
  qwAPIHost :: bytes
  qwProjectID :: bytes
  qwCredentialID :: bytes
  qwPrivateKeyPEM :: bytes
  qwLanguage :: bytes
  qwUnit :: bytes
  qwRequestTimeoutSeconds :: int
  qwCircuitCooldownSeconds :: int

record CacheState =
  caCurrentTTL :: int
  caCurrentStaleMax :: int
  caHourlyTTL :: int
  caHourlyStaleMax :: int
  caDailyTTL :: int
  caDailyStaleMax :: int
  caAlertsTTL :: int
  caAlertsStaleMax :: int
  caMaxLocations :: int

record DeviceToken =
  dtID :: bytes
  dtName :: bytes
  dtHash :: bytes
  dtCreatedAt :: time

record State =
  stSchemaVersion :: int
  stUpdatedAt :: time
  stAdmin :: AdminState
  stQWeather :: QWeatherState
  stCache :: CacheState
  stDeviceTokens :: "DeviceToken list"

definition SchemaVersion :: int where "SchemaVersion = 4"
definition previousSchema :: int where "previousSchema = 3"
definition maximumSize :: nat where "maximumSize = 1024 * 1024"

text \<open>The Go constant expressions divide durations of nanoseconds by \<open>time.Second\<close>.\<close>

definition DefaultCache :: CacheState where
  "DefaultCache =
     \<lparr>caCurrentTTL = (20 * minute) div second, caCurrentStaleMax = (6 * hour) div second,
      caHourlyTTL = hour div second, caHourlyStaleMax = (12 * hour) div second,
      caDailyTTL = (4 * hour) div second, caDailyStaleMax = (48 * hour) div second,
      caAlertsTTL = (10 * minute) div second, caAlertsStaleMax = hour div second,
      caMaxLocations = 64\<rparr>"

record cacheStateV3 =
  c3CurrentTTL :: int
  c3CurrentStaleMax :: int
  c3HourlyTTL :: int
  c3HourlyStaleMax :: int
  c3DailyTTL :: int
  c3DailyStaleMax :: int
  c3MaxLocations :: int

record stateV3 =
  s3SchemaVersion :: int
  s3UpdatedAt :: time
  s3Admin :: AdminState
  s3QWeather :: QWeatherState
  s3Cache :: cacheStateV3
  s3DeviceTokens :: "DeviceToken list"

definition migrateV3 :: "stateV3 \<Rightarrow> State" where
  "migrateV3 value =
     (let defaults = DefaultCache; c = s3Cache value
      in \<lparr>stSchemaVersion = SchemaVersion, stUpdatedAt = s3UpdatedAt value, stAdmin = s3Admin value,
          stQWeather = s3QWeather value,
          stCache =
            \<lparr>caCurrentTTL = c3CurrentTTL c, caCurrentStaleMax = c3CurrentStaleMax c,
             caHourlyTTL = c3HourlyTTL c, caHourlyStaleMax = c3HourlyStaleMax c,
             caDailyTTL = c3DailyTTL c, caDailyStaleMax = c3DailyStaleMax c,
             caAlertsTTL = caAlertsTTL defaults, caAlertsStaleMax = caAlertsStaleMax defaults,
             caMaxLocations = c3MaxLocations c\<rparr>,
          stDeviceTokens = s3DeviceTokens value\<rparr>)"

lemma migrateV3_fields [simp]:
  "stSchemaVersion (migrateV3 v) = SchemaVersion" "stUpdatedAt (migrateV3 v) = s3UpdatedAt v"
  "stAdmin (migrateV3 v) = s3Admin v" "stQWeather (migrateV3 v) = s3QWeather v"
  "stDeviceTokens (migrateV3 v) = s3DeviceTokens v"
  by (simp_all add: migrateV3_def Let_def)

end
