(* ===== verification/AdminAuth.thy ===== *)
theory AdminAuth
  imports StateModel "HOL-Library.While_Combinator"
begin

section \<open>Management authentication: \<open>session.go\<close>, \<open>limiter.go\<close>, \<open>password.go\<close> of \<open>internal/platform/adminauth\<close>\<close>

text \<open>
  Sessions are a bounded table keyed by the digest of the cookie value; the random bytes of a new
  session and the clock are arguments. The lemmas follow every cookie back to the \<open>Create\<close> that
  issued it. The limiter counts attempts in a window. Argon2id and base64 are parameters, with their
  documented laws as hypotheses where a lemma needs them.
\<close>

subsection \<open>Sessions\<close>

definition sessionLifetime :: duration where "sessionLifetime = 12 * hour"
definition sessionIdle :: duration where "sessionIdle = hour"
definition maximumSessions :: nat where "maximumSessions = 64"

record session =
  ssCsrf :: bytes
  ssCreatedAt :: time
  ssLastSeen :: time

type_synonym Sessions = "(bytes, session) gomap"

definition NewSessions :: Sessions where "NewSessions = []"

definition tokenKey :: "golib \<Rightarrow> bytes \<Rightarrow> bytes" where
  "tokenKey L token = hexEncode (sha256 L token)"

definition expired :: "session \<Rightarrow> time \<Rightarrow> bool" where
  "expired value now \<longleftrightarrow> sessionLifetime \<le> time_sub now (ssCreatedAt value) \<or>
     sessionIdle \<le> time_sub now (ssLastSeen value)"

definition purgeLocked :: "time \<Rightarrow> Sessions \<Rightarrow> Sessions" where
  "purgeLocked now s = filter (\<lambda>p. \<not> expired (snd p) now) s"

text \<open>The scan of \<open>removeOldestLocked\<close>: the empty key stands for ``none found yet''.\<close>

fun oldestScan :: "Sessions \<Rightarrow> bytes \<Rightarrow> time \<Rightarrow> bytes" where
  "oldestScan [] oldestKey oldest = oldestKey"
| "oldestScan ((key, value) # s) oldestKey oldest =
     (if oldestKey = [] \<or> ssLastSeen value < oldest then oldestScan s key (ssLastSeen value)
      else oldestScan s oldestKey oldest)"

definition removeOldestLocked :: "Sessions \<Rightarrow> Sessions" where
  "removeOldestLocked s = AList.delete (oldestScan s [] zero_time) s"

text \<open>The loop of \<open>Create\<close>; every pass removes one session, so the table's length is enough fuel.\<close>

fun makeRoom :: "nat \<Rightarrow> Sessions \<Rightarrow> Sessions" where
  "makeRoom 0 s = s"
| "makeRoom (Suc fuel) s = (if maximumSessions \<le> length s then makeRoom fuel (removeOldestLocked s) else s)"

text \<open>\<open>randomToken\<close>: 32 random bytes in base64url, or an error of \<open>rand.Read\<close>.\<close>

definition randomToken :: "golib \<Rightarrow> bytes option \<Rightarrow> bytes option" where
  "randomToken L random = map_option (b64RawURL L) random"

definition Create :: "golib \<Rightarrow> time \<Rightarrow> bytes option \<Rightarrow> bytes option \<Rightarrow> Sessions \<Rightarrow> (bytes \<times> bytes) option \<times> Sessions" where
  "Create L now r1 r2 s =
     (case randomToken L r1 of
        None \<Rightarrow> (None, s)
      | Some token \<Rightarrow>
          (case randomToken L r2 of
             None \<Rightarrow> (None, s)
           | Some csrf \<Rightarrow>
               (let s = purgeLocked now s; s = makeRoom (length s) s
                in (Some (token, csrf),
                    AList.update (tokenKey L token) \<lparr>ssCsrf = csrf, ssCreatedAt = now, ssLastSeen = now\<rparr> s))))"

definition Validate :: "golib \<Rightarrow> time \<Rightarrow> bytes \<Rightarrow> Sessions \<Rightarrow> bytes option \<times> Sessions" where
  "Validate L now token s =
     (if 128 < length token then (None, s)
      else (let key = tokenKey L token
            in case map_of s key of
                 None \<Rightarrow> (None, AList.delete key s)
               | Some value \<Rightarrow>
                   if expired value now then (None, AList.delete key s)
                   else (Some (ssCsrf value), AList.update key (value\<lparr>ssLastSeen := now\<rparr>) s)))"

definition ValidateCSRF :: "golib \<Rightarrow> time \<Rightarrow> bytes \<Rightarrow> bytes \<Rightarrow> Sessions \<Rightarrow> bool \<times> Sessions" where
  "ValidateCSRF L now token csrf s =
     (case Validate L now token s of
        (None, s) \<Rightarrow> (False, s)
      | (Some expected, s) \<Rightarrow> (length csrf = length expected \<and> csrf = expected, s))"

definition DeleteSession :: "golib \<Rightarrow> bytes \<Rightarrow> Sessions \<Rightarrow> Sessions" where
  "DeleteSession L token s = AList.delete (tokenKey L token) s"

definition ClearSessions :: "Sessions \<Rightarrow> Sessions" where
  "ClearSessions s = []"

subsection \<open>The table stays bounded\<close>

lemma tokenKey_not_Nil: "sha256 L token \<noteq> [] \<Longrightarrow> tokenKey L token \<noteq> []"
  by (cases "sha256 L token") (auto simp: tokenKey_def hexEncode_def)

definition sessionsInv :: "Sessions \<Rightarrow> bool" where
  "sessionsInv s \<longleftrightarrow> distinct (map fst s) \<and> length s \<le> maximumSessions \<and> [] \<notin> fst ` set s"

lemma oldestScan_in: "[] \<notin> fst ` set s \<Longrightarrow> oldestKey \<noteq> [] \<Longrightarrow> oldestScan s oldestKey oldest \<in> insert oldestKey (fst ` set s)"
  by (induction s oldestKey oldest rule: oldestScan.induct) (auto split: if_splits)

lemma oldestScan_least:
  assumes "[] \<notin> fst ` set s" and "distinct (map fst s)"
  shows "oldestKey \<noteq> [] \<Longrightarrow> oldestKey \<notin> fst ` set s \<Longrightarrow>
    (\<exists>v. map_of ((oldestKey, w) # s) (oldestScan s oldestKey (ssLastSeen w)) = Some v \<and> ssLastSeen v \<le> ssLastSeen w \<and>
       (\<forall>p\<in>set s. ssLastSeen v \<le> ssLastSeen (snd p)))"
  using assms
proof (induction s arbitrary: oldestKey w)
  case (Cons p s)
  obtain k u where p: "p = (k, u)" by force
  have k: "k \<noteq> []" "k \<notin> fst ` set s" "[] \<notin> fst ` set s" "distinct (map fst s)" "oldestKey \<noteq> k" "oldestKey \<notin> fst ` set s"
    using Cons.prems p by auto
  show ?case
  proof (cases "ssLastSeen u < ssLastSeen w")
    case True
    obtain v where v: "map_of ((k, u) # s) (oldestScan s k (ssLastSeen u)) = Some v" "ssLastSeen v \<le> ssLastSeen u"
      "\<forall>p\<in>set s. ssLastSeen v \<le> ssLastSeen (snd p)"
      using Cons.IH [OF k(1,2,3,4)] by blast
    have "oldestScan s k (ssLastSeen u) \<noteq> oldestKey"
      using oldestScan_in [OF k(3,1), of "ssLastSeen u"] k(5,6) by auto
    with v True p show ?thesis by auto
  next
    case False
    obtain v where v: "map_of ((oldestKey, w) # s) (oldestScan s oldestKey (ssLastSeen w)) = Some v"
      "ssLastSeen v \<le> ssLastSeen w" "\<forall>p\<in>set s. ssLastSeen v \<le> ssLastSeen (snd p)"
      using Cons.IH [OF Cons.prems(1) k(6,3,4)] by blast
    have "oldestScan s oldestKey (ssLastSeen w) \<noteq> k"
      using oldestScan_in [OF k(3) Cons.prems(1), of "ssLastSeen w"] k(2,5) by auto
    with v False p Cons.prems(1) show ?thesis by auto
  qed
qed simp

text \<open>\<open>removeOldestLocked\<close> removes a session whose \<open>lastSeen\<close> is least.\<close>

lemma oldestScan_oldest:
  assumes "sessionsInv s" and "s \<noteq> []"
  shows "\<exists>v. map_of s (oldestScan s [] zero_time) = Some v \<and> (\<forall>p\<in>set s. ssLastSeen v \<le> ssLastSeen (snd p))"
proof -
  obtain k u r where s: "s = (k, u) # r" using assms(2) by (cases s) auto
  have "k \<noteq> []" "k \<notin> fst ` set r" "[] \<notin> fst ` set r" "distinct (map fst r)"
    using assms(1) s by (auto simp: sessionsInv_def)
  from oldestScan_least [OF this(3,4,1,2), of u] show ?thesis using s by auto
qed

lemma removeOldest_length: "sessionsInv s \<Longrightarrow> s \<noteq> [] \<Longrightarrow> length (removeOldestLocked s) = length s - 1"
  unfolding removeOldestLocked_def using oldestScan_oldest [of s]
  by (intro length_delete_distinct) (auto simp: sessionsInv_def intro: map_of_Some_keys)

lemma removeOldest_inv: "sessionsInv s \<Longrightarrow> sessionsInv (removeOldestLocked s)"
  using length_delete_le [of "oldestScan s [] zero_time" s] by (auto simp: sessionsInv_def removeOldestLocked_def)

lemma makeRoom_subset: "map_of (makeRoom n s) k = Some v \<Longrightarrow> map_of s k = Some v"
  by (induction n s rule: makeRoom.induct) (auto simp: removeOldestLocked_def split: if_splits)

lemma makeRoom_inv: "sessionsInv s \<Longrightarrow> length s \<le> n \<Longrightarrow> sessionsInv (makeRoom n s) \<and> length (makeRoom n s) < maximumSessions"
proof (induction n s rule: makeRoom.induct)
  case (1 s)
  then show ?case by (simp add: maximumSessions_def)
next
  case (2 n s)
  show ?case
  proof (cases "maximumSessions \<le> length s")
    case True
    then have "s \<noteq> []" by (auto simp: maximumSessions_def)
    with 2 True removeOldest_length [of s] removeOldest_inv [of s] show ?thesis by auto
  qed (use 2 in simp)
qed

lemma purge_inv: "sessionsInv s \<Longrightarrow> sessionsInv (purgeLocked now s)"
  by (auto simp: sessionsInv_def purgeLocked_def distinct_map_filter intro: le_trans [OF length_filter_le])

lemma length_update_le: "length (AList.update k v m) \<le> Suc (length m)"
  by (simp add: length_update)

lemma update_inv: "sessionsInv s \<Longrightarrow> k \<in> fst ` set s \<or> length s < maximumSessions \<Longrightarrow> k \<noteq> [] \<Longrightarrow>
    sessionsInv (AList.update k v s)"
  by (auto simp: sessionsInv_def length_update)

lemma delete_inv: "sessionsInv s \<Longrightarrow> sessionsInv (AList.delete k s)"
  using length_delete_le [of k s] by (auto simp: sessionsInv_def)

lemma Create_inv:
  assumes "sessionsInv s" and "\<And>t. sha256 L t \<noteq> []"
  shows "sessionsInv (snd (Create L now r1 r2 s))"
  using makeRoom_inv [OF purge_inv [OF assms(1)] order_refl, of now] assms tokenKey_not_Nil
  by (auto simp: Create_def Let_def intro!: update_inv split: option.split)

lemma Validate_cases:
  obtains (refused) "Validate L now token s = (None, s)" "128 < length token"
  | (unknown) "Validate L now token s = (None, AList.delete (tokenKey L token) s)"
  | (live) v where "map_of s (tokenKey L token) = Some v" "\<not> expired v now" "length token \<le> 128"
      "Validate L now token s = (Some (ssCsrf v), AList.update (tokenKey L token) (v\<lparr>ssLastSeen := now\<rparr>) s)"
proof (cases "map_of s (tokenKey L token)")
  case None
  then show thesis using refused unknown by (cases "128 < length token") (simp_all add: Validate_def Let_def)
next
  case (Some v)
  then show thesis using refused unknown live [of v]
    by (cases "128 < length token"; cases "expired v now") (simp_all add: Validate_def Let_def)
qed

lemma Validate_inv:
  assumes "sessionsInv s" and "\<And>t. sha256 L t \<noteq> []"
  shows "sessionsInv (snd (Validate L now token s))"
  by (cases rule: Validate_cases [of L now token s])
    (use assms tokenKey_not_Nil in \<open>auto intro!: delete_inv update_inv intro: map_of_Some_keys\<close>)

lemma purge_subset: "sessionsInv s \<Longrightarrow> map_of (purgeLocked now s) k = Some v \<Longrightarrow> map_of s k = Some v"
  by (auto simp: purgeLocked_def sessionsInv_def map_of_filter_distinct split: option.splits if_splits)

subsection \<open>Sequences of operations\<close>

text \<open>\<open>ValidateCSRF\<close> is a \<open>Validate\<close> followed by a comparison.\<close>

datatype sessionOp =
    OpCreate time "bytes option" "bytes option"
  | OpValidate time bytes
  | OpDelete bytes
  | OpClear

fun applyOp :: "golib \<Rightarrow> sessionOp \<Rightarrow> Sessions \<Rightarrow> Sessions" where
  "applyOp L (OpCreate now r1 r2) s = snd (Create L now r1 r2 s)"
| "applyOp L (OpValidate now token) s = snd (Validate L now token s)"
| "applyOp L (OpDelete token) s = DeleteSession L token s"
| "applyOp L OpClear s = ClearSessions s"

definition runSessions :: "golib \<Rightarrow> sessionOp list \<Rightarrow> Sessions" where
  "runSessions L ops = fold (applyOp L) ops NewSessions"

lemma runSessions_snoc [simp]: "runSessions L (ops @ [op]) = applyOp L op (runSessions L ops)"
  by (simp add: runSessions_def)

lemma runSessions_inv:
  assumes "\<And>t. sha256 L t \<noteq> []"
  shows "sessionsInv (runSessions L ops)"
proof (induction ops rule: rev_induct)
  case Nil
  then show ?case by (simp add: runSessions_def NewSessions_def sessionsInv_def)
next
  case (snoc op ops)
  then show ?case
    using Create_inv [OF snoc.IH assms] Validate_inv [OF snoc.IH assms]
    by (cases op) (simp_all add: DeleteSession_def ClearSessions_def sessionsInv_def [of "[]"] delete_inv)
qed

text \<open>What ends the session with key \<open>k\<close> on purpose.\<close>

fun endsSession :: "golib \<Rightarrow> bytes \<Rightarrow> sessionOp \<Rightarrow> bool" where
  "endsSession L k (OpDelete token) \<longleftrightarrow> tokenKey L token = k"
| "endsSession L k OpClear \<longleftrightarrow> True"
| "endsSession L k _ \<longleftrightarrow> False"

definition issuedBy :: "golib \<Rightarrow> sessionOp list \<Rightarrow> bytes \<Rightarrow> session \<Rightarrow> bool" where
  "issuedBy L ops k v \<longleftrightarrow>
     (\<exists>pre r1 r2 post token. ops = pre @ OpCreate (ssCreatedAt v) r1 r2 # post \<and>
        randomToken L r1 = Some token \<and> tokenKey L token = k \<and> randomToken L r2 = Some (ssCsrf v) \<and>
        list_all (\<lambda>op. \<not> endsSession L k op) post \<and>
        (ssLastSeen v = ssCreatedAt v \<or>
         (\<exists>tok. OpValidate (ssLastSeen v) tok \<in> set post \<and> tokenKey L tok = k)))"

lemma issuedByI:
  "ops = pre @ OpCreate (ssCreatedAt v) r1 r2 # post \<Longrightarrow> randomToken L r1 = Some token \<Longrightarrow> tokenKey L token = k \<Longrightarrow>
    randomToken L r2 = Some (ssCsrf v) \<Longrightarrow> list_all (\<lambda>op. \<not> endsSession L k op) post \<Longrightarrow>
    ssLastSeen v = ssCreatedAt v \<or> (\<exists>tok. OpValidate (ssLastSeen v) tok \<in> set post \<and> tokenKey L tok = k) \<Longrightarrow>
    issuedBy L ops k v"
  unfolding issuedBy_def by blast

lemma issuedByE:
  assumes "issuedBy L ops k v"
  obtains pre r1 r2 post token where "ops = pre @ OpCreate (ssCreatedAt v) r1 r2 # post"
    "randomToken L r1 = Some token" "tokenKey L token = k" "randomToken L r2 = Some (ssCsrf v)"
    "list_all (\<lambda>op. \<not> endsSession L k op) post"
    "ssLastSeen v = ssCreatedAt v \<or> (\<exists>tok. OpValidate (ssLastSeen v) tok \<in> set post \<and> tokenKey L tok = k)"
  using assms unfolding issuedBy_def by blast

lemma issuedBy_keep:
  assumes "issuedBy L ops k v" and "\<not> endsSession L k op"
  shows "issuedBy L (ops @ [op]) k v"
  using assms(1)
proof (cases rule: issuedByE)
  case (1 pre r1 r2 post token)
  then show ?thesis using assms(2)
    by (intro issuedByI [of _ pre v r1 r2 "post @ [op]" L token]) auto
qed

lemma issuedBy_seen:
  assumes "issuedBy L ops k v" and "tokenKey L tok = k"
  shows "issuedBy L (ops @ [OpValidate now tok]) k (v\<lparr>ssLastSeen := now\<rparr>)"
  using assms(1)
proof (cases rule: issuedByE)
  case (1 pre r1 r2 post token)
  then show ?thesis using assms(2)
    by (intro issuedByI [of _ pre _ r1 r2 "post @ [OpValidate now tok]" L token]) auto
qed

lemma issuedBy_created:
  "randomToken L r1 = Some token \<Longrightarrow> randomToken L r2 = Some csrf \<Longrightarrow>
    issuedBy L (ops @ [OpCreate now r1 r2]) (tokenKey L token) \<lparr>ssCsrf = csrf, ssCreatedAt = now, ssLastSeen = now\<rparr>"
  by (rule issuedByI [of _ ops _ r1 r2 "[]" L token]) simp_all

lemma Create_lookup:
  assumes "sessionsInv s" and "map_of (snd (Create L now r1 r2 s)) k = Some v"
  obtains (old) "map_of s k = Some v"
  | (new) token csrf where "randomToken L r1 = Some token" "randomToken L r2 = Some csrf" "k = tokenKey L token"
      "v = \<lparr>ssCsrf = csrf, ssCreatedAt = now, ssLastSeen = now\<rparr>"
proof (cases "\<exists>token csrf. randomToken L r1 = Some token \<and> randomToken L r2 = Some csrf")
  case True
  then obtain token csrf where r: "randomToken L r1 = Some token" "randomToken L r2 = Some csrf" by auto
  let ?s = "purgeLocked now s"
  have "map_of (AList.update (tokenKey L token) \<lparr>ssCsrf = csrf, ssCreatedAt = now, ssLastSeen = now\<rparr>
      (makeRoom (length ?s) ?s)) k = Some v"
    using assms(2) r by (simp add: Create_def Let_def)
  then have e: "(if k = tokenKey L token then Some \<lparr>ssCsrf = csrf, ssCreatedAt = now, ssLastSeen = now\<rparr>
      else map_of (makeRoom (length ?s) ?s) k) = Some v"
    by (simp only: map_of_update fun_upd_apply)
  show thesis
  proof (cases "k = tokenKey L token")
    case True
    with e have "\<lparr>ssCsrf = csrf, ssCreatedAt = now, ssLastSeen = now\<rparr> = v" by simp
    from new [OF r True this [symmetric]] show thesis .
  next
    case False
    with e have "map_of (makeRoom (length ?s) ?s) k = Some v" by simp
    from old [OF purge_subset [OF assms(1) makeRoom_subset [OF this]]] show thesis .
  qed
next
  case False
  then show thesis using assms old by (auto simp: Create_def split: option.splits)
qed

text \<open>Every session of the table was issued by a \<open>Create\<close> that nothing has revoked since.\<close>

lemma runSessions_issued:
  assumes "\<And>t. sha256 L t \<noteq> []"
  shows "map_of (runSessions L ops) k = Some v \<Longrightarrow> issuedBy L ops k v"
proof (induction ops arbitrary: v rule: rev_induct)
  case Nil
  then show ?case by (simp add: runSessions_def NewSessions_def)
next
  case (snoc op ops)
  let ?s = "runSessions L ops"
  have inv: "sessionsInv ?s" by (rule runSessions_inv [OF assms])
  show ?case
  proof (cases op)
    case (OpCreate now r1 r2)
    with snoc.prems have "map_of (snd (Create L now r1 r2 ?s)) k = Some v" by simp
    from inv this show ?thesis
      by (cases rule: Create_lookup) (auto simp: OpCreate intro: issuedBy_created issuedBy_keep snoc.IH)
  next
    case (OpValidate now token)
    show ?thesis
      by (cases rule: Validate_cases [of L now token ?s])
        (use snoc OpValidate in \<open>auto intro: issuedBy_keep issuedBy_seen split: if_splits\<close>)
  next
    case (OpDelete token)
    with snoc show ?thesis by (auto simp: DeleteSession_def intro: issuedBy_keep split: if_splits)
  next
    case OpClear
    with snoc.prems show ?thesis by (simp add: ClearSessions_def)
  qed
qed

lemma not_expired: "\<not> expired v now \<longleftrightarrow> now - ssCreatedAt v < 12 * hour \<and> now - ssLastSeen v < hour"
  by (auto simp: expired_def sessionLifetime_def sessionIdle_def duration_defs time_sub_def)

lemma makeRoom_set: "set (makeRoom n s) \<subseteq> set s"
proof (induction n s rule: makeRoom.induct)
  case (2 fuel s)
  have "set (removeOldestLocked s) \<subseteq> set s" by (auto simp: removeOldestLocked_def AList.delete_eq)
  with 2 show ?case by auto
qed simp

lemma makeRoom_evicts:
  "sessionsInv s \<Longrightarrow> map_of s k = Some v \<Longrightarrow> map_of (makeRoom n s) k = None \<Longrightarrow>
    maximumSessions \<le> length s \<and> (\<forall>p\<in>set (makeRoom n s). ssLastSeen v \<le> ssLastSeen (snd p))"
proof (induction n s rule: makeRoom.induct)
  case (2 fuel s)
  show ?case
  proof (cases "maximumSessions \<le> length s")
    case True
    let ?o = "oldestScan s [] zero_time"
    have "s \<noteq> []" using True by (auto simp: maximumSessions_def)
    with oldestScan_oldest [OF 2(2)] obtain w where
      w: "map_of s ?o = Some w" "\<forall>p\<in>set s. ssLastSeen w \<le> ssLastSeen (snd p)" by auto
    show ?thesis
    proof (cases "k = ?o")
      case True
      then have "v = w" using w 2 by simp
      moreover have "set (makeRoom (Suc fuel) s) \<subseteq> set s" by (rule makeRoom_set)
      ultimately show ?thesis using w \<open>maximumSessions \<le> length s\<close> by (meson subsetD)
    next
      case False
      have "map_of (removeOldestLocked s) k = Some v" using 2(3) False by (simp add: removeOldestLocked_def)
      moreover have "map_of (makeRoom fuel (removeOldestLocked s)) k = None" using 2(4) True by simp
      ultimately show ?thesis using 2(1) [OF True removeOldest_inv [OF 2(2)]] True by simp
    qed
  qed (use 2 in simp)
qed simp

text \<open>Creating a session. In every state the operations reach, a new session makes its cookie
  valid with the CSRF value handed out, for at least an hour; the table never holds more than 64
  sessions; and the only sessions lost are expired ones and, when 64 live ones are left, those that
  were seen least recently.\<close>

theorem Create_session:
  assumes "\<And>t. sha256 L t \<noteq> []" and "s = runSessions L ops"
    and "Create L now r1 r2 s = (Some (token, csrf), s')"
  shows "length s' \<le> 64 \<and>
    (length token \<le> 128 \<and> now \<le> later \<and> later < now + hour \<longrightarrow> fst (Validate L later token s') = Some csrf) \<and>
    (map_of s k = Some v \<and> k \<noteq> tokenKey L token \<and> map_of s' k \<noteq> Some v \<longrightarrow>
       expired v now \<or>
       64 \<le> length (purgeLocked now s) \<and> map_of s' k = None \<and>
       (\<forall>k' v'. k' \<noteq> tokenKey L token \<and> map_of s' k' = Some v' \<longrightarrow> ssLastSeen v \<le> ssLastSeen v'))"
proof -
  have inv: "sessionsInv s" unfolding assms(2) by (rule runSessions_inv [OF assms(1)])
  let ?p = "purgeLocked now s" and ?fresh = "\<lparr>ssCsrf = csrf, ssCreatedAt = now, ssLastSeen = now\<rparr>"
  let ?m = "makeRoom (length ?p) ?p"
  have s': "s' = AList.update (tokenKey L token) ?fresh ?m"
    using assms(3) by (auto simp: Create_def Let_def split: option.splits)
  have "sessionsInv s'" using Create_inv [OF inv assms(1), of now r1 r2] assms(3) by simp
  then have "length s' \<le> 64" by (simp add: sessionsInv_def maximumSessions_def)
  moreover have "fst (Validate L later token s') = Some csrf"
    if "length token \<le> 128" "now \<le> later" "later < now + hour"
    using that not_expired [of ?fresh later] by (simp add: s' Validate_def Let_def duration_defs)
  moreover have "expired v now \<or> 64 \<le> length ?p \<and> map_of s' k = None \<and>
       (\<forall>k' v'. k' \<noteq> tokenKey L token \<and> map_of s' k' = Some v' \<longrightarrow> ssLastSeen v \<le> ssLastSeen v')"
    if k: "map_of s k = Some v" "k \<noteq> tokenKey L token" "map_of s' k \<noteq> Some v"
  proof (cases "expired v now")
    case False
    have "map_of ?p k = Some v"
      using k(1) False inv by (simp add: purgeLocked_def sessionsInv_def map_of_filter_distinct)
    moreover have "map_of ?m k \<noteq> Some v" using k by (simp add: s')
    ultimately have none: "map_of ?m k = None"
      by (metis makeRoom_subset not_None_eq)
    from makeRoom_evicts [OF purge_inv [OF inv] \<open>map_of ?p k = Some v\<close> none]
    have "maximumSessions \<le> length ?p" "\<And>q. q \<in> set ?m \<Longrightarrow> ssLastSeen v \<le> ssLastSeen (snd q)" by auto
    then show ?thesis using none k(2)
      by (auto simp: s' maximumSessions_def dest!: map_of_SomeD)
  qed simp
  ultimately show ?thesis by blast
qed

lemma padLib_digest: "sha256 padLib t \<noteq> []"
  by (simp add: padLib_def)

lemma Create_session_witness:
  "fst (Validate padLib (7 * second) ''a''
     (snd (Create padLib 0 (Some ''a'') (Some ''b'') (runSessions padLib [])))) = Some ''b''"
proof -
  let ?c = "Create padLib 0 (Some ''a'') (Some ''b'') (runSessions padLib [])"
  have "fst ?c = Some (''a'', ''b'')"
    by (simp add: Create_def randomToken_def padLib_def emptyLib_def Let_def)
  then have "?c = (Some (''a'', ''b''), snd ?c)" by (cases ?c) simp
  from Create_session [OF padLib_digest refl this, of "7 * second"] show ?thesis
    by (simp add: duration_defs)
qed

text \<open>The loop of \<open>Create\<close> as the code has it, without fuel.\<close>

lemma makeRoom_while:
  assumes "sessionsInv s" and "length s \<le> n"
  shows "while_option (\<lambda>s. maximumSessions \<le> length s) removeOldestLocked s = Some (makeRoom n s) \<and>
    length (makeRoom n s) = min (length s) (maximumSessions - 1)"
  using assms
proof (induction n s rule: makeRoom.induct)
  case (1 s)
  then show ?case by (simp add: while_option_unfold maximumSessions_def)
next
  case (2 n s)
  show ?case
  proof (cases "maximumSessions \<le> length s")
    case True
    then have "s \<noteq> []" by (auto simp: maximumSessions_def)
    then have "length (removeOldestLocked s) = length s - 1" using 2(2) by (rule_tac removeOldest_length)
    then show ?thesis
      using 2(1) [OF True removeOldest_inv [OF 2(2)]] 2(3) True by (subst while_option_unfold) (auto simp: maximumSessions_def min_def)
  next
    case False
    then show ?thesis by (subst while_option_unfold) (simp add: maximumSessions_def)
  qed
qed

text \<open>C26. Creating a session terminates. In every state the operations reach, the unbounded loop that
  evicts sessions until there is room ends, after exactly the passes that leave 63 sessions; the
  model's fuel, the size of the table, is enough for it, and any more gives the same. Assumed: a
  SHA-256 digest is not empty, without which the loop could run forever.\<close>

theorem Create_terminates:
  assumes "\<And>t. sha256 L t \<noteq> []" and "s = purgeLocked now (runSessions L ops)" and "length s \<le> fuel"
  shows "while_option (\<lambda>s. maximumSessions \<le> length s) removeOldestLocked s = Some (makeRoom fuel s) \<and>
    makeRoom fuel s = makeRoom (length s) s \<and> length (makeRoom fuel s) = min (length s) 63"
proof -
  have inv: "sessionsInv s" unfolding assms(2) by (rule purge_inv [OF runSessions_inv [OF assms(1)]])
  from makeRoom_while [OF inv assms(3)] makeRoom_while [OF inv order_refl] show ?thesis by (simp add: maximumSessions_def)
qed

lemma Create_terminates_witness:
  "while_option (\<lambda>s. maximumSessions \<le> length s) removeOldestLocked (purgeLocked 1 (runSessions padLib [OpCreate 0 (Some ''a'') (Some ''b'')])) =
     Some (makeRoom 9 (purgeLocked 1 (runSessions padLib [OpCreate 0 (Some ''a'') (Some ''b'')])))"
proof -
  let ?s = "purgeLocked 1 (runSessions padLib [OpCreate 0 (Some ''a'') (Some ''b'')])"
  have "length ?s \<le> 9"
    by (rule le_trans [of _ 1])
      (simp_all add: purgeLocked_def runSessions_def Create_def randomToken_def Let_def NewSessions_def)
  from Create_terminates [OF padLib_digest refl this] show ?thesis by blast
qed
text \<open>C25. Sessions are never forged, revived or outlived. When a cookie is accepted after any
  sequence of operations, some earlier \<open>Create\<close> issued a cookie with the same digest together with
  the CSRF value returned, less than twelve hours ago; no \<open>Delete\<close> of it and no \<open>Clear\<close> (which a
  password change runs) came after; and it was issued or last accepted less than an hour ago.\<close>

theorem session_provenance:
  assumes "\<And>t. sha256 L t \<noteq> []" and "fst (Validate L now token (runSessions L ops)) = Some csrf"
  shows "\<exists>pre created r1 r2 post issued seen.
    ops = pre @ OpCreate created r1 r2 # post \<and>
    randomToken L r1 = Some issued \<and> tokenKey L issued = tokenKey L token \<and> randomToken L r2 = Some csrf \<and>
    now - created < 12 * hour \<and> now - seen < hour \<and>
    list_all (\<lambda>op. \<not> endsSession L (tokenKey L token) op) post \<and>
    (seen = created \<or> (\<exists>tok. OpValidate seen tok \<in> set post \<and> tokenKey L tok = tokenKey L token))"
proof -
  let ?s = "runSessions L ops"
  obtain v where v: "map_of ?s (tokenKey L token) = Some v" "\<not> expired v now" "csrf = ssCsrf v"
    using assms(2) by (cases rule: Validate_cases [of L now token ?s]) auto
  from runSessions_issued [OF assms(1) v(1)] show ?thesis
    by (cases rule: issuedByE) (use v not_expired in blast)
qed

lemma session_provenance_witness:
  "\<exists>pre created r1 r2 post.
     [OpCreate 0 (Some ''a'') (Some ''b''), OpDelete ''z''] = pre @ OpCreate created r1 r2 # post \<and>
     randomToken padLib r2 = Some ''b'' \<and> 7 * second - created < 12 * hour"
proof -
  let ?ops = "[OpCreate 0 (Some ''a'') (Some ''b''), OpDelete ''z'']"
  have "fst (Validate padLib (7 * second) ''a'' (runSessions padLib ?ops)) = Some ''b''"
    by code_simp
  from session_provenance [OF padLib_digest this] show ?thesis by blast
qed

end
