(* ===== verification/AdminSecrets.thy ===== *)
theory AdminSecrets
  imports StateModel
begin

section \<open>Password verifiers and attempt limits: \<open>password.go\<close> and \<open>limiter.go\<close> of \<open>internal/platform/adminauth\<close>\<close>

text \<open>
  Argon2id and base64 are parameters, with their documented laws as hypotheses where a lemma needs
  them; the salt is an argument. The limiter counts attempts in a window that starts at an attempt;
  its clock reading is an argument. The lemmas bound the attempts over any period of one window's
  length, and show that the bound is reached.
\<close>

subsection \<open>Passwords\<close>

definition passwordMemory :: nat where "passwordMemory = 32 * 1024"
definition passwordIterations :: nat where "passwordIterations = 3"
definition passwordParallelism :: nat where "passwordParallelism = 1"
definition passwordSaltSize :: nat where "passwordSaltSize = 16"
definition passwordDigestSize :: nat where "passwordDigestSize = 32"

lemmas password_defs = passwordMemory_def passwordIterations_def passwordParallelism_def
  passwordSaltSize_def passwordDigestSize_def

definition passwordAcceptable :: "bytes \<Rightarrow> bool" where
  "passwordAcceptable password \<longleftrightarrow> ValidString password \<and> \<not> RuneCount password < 12 \<and> \<not> 128 < length password"

text \<open>\<open>salt\<close> is the result of \<open>rand.Read\<close>.\<close>

definition HashPassword :: "golib \<Rightarrow> bytes option \<Rightarrow> bytes \<Rightarrow> PasswordHash option" where
  "HashPassword L salt password =
     (if \<not> passwordAcceptable password then None
      else (case salt of
              None \<Rightarrow> None
            | Some salt \<Rightarrow>
                (let digest = argon2id L password salt passwordIterations passwordMemory passwordParallelism
                       passwordDigestSize
                 in Some \<lparr>phAlgorithm = ''argon2id'', phSalt = b64RawStd L salt, phDigest = b64RawStd L digest,
                      phMemoryKiB = of_nat passwordMemory, phIterations = of_nat passwordIterations,
                      phParallelism = of_nat passwordParallelism\<rparr>)))"

definition ValidPasswordHash :: "golib \<Rightarrow> PasswordHash \<Rightarrow> bool" where
  "ValidPasswordHash L value =
     (if phAlgorithm value \<noteq> ''argon2id'' \<or>
         phMemoryKiB value < 8 * 1024 \<or> phMemoryKiB value > 128 * 1024 \<or>
         phIterations value < 1 \<or> phIterations value > 10 \<or>
         phParallelism value < 1 \<or> phParallelism value > 4 then False
      else (case b64RawStdDecode L (phSalt value) of
              None \<Rightarrow> False
            | Some salt \<Rightarrow>
                if length salt < 8 \<or> length salt > 64 then False
                else (case b64RawStdDecode L (phDigest value) of
                        None \<Rightarrow> False | Some digest \<Rightarrow> length digest = passwordDigestSize)))"

definition VerifyPassword :: "golib \<Rightarrow> bytes \<Rightarrow> PasswordHash \<Rightarrow> bool" where
  "VerifyPassword L password value =
     (if 128 < length password \<or> \<not> ValidPasswordHash L value then False
      else (case b64RawStdDecode L (phSalt value) of
              None \<Rightarrow> False
            | Some salt \<Rightarrow>
                if length salt < 8 \<or> length salt > 64 then False
                else (case b64RawStdDecode L (phDigest value) of
                        None \<Rightarrow> False
                      | Some expected \<Rightarrow>
                          if length expected \<noteq> passwordDigestSize then False
                          else argon2id L password salt (unat (phIterations value)) (unat (phMemoryKiB value))
                                 (unat (phParallelism value)) (length expected) = expected)))"

lemma HashPassword_verifies:
  assumes "\<And>x. b64RawStdDecode L (b64RawStd L x) = Some x" and "\<And>p s t m n k. length (argon2id L p s t m n k) = k"
    and "length salt = passwordSaltSize" and "HashPassword L (Some salt) password = Some h"
  shows "ValidPasswordHash L h"
    "VerifyPassword L q h \<longleftrightarrow> length q \<le> 128 \<and> argon2id L q salt 3 32768 1 32 = argon2id L password salt 3 32768 1 32"
    "passwordAcceptable password"
proof -
  show acceptable: "passwordAcceptable password" using assms(4) by (auto simp: HashPassword_def split: if_splits)
  then have h: "h = \<lparr>phAlgorithm = ''argon2id'', phSalt = b64RawStd L salt, phDigest = b64RawStd L (argon2id L password salt 3 32768 1 32),
       phMemoryKiB = 32768, phIterations = 3, phParallelism = 1\<rparr>"
    using assms(4) by (simp add: HashPassword_def Let_def password_defs)
  show valid: "ValidPasswordHash L h"
    unfolding h using assms by (simp add: ValidPasswordHash_def password_defs word_less_nat_alt)
  show "VerifyPassword L q h \<longleftrightarrow> length q \<le> 128 \<and> argon2id L q salt 3 32768 1 32 = argon2id L password salt 3 32768 1 32"
    unfolding VerifyPassword_def using valid assms(1-3) by (simp add: h password_defs)
qed

text \<open>C27. Password verifiers. A password is accepted for hashing exactly when it is valid UTF-8 of at
  least 12 characters and at most 128 bytes; the stored verifier passes the server's validation; and
  a password verifies against it exactly when it is at most 128 bytes long and Argon2id with the
  stored salt maps it to the digest of the original, so the original always verifies. Assumed:
  base64 decoding inverts encoding, and the digest has the length asked for.\<close>

theorem password_roundtrip:
  assumes "\<And>x. b64RawStdDecode L (b64RawStd L x) = Some x"
    and "\<And>p s t m n k. length (argon2id L p s t m n k) = k"
    and "length salt = passwordSaltSize"
  shows "case HashPassword L (Some salt) password of
      None \<Rightarrow> \<not> ValidString password \<or> RuneCount password < 12 \<or> 128 < length password
    | Some h \<Rightarrow> ValidString password \<and> 12 \<le> RuneCount password \<and> length password \<le> 128 \<and>
        ValidPasswordHash L h \<and> VerifyPassword L password h \<and>
        (VerifyPassword L other h \<longleftrightarrow> length other \<le> 128 \<and>
           argon2id L other salt 3 32768 1 32 = argon2id L password salt 3 32768 1 32)"
proof (cases "HashPassword L (Some salt) password")
  case None
  then show ?thesis by (auto simp: HashPassword_def passwordAcceptable_def Let_def split: if_splits)
next
  case (Some h)
  from HashPassword_verifies [OF assms Some] show ?thesis by (auto simp: Some passwordAcceptable_def)
qed

text \<open>A library with toy primitives that satisfy the laws.\<close>

definition toyLib :: golib where
  "toyLib = emptyLib\<lparr>argon2id := (\<lambda>p s t m n k. take k (s @ p @ replicate k CHR 0x00))\<rparr>"

lemma password_roundtrip_witness:
  "\<exists>h. HashPassword toyLib (Some ''0123456789abcdef'') ''correct horse'' = Some h \<and>
     VerifyPassword toyLib ''correct horse'' h \<and> \<not> VerifyPassword toyLib ''incorrect one'' h"
proof -
  have "ValidString ''correct horse'' \<and> \<not> RuneCount ''correct horse'' < 12" by code_simp
  moreover have "argon2id toyLib ''incorrect one'' ''0123456789abcdef'' 3 32768 1 32 \<noteq>
      argon2id toyLib ''correct horse'' ''0123456789abcdef'' 3 32768 1 32"
    by (simp add: toyLib_def)
  moreover have "b64RawStdDecode toyLib (b64RawStd toyLib x) = Some x" "length (argon2id toyLib p s t m n k) = k"
    for x p s t m n k
    by (simp_all add: toyLib_def emptyLib_def)
  ultimately show ?thesis
    using password_roundtrip [of toyLib "''0123456789abcdef''" "''correct horse''" "''incorrect one''"]
    by (simp add: password_defs split: option.splits)
qed

subsection \<open>Attempt limits\<close>

record Limiter =
  liWindowStart :: time
  liAttempts :: int
  liMaximum :: int
  liWindow :: duration

definition NewLimiter :: "int \<Rightarrow> duration \<Rightarrow> Limiter" where
  "NewLimiter maximum window = \<lparr>liWindowStart = zero_time, liAttempts = 0, liMaximum = maximum, liWindow = window\<rparr>"

definition LimiterAllow :: "time \<Rightarrow> Limiter \<Rightarrow> bool \<times> Limiter" where
  "LimiterAllow now l =
     (let l = (if IsZero (liWindowStart l) \<or> liWindow l \<le> time_sub now (liWindowStart l)
               then l\<lparr>liWindowStart := now, liAttempts := 0\<rparr> else l)
      in if liMaximum l \<le> liAttempts l then (False, l)
         else (True, l\<lparr>liAttempts := liAttempts l + 1\<rparr>))"

definition LimiterReset :: "Limiter \<Rightarrow> Limiter" where
  "LimiterReset l = l\<lparr>liWindowStart := zero_time, liAttempts := 0\<rparr>"

definition limiterInv :: "Limiter \<Rightarrow> bool" where
  "limiterInv l \<longleftrightarrow> 0 \<le> liAttempts l \<and> liAttempts l \<le> liMaximum l \<and> 1 \<le> liMaximum l \<and>
     0 < liWindow l \<and> liWindow l < 2 ^ 63 \<and> (IsZero (liWindowStart l) \<or> 1 \<le> liAttempts l)"

lemma NewLimiter_inv: "1 \<le> maximum \<Longrightarrow> 0 < window \<Longrightarrow> window < 2 ^ 63 \<Longrightarrow> limiterInv (NewLimiter maximum window)"
  by (simp add: NewLimiter_def limiterInv_def IsZero_def)

lemma LimiterAllow_inv: "limiterInv l \<Longrightarrow> limiterInv (snd (LimiterAllow now l))"
  by (auto simp: LimiterAllow_def limiterInv_def Let_def)

lemma LimiterReset_inv: "limiterInv l \<Longrightarrow> limiterInv (LimiterReset l)"
  by (simp add: LimiterReset_def limiterInv_def IsZero_def)

lemma LimiterAllow_config [simp]:
  "liMaximum (snd (LimiterAllow now l)) = liMaximum l" "liWindow (snd (LimiterAllow now l)) = liWindow l"
  by (simp_all add: LimiterAllow_def Let_def)

text \<open>The number of attempts granted among calls at the given times.\<close>

fun limiterGrants :: "time list \<Rightarrow> Limiter \<Rightarrow> int" where
  "limiterGrants [] l = 0"
| "limiterGrants (t # ts) l = (let (ok, l) = LimiterAllow t l in (if ok then 1 else 0) + limiterGrants ts l)"

lemma grants_in_window:
  "limiterInv l \<Longrightarrow> \<not> IsZero (liWindowStart l) \<Longrightarrow>
    list_all (\<lambda>t. t < liWindowStart l + liWindow l) ts \<Longrightarrow> limiterGrants ts l \<le> liMaximum l - liAttempts l"
proof (induction ts arbitrary: l)
  case (Cons t ts)
  have ns: "\<not> (IsZero (liWindowStart l) \<or> liWindow l \<le> time_sub t (liWindowStart l))"
    using Cons.prems by (auto simp: limiterInv_def time_sub_def)
  show ?case
  proof (cases "liMaximum l \<le> liAttempts l")
    case True
    then show ?thesis using Cons.IH [of l] Cons.prems ns by (simp add: LimiterAllow_def)
  next
    case False
    let ?l = "l\<lparr>liAttempts := liAttempts l + 1\<rparr>"
    have "limiterInv ?l" using Cons.prems(1) False by (auto simp: limiterInv_def)
    then have "limiterGrants ts ?l \<le> liMaximum ?l - liAttempts ?l"
      using Cons.IH [of ?l] Cons.prems by simp
    then show ?thesis using ns False by (simp add: LimiterAllow_def)
  qed
qed (simp add: limiterInv_def)

lemma grants_two_windows:
  assumes "limiterInv l" and "sorted ts" and "list_all (\<lambda>t. t0 \<le> t \<and> t < t0 + liWindow l) ts" and "zero_time < t0"
  shows "limiterGrants ts l \<le> (if IsZero (liWindowStart l) then liMaximum l else 2 * liMaximum l - liAttempts l)"
  using assms(1-3)
proof (induction ts arbitrary: l)
  case Nil
  then show ?case by (simp add: limiterInv_def)
next
  case (Cons t ts)
  show ?case
  proof (cases "IsZero (liWindowStart l) \<or> liWindow l \<le> time_sub t (liWindowStart l)")
    case True
    let ?l = "l\<lparr>liWindowStart := t, liAttempts := 1\<rparr>"
    have "limiterInv ?l" using Cons.prems(1) by (simp add: limiterInv_def)
    moreover have "\<not> IsZero t" using Cons.prems assms(4) by (auto simp: IsZero_def)
    moreover have "list_all (\<lambda>t'. t' < t + liWindow l) ts" using Cons.prems by (auto simp: list_all_iff)
    ultimately have "limiterGrants ts ?l \<le> liMaximum l - 1" using grants_in_window [of ?l ts] by simp
    then show ?thesis using True Cons.prems(1) by (auto simp: LimiterAllow_def limiterInv_def Let_def)
  next
    case False
    show ?thesis
    proof (cases "liMaximum l \<le> liAttempts l")
      case True
      then show ?thesis using Cons.IH [OF Cons.prems(1)] Cons.prems False by (simp add: LimiterAllow_def)
    next
      case ok: False
      let ?l = "l\<lparr>liAttempts := liAttempts l + 1\<rparr>"
      have "limiterInv ?l" using Cons.prems(1) ok by (auto simp: limiterInv_def)
      then have "limiterGrants ts ?l \<le> 2 * liMaximum ?l - liAttempts ?l"
        using Cons.IH [of ?l] Cons.prems False by simp
      then show ?thesis using False ok by (simp add: LimiterAllow_def)
    qed
  qed
qed

text \<open>The attempt limiter. Between two resets, in any period shorter than the window, at most
  \<open>2 * maximum - 1\<close> attempts are granted, and at most \<open>maximum\<close> from a fresh limiter or after a
  reset. The first bound is reached: the window is fixed at its first attempt, it does not roll with
  the calls as the comment on \<open>NewLimiter\<close> says, and five attempts per minute can be nine.\<close>

theorem limiter_bound:
  assumes "limiterInv l" and "sorted ts" and "list_all (\<lambda>t. t0 \<le> t \<and> t < t0 + liWindow l) ts" and "zero_time < t0"
  shows "limiterGrants ts l \<le> 2 * liMaximum l - 1 \<and>
    limiterGrants ts (LimiterReset l) \<le> liMaximum l \<and>
    (let l1 = snd (LimiterAllow 0 (NewLimiter 5 minute));
         burst = replicate 4 (59 * second) @ replicate 5 (60 * second)
     in limiterGrants burst l1 = 9)"
proof -
  have "limiterGrants ts l \<le> 2 * liMaximum l - 1"
    using grants_two_windows [OF assms] assms(1) by (auto simp: limiterInv_def split: if_splits)
  moreover have "limiterGrants ts (LimiterReset l) \<le> liMaximum l"
    using grants_two_windows [OF LimiterReset_inv [OF assms(1)] assms(2) _ assms(4)] assms(3)
    by (simp add: LimiterReset_def IsZero_def)
  moreover have "limiterGrants (replicate 4 (59 * second) @ replicate 5 (60 * second))
      (snd (LimiterAllow 0 (NewLimiter 5 minute))) = 9"
    by (simp add: eval_nat_numeral LimiterAllow_def NewLimiter_def IsZero_def zero_time_def time_sub_def duration_defs Let_def)
  ultimately show ?thesis by simp
qed

lemma limiter_bound_witness:
  "limiterGrants [second, 2 * second, 3 * second] (NewLimiter 2 minute) \<le> 3"
proof -
  have "limiterInv (NewLimiter 2 minute)" by (rule NewLimiter_inv) (simp_all add: duration_defs)
  moreover have "liWindow (NewLimiter 2 minute) = 60000000000" "liMaximum (NewLimiter 2 minute) = 2"
    by (simp_all add: NewLimiter_def duration_defs)
  ultimately show ?thesis
    using limiter_bound [of "NewLimiter 2 minute" "[second, 2 * second, 3 * second]" second]
    by (simp add: second_def zero_time_def del: limiterGrants.simps)
qed

end
