(* ===== verification/Transport.thy ===== *)
theory Transport
  imports DeviceAuth
begin

section \<open>Management transport policy: \<open>internal/platform/adminauth/transport.go\<close>\<close>

text \<open>
  Which browser origins may use the management API. \<open>url.Parse\<close> and \<open>net.ParseIP\<close> are parameters;
  the canonical form built from the parsed parts, the host name rules and the policy are the code's.
  The atomic pointer of the policy holds the list of allowed origins. The lemmas characterise
  \<open>SameOrigin\<close> and show that normalised origin lists are stable: normalising a stored list again
  changes nothing.
\<close>

definition MaximumPublicOrigins :: nat where "MaximumPublicOrigins = 16"

record TransportPolicy =
  tpAllowInsecure :: bool
  tpBehindHTTPSProxy :: bool
  tpPublicOrigins :: "bytes list"

definition ReplacePublicOrigins :: "bytes list \<Rightarrow> TransportPolicy \<Rightarrow> TransportPolicy" where
  "ReplacePublicOrigins origins p = p\<lparr>tpPublicOrigins := origins\<rparr>"

definition NewTransportPolicy :: "bool \<Rightarrow> bool \<Rightarrow> TransportPolicy" where
  "NewTransportPolicy allowInsecure behindHTTPSProxy =
     ReplacePublicOrigins []
       \<lparr>tpAllowInsecure = allowInsecure, tpBehindHTTPSProxy = behindHTTPSProxy, tpPublicOrigins = []\<rparr>"

definition Secure :: "TransportPolicy \<Rightarrow> request \<Rightarrow> bool" where
  "Secure p r = (if rTLS r then True else tpBehindHTTPSProxy p)"

definition AllowWrite :: "TransportPolicy \<Rightarrow> request \<Rightarrow> bool" where
  "AllowWrite p r \<longleftrightarrow> tpAllowInsecure p \<or> Secure p r"

definition OriginMode :: "TransportPolicy \<Rightarrow> bytes" where
  "OriginMode p = (if tpBehindHTTPSProxy p then ''proxy_allowlist'' else ''direct_same_origin'')"

subsection \<open>Canonical origins\<close>

text \<open>The host part of a canonical origin: brackets around IPv6 hosts, the port when there is one.\<close>

definition hostPart :: "bytes \<Rightarrow> bytes \<Rightarrow> bytes" where
  "hostPart hostname port =
     (if port \<noteq> [] then JoinHostPort hostname port
      else if CHR '':'' \<in> set hostname then ''['' @ hostname @ '']'' else hostname)"

text \<open>The port of a canonical origin: empty for the scheme's default, in plain decimal otherwise.\<close>

definition canonicalPort :: "bytes \<Rightarrow> bytes \<Rightarrow> bytes option" where
  "canonicalPort scheme port =
     (case (if port = [] then Some 0
            else (case Atoi port of
                    None \<Rightarrow> None
                  | Some v \<Rightarrow> if v < 1 \<or> 65535 < v then None else Some v)) of
        None \<Rightarrow> None
      | Some portNumber \<Rightarrow>
          Some (if (scheme = ''https'' \<and> portNumber = 443) \<or> (scheme = ''http'' \<and> portNumber = 80) then []
                else if port \<noteq> [] then Itoa portNumber else []))"

definition canonicalOrigin :: "golib \<Rightarrow> bytes \<Rightarrow> bytes option" where
  "canonicalOrigin L value =
     (case UrlParse L value of
        None \<Rightarrow> None
      | Some parsed \<Rightarrow>
          if (uScheme parsed \<noteq> ''http'' \<and> uScheme parsed \<noteq> ''https'') \<or> uHost parsed = [] \<or>
             uHasUser parsed \<or> uPath parsed \<noteq> [] \<or> uRawPath parsed \<noteq> [] \<or> uRawQuery parsed \<noteq> [] \<or>
             uForceQuery parsed \<or> uFragment parsed \<noteq> [] \<or> HasSuffix (uHost parsed) '':'' then None
          else
            (let hostname = ToLower (ulow L) (uHostname parsed)
             in if hostname = [] \<or> ContainsAny hostname [CHR '' '', CHR 0x09, CHR 0x0D, CHR 0x0A] then None
                else
                  (case canonicalPort (uScheme parsed) (uPort parsed) of
                     None \<Rightarrow> None
                   | Some port \<Rightarrow> Some (uScheme parsed @ ''://'' @ hostPart hostname port))))"

definition validLabel :: "bytes \<Rightarrow> bool" where
  "validLabel label =
     (if label = [] \<or> 63 < length label \<or> hd label = CHR ''-'' \<or> last label = CHR ''-'' then False
      else list_all (\<lambda>r. inrange 97 122 r \<or> inrange 48 57 r \<or> r = 45) (runes label))"

definition validPublicHostname :: "golib \<Rightarrow> bytes \<Rightarrow> bool" where
  "validPublicHostname L hostname =
     (if hostname = [] \<or> 253 < length hostname \<or>
         ContainsAny hostname [CHR '' '', CHR 0x09, CHR 0x0D, CHR 0x0A] then False
      else if IsIP L hostname then True
      else list_all validLabel (Split CHR ''.'' hostname))"

text \<open>The host name \<open>NormalizePublicOrigin\<close> checks, cut out of the canonical text.\<close>

definition originHostname :: "bytes \<Rightarrow> bytes" where
  "originHostname origin =
     (let hostname = TrimPrefix origin ''https://''
      in case SplitHostPort hostname of Some (host, _) \<Rightarrow> host | None \<Rightarrow> TrimSet {CHR ''['', CHR '']''} hostname)"

definition NormalizePublicOrigin :: "golib \<Rightarrow> bytes \<Rightarrow> bytes option" where
  "NormalizePublicOrigin L value =
     (case canonicalOrigin L (TrimSpace value) of
        None \<Rightarrow> None
      | Some origin \<Rightarrow>
          if \<not> HasPrefix origin ''https://'' then None
          else if \<not> validPublicHostname L (originHostname origin) then None
          else Some origin)"

datatype originError = TooManyOrigins | InvalidOrigin | DuplicateOrigin | OriginRequired

fun normalizeLoop :: "golib \<Rightarrow> bytes list \<Rightarrow> bytes list \<Rightarrow> originError + bytes list" where
  "normalizeLoop L [] result = Inr result"
| "normalizeLoop L (value # values) result =
     (case NormalizePublicOrigin L value of
        None \<Rightarrow> Inl InvalidOrigin
      | Some origin \<Rightarrow>
          if origin \<in> set result then Inl DuplicateOrigin
          else normalizeLoop L values (result @ [origin]))"

definition NormalizePublicOrigins :: "golib \<Rightarrow> bytes list \<Rightarrow> originError + bytes list" where
  "NormalizePublicOrigins L origins =
     (if MaximumPublicOrigins < length origins then Inl TooManyOrigins else normalizeLoop L origins [])"

definition ValidatePublicOrigins :: "golib \<Rightarrow> TransportPolicy \<Rightarrow> bytes list \<Rightarrow> originError + bytes list" where
  "ValidatePublicOrigins L p origins =
     (case NormalizePublicOrigins L origins of
        Inl e \<Rightarrow> Inl e
      | Inr normalized \<Rightarrow> if tpBehindHTTPSProxy p \<and> normalized = [] then Inl OriginRequired else Inr normalized)"

definition PublicOriginID :: "golib \<Rightarrow> bytes \<Rightarrow> bytes" where
  "PublicOriginID L origin = b64RawURL L (sha256 L origin)"

definition RequestOrigin :: "golib \<Rightarrow> request \<Rightarrow> bytes option" where
  "RequestOrigin L r =
     (case HeaderValues r ''Origin'' of
        [value] \<Rightarrow> canonicalOrigin L (TrimSpace value)
      | _ \<Rightarrow> None)"

definition SameOrigin :: "golib \<Rightarrow> TransportPolicy \<Rightarrow> request \<Rightarrow> bool" where
  "SameOrigin L p r =
     (case RequestOrigin L r of
        None \<Rightarrow> False
      | Some origin \<Rightarrow>
          if tpBehindHTTPSProxy p then origin \<in> set (tpPublicOrigins p)
          else canonicalOrigin L ((if Secure p r then ''https'' else ''http'') @ ''://'' @ rHost r) = Some origin)"

definition SetupOriginAllowed :: "golib \<Rightarrow> TransportPolicy \<Rightarrow> request \<Rightarrow> bytes list \<Rightarrow> bool" where
  "SetupOriginAllowed L p r origins =
     (if \<not> tpBehindHTTPSProxy p then SameOrigin L p r
      else (case RequestOrigin L r of None \<Rightarrow> False | Some origin \<Rightarrow> list_ex (\<lambda>c. c = origin) origins))"

subsection \<open>The shape of canonical origins\<close>

definition portOK :: "bytes \<Rightarrow> bytes \<Rightarrow> bool" where
  "portOK scheme port \<longleftrightarrow> port = [] \<or> (\<exists>n. port = Itoa n \<and> 1 \<le> n \<and> n \<le> 65535 \<and>
     \<not> (scheme = ''https'' \<and> n = 443) \<and> \<not> (scheme = ''http'' \<and> n = 80))"

lemma canonicalPort_ok: "canonicalPort scheme port = Some q \<Longrightarrow> portOK scheme q"
  by (fastforce simp: canonicalPort_def portOK_def split: option.splits if_splits)

lemma Itoa_digits: "0 \<le> n \<Longrightarrow> list_all isDigit (Itoa n) \<and> Itoa n \<noteq> []"
  using showNat_digits [of "nat n"] by (auto simp: Itoa_def)

lemma canonicalPort_fixpoint: "portOK scheme q \<Longrightarrow> canonicalPort scheme q = Some q"
  using Itoa_digits Atoi_Itoa by (auto simp: portOK_def canonicalPort_def)

lemma portOK_digits: "portOK scheme q \<Longrightarrow> list_all isDigit q"
  using Itoa_digits by (auto simp: portOK_def)

lemma canonicalOrigin_shape:
  assumes "canonicalOrigin L v = Some c"
  obtains u port where "UrlParse L v = Some u" "uScheme u = ''http'' \<or> uScheme u = ''https''"
    "ToLower (ulow L) (uHostname u) \<noteq> []"
    "\<not> ContainsAny (ToLower (ulow L) (uHostname u)) [CHR '' '', CHR 0x09, CHR 0x0D, CHR 0x0A]"
    "portOK (uScheme u) port" "c = uScheme u @ ''://'' @ hostPart (ToLower (ulow L) (uHostname u)) port"
proof -
  obtain u where u: "UrlParse L v = Some u" using assms by (auto simp: canonicalOrigin_def split: option.splits)
  obtain port where p: "canonicalPort (uScheme u) (uPort u) = Some port"
    using assms u by (auto simp: canonicalOrigin_def Let_def split: option.splits if_splits)
  show thesis
    by (rule that [OF u, of port])
      (use assms u p canonicalPort_ok [OF p] in \<open>auto simp: canonicalOrigin_def Let_def split: if_splits\<close>)
qed

lemma normalizeLoop_Inr:
  "normalizeLoop L vs acc = Inr ns \<longleftrightarrow>
     (\<exists>os. map (NormalizePublicOrigin L) vs = map Some os \<and> ns = acc @ os \<and> distinct os \<and> set os \<inter> set acc = {})"
proof (induction vs arbitrary: acc)
  case (Cons v vs)
  show ?case
  proof (cases "NormalizePublicOrigin L v")
    case None
    then show ?thesis by (auto simp: map_eq_Cons_conv)
  next
    case (Some c)
    then show ?thesis using Cons [of "acc @ [c]"] by (auto simp: Cons_eq_map_conv)
  qed
qed auto

lemma NormalizePublicOrigins_Inr:
  "NormalizePublicOrigins L vs = Inr ns \<longleftrightarrow>
     length vs \<le> 16 \<and> map (NormalizePublicOrigin L) vs = map Some ns \<and> distinct ns"
  by (auto simp: NormalizePublicOrigins_def normalizeLoop_Inr MaximumPublicOrigins_def)

subsection \<open>Normalising twice\<close>

lemma indexOf_append [simp]: "c \<notin> set d \<Longrightarrow> indexOf c (d @ c # a) = Some (length d)"
  by (induction d) auto

lemma indexOf_None [simp]: "indexOf c s = None \<longleftrightarrow> c \<notin> set s"
  by (induction s) auto

lemma lastIndexOf_append: "c \<notin> set d \<Longrightarrow> lastIndexOf c (a @ c # d) = Some (length a)"
  by (simp add: lastIndexOf_def)

definition plainHost :: "bytes \<Rightarrow> bool" where
  "plainHost h \<longleftrightarrow> h \<noteq> [] \<and> CHR ''['' \<notin> set h \<and> CHR '']'' \<notin> set h"

lemma digits_no:
  assumes "list_all isDigit p" and "\<not> isDigit c" shows "c \<notin> set p"
  using assms by (auto simp: list_all_iff)

lemma not_digits [simp]: "\<not> isDigit CHR '':''" "\<not> isDigit CHR ''[''" "\<not> isDigit CHR '']''"
  by (simp_all add: isDigit_def inrange_def)

lemma SplitHostPort_bare: "CHR '':'' \<notin> set h \<Longrightarrow> SplitHostPort h = None"
proof -
  assume "CHR '':'' \<notin> set h"
  then have "lastIndexOf CHR '':'' h = None" by (simp add: lastIndexOf_def)
  then show ?thesis by (simp add: SplitHostPort_def)
qed

lemma SplitHostPort_brackets:
  assumes "plainHost h"
  shows "SplitHostPort (''['' @ h @ '']'') = None"
proof -
  have i: "indexOf CHR '']'' (CHR ''['' # h @ [CHR '']'']) = Some (Suc (length h))"
    using indexOf_append [of "CHR '']''" "CHR ''['' # h" "[]"] assms by (simp add: plainHost_def)
  have "lastIndexOf CHR '':'' (CHR ''['' # h @ [CHR '']'']) = Some k \<Longrightarrow> k \<le> length h" for k
    by (auto simp: lastIndexOf_def)
  then show ?thesis using i
    by (auto simp: SplitHostPort_def Let_def simp del: indexOf.simps split: option.splits)
qed

lemma SplitHostPort_Join:
  assumes "plainHost h" and "list_all isDigit p"
  shows "SplitHostPort (JoinHostPort h p) = Some (h, p)"
proof (cases "CHR '':'' \<in> set h")
  case True
  have l: "lastIndexOf CHR '':'' ((''['' @ h @ '']'') @ CHR '':'' # p) = Some (length (''['' @ h @ '']''))"
    by (rule lastIndexOf_append) (rule digits_no [OF assms(2)], simp)
  have i: "indexOf CHR '']'' ((''['' @ h) @ CHR '']'' # CHR '':'' # p) = Some (length (''['' @ h))"
    using assms(1) by (intro indexOf_append) (simp add: plainHost_def)
  have "CHR ''['' \<notin> set p" "CHR '']'' \<notin> set p" using digits_no [OF assms(2)] by simp_all
  with True l i assms(1) show ?thesis
    by (simp add: JoinHostPort_def SplitHostPort_def plainHost_def Let_def del: indexOf.simps)
next
  case False
  have l: "lastIndexOf CHR '':'' (h @ CHR '':'' # p) = Some (length h)"
    by (rule lastIndexOf_append) (rule digits_no [OF assms(2)], simp)
  have "CHR ''['' \<notin> set p" "CHR '']'' \<notin> set p" using digits_no [OF assms(2)] by simp_all
  moreover have "hd (h @ CHR '':'' # p) \<noteq> CHR ''[''" using assms(1) by (cases h) (auto simp: plainHost_def)
  ultimately show ?thesis using False l assms(1)
    by (simp add: JoinHostPort_def SplitHostPort_def plainHost_def Let_def)
qed

lemma TrimSet_plain:
  assumes "plainHost h" shows "TrimSet {CHR ''['', CHR '']''} h = h"
proof -
  have "dropWhile (\<lambda>c. c \<in> {CHR ''['', CHR '']''}) g = g" if "set g \<subseteq> set h" "g \<noteq> []" for g
    using that assms by (cases g) (auto simp: plainHost_def)
  then show ?thesis using assms by (simp add: TrimSet_def plainHost_def)
qed

lemma TrimSet_brackets:
  assumes "plainHost h" shows "TrimSet {CHR ''['', CHR '']''} (''['' @ h @ '']'') = h"
proof -
  obtain x y where h: "h = x # y" using assms by (cases h) (auto simp: plainHost_def)
  then have "x \<notin> {CHR ''['', CHR '']''}" using assms by (auto simp: plainHost_def)
  then have "TrimSet {CHR ''['', CHR '']''} (''['' @ h @ '']'') =
      rev (dropWhile (\<lambda>c. c \<in> {CHR ''['', CHR '']''}) (rev h))"
    by (simp add: TrimSet_def h)
  also have "rev (dropWhile (\<lambda>c. c \<in> {CHR ''['', CHR '']''}) (rev h)) = h"
  proof -
    obtain z w where "rev h = z # w" using assms by (cases "rev h") (auto simp: plainHost_def)
    moreover from this have "z \<in> set h" by (metis list.set_intros(1) set_rev)
    ultimately show ?thesis using assms by (auto simp: plainHost_def dest: arg_cong [where f = rev])
  qed
  finally show ?thesis .
qed

lemma originHostname_host:
  assumes "plainHost h" and "list_all isDigit p"
  shows "originHostname (''https://'' @ hostPart h p) = h"
proof -
  have t: "TrimPrefix (''https://'' @ x) ''https://'' = x" for x by (simp add: TrimPrefix_def)
  show ?thesis
  proof (cases "p = []")
    case True
    then show ?thesis
      using SplitHostPort_bare [of h] SplitHostPort_brackets [OF assms(1)] TrimSet_plain [OF assms(1)]
        TrimSet_brackets [OF assms(1)]
      unfolding originHostname_def t hostPart_def Let_def by (simp split: option.split)
  next
    case False
    then show ?thesis
      using SplitHostPort_Join [OF assms] unfolding originHostname_def t hostPart_def Let_def by simp
  qed
qed

lemma visible_rev_space:
  assumes "inrange 0x21 0x7E (byteval c)" shows "spaceAt (map rev spaceSeqs) (c # s) = None"
proof -
  have "find (\<lambda>p. p \<noteq> [] \<and> prefix p (c # s)) (map rev spaceSeqs) = None"
    unfolding find_None_iff using assms by (auto simp: spaceSeqs_def inrange_def)
  then show ?thesis by (simp add: spaceAt_def)
qed

lemma TrimSpace_visible: "visibleASCII s \<Longrightarrow> TrimSpace s = s"
proof (cases "s = []")
  case False
  assume v: "visibleASCII s"
  obtain c t where c: "s = c # t" using False by (cases s) auto
  obtain d u where d: "rev s = d # u" using False by (cases "rev s") auto
  then have "d \<in> set s" by (metis list.set_intros(1) set_rev)
  with v c have "inrange 0x21 0x7E (byteval c)" "inrange 0x21 0x7E (byteval d)"
    by (auto simp: visibleASCII_def list_all_iff)
  then show ?thesis
    by (intro TrimSpace_fixpoint; simp only: d) (simp_all add: c visible_not_space visible_rev_space)
qed simp

lemma visible_ASCII: "visibleASCII s \<Longrightarrow> isASCII s"
  by (auto simp: visibleASCII_def isASCII_def inrange_def list_all_iff)

lemma lowerByte_facts:
  "lowerByte (lowerByte c) = lowerByte c"
  "inrange 0x21 0x7E (byteval c) \<Longrightarrow> inrange 0x21 0x7E (byteval (lowerByte c))"
  "c \<noteq> CHR ''['' \<Longrightarrow> lowerByte c \<noteq> CHR ''[''" "c \<noteq> CHR '']'' \<Longrightarrow> lowerByte c \<noteq> CHR '']''"
  by (auto simp: lowerByte_def inrange_def byte_eq_iff)

text \<open>A canonical host: lower-case visible ASCII without brackets that passes the host name rules.\<close>

definition canonicalHost :: "golib \<Rightarrow> bytes \<Rightarrow> bool" where
  "canonicalHost L h \<longleftrightarrow> plainHost h \<and> visibleASCII h \<and> map lowerByte h = h \<and> validPublicHostname L h"

definition canonicalHTTPS :: "golib \<Rightarrow> bytes \<Rightarrow> bool" where
  "canonicalHTTPS L c \<longleftrightarrow> (\<exists>h p. c = ''https://'' @ hostPart h p \<and> canonicalHost L h \<and> portOK ''https'' p)"

definition canonicalURL :: "bytes \<Rightarrow> bytes \<Rightarrow> url" where
  "canonicalURL h p =
     \<lparr>uScheme = ''https'', uHost = hostPart h p, uHostname = h, uPort = p, uHasUser = False, uPath = [],
      uRawPath = [], uRawQuery = [], uForceQuery = False, uFragment = [], uString = ''https://'' @ hostPart h p\<rparr>"

lemma lower_plain: "plainHost h \<Longrightarrow> visibleASCII h \<Longrightarrow>
    plainHost (map lowerByte h) \<and> visibleASCII (map lowerByte h) \<and> map lowerByte (map lowerByte h) = map lowerByte h"
  using lowerByte_facts by (auto simp: plainHost_def visibleASCII_def list_all_iff) metis+

lemma NormalizePublicOrigin_shape:
  assumes "NormalizePublicOrigin L v = Some c"
    and "\<And>u. UrlParse L (TrimSpace v) = Some u \<Longrightarrow> plainHost (uHostname u) \<and> visibleASCII (uHostname u)"
  shows "canonicalHTTPS L c"
proof -
  have c: "canonicalOrigin L (TrimSpace v) = Some c" "HasPrefix c ''https://''" "validPublicHostname L (originHostname c)"
    using assms(1) by (auto simp: NormalizePublicOrigin_def split: option.splits if_splits)
  from c(1) show ?thesis
  proof (cases rule: canonicalOrigin_shape)
    case (1 u port)
    let ?h = "map lowerByte (uHostname u)"
    have u: "plainHost (uHostname u)" "visibleASCII (uHostname u)" using assms(2) 1(1) by auto
    then have h: "plainHost ?h" "visibleASCII ?h" "map lowerByte ?h = ?h" using lower_plain by blast+
    have s: "uScheme u = ''https''" using 1(2,6) c(2) by (auto simp: HasPrefix_def)
    have e: "c = ''https://'' @ hostPart ?h port"
      using 1(6) s visible_ASCII [OF u(2)] by (simp add: ToLower_def)
    have "validPublicHostname L ?h"
      using c(3) originHostname_host [OF h(1) portOK_digits [OF 1(5)]] by (simp only: e)
    with h e 1(5) s show ?thesis unfolding canonicalHTTPS_def canonicalHost_def by metis
  qed
qed

lemma visible_append [simp]: "visibleASCII (s @ t) \<longleftrightarrow> visibleASCII s \<and> visibleASCII t"
  by (simp add: visibleASCII_def)

lemma digits_visible: "list_all isDigit p \<Longrightarrow> visibleASCII p"
  by (auto simp: visibleASCII_def isDigit_def inrange_def list_all_iff)

lemma hostPart_visible: "visibleASCII h \<Longrightarrow> list_all isDigit p \<Longrightarrow> visibleASCII (hostPart h p)"
  by (auto simp: hostPart_def JoinHostPort_def visibleASCII_def inrange_def dest: digits_visible)

lemma suffix_byte: "suffix [c] s \<longleftrightarrow> s \<noteq> [] \<and> last s = c"
  by (cases s rule: rev_cases) auto

lemma hostPart_last: "plainHost h \<Longrightarrow> CHR '':'' \<notin> set p \<Longrightarrow> \<not> suffix '':'' (hostPart h p) \<and> hostPart h p \<noteq> []"
  by (auto simp: hostPart_def JoinHostPort_def plainHost_def suffix_byte dest: last_in_set)

lemma NormalizePublicOrigin_fixpoint:
  assumes law: "\<And>h p. canonicalHost L h \<Longrightarrow> portOK ''https'' p \<Longrightarrow>
      UrlParse L (''https://'' @ hostPart h p) = Some (canonicalURL h p)"
    and "canonicalHTTPS L c"
  shows "NormalizePublicOrigin L c = Some c"
proof -
  obtain h p where c: "c = ''https://'' @ hostPart h p" and h: "canonicalHost L h" and p: "portOK ''https'' p"
    using assms(2) by (auto simp: canonicalHTTPS_def)
  have h': "plainHost h" "visibleASCII h" "map lowerByte h = h" "validPublicHostname L h"
    using h by (auto simp: canonicalHost_def)
  have d: "list_all isDigit p" by (rule portOK_digits [OF p])
  have "visibleASCII c" using hostPart_visible [OF h'(2) d] by (simp add: c visibleASCII_def inrange_def)
  then have t: "TrimSpace c = c" by (rule TrimSpace_visible)
  have low: "ToLower (ulow L) h = h" using h'(3) visible_ASCII [OF h'(2)] by (simp add: ToLower_def)
  have "\<not> ContainsAny h [CHR '' '', CHR 0x09, CHR 0x0D, CHR 0x0A]"
    using h'(4) by (auto simp: validPublicHostname_def split: if_splits)
  then have o: "canonicalOrigin L c = Some c"
    using law [OF h p] hostPart_last [OF h'(1) digits_no [OF d not_digits(1)]] h'(1) low canonicalPort_fixpoint [OF p]
    by (simp add: canonicalOrigin_def c canonicalURL_def HasSuffix_def plainHost_def Let_def)
  have "originHostname c = h" unfolding c by (rule originHostname_host [OF h'(1) d])
  with o t h'(4) show ?thesis by (simp add: NormalizePublicOrigin_def HasPrefix_def c)
qed

text \<open>C37. Stored origins are stable. A list that \<open>NormalizePublicOrigins\<close> accepts becomes at most 16
  distinct canonical HTTPS origins, in the order given, and normalising the stored result again
  accepts it and changes nothing. Assumed of \<open>url.Parse\<close>: it takes a canonical origin apart into its
  host and port, and the host names of the given texts are visible ASCII without brackets.\<close>

theorem origins_stable:
  assumes "\<And>h p. canonicalHost L h \<Longrightarrow> portOK ''https'' p \<Longrightarrow>
      UrlParse L (''https://'' @ hostPart h p) = Some (canonicalURL h p)"
    and "\<And>v u. v \<in> set vs \<Longrightarrow> UrlParse L (TrimSpace v) = Some u \<Longrightarrow> plainHost (uHostname u) \<and> visibleASCII (uHostname u)"
    and "NormalizePublicOrigins L vs = Inr ns"
  shows "NormalizePublicOrigins L ns = Inr ns \<and> length ns = length vs \<and> length ns \<le> 16 \<and> distinct ns \<and>
    list_all (canonicalHTTPS L) ns"
proof -
  have ns: "length vs \<le> 16" "map (NormalizePublicOrigin L) vs = map Some ns" "distinct ns"
    using assms(3) by (auto simp: NormalizePublicOrigins_Inr)
  have len: "length ns = length vs" using arg_cong [OF ns(2), of length] by simp
  have "canonicalHTTPS L c" if "c \<in> set ns" for c
  proof -
    have "Some c \<in> set (map (NormalizePublicOrigin L) vs)" using that ns(2) by simp
    then obtain v where "v \<in> set vs" "NormalizePublicOrigin L v = Some c" by auto
    then show ?thesis using NormalizePublicOrigin_shape assms(2) by blast
  qed
  moreover from this have "map (NormalizePublicOrigin L) ns = map Some ns"
    using NormalizePublicOrigin_fixpoint [OF assms(1)] by (intro map_cong) auto
  ultimately show ?thesis using ns(1,3) len by (simp add: NormalizePublicOrigins_Inr list_all_iff)
qed

text \<open>A parser that satisfies the law: it cuts the host and port out of the text.\<close>

definition originLib :: golib where
  "originLib = emptyLib\<lparr>UrlParse := (\<lambda>s.
     if HasPrefix s ''https://''
     then (case SplitHostPort (TrimPrefix s ''https://'') of
             Some (h, p) \<Rightarrow> Some (canonicalURL h p) | None \<Rightarrow> Some (canonicalURL (originHostname s) []))
     else None)\<rparr>"

lemma originLib_law:
  assumes "canonicalHost originLib h" and "portOK ''https'' p"
  shows "UrlParse originLib (''https://'' @ hostPart h p) = Some (canonicalURL h p)"
proof -
  have h: "plainHost h" using assms(1) by (simp add: canonicalHost_def)
  have t: "TrimPrefix (''https://'' @ x) ''https://'' = x" for x by (simp add: TrimPrefix_def)
  have "SplitHostPort (hostPart h p) = (if p = [] then None else Some (h, p))"
    using SplitHostPort_bare [of h] SplitHostPort_brackets [OF h] SplitHostPort_Join [OF h portOK_digits [OF assms(2)]]
    by (simp add: hostPart_def)
  then show ?thesis
    using originHostname_host [OF h portOK_digits [OF assms(2)]]
    by (cases "p = []") (simp_all add: originLib_def HasPrefix_def TrimPrefix_def)
qed

lemma origins_stable_witness:
  "NormalizePublicOrigins originLib [''https://A.io:0443'', ''https://b.io:84''] =
     Inr [''https://a.io'', ''https://b.io:84''] \<and>
   NormalizePublicOrigins originLib [''https://a.io'', ''https://b.io:84''] =
     Inr [''https://a.io'', ''https://b.io:84'']"
proof -
  let ?vs = "[''https://A.io:0443'', ''https://b.io:84'']"
  have n: "NormalizePublicOrigins originLib ?vs = Inr [''https://a.io'', ''https://b.io:84'']"
    by code_simp
  have "list_all (\<lambda>v. case UrlParse originLib (TrimSpace v) of None \<Rightarrow> True
      | Some u \<Rightarrow> plainHost (uHostname u) \<and> visibleASCII (uHostname u)) ?vs"
    by code_simp
  then have "plainHost (uHostname u) \<and> visibleASCII (uHostname u)"
    if "v \<in> set ?vs" "UrlParse originLib (TrimSpace v) = Some u" for v u
    using that by (fastforce simp: list_all_iff)
  from origins_stable [OF originLib_law this n] n show ?thesis by simp
qed

text \<open>The same-origin check cannot be steered by forged headers. Behind an HTTPS proxy a request
  passes exactly when its only \<open>Origin\<close> header has a canonical form on the installed allowlist; the
  host, the connection and every other header are irrelevant. Otherwise that form has to equal the
  canonical origin of the request's own host under the scheme of the connection, and no header but
  \<open>Origin\<close> matters. Without insecure mode, a plain-HTTP request to a server without a proxy may not
  write.\<close>

theorem SameOrigin_headers:
  shows "(SameOrigin L p r \<longleftrightarrow>
      (\<exists>v c. HeaderValues r ''Origin'' = [v] \<and> canonicalOrigin L (TrimSpace v) = Some c \<and>
         (if tpBehindHTTPSProxy p then c \<in> set (tpPublicOrigins p)
          else canonicalOrigin L ((if rTLS r then ''https://'' else ''http://'') @ rHost r) = Some c))) \<and>
    (if HeaderValues r' ''Origin'' = HeaderValues r ''Origin'' \<and>
        (tpBehindHTTPSProxy p \<or> rHost r' = rHost r \<and> rTLS r' = rTLS r)
     then SameOrigin L p r' = SameOrigin L p r else True) \<and>
    (SameOrigin L (ReplacePublicOrigins os p) r \<longleftrightarrow>
       (if tpBehindHTTPSProxy p then list_ex (\<lambda>c. RequestOrigin L r = Some c) os else SameOrigin L p r)) \<and>
    (AllowWrite p r \<longleftrightarrow> tpAllowInsecure p \<or> rTLS r \<or> tpBehindHTTPSProxy p)"
proof -
  have iff: "SameOrigin L p r \<longleftrightarrow>
      (\<exists>v c. HeaderValues r ''Origin'' = [v] \<and> canonicalOrigin L (TrimSpace v) = Some c \<and>
         (if tpBehindHTTPSProxy p then c \<in> set (tpPublicOrigins p)
          else canonicalOrigin L ((if rTLS r then ''https://'' else ''http://'') @ rHost r) = Some c))" for p r
    by (auto simp: SameOrigin_def RequestOrigin_def Secure_def split: list.splits option.splits if_splits)
  show ?thesis
  proof (intro conjI)
    show "if HeaderValues r' ''Origin'' = HeaderValues r ''Origin'' \<and>
        (tpBehindHTTPSProxy p \<or> rHost r' = rHost r \<and> rTLS r' = rTLS r)
      then SameOrigin L p r' = SameOrigin L p r else True"
      by (auto simp: iff)
    show "SameOrigin L (ReplacePublicOrigins os p) r \<longleftrightarrow>
       (if tpBehindHTTPSProxy p then list_ex (\<lambda>c. RequestOrigin L r = Some c) os else SameOrigin L p r)"
      by (auto simp: SameOrigin_def ReplacePublicOrigins_def Secure_def list_ex_iff split: option.splits)
    show "AllowWrite p r \<longleftrightarrow> tpAllowInsecure p \<or> rTLS r \<or> tpBehindHTTPSProxy p"
      by (simp add: AllowWrite_def Secure_def)
  qed (rule iff)
qed

text \<open>\<open>strings.Trim\<close> of the brackets also removes a stray one, so such a host name passes the rules.\<close>

lemma stray_bracket_accepted:
  "UrlParse L ''https://example.com]'' = Some (canonicalURL ''example.com]'' []) \<Longrightarrow>
    NormalizePublicOrigin L ''https://example.com]'' = Some ''https://example.com]''"
proof -
  assume u: "UrlParse L ''https://example.com]'' = Some (canonicalURL ''example.com]'' [])"
  have t: "TrimSpace ''https://example.com]'' = ''https://example.com]''" by (rule TrimSpace_visible) (simp add: visibleASCII_def inrange_def)
  have h: "originHostname ''https://example.com]'' = ''example.com''" by code_simp
  have l: "list_all validLabel (Split CHR ''.'' ''example.com'')" by code_simp
  have "canonicalOrigin L ''https://example.com]'' = Some ''https://example.com]''"
    by (simp add: canonicalOrigin_def u canonicalURL_def hostPart_def HasSuffix_def suffix_byte canonicalPort_def
        ToLower_def isASCII_def lowerByte_def inrange_def ContainsAny_def Let_def)
  with t h l show ?thesis
    by (simp add: NormalizePublicOrigin_def HasPrefix_def validPublicHostname_def ContainsAny_def)
qed

end
