(* ===== verification/Disk.thy ===== *)
theory Disk
  imports StateModel
begin

section \<open>Atomic file replacement: \<open>atomicWriteContents\<close> of \<open>internal/platform/state/state.go\<close>\<close>

text \<open>
  The state directory with what survives a crash. \<open>dkDir\<close> and \<open>dkData\<close> are what running processes
  see: the directory's entries and the contents of the files (by inode). On stable storage a file has
  the contents of its last \<open>fsync\<close> (\<open>dkFlushed\<close>; \<open>None\<close> while it has unsynced writes), and the
  directory is one of its versions since the last directory sync (\<open>dkHistory\<close>). Names are relative to
  the state directory, where every file of the store lives. Each system call's outcome is a field of
  \<open>writeFaults\<close>; \<open>atomicWriteContents\<close> returns every intermediate disk, so that the lemmas can speak
  of a crash between any two system calls.
\<close>

record disk =
  dkDir :: "(bytes, nat) gomap"
  dkData :: "nat \<Rightarrow> bytes"
  dkMode :: "nat \<Rightarrow> nat"
  dkFlushed :: "nat \<Rightarrow> bytes option"
  dkHistory :: "(bytes, nat) gomap list"
  dkNext :: nat

definition readFile :: "disk \<Rightarrow> bytes \<Rightarrow> bytes option" where
  "readFile d p = map_option (dkData d) (map_of (dkDir d) p)"

definition setDir :: "(bytes, nat) gomap \<Rightarrow> disk \<Rightarrow> disk" where
  "setDir dir d = d\<lparr>dkDir := dir, dkHistory := dir # dkHistory d\<rparr>"

definition createFile :: "bytes \<Rightarrow> disk \<Rightarrow> disk" where
  "createFile name d =
     (let i = dkNext d
      in setDir (AList.update name i (dkDir d))
           (d\<lparr>dkData := (dkData d)(i := []), dkMode := (dkMode d)(i := 0), dkFlushed := (dkFlushed d)(i := None),
              dkNext := Suc i\<rparr>))"

definition chmodFile :: "nat \<Rightarrow> nat \<Rightarrow> disk \<Rightarrow> disk" where
  "chmodFile i mode d = d\<lparr>dkMode := (dkMode d)(i := mode)\<rparr>"

definition writeFile :: "nat \<Rightarrow> bytes \<Rightarrow> disk \<Rightarrow> disk" where
  "writeFile i contents d =
     d\<lparr>dkData := (dkData d)(i := dkData d i @ contents), dkFlushed := (dkFlushed d)(i := None)\<rparr>"

definition syncFile :: "nat \<Rightarrow> disk \<Rightarrow> disk" where
  "syncFile i d = d\<lparr>dkFlushed := (dkFlushed d)(i := Some (dkData d i))\<rparr>"

definition renameFile :: "bytes \<Rightarrow> bytes \<Rightarrow> disk \<Rightarrow> disk" where
  "renameFile old new d =
     (case map_of (dkDir d) old of
        None \<Rightarrow> d
      | Some i \<Rightarrow> setDir (AList.update new i (AList.delete old (dkDir d))) d)"

definition removeFile :: "bytes \<Rightarrow> disk \<Rightarrow> disk" where
  "removeFile name d = setDir (AList.delete name (dkDir d)) d"

definition syncDirectory :: "disk \<Rightarrow> disk" where
  "syncDirectory d = d\<lparr>dkHistory := [dkDir d]\<rparr>"

text \<open>
  The outcomes of the system calls: the name \<open>CreateTemp\<close> chose, how many bytes a failing \<open>Write\<close>
  took, and whether the others succeed.
\<close>

record writeFaults =
  wfTemp :: "bytes option"
  wfChmod :: bool
  wfWrite :: "nat option"
  wfSync :: bool
  wfClose :: bool
  wfRename :: bool
  wfSyncDir :: bool
  wfRemove :: bool

datatype storeError =
    ErrNotInitialized
  | ErrAlreadyInitialized
  | ErrLocked
  | StoreFailed bytes

text \<open>The deferred clean-up of a write that did not reach the rename.\<close>

definition abandon :: "writeFaults \<Rightarrow> bytes \<Rightarrow> bytes \<Rightarrow> disk list \<Rightarrow> (storeError + bool) \<times> disk list" where
  "abandon f tmp message ds =
     (Inl (StoreFailed message), if wfRemove f then ds @ [removeFile tmp (last ds)] else ds)"

definition atomicWriteContents :: "writeFaults \<Rightarrow> bytes \<Rightarrow> bytes \<Rightarrow> disk \<Rightarrow> (storeError + bool) \<times> disk list" where
  "atomicWriteContents f path contents d =
     (if maximumSize < length contents then (Inl (StoreFailed ''state exceeds 1 MiB''), [d])
      else (case wfTemp f of
              None \<Rightarrow> (Inl (StoreFailed ''create temporary state''), [d])
            | Some tmp \<Rightarrow>
               (let i = dkNext d; d1 = createFile tmp d
                in if \<not> wfChmod f then abandon f tmp ''chmod'' [d, d1] else
                let d2 = chmodFile i 0x180 d1
                in case wfWrite f of
                     Some n \<Rightarrow> abandon f tmp ''write'' [d, d1, d2, writeFile i (take n contents) d2]
                   | None \<Rightarrow>
                let d3 = writeFile i contents d2
                in if \<not> wfSync f then abandon f tmp ''sync'' [d, d1, d2, d3] else
                let d4 = syncFile i d3
                in if \<not> wfClose f then abandon f tmp ''close'' [d, d1, d2, d3, d4] else
                if \<not> wfRename f then abandon f tmp ''replace state'' [d, d1, d2, d3, d4] else
                let d5 = renameFile tmp path d4
                in if \<not> wfSyncDir f then (Inr False, [d, d1, d2, d3, d4, d5])
                   else (Inr True, [d, d1, d2, d3, d4, d5, syncDirectory d5]))))"

subsection \<open>What a crash can leave\<close>

text \<open>\<open>entryReads\<close>: what reading a directory entry can return after a crash; unsynced contents are arbitrary.\<close>

definition entryReads :: "disk \<Rightarrow> nat option \<Rightarrow> bytes option \<Rightarrow> bool" where
  "entryReads d e c =
     (case e of
        None \<Rightarrow> c = None
      | Some i \<Rightarrow> (case dkFlushed d i of Some x \<Rightarrow> c = Some x | None \<Rightarrow> c \<noteq> None))"

definition crashReads :: "disk \<Rightarrow> bytes \<Rightarrow> bytes option \<Rightarrow> bool" where
  "crashReads d p c \<longleftrightarrow> (\<exists>D\<in>set (dkHistory d). entryReads d (map_of D p) c)"

definition diskInv :: "disk \<Rightarrow> bool" where
  "diskInv d \<longleftrightarrow> dkDir d \<in> set (dkHistory d) \<and>
     (\<forall>D\<in>set (dkHistory d). \<forall>p i. map_of D p = Some i \<longrightarrow> i < dkNext d)"

text \<open>The disk while the temporary file is there: only the new inode and its entry differ.\<close>

definition staged :: "disk \<Rightarrow> bytes \<Rightarrow> disk \<Rightarrow> bool" where
  "staged d tmp d' \<longleftrightarrow> dkNext d' = Suc (dkNext d) \<and> dkDir d' = AList.update tmp (dkNext d) (dkDir d) \<and>
     dkHistory d' = dkDir d' # dkHistory d \<and>
     (\<forall>j. j \<noteq> dkNext d \<longrightarrow> dkData d' j = dkData d j \<and> dkFlushed d' j = dkFlushed d j)"

lemma staged_create: "staged d tmp (createFile tmp d)"
  by (simp add: staged_def createFile_def setDir_def Let_def)

lemma staged_keep:
  "staged d tmp d' \<Longrightarrow> staged d tmp (chmodFile (dkNext d) m d')"
  "staged d tmp d' \<Longrightarrow> staged d tmp (writeFile (dkNext d) c d')"
  "staged d tmp d' \<Longrightarrow> staged d tmp (syncFile (dkNext d) d')"
  by (simp_all add: staged_def chmodFile_def writeFile_def syncFile_def)

text \<open>\<open>undisturbed d p d'\<close>: the file \<open>p\<close> reads as before, now and after a crash.\<close>

definition undisturbed :: "disk \<Rightarrow> bytes \<Rightarrow> disk \<Rightarrow> bool" where
  "undisturbed d p d' \<longleftrightarrow> readFile d' p = readFile d p \<and> (\<forall>c. crashReads d' p c \<longrightarrow> crashReads d p c)"

lemma entryReads_simps [simp]:
  "entryReads (setDir D d) e c = entryReads d e c" "entryReads (syncDirectory d) e c = entryReads d e c"
  by (simp_all add: entryReads_def setDir_def syncDirectory_def split: option.split)

lemma history_setDir [simp]: "dkHistory (setDir D d) = D # dkHistory d"
  by (simp add: setDir_def)

lemma undisturbed_refl [simp]: "undisturbed d p d"
  by (simp add: undisturbed_def)

lemma entryReads_old:
  assumes "diskInv d" and "D \<in> set (dkHistory d)" and "\<And>j. j \<noteq> dkNext d \<Longrightarrow> dkFlushed d' j = dkFlushed d j"
  shows "entryReads d' (map_of D p) c = entryReads d (map_of D p) c"
proof (cases "map_of D p")
  case (Some i)
  then have "i < dkNext d" using assms(1,2) by (auto simp: diskInv_def)
  then have "dkFlushed d' i = dkFlushed d i" using assms(3) by simp
  then show ?thesis by (simp add: entryReads_def Some)
qed (simp add: entryReads_def)

lemma readFile_old:
  assumes "diskInv d" and "map_of (dkDir d') p = map_of (dkDir d) p"
    and "\<And>j. j \<noteq> dkNext d \<Longrightarrow> dkData d' j = dkData d j"
  shows "readFile d' p = readFile d p"
proof (cases "map_of (dkDir d) p")
  case (Some i)
  then have "i < dkNext d" using assms(1) by (auto simp: diskInv_def)
  then show ?thesis using assms(2,3) Some by (simp add: readFile_def)
qed (use assms(2) in \<open>simp add: readFile_def\<close>)

text \<open>A disk whose history adds versions of the directory that agree with it on \<open>p\<close>.\<close>

lemma undisturbedI:
  assumes inv: "diskInv d" and dir: "map_of (dkDir d') p = map_of (dkDir d) p"
    and hist: "\<And>D. D \<in> set (dkHistory d') \<Longrightarrow> D \<in> set (dkHistory d) \<or> map_of D p = map_of (dkDir d) p"
    and old: "\<And>j. j \<noteq> dkNext d \<Longrightarrow> dkData d' j = dkData d j \<and> dkFlushed d' j = dkFlushed d j"
  shows "undisturbed d p d'"
  unfolding undisturbed_def
proof (intro conjI allI impI)
  show "readFile d' p = readFile d p" using readFile_old [OF inv dir] old by blast
  fix c assume "crashReads d' p c"
  then obtain D where D: "D \<in> set (dkHistory d')" "entryReads d' (map_of D p) c" by (auto simp: crashReads_def)
  have now: "dkDir d \<in> set (dkHistory d)" using inv by (simp add: diskInv_def)
  from hist [OF D(1)] show "crashReads d p c"
  proof
    assume "D \<in> set (dkHistory d)"
    then show ?thesis using D(2) entryReads_old [OF inv] old unfolding crashReads_def by blast
  next
    assume "map_of D p = map_of (dkDir d) p"
    then show ?thesis using D(2) entryReads_old [OF inv now] old now unfolding crashReads_def by metis
  qed
qed

lemma staged_undisturbed: "diskInv d \<Longrightarrow> staged d tmp d' \<Longrightarrow> p \<noteq> tmp \<Longrightarrow> undisturbed d p d'"
  by (rule undisturbedI) (auto simp: staged_def)

lemma removed_undisturbed:
  "diskInv d \<Longrightarrow> staged d tmp d' \<Longrightarrow> p \<noteq> tmp \<Longrightarrow> undisturbed d p (removeFile tmp d')"
  by (rule undisturbedI) (auto simp: staged_def removeFile_def setDir_def)

lemma staged_inv: "diskInv d \<Longrightarrow> staged d tmp d' \<Longrightarrow> diskInv d'"
  by (fastforce simp: diskInv_def staged_def split: if_splits)

lemma removed_inv: "diskInv d \<Longrightarrow> diskInv (removeFile tmp d)"
  by (auto simp: diskInv_def removeFile_def setDir_def split: if_splits)

lemma renamed:
  assumes "diskInv d" and "staged d tmp d'" and "tmp \<noteq> path" and "dkFlushed d' (dkNext d) = Some contents"
    and "dkData d' (dkNext d) = contents"
  shows "diskInv (renameFile tmp path d')" "readFile (renameFile tmp path d') path = Some contents"
    "map_of (dkDir (renameFile tmp path d')) path = Some (dkNext d)"
    "crashReads (renameFile tmp path d') path c \<Longrightarrow> crashReads d path c \<or> c = Some contents"
    "p \<noteq> tmp \<Longrightarrow> p \<noteq> path \<Longrightarrow> undisturbed d p (renameFile tmp path d')"
    "dkFlushed (renameFile tmp path d') = dkFlushed d'" "dkMode (renameFile tmp path d') = dkMode d'"
    "dkData (renameFile tmp path d') = dkData d'"
proof -
  let ?D = "AList.update path (dkNext d) (AList.delete tmp (dkDir d'))"
  have r: "renameFile tmp path d' = setDir ?D d'" using assms(2) by (simp add: renameFile_def staged_def)
  show "diskInv (renameFile tmp path d')"
    using staged_inv [OF assms(1,2)] assms(2) by (auto simp: r setDir_def diskInv_def staged_def split: if_splits)
  show "readFile (renameFile tmp path d') path = Some contents" "map_of (dkDir (renameFile tmp path d')) path = Some (dkNext d)"
    using assms(5) by (simp_all add: r readFile_def setDir_def)
  show "dkFlushed (renameFile tmp path d') = dkFlushed d'" "dkMode (renameFile tmp path d') = dkMode d'"
    "dkData (renameFile tmp path d') = dkData d'"
    by (simp_all add: r setDir_def)
  show "p \<noteq> tmp \<Longrightarrow> p \<noteq> path \<Longrightarrow> undisturbed d p (renameFile tmp path d')"
    using assms(1,2) by (intro undisturbedI) (auto simp: r setDir_def staged_def)
  assume "crashReads (renameFile tmp path d') path c"
  then obtain D where D: "D \<in> set (dkHistory d') \<or> D = ?D" "entryReads d' (map_of D path) c"
    by (simp only: crashReads_def r history_setDir entryReads_simps list.set) blast
  show "crashReads d path c \<or> c = Some contents"
  proof (cases "D = ?D")
    case True
    then show ?thesis using D(2) assms(4) by (simp add: entryReads_def)
  next
    case False
    then have "crashReads d' path c" using D by (auto simp: crashReads_def)
    then show ?thesis using staged_undisturbed [OF assms(1,2)] assms(3) by (auto simp: undisturbed_def)
  qed
qed

lemma synced:
  "diskInv d \<Longrightarrow> diskInv (syncDirectory d)" "readFile (syncDirectory d) p = readFile d p"
  "diskInv d \<Longrightarrow> crashReads (syncDirectory d) p c \<Longrightarrow> crashReads d p c"
  "map_of (dkDir d) p = Some i \<Longrightarrow> dkFlushed d i = Some x \<Longrightarrow> crashReads (syncDirectory d) p c \<longleftrightarrow> c = Some x"
proof -
  have h: "dkHistory (syncDirectory d) = [dkDir d]" "dkDir (syncDirectory d) = dkDir d" "dkNext (syncDirectory d) = dkNext d"
    by (simp_all add: syncDirectory_def)
  show "diskInv d \<Longrightarrow> diskInv (syncDirectory d)" by (auto simp: diskInv_def h)
  show "readFile (syncDirectory d) p = readFile d p" by (simp add: readFile_def syncDirectory_def)
  show "diskInv d \<Longrightarrow> crashReads (syncDirectory d) p c \<Longrightarrow> crashReads d p c"
    by (auto simp: crashReads_def h diskInv_def)
  show "map_of (dkDir d) p = Some i \<Longrightarrow> dkFlushed d i = Some x \<Longrightarrow> crashReads (syncDirectory d) p c \<longleftrightarrow> c = Some x"
    by (simp add: crashReads_def h) (simp add: entryReads_def)
qed

subsection \<open>The whole write\<close>

definition tempOK :: "writeFaults \<Rightarrow> bytes \<Rightarrow> disk \<Rightarrow> bool" where
  "tempOK f path d \<longleftrightarrow> (case wfTemp f of None \<Rightarrow> True | Some tmp \<Rightarrow> tmp \<noteq> path \<and> map_of (dkDir d) tmp = None)"

text \<open>The shapes an execution can have.\<close>

lemma atomicWrite_cases:
  assumes "diskInv d" and "tempOK f path d"
  obtains (nothing) e where "atomicWriteContents f path contents d = (Inl e, [d])"
  | (abandoned) e tmp ds where "wfTemp f = Some tmp" "atomicWriteContents f path contents d = (Inl e, d # ds)"
      "ds \<noteq> []" "\<forall>d'\<in>set ds. staged d tmp d' \<or> (\<exists>d0. staged d tmp d0 \<and> d' = removeFile tmp d0)"
      "wfRemove f \<longrightarrow> (\<exists>d0. staged d tmp d0 \<and> last ds = removeFile tmp d0)"
  | (replaced) tmp ds d4 where "wfTemp f = Some tmp" "tmp \<noteq> path" "length contents \<le> maximumSize"
      "atomicWriteContents f path contents d =
         (Inr (wfSyncDir f), d # ds @ [renameFile tmp path d4] @
            (if wfSyncDir f then [syncDirectory (renameFile tmp path d4)] else []))"
      "\<forall>d'\<in>set ds. staged d tmp d'" "staged d tmp d4"
      "dkFlushed d4 (dkNext d) = Some contents" "dkData d4 (dkNext d) = contents" "dkMode d4 (dkNext d) = 0x180"
proof (cases "maximumSize < length contents \<or> wfTemp f = None")
  case True
  then obtain e where "atomicWriteContents f path contents d = (Inl e, [d])"
    by (cases "maximumSize < length contents") (auto simp: atomicWriteContents_def)
  then show thesis by (rule nothing)
next
  case False
  then obtain tmp where tmp: "wfTemp f = Some tmp" by auto
  let ?i = "dkNext d"
  let ?d1 = "createFile tmp d"
  let ?d2 = "chmodFile ?i 0x180 ?d1"
  let ?d3 = "writeFile ?i contents ?d2"
  let ?d4 = "syncFile ?i ?d3"
  have s1: "staged d tmp ?d1" by (rule staged_create)
  have s2: "staged d tmp ?d2" by (intro staged_keep s1)
  have s3: "staged d tmp ?d3" by (intro staged_keep s1)
  have s4: "staged d tmp ?d4" by (intro staged_keep s1)
  have sw: "staged d tmp (writeFile ?i c ?d2)" for c by (intro staged_keep s1)
  have data: "dkFlushed ?d4 ?i = Some contents" "dkData ?d4 ?i = contents" "dkMode ?d4 ?i = 0x180"
    by (simp_all add: createFile_def chmodFile_def writeFile_def syncFile_def setDir_def Let_def)
  have ab: thesis if "atomicWriteContents f path contents d = abandon f tmp m (d # ds)" "ds \<noteq> []"
    "\<forall>d'\<in>set ds. staged d tmp d'" for m ds
  proof (rule abandoned [OF tmp, of "StoreFailed m" "if wfRemove f then ds @ [removeFile tmp (last ds)] else ds"])
    have "last ds \<in> set ds" using that(2) by simp
    then have st: "staged d tmp (last ds)" using that(3) by blast
    show "atomicWriteContents f path contents d =
        (Inl (StoreFailed m), d # (if wfRemove f then ds @ [removeFile tmp (last ds)] else ds))"
      using that(1,2) by (simp add: abandon_def)
    show "\<forall>d'\<in>set (if wfRemove f then ds @ [removeFile tmp (last ds)] else ds).
        staged d tmp d' \<or> (\<exists>d0. staged d tmp d0 \<and> d' = removeFile tmp d0)"
      using that(3) st by auto
    show "wfRemove f \<longrightarrow> (\<exists>d0. staged d tmp d0 \<and>
        last (if wfRemove f then ds @ [removeFile tmp (last ds)] else ds) = removeFile tmp d0)"
      using st by auto
  qed (use that(2) in simp)
  note unf = atomicWriteContents_def tmp Let_def
  consider (chmod) "\<not> wfChmod f" | (wr) n where "wfChmod f" "wfWrite f = Some n"
    | (sync) "wfChmod f" "wfWrite f = None" "\<not> wfSync f"
    | (close) "wfChmod f" "wfWrite f = None" "wfSync f" "\<not> wfClose f \<or> \<not> wfRename f"
    | (ok) "wfChmod f" "wfWrite f = None" "wfSync f" "wfClose f" "wfRename f"
    by (cases "wfWrite f") auto
  then show thesis
  proof cases
    case chmod
    then show thesis using False s1 by (intro ab [of _ "[?d1]"]) (simp_all add: unf)
  next
    case wr
    then show thesis using False s1 s2 sw by (intro ab [of _ "[?d1, ?d2, writeFile ?i (take n contents) ?d2]"]) (simp_all add: unf)
  next
    case sync
    then show thesis using False s1 s2 s3 by (intro ab [of _ "[?d1, ?d2, ?d3]"]) (simp_all add: unf)
  next
    case close
    then show thesis using False s1 s2 s3 s4
      by (cases "wfClose f") (intro ab [of _ "[?d1, ?d2, ?d3, ?d4]"]; simp add: unf)+
  next
    case ok
    show thesis
      by (rule replaced [OF tmp, of "[?d1, ?d2, ?d3, ?d4]" ?d4])
        (use False ok assms(2) tmp s1 s2 s3 s4 data in \<open>simp_all add: unf tempOK_def\<close>)
  qed
qed

lemma atomicWrite_spec:
  assumes "diskInv d" and "tempOK f path d" and "atomicWriteContents f path contents d = (result, ds)"
  shows "diskInv (last ds) \<and> hd ds = d \<and>
    (\<forall>d'\<in>set ds. (readFile d' path = readFile d path \<or> readFile d' path = Some contents) \<and>
       (\<forall>c. crashReads d' path c \<longrightarrow> crashReads d path c \<or> c = Some contents) \<and>
       (\<forall>p. p \<noteq> path \<and> wfTemp f \<noteq> Some p \<longrightarrow> undisturbed d p d')) \<and>
    (case result of
       Inl _ \<Rightarrow> undisturbed d path (last ds)
     | Inr confirmed \<Rightarrow> readFile (last ds) path = Some contents \<and>
         map_option (dkMode (last ds)) (map_of (dkDir (last ds)) path) = Some 0x180 \<and>
         (confirmed \<longrightarrow> (\<forall>c. crashReads (last ds) path c \<longleftrightarrow> c = Some contents))) \<and>
    (wfRemove f \<or> is_ok result \<longrightarrow> (\<forall>tmp. wfTemp f = Some tmp \<longrightarrow> map_of (dkDir (last ds)) tmp = None))"
  using assms(1,2)
proof (cases rule: atomicWrite_cases [of d f path contents])
  case (nothing e)
  then have "result = Inl e" "ds = [d]" using assms(3) by simp_all
  then show ?thesis using assms(1,2) by (auto simp: undisturbed_def tempOK_def split: option.splits)
next
  case (abandoned e tmp ts)
  have r: "result = Inl e" "ds = d # ts" using assms(3) abandoned(2) by simp_all
  have ne: "tmp \<noteq> path" using assms(2) abandoned(1) by (simp add: tempOK_def)
  have all: "diskInv d' \<and> (\<forall>p. p \<noteq> tmp \<longrightarrow> undisturbed d p d')" if "d' \<in> set ds" for d'
    using that abandoned(4) assms(1) staged_undisturbed [OF assms(1)] removed_undisturbed [OF assms(1)]
      staged_inv [OF assms(1)] removed_inv
    unfolding r(2) by (metis set_ConsD undisturbed_refl)
  have last: "last ds = last ts" "last ds \<in> set ds" using abandoned(3) r by simp_all
  have gone: "map_of (dkDir (last ds)) tmp = None" if "wfRemove f"
    using abandoned(5) that last(1) by (auto simp: removeFile_def setDir_def)
  have each: "(readFile d' path = readFile d path \<or> readFile d' path = Some contents) \<and>
       (\<forall>c. crashReads d' path c \<longrightarrow> crashReads d path c \<or> c = Some contents) \<and>
       (\<forall>p. p \<noteq> path \<and> wfTemp f \<noteq> Some p \<longrightarrow> undisturbed d p d')" if "d' \<in> set ds" for d'
  proof -
    have "undisturbed d path d'" using all [OF that] ne by simp
    moreover have "\<forall>p. p \<noteq> path \<and> wfTemp f \<noteq> Some p \<longrightarrow> undisturbed d p d'"
    proof (intro allI impI)
      fix p assume "p \<noteq> path \<and> wfTemp f \<noteq> Some p"
      then have "p \<noteq> tmp" using abandoned(1) by auto
      then show "undisturbed d p d'" using all [OF that] by simp
    qed
    ultimately show ?thesis unfolding undisturbed_def [of d path] by blast
  qed
  have "diskInv (last ds)" "undisturbed d path (last ds)" "hd ds = d"
    using all [OF last(2)] ne r(2) by simp_all
  then show ?thesis using each gone r(1) abandoned(1) by simp
next
  case (replaced tmp ts d4)
  let ?r = "renameFile tmp path d4" and ?i = "dkNext d"
  note ren = renamed [OF assms(1) replaced(6,2,7,8)]
  have r: "result = Inr (wfSyncDir f)" "ds = d # ts @ [?r] @ (if wfSyncDir f then [syncDirectory ?r] else [])"
    using assms(3) replaced(4) by simp_all
  have old: "undisturbed d p d'" if "d' \<in> set (d # ts)" "p \<noteq> tmp" for d' p
    using that replaced(5) staged_undisturbed [OF assms(1)] by auto
  have gone: "map_of (dkDir ?r) tmp = None"
    using replaced(2,6) by (simp add: renameFile_def setDir_def staged_def)
  have fl: "dkFlushed ?r ?i = Some contents" using ren(6) replaced(7) by simp
  have sy: "crashReads (syncDirectory ?r) path c \<longleftrightarrow> c = Some contents" for c
    using synced(4) [OF ren(3) fl] .
  have syd: "undisturbed d p (syncDirectory ?r)" if "p \<noteq> tmp" "p \<noteq> path" for p
    using ren(5) [OF that] synced(3) [OF ren(1)] synced(2) [of ?r] by (auto simp: undisturbed_def)
  have "(readFile d' path = readFile d path \<or> readFile d' path = Some contents) \<and>
       (\<forall>c. crashReads d' path c \<longrightarrow> crashReads d path c \<or> c = Some contents) \<and>
       (\<forall>p. p \<noteq> path \<and> wfTemp f \<noteq> Some p \<longrightarrow> undisturbed d p d')" if d': "d' \<in> set ds" for d'
  proof -
    consider "d' \<in> set (d # ts)" | "d' = ?r" | "d' = syncDirectory ?r"
      using d' unfolding r(2) by (auto split: if_splits)
    then show ?thesis
    proof cases
      case 1
      then show ?thesis using old [OF 1] replaced(1,2) by (auto simp: undisturbed_def)
    next
      case 2
      then show ?thesis using ren(2,4,5) replaced(1) by auto
    next
      case 3
      then show ?thesis using ren(2) sy syd synced(2) replaced(1) by auto
    qed
  qed
  moreover have l: "last ds = (if wfSyncDir f then syncDirectory ?r else ?r)" unfolding r(2) by simp
  moreover have "dkDir (last ds) = dkDir ?r" "dkMode (last ds) = dkMode d4"
    unfolding l using ren(7) by (simp_all add: syncDirectory_def)
  moreover have "diskInv (last ds)" unfolding l using ren(1) synced(1) by simp
  moreover have "hd ds = d" unfolding r(2) by simp
  ultimately show ?thesis using ren(2,3) sy synced(2) gone r(1) replaced(1,9) by auto
qed

lemma atomicWrite_nonempty: "atomicWriteContents f path contents d = (result, ds) \<Longrightarrow> ds \<noteq> []"
  by (auto simp: atomicWriteContents_def abandon_def Let_def split: if_splits option.splits)

text \<open>C8. Replacing the state file is atomic, also across a crash. Whatever system call fails and
  wherever a crash interrupts the write, the file holds its old contents or exactly the new ones, and
  no other file changes. An error means that nothing changed, now or after a crash; success means
  that the new contents are there with mode 0600, and when durability is confirmed a crash can no
  longer lose them. The temporary file does not stay behind unless removing it fails. Assumed:
  \<open>CreateTemp\<close> creates a new file, which is not the target.\<close>

theorem atomicWrite_crash_safe:
  assumes "diskInv d" and "tempOK f path d" and "atomicWriteContents f path contents d = (result, ds)"
  shows "diskInv (last ds) \<and> hd ds = d \<and>
    (\<forall>d'\<in>set ds. (readFile d' path = readFile d path \<or> readFile d' path = Some contents) \<and>
       (\<forall>c. crashReads d' path c \<longrightarrow> crashReads d path c \<or> c = Some contents) \<and>
       (\<forall>p. p \<noteq> path \<and> wfTemp f \<noteq> Some p \<longrightarrow> undisturbed d p d')) \<and>
    (case result of
       Inl _ \<Rightarrow> undisturbed d path (last ds)
     | Inr confirmed \<Rightarrow> readFile (last ds) path = Some contents \<and>
         map_option (dkMode (last ds)) (map_of (dkDir (last ds)) path) = Some 0x180 \<and>
         (confirmed \<longrightarrow> (\<forall>c. crashReads (last ds) path c \<longleftrightarrow> c = Some contents))) \<and>
    (wfRemove f \<or> is_ok result \<longrightarrow> (\<forall>tmp. wfTemp f = Some tmp \<longrightarrow> map_of (dkDir (last ds)) tmp = None))"
  by (rule atomicWrite_spec [OF assms])

text \<open>A directory with one durable state file.\<close>

definition oneFile :: "bytes \<Rightarrow> bytes \<Rightarrow> disk" where
  "oneFile name contents =
     \<lparr>dkDir = [(name, 0)], dkData = (\<lambda>_. contents), dkMode = (\<lambda>_. 0x180), dkFlushed = (\<lambda>_. Some contents),
      dkHistory = [[(name, 0)]], dkNext = 1\<rparr>"

definition noFaults :: writeFaults where
  "noFaults = \<lparr>wfTemp = Some ''.mt-server-1'', wfChmod = True, wfWrite = None, wfSync = True, wfClose = True,
     wfRename = True, wfSyncDir = True, wfRemove = True\<rparr>"

lemma oneFile_inv: "diskInv (oneFile name contents)"
  by (simp add: diskInv_def oneFile_def)

lemma atomicWrite_crash_safe_witness:
  "(\<forall>c. crashReads (last (snd (atomicWriteContents noFaults ''state.json'' ''new'' (oneFile ''state.json'' ''old''))))
      ''state.json'' c \<longleftrightarrow> c = Some ''new'') \<and>
   undisturbed (oneFile ''state.json'' ''old'') ''state.json''
     (last (snd (atomicWriteContents (noFaults\<lparr>wfRename := False\<rparr>) ''state.json'' ''new'' (oneFile ''state.json'' ''old''))))"
proof -
  let ?d = "oneFile ''state.json'' ''old''"
  have t: "tempOK noFaults ''state.json'' ?d" "tempOK (noFaults\<lparr>wfRename := False\<rparr>) ''state.json'' ?d"
    by (simp_all add: tempOK_def noFaults_def oneFile_def)
  have r: "fst (atomicWriteContents noFaults ''state.json'' ''new'' ?d) = Inr True"
    "\<exists>e. fst (atomicWriteContents (noFaults\<lparr>wfRename := False\<rparr>) ''state.json'' ''new'' ?d) = Inl e"
    by (simp_all add: atomicWriteContents_def noFaults_def maximumSize_def abandon_def Let_def)
  then obtain e ds ds' where
    "atomicWriteContents noFaults ''state.json'' ''new'' ?d = (Inr True, ds)"
    "atomicWriteContents (noFaults\<lparr>wfRename := False\<rparr>) ''state.json'' ''new'' ?d = (Inl e, ds')"
    by (metis prod.collapse)
  from this atomicWrite_crash_safe [OF oneFile_inv t(1) this(1)] atomicWrite_crash_safe [OF oneFile_inv t(2) this(2)]
  show ?thesis by simp
qed

subsection \<open>Interrupted writes\<close>

text \<open>
  Every disk on the way of a write is the last one of a write in which some call fails: whoever is stopped in
  the middle of a write leaves what a failing write leaves.
\<close>

definition writeEnds :: "bytes option \<Rightarrow> bytes \<Rightarrow> bytes \<Rightarrow> disk \<Rightarrow> disk \<Rightarrow> bool" where
  "writeEnds tmp path contents d d' \<longleftrightarrow>
     (\<exists>f. (wfTemp f = None \<or> wfTemp f = tmp) \<and> last (snd (atomicWriteContents f path contents d)) = d')"

lemma writeEnds_stage:
  assumes "\<not> maximumSize < length contents"
  shows "writeEnds t path contents d d"
    and "writeEnds (Some tmp) path contents d (createFile tmp d)"
    and "writeEnds (Some tmp) path contents d (chmodFile (dkNext d) 0x180 (createFile tmp d))"
    and "writeEnds (Some tmp) path contents d (writeFile (dkNext d) (take n contents) (chmodFile (dkNext d) 0x180 (createFile tmp d)))"
    and "writeEnds (Some tmp) path contents d (writeFile (dkNext d) contents (chmodFile (dkNext d) 0x180 (createFile tmp d)))"
    and "writeEnds (Some tmp) path contents d (syncFile (dkNext d) (writeFile (dkNext d) contents (chmodFile (dkNext d) 0x180 (createFile tmp d))))"
    and "writeEnds (Some tmp) path contents d (renameFile tmp path (syncFile (dkNext d) (writeFile (dkNext d) contents (chmodFile (dkNext d) 0x180 (createFile tmp d)))))"
proof -
  let ?f = "\<lparr>wfTemp = Some tmp, wfChmod = True, wfWrite = None, wfSync = True, wfClose = True, wfRename = True, wfSyncDir = False, wfRemove = False\<rparr>"
  note defs = writeEnds_def atomicWriteContents_def abandon_def Let_def
  show "writeEnds t path contents d d"
    unfolding defs by (intro exI [of _ "?f\<lparr>wfTemp := None\<rparr>"]) simp
  show "writeEnds (Some tmp) path contents d (createFile tmp d)"
    unfolding defs by (intro exI [of _ "?f\<lparr>wfChmod := False\<rparr>"]) (simp add: assms)
  have partial: "writeEnds (Some tmp) path contents d (writeFile (dkNext d) (take n contents) (chmodFile (dkNext d) 0x180 (createFile tmp d)))" for n
    unfolding defs by (intro exI [of _ "?f\<lparr>wfWrite := Some n\<rparr>"]) (simp add: assms)
  then show "writeEnds (Some tmp) path contents d (writeFile (dkNext d) (take n contents) (chmodFile (dkNext d) 0x180 (createFile tmp d)))" .
  have "writeFile (dkNext d) [] (chmodFile (dkNext d) 0x180 (createFile tmp d)) = chmodFile (dkNext d) 0x180 (createFile tmp d)"
    by (simp add: writeFile_def chmodFile_def createFile_def setDir_def Let_def)
  with partial [of 0] show "writeEnds (Some tmp) path contents d (chmodFile (dkNext d) 0x180 (createFile tmp d))" by simp
  show "writeEnds (Some tmp) path contents d (writeFile (dkNext d) contents (chmodFile (dkNext d) 0x180 (createFile tmp d)))"
    unfolding defs by (intro exI [of _ "?f\<lparr>wfSync := False\<rparr>"]) (simp add: assms)
  show "writeEnds (Some tmp) path contents d (syncFile (dkNext d) (writeFile (dkNext d) contents (chmodFile (dkNext d) 0x180 (createFile tmp d))))"
    unfolding defs by (intro exI [of _ "?f\<lparr>wfClose := False\<rparr>"]) (simp add: assms)
  show "writeEnds (Some tmp) path contents d (renameFile tmp path (syncFile (dkNext d) (writeFile (dkNext d) contents (chmodFile (dkNext d) 0x180 (createFile tmp d)))))"
    unfolding defs by (intro exI [of _ ?f]) (simp add: assms)
qed

lemma atomicWrite_interrupted:
  assumes "atomicWriteContents f path contents d = (result, ds)" and "d' \<in> set ds"
  shows "writeEnds (wfTemp f) path contents d d'"
proof -
  have own: "writeEnds (wfTemp f) path contents d (last ds)"
    unfolding writeEnds_def by (intro exI [of _ f]) (simp add: assms(1))
  show ?thesis
  proof (cases "maximumSize < length contents \<or> wfTemp f = None")
    case True
    then have "ds = [d]" using assms(1) by (auto simp: atomicWriteContents_def split: option.splits if_splits)
    with own assms(2) show ?thesis by simp
  next
    case False
    then obtain tmp where t: "\<not> maximumSize < length contents" "wfTemp f = Some tmp" by auto
    let ?d2 = "chmodFile (dkNext d) 0x180 (createFile tmp d)"
    let ?d4 = "syncFile (dkNext d) (writeFile (dkNext d) contents ?d2)"
    have "d' = last ds \<or> d' \<in> {d, createFile tmp d, ?d2, writeFile (dkNext d) contents ?d2, ?d4, renameFile tmp path ?d4} \<or>
        (\<exists>n. d' = writeFile (dkNext d) (take n contents) ?d2)"
      using assms t
      by (auto simp: atomicWriteContents_def abandon_def Let_def split: option.splits if_splits)
    with own writeEnds_stage [OF t(1)] t(2) show ?thesis by auto
  qed
qed
end
