(* ===== verification/StateStore.thy ===== *)
theory StateStore
  imports Disk
begin

section \<open>The state store: \<open>Store\<close> and \<open>Lock\<close> of \<open>internal/platform/state\<close>\<close>

text \<open>
  \<open>encoding/json\<close> is the record \<open>codec\<close>: encoding a \<open>State\<close>, reading the version header, and the strict
  decoders of both schemas, which return the value and what follows it in the text. The operations
  take the outcomes of their system calls and clock readings as arguments and return the disks they
  go through. The lemmas show that \<open>Load\<close> returns what was saved, also after a crash, that setup
  succeeds at most once, and that a migration never loses the schema-v3 file.
\<close>

datatype jsonRest = AtEOF | MoreJSON | BrokenJSON

record codec =
  cdEncode :: "State \<Rightarrow> bytes option"
  cdHeader :: "bytes \<Rightarrow> int option"
  cdState :: "bytes \<Rightarrow> (State \<times> jsonRest) option"
  cdStateV3 :: "bytes \<Rightarrow> (stateV3 \<times> jsonRest) option"

record Store =
  soDisk :: disk
  soDurabilityConfirmed :: bool

definition stateFile :: bytes where "stateFile = ''state.json''"
definition migrationBackupName :: bytes where "migrationBackupName = ''state.v3.backup.json''"

text \<open>\<open>NewStore\<close>; the arguments say whether the path is absolute and whether the system calls succeed.\<close>

definition NewStore :: "bool \<Rightarrow> bool \<Rightarrow> bool \<Rightarrow> disk \<Rightarrow> storeError + Store" where
  "NewStore isAbs mkdirOk chmodOk d =
     (if \<not> isAbs then Inl (StoreFailed ''state directory must be absolute'')
      else if \<not> mkdirOk then Inl (StoreFailed ''create state directory'')
      else if \<not> chmodOk then Inl (StoreFailed ''protect state directory'')
      else Inr \<lparr>soDisk = d, soDurabilityConfirmed = True\<rparr>)"

subsection \<open>Reading\<close>

datatype readError = NotExist | ReadFailed bytes

text \<open>\<open>ok\<close> is false when opening or reading an existing file fails.\<close>

definition readBounded :: "bool \<Rightarrow> bytes \<Rightarrow> disk \<Rightarrow> readError + bytes" where
  "readBounded ok p d =
     (case readFile d p of
        None \<Rightarrow> Inl NotExist
      | Some contents \<Rightarrow>
          if \<not> ok then Inl (ReadFailed ''read'')
          else if maximumSize < length contents then Inl (ReadFailed ''state exceeds 1 MiB'')
          else Inr contents)"

definition readStateLocked :: "bool \<Rightarrow> Store \<Rightarrow> storeError + bytes" where
  "readStateLocked ok s =
     (case readBounded ok stateFile (soDisk s) of
        Inl NotExist \<Rightarrow> Inl ErrNotInitialized
      | Inl (ReadFailed _) \<Rightarrow> Inl (StoreFailed ''read application state'')
      | Inr contents \<Rightarrow> Inr contents)"

definition schemaVersion :: "codec \<Rightarrow> bytes \<Rightarrow> storeError + int" where
  "schemaVersion C contents =
     (case cdHeader C contents of
        None \<Rightarrow> Inl (StoreFailed ''decode application state'') | Some v \<Rightarrow> Inr v)"

definition decodeStrict :: "('a \<times> jsonRest) option \<Rightarrow> storeError + 'a" where
  "decodeStrict decoded =
     (case decoded of
        None \<Rightarrow> Inl (StoreFailed ''decode application state'')
      | Some (value, AtEOF) \<Rightarrow> Inr value
      | Some (value, MoreJSON) \<Rightarrow> Inl (StoreFailed ''application state contains trailing JSON'')
      | Some (value, BrokenJSON) \<Rightarrow> Inl (StoreFailed ''decode application state''))"

definition decodeState :: "codec \<Rightarrow> bytes \<Rightarrow> storeError + State" where
  "decodeState C contents = decodeStrict (cdState C contents)"

definition decodeStateV3 :: "codec \<Rightarrow> bytes \<Rightarrow> storeError + stateV3" where
  "decodeStateV3 C contents = decodeStrict (cdStateV3 C contents)"

definition Load :: "codec \<Rightarrow> bool \<Rightarrow> Store \<Rightarrow> storeError + State" where
  "Load C ok s =
     (case readStateLocked ok s of
        Inl e \<Rightarrow> Inl e
      | Inr contents \<Rightarrow>
          (case schemaVersion C contents of
             Inl e \<Rightarrow> Inl e
           | Inr version \<Rightarrow>
               if version \<noteq> SchemaVersion then
                 (if version = 2 then Inl (StoreFailed ''unsupported state schema version 2; back up and clear the v0.1 state before setup'')
                  else Inl (StoreFailed (''unsupported state schema version '' @ Itoa version)))
               else decodeState C contents))"

record CompatibleState =
  csState :: State
  csSourceVersion :: int
  csSource :: bytes

definition LoadCompatible :: "codec \<Rightarrow> bool \<Rightarrow> Store \<Rightarrow> storeError + CompatibleState" where
  "LoadCompatible C ok s =
     (case readStateLocked ok s of
        Inl e \<Rightarrow> Inl e
      | Inr contents \<Rightarrow>
          (case schemaVersion C contents of
             Inl e \<Rightarrow> Inl e
           | Inr version \<Rightarrow>
               if version = SchemaVersion then
                 (case decodeState C contents of
                    Inl e \<Rightarrow> Inl e
                  | Inr value \<Rightarrow> Inr \<lparr>csState = value, csSourceVersion = version, csSource = contents\<rparr>)
               else if version = previousSchema then
                 (case decodeStateV3 C contents of
                    Inl e \<Rightarrow> Inl e
                  | Inr value \<Rightarrow> Inr \<lparr>csState = migrateV3 value, csSourceVersion = version, csSource = contents\<rparr>)
               else if version = 2 then
                 Inl (StoreFailed ''unsupported state schema version 2; back up and clear the v0.1 state before setup'')
               else Inl (StoreFailed (''unsupported state schema version '' @ Itoa version))))"

subsection \<open>Writing\<close>

type_synonym writeOutcome = "(storeError + bool) \<times> disk list \<times> Store"

definition storeWrite :: "writeFaults \<Rightarrow> bytes \<Rightarrow> bytes \<Rightarrow> Store \<Rightarrow> writeOutcome" where
  "storeWrite f path contents s =
     (let (result, ds) = atomicWriteContents f path contents (soDisk s)
      in (result, ds,
          s\<lparr>soDisk := last ds,
            soDurabilityConfirmed := (case result of Inl _ \<Rightarrow> soDurabilityConfirmed s | Inr confirmed \<Rightarrow> confirmed)\<rparr>))"

definition refuse :: "storeError \<Rightarrow> Store \<Rightarrow> writeOutcome" where
  "refuse e s = (Inl e, [soDisk s], s)"

definition atomicWrite :: "codec \<Rightarrow> writeFaults \<Rightarrow> bytes \<Rightarrow> State \<Rightarrow> Store \<Rightarrow> writeOutcome" where
  "atomicWrite C f path value s =
     (case cdEncode C value of
        None \<Rightarrow> refuse (StoreFailed ''encode'') s
      | Some contents \<Rightarrow>
          if maximumSize < length contents then refuse (StoreFailed ''state exceeds 1 MiB'') s
          else storeWrite f path contents s)"

definition stamped :: "time \<Rightarrow> State \<Rightarrow> State" where
  "stamped now value = (if IsZero (stUpdatedAt value) then value\<lparr>stUpdatedAt := now\<rparr> else value)"

definition writeStateLocked :: "codec \<Rightarrow> writeFaults \<Rightarrow> time \<Rightarrow> State \<Rightarrow> Store \<Rightarrow> writeOutcome" where
  "writeStateLocked C f now value s =
     (if stSchemaVersion value \<noteq> SchemaVersion then refuse (StoreFailed ''state schema version must be 4'') s
      else atomicWrite C f stateFile (stamped now value) s)"

text \<open>\<open>statOk\<close> is false when \<open>os.Stat\<close> fails other than by \<open>ErrNotExist\<close>.\<close>

definition initialized :: "Store \<Rightarrow> bool" where
  "initialized s \<longleftrightarrow> readFile (soDisk s) stateFile \<noteq> None"

definition Save :: "codec \<Rightarrow> writeFaults \<Rightarrow> bool \<Rightarrow> time \<Rightarrow> State \<Rightarrow> Store \<Rightarrow> writeOutcome" where
  "Save C f statOk now value s =
     (if \<not> statOk then refuse (StoreFailed ''stat'') s
      else if \<not> initialized s then refuse ErrNotInitialized s
      else writeStateLocked C f now value s)"

definition CommitInitial :: "codec \<Rightarrow> writeFaults \<Rightarrow> bool \<Rightarrow> time \<Rightarrow> State \<Rightarrow> Store \<Rightarrow> writeOutcome" where
  "CommitInitial C f statOk now value s =
     (if \<not> statOk then refuse (StoreFailed ''stat'') s
      else if initialized s then refuse ErrAlreadyInitialized s
      else writeStateLocked C f now value s)"

definition CommitMigration ::
    "codec \<Rightarrow> writeFaults \<Rightarrow> writeFaults \<Rightarrow> bool \<Rightarrow> time \<Rightarrow> CompatibleState \<Rightarrow> Store \<Rightarrow> writeOutcome" where
  "CommitMigration C f1 f2 ok now loaded s =
     (if csSourceVersion loaded \<noteq> previousSchema \<or> stSchemaVersion (csState loaded) \<noteq> SchemaVersion \<or>
         csSource loaded = [] then refuse (StoreFailed ''state migration candidate is invalid'') s
      else (case readBounded ok stateFile (soDisk s) of
              Inl _ \<Rightarrow> refuse (StoreFailed ''read application state before migration'') s
            | Inr current \<Rightarrow>
                if current \<noteq> csSource loaded then refuse (StoreFailed ''application state changed before migration'') s
                else (case storeWrite f1 migrationBackupName (csSource loaded) s of
                        (Inl _, ds, s) \<Rightarrow> (Inl (StoreFailed ''write migration backup''), ds, s)
                      | (Inr False, ds, s) \<Rightarrow> (Inl (StoreFailed ''migration backup durability is unconfirmed''), ds, s)
                      | (Inr True, ds, s) \<Rightarrow>
                          (let (result, ds', s) = writeStateLocked C f2 now (csState loaded) s
                           in (result, ds @ ds', s)))))"

definition RestoreV3Backup :: "codec \<Rightarrow> writeFaults \<Rightarrow> bool \<Rightarrow> bool \<Rightarrow> Store \<Rightarrow> writeOutcome" where
  "RestoreV3Backup C f ok ok' s =
     (case readBounded ok stateFile (soDisk s) of
        Inl _ \<Rightarrow> refuse (StoreFailed ''read current application state'') s
      | Inr current \<Rightarrow>
          (case schemaVersion C current of
             Inl e \<Rightarrow> refuse e s
           | Inr version \<Rightarrow>
               if version \<noteq> SchemaVersion then refuse (StoreFailed ''current state schema must be 4'') s
               else (case readBounded ok' migrationBackupName (soDisk s) of
                       Inl _ \<Rightarrow> refuse (StoreFailed ''read schema v3 migration backup'') s
                     | Inr backup \<Rightarrow>
                         (case schemaVersion C backup of
                            Inl e \<Rightarrow> refuse e s
                          | Inr backupVersion \<Rightarrow>
                              if backupVersion \<noteq> previousSchema
                              then refuse (StoreFailed ''migration backup is not schema version 3'') s
                              else (case decodeStateV3 C backup of
                                      Inl e \<Rightarrow> refuse e s
                                    | Inr _ \<Rightarrow> storeWrite f stateFile backup s)))))"

subsection \<open>The process lock\<close>

text \<open>\<open>Some h\<close>: the open file \<open>h\<close> holds the advisory lock on \<open>state.lock\<close>.\<close>

definition AcquireLock :: "nat \<Rightarrow> bool \<Rightarrow> bool \<Rightarrow> bool \<Rightarrow> nat option \<Rightarrow> (storeError + nat) \<times> nat option" where
  "AcquireLock h openOk chmodOk flockOk holder =
     (if \<not> openOk then (Inl (StoreFailed ''open state lock''), holder)
      else if \<not> chmodOk then (Inl (StoreFailed ''protect state lock''), holder)
      else if \<not> flockOk then (Inl (StoreFailed ''lock state directory''), holder)
      else if holder \<noteq> None then (Inl ErrLocked, holder)
      else (Inr h, Some h))"

definition CloseLock :: "nat \<Rightarrow> nat option \<Rightarrow> nat option" where
  "CloseLock h holder = (if holder = Some h then None else holder)"

subsection \<open>Saving and loading\<close>

text \<open>A disk found after a crash of \<open>d\<close>.\<close>

definition crashImage :: "disk \<Rightarrow> disk \<Rightarrow> bool" where
  "crashImage d t \<longleftrightarrow> (\<forall>p. crashReads d p (readFile t p))"

text \<open>What is needed of \<open>encoding/json\<close> for a value: its text decodes to it, with its version on top.\<close>

definition codecLaw :: "codec \<Rightarrow> State \<Rightarrow> bool" where
  "codecLaw C v \<longleftrightarrow> (\<forall>c. cdEncode C v = Some c \<longrightarrow>
     cdState C c = Some (v, AtEOF) \<and> cdHeader C c = Some (stSchemaVersion v))"

lemma stamped_version [simp]: "stSchemaVersion (stamped now v) = stSchemaVersion v"
  by (simp add: stamped_def)

lemma Load_cong: "readFile (soDisk s) stateFile = readFile (soDisk t) stateFile \<Longrightarrow> Load C ok s = Load C ok t"
  by (simp add: Load_def readStateLocked_def readBounded_def)

lemma Load_encoded:
  assumes "codecLaw C v" and "cdEncode C v = Some c" and "stSchemaVersion v = SchemaVersion"
    and "length c \<le> maximumSize" and "readFile (soDisk s) stateFile = Some c"
  shows "Load C True s = Inr v"
  using assms by (simp add: codecLaw_def Load_def readStateLocked_def readBounded_def schemaVersion_def decodeState_def decodeStrict_def)

lemma storeWrite_spec:
  assumes "diskInv (soDisk s)" and "tempOK f path (soDisk s)" and "storeWrite f path contents s = (result, ds, s')"
  shows "atomicWriteContents f path contents (soDisk s) = (result, ds)" "soDisk s' = last ds"
    "soDurabilityConfirmed s' = (case result of Inl _ \<Rightarrow> soDurabilityConfirmed s | Inr b \<Rightarrow> b)"
  using assms by (auto simp: storeWrite_def split: prod.splits)

text \<open>Every way \<open>writeStateLocked\<close> can end.\<close>

lemma writeState_cases:
  assumes "writeStateLocked C f now value s = (result, ds, s')"
  obtains (refused) e where "result = Inl e" "ds = [soDisk s]" "s' = s"
  | (wrote) c where "cdEncode C (stamped now value) = Some c" "length c \<le> maximumSize"
      "stSchemaVersion value = SchemaVersion" "storeWrite f stateFile c s = (result, ds, s')"
proof (cases "stSchemaVersion value = SchemaVersion \<and> (\<exists>c. cdEncode C (stamped now value) = Some c \<and> length c \<le> maximumSize)")
  case True
  then obtain c where c: "cdEncode C (stamped now value) = Some c" "length c \<le> maximumSize" "stSchemaVersion value = SchemaVersion"
    by blast
  then have "storeWrite f stateFile c s = (result, ds, s')"
    using assms by (simp add: writeStateLocked_def atomicWrite_def)
  from wrote [OF c this] show thesis .
next
  case False
  then have "\<exists>e. writeStateLocked C f now value s = refuse e s"
    by (cases "cdEncode C (stamped now value)") (auto simp: writeStateLocked_def atomicWrite_def)
  then obtain e where "refuse e s = (result, ds, s')" using assms by metis
  then have "result = Inl e" "ds = [soDisk s]" "s' = s" by (auto simp: refuse_def)
  from refused [OF this] show thesis .
qed

lemma writeState_spec:
  assumes inv: "diskInv (soDisk s)" and tmp: "tempOK f stateFile (soDisk s)" and law: "codecLaw C (stamped now value)"
    and w: "writeStateLocked C f now value s = (result, ds, s')"
  shows "diskInv (soDisk s')"
    "result = Inl e \<Longrightarrow> readFile (soDisk s') stateFile = readFile (soDisk s) stateFile"
    "result = Inr b \<Longrightarrow> Load C True s' = Inr (stamped now value) \<and> soDurabilityConfirmed s' = b"
    "result = Inr True \<Longrightarrow> crashImage (soDisk s') (soDisk t) \<Longrightarrow> Load C True t = Inr (stamped now value)"
    "d' \<in> set ds \<Longrightarrow> crashReads d' stateFile (readFile (soDisk t) stateFile) \<Longrightarrow>
       crashReads (soDisk s) stateFile (readFile (soDisk t) stateFile) \<or> Load C True t = Inr (stamped now value)"
    "d' \<in> set ds \<Longrightarrow> p \<noteq> stateFile \<Longrightarrow> wfTemp f \<noteq> Some p \<Longrightarrow> undisturbed (soDisk s) p d'"
    "soDisk s' \<in> set ds"
    "result = Inl e \<Longrightarrow> undisturbed (soDisk s) stateFile (soDisk s')"
proof -
  have "diskInv (soDisk s') \<and>
    (\<forall>e. result = Inl e \<longrightarrow> readFile (soDisk s') stateFile = readFile (soDisk s) stateFile) \<and>
    (\<forall>b. result = Inr b \<longrightarrow> Load C True s' = Inr (stamped now value) \<and> soDurabilityConfirmed s' = b) \<and>
    (result = Inr True \<longrightarrow> (\<forall>t. crashImage (soDisk s') (soDisk t) \<longrightarrow> Load C True t = Inr (stamped now value))) \<and>
    (\<forall>d' t. d' \<in> set ds \<and> crashReads d' stateFile (readFile (soDisk t) stateFile) \<longrightarrow>
       crashReads (soDisk s) stateFile (readFile (soDisk t) stateFile) \<or> Load C True t = Inr (stamped now value)) \<and>
    (\<forall>d' p. d' \<in> set ds \<and> p \<noteq> stateFile \<and> wfTemp f \<noteq> Some p \<longrightarrow> undisturbed (soDisk s) p d') \<and>
    soDisk s' \<in> set ds \<and>
    (\<forall>e. result = Inl e \<longrightarrow> undisturbed (soDisk s) stateFile (soDisk s'))"
    using w
  proof (cases rule: writeState_cases)
    case refused
    then show ?thesis using inv by (auto simp: crashImage_def)
  next
    case (wrote c)
    note sw = storeWrite_spec [OF inv tmp wrote(4)]
    note spec = atomicWrite_spec [OF inv tmp sw(1)]
    have load: "Load C True t = Inr (stamped now value)" if "readFile (soDisk t) stateFile = Some c" for t
      using Load_encoded [OF law wrote(1) _ wrote(2) that] wrote(3) by simp
    have ne: "ds \<noteq> []" using atomicWrite_nonempty [OF sw(1)] .
    show ?thesis
    proof (intro conjI allI impI)
      show "diskInv (soDisk s')" using spec sw(2) by simp
      show "soDisk s' \<in> set ds" using sw(2) ne by simp
    next
      fix e assume "result = Inl e"
      then show "undisturbed (soDisk s) stateFile (soDisk s')" using spec sw(2) by simp
      then show "readFile (soDisk s') stateFile = readFile (soDisk s) stateFile" by (simp add: undisturbed_def)
    next
      fix b assume "result = Inr b"
      then show "Load C True s' = Inr (stamped now value)" "soDurabilityConfirmed s' = b"
        using spec sw(2,3) load [of s'] by simp_all
    next
      fix t :: Store assume "result = Inr True" "crashImage (soDisk s') (soDisk t)"
      then have "crashReads (last ds) stateFile (readFile (soDisk t) stateFile)"
        using sw(2) by (simp add: crashImage_def)
      moreover have "crashReads (last ds) stateFile x \<longleftrightarrow> x = Some c" for x
        using spec \<open>result = Inr True\<close> by simp
      ultimately have "readFile (soDisk t) stateFile = Some c" by blast
      then show "Load C True t = Inr (stamped now value)" by (rule load)
    next
      fix d' and t :: Store assume d: "d' \<in> set ds \<and> crashReads d' stateFile (readFile (soDisk t) stateFile)"
      then have "crashReads (soDisk s) stateFile (readFile (soDisk t) stateFile) \<or> readFile (soDisk t) stateFile = Some c"
        using spec by blast
      then show "crashReads (soDisk s) stateFile (readFile (soDisk t) stateFile) \<or> Load C True t = Inr (stamped now value)"
        using load by blast
    next
      fix d' p assume "d' \<in> set ds \<and> p \<noteq> stateFile \<and> wfTemp f \<noteq> Some p"
      then show "undisturbed (soDisk s) p d'" using spec by blast
    qed
  qed
  then show "diskInv (soDisk s')"
    "result = Inl e \<Longrightarrow> readFile (soDisk s') stateFile = readFile (soDisk s) stateFile"
    "result = Inr b \<Longrightarrow> Load C True s' = Inr (stamped now value) \<and> soDurabilityConfirmed s' = b"
    "result = Inr True \<Longrightarrow> crashImage (soDisk s') (soDisk t) \<Longrightarrow> Load C True t = Inr (stamped now value)"
    "d' \<in> set ds \<Longrightarrow> crashReads d' stateFile (readFile (soDisk t) stateFile) \<Longrightarrow>
       crashReads (soDisk s) stateFile (readFile (soDisk t) stateFile) \<or> Load C True t = Inr (stamped now value)"
    "d' \<in> set ds \<Longrightarrow> p \<noteq> stateFile \<Longrightarrow> wfTemp f \<noteq> Some p \<Longrightarrow> undisturbed (soDisk s) p d'"
    "soDisk s' \<in> set ds"
    "result = Inl e \<Longrightarrow> undisturbed (soDisk s) stateFile (soDisk s')"
    by blast+
qed

lemma Save_cases:
  "(\<exists>e. Save C f statOk now value s = refuse e s) \<or> Save C f statOk now value s = writeStateLocked C f now value s"
  unfolding Save_def by (auto split: if_split)

lemma CommitInitial_cases:
  "(\<exists>e. CommitInitial C f statOk now value s = refuse e s) \<or>
    \<not> initialized s \<and> CommitInitial C f statOk now value s = writeStateLocked C f now value s"
  unfolding CommitInitial_def by (auto split: if_split)

lemma refuse_eq: "refuse e s = (result, ds, s') \<longleftrightarrow> result = Inl e \<and> ds = [soDisk s] \<and> s' = s"
  by (auto simp: refuse_def)

text \<open>C9. Saving and loading. A successful \<open>Save\<close> or \<open>CommitInitial\<close> makes \<open>Load\<close> return the value
  saved, with the time of the write when it had none; when durability was confirmed, so does \<open>Load\<close>
  after a crash. A failed one leaves what \<open>Load\<close> returns as it was. A crash anywhere during the write
  leaves the new value or what a crash could have left before it. Assumed: \<open>CreateTemp\<close>
  creates a new file, and the text of this value decodes to it.\<close>

theorem Save_roundtrip:
  assumes "diskInv (soDisk s)" and "tempOK f stateFile (soDisk s)" and "codecLaw C (stamped now value)"
    and "Save C f statOk now value s = (result, ds, s') \<or> CommitInitial C f statOk now value s = (result, ds, s')"
  shows "(case result of
      Inl _ \<Rightarrow> Load C ok s' = Load C ok s
    | Inr confirmed \<Rightarrow> Load C True s' = Inr (stamped now value) \<and> soDurabilityConfirmed s' = confirmed \<and>
        (confirmed \<and> crashImage (soDisk s') (soDisk t) \<longrightarrow> Load C True t = Inr (stamped now value))) \<and>
    (\<forall>d'\<in>set ds. crashImage d' (soDisk t) \<longrightarrow>
       crashReads (soDisk s) stateFile (readFile (soDisk t) stateFile) \<or> Load C True t = Inr (stamped now value))"
proof -
  consider (refused) e where "result = Inl e" "ds = [soDisk s]" "s' = s"
    | (written) "writeStateLocked C f now value s = (result, ds, s')"
    using assms(4) Save_cases [of C f statOk now "value" s] CommitInitial_cases [of C f statOk now "value" s]
    by (elim disjE exE) (auto simp: refuse_eq)
  then show ?thesis
  proof cases
    case refused
    then show ?thesis by (simp add: crashImage_def)
  next
    case written
    note spec = writeState_spec [OF assms(1,2,3) written]
    show ?thesis
    proof (intro conjI ballI impI)
      fix d' assume "d' \<in> set ds" "crashImage d' (soDisk t)"
      then show "crashReads (soDisk s) stateFile (readFile (soDisk t) stateFile) \<or> Load C True t = Inr (stamped now value)"
        unfolding crashImage_def using spec(5) by blast
    next
      show "case result of
        Inl _ \<Rightarrow> Load C ok s' = Load C ok s
      | Inr confirmed \<Rightarrow> Load C True s' = Inr (stamped now value) \<and> soDurabilityConfirmed s' = confirmed \<and>
          (confirmed \<and> crashImage (soDisk s') (soDisk t) \<longrightarrow> Load C True t = Inr (stamped now value))"
      proof (cases result)
        case (Inl e)
        then show ?thesis using Load_cong [OF spec(2)] by simp
      next
        case (Inr b)
        then show ?thesis using spec(3) spec(4) by (cases b) simp_all
      qed
    qed
  qed
qed

text \<open>A value, and a codec that knows two texts: the value's, and one of schema v3.\<close>

definition sampleState :: State where
  "sampleState =
     \<lparr>stSchemaVersion = 4, stUpdatedAt = 0,
      stAdmin = \<lparr>asPassword = \<lparr>phAlgorithm = [], phSalt = [], phDigest = [], phMemoryKiB = 0, phIterations = 0,
        phParallelism = 0\<rparr>, asPublicOrigins = []\<rparr>,
      stQWeather = \<lparr>qwAPIHost = [], qwProjectID = [], qwCredentialID = [], qwPrivateKeyPEM = [], qwLanguage = [],
        qwUnit = [], qwRequestTimeoutSeconds = 8, qwCircuitCooldownSeconds = 900\<rparr>,
      stCache = DefaultCache, stDeviceTokens = []\<rparr>"

definition sampleV3 :: stateV3 where
  "sampleV3 = \<lparr>s3SchemaVersion = 3, s3UpdatedAt = 0, s3Admin = stAdmin sampleState, s3QWeather = stQWeather sampleState,
     s3Cache = \<lparr>c3CurrentTTL = 1200, c3CurrentStaleMax = 21600, c3HourlyTTL = 3600, c3HourlyStaleMax = 43200,
       c3DailyTTL = 14400, c3DailyStaleMax = 172800, c3MaxLocations = 64\<rparr>, s3DeviceTokens = []\<rparr>"

definition sampleCodec :: codec where
  "sampleCodec = \<lparr>cdEncode = (\<lambda>v. Some ''four''),
     cdHeader = (\<lambda>c. if c = ''four'' then Some 4 else if c = ''three'' then Some 3 else None),
     cdState = (\<lambda>c. if c = ''four'' then Some (sampleState, AtEOF) else None),
     cdStateV3 = (\<lambda>c. if c = ''three'' then Some (sampleV3, AtEOF) else None)\<rparr>"

lemma sampleCodec_law: "codecLaw sampleCodec sampleState"
  by (simp add: codecLaw_def sampleCodec_def sampleState_def)

lemma stamped_sample: "stamped now sampleState = sampleState"
  by (simp add: stamped_def sampleState_def IsZero_def zero_time_def)

definition sampleStore :: "bytes \<Rightarrow> Store" where
  "sampleStore contents = \<lparr>soDisk = oneFile stateFile contents, soDurabilityConfirmed = True\<rparr>"

lemma sampleStore_ok: "diskInv (soDisk (sampleStore c))" "tempOK noFaults stateFile (soDisk (sampleStore c))"
  by (simp add: sampleStore_def oneFile_inv) (simp add: sampleStore_def tempOK_def noFaults_def oneFile_def stateFile_def)

lemma Save_roundtrip_witness:
  "\<exists>ds s'. Save sampleCodec noFaults True 5 sampleState (sampleStore ''old'') = (Inr True, ds, s') \<and>
     Load sampleCodec True s' = Inr sampleState"
proof -
  have "fst (Save sampleCodec noFaults True 5 sampleState (sampleStore ''old'')) = Inr True"
    by (simp add: Save_def initialized_def sampleStore_def oneFile_def readFile_def stateFile_def writeStateLocked_def
        sampleState_def SchemaVersion_def atomicWrite_def sampleCodec_def maximumSize_def storeWrite_def
        atomicWriteContents_def noFaults_def Let_def)
  then obtain ds s' where w: "Save sampleCodec noFaults True 5 sampleState (sampleStore ''old'') = (Inr True, ds, s')"
    by (metis prod.collapse)
  have "codecLaw sampleCodec (stamped 5 sampleState)" by (simp add: stamped_sample sampleCodec_law)
  from Save_roundtrip [OF sampleStore_ok this disjI1 [OF w]] w show ?thesis
    by (simp add: stamped_sample)
qed

subsection \<open>Setup happens once\<close>

text \<open>What the operations answered; reading does not change the store.\<close>

datatype storeEvent = EvInitial "storeError + bool" | EvSave "storeError + bool" | EvMigrate "storeError + bool"
  | EvRestore "storeError + bool"

definition migrateTempOK :: "writeFaults \<Rightarrow> writeFaults \<Rightarrow> bytes \<Rightarrow> Store \<Rightarrow> bool" where
  "migrateTempOK f1 f2 source s \<longleftrightarrow> tempOK f1 migrationBackupName (soDisk s) \<and> wfTemp f1 \<noteq> Some stateFile \<and>
     tempOK f2 stateFile (soDisk (snd (snd (storeWrite f1 migrationBackupName source s)))) \<and>
     wfTemp f2 \<noteq> Some migrationBackupName"

inductive storeStep :: "codec \<Rightarrow> Store \<Rightarrow> storeEvent \<Rightarrow> Store \<Rightarrow> bool" for C where
  initial: "tempOK f stateFile (soDisk s) \<Longrightarrow> CommitInitial C f statOk now v s = (r, ds, s') \<Longrightarrow>
    storeStep C s (EvInitial r) s'"
| save: "tempOK f stateFile (soDisk s) \<Longrightarrow> Save C f statOk now v s = (r, ds, s') \<Longrightarrow> storeStep C s (EvSave r) s'"
| migrate: "migrateTempOK f1 f2 (csSource loaded) s \<Longrightarrow> CommitMigration C f1 f2 ok now loaded s = (r, ds, s') \<Longrightarrow>
    storeStep C s (EvMigrate r) s'"
| restore: "tempOK f stateFile (soDisk s) \<Longrightarrow> RestoreV3Backup C f ok ok' s = (r, ds, s') \<Longrightarrow>
    storeStep C s (EvRestore r) s'"

inductive storeRun :: "codec \<Rightarrow> Store \<Rightarrow> storeEvent list \<Rightarrow> Store \<Rightarrow> bool" for C where
  finished: "storeRun C s [] s"
| step: "storeStep C s e s' \<Longrightarrow> storeRun C s' es s'' \<Longrightarrow> storeRun C s (e # es) s''"

fun setupDone :: "storeEvent \<Rightarrow> bool" where
  "setupDone (EvInitial r) \<longleftrightarrow> is_ok r"
| "setupDone _ \<longleftrightarrow> False"

text \<open>A write keeps a file that is there, and a successful one creates it.\<close>

lemma storeWrite_keeps:
  assumes "diskInv (soDisk s)" and "tempOK f path (soDisk s)" and "storeWrite f path contents s = (r, ds, s')"
  shows "diskInv (soDisk s')"
    "readFile (soDisk s') path = (if is_ok r then Some contents else readFile (soDisk s) path)"
    "p \<noteq> path \<Longrightarrow> wfTemp f \<noteq> Some p \<Longrightarrow> readFile (soDisk s') p = readFile (soDisk s) p"
proof -
  note sw = storeWrite_spec [OF assms]
  note spec = atomicWrite_spec [OF assms(1,2) sw(1)]
  have "last ds \<in> set ds" using atomicWrite_nonempty [OF sw(1)] by simp
  then have "undisturbed (soDisk s) p (last ds)" if "p \<noteq> path" "wfTemp f \<noteq> Some p" for p
    using spec that by blast
  then show "p \<noteq> path \<Longrightarrow> wfTemp f \<noteq> Some p \<Longrightarrow> readFile (soDisk s') p = readFile (soDisk s) p"
    using sw(2) by (simp add: undisturbed_def)
  show "diskInv (soDisk s')" using spec sw(2) by simp
  show "readFile (soDisk s') path = (if is_ok r then Some contents else readFile (soDisk s) path)"
    using spec sw(2) by (cases r) (simp_all add: undisturbed_def)
qed

lemma writeState_keeps:
  assumes "diskInv (soDisk s)" and "tempOK f stateFile (soDisk s)" and "writeStateLocked C f now v s = (r, ds, s')"
  shows "diskInv (soDisk s') \<and> (initialized s \<or> is_ok r \<longrightarrow> initialized s')"
  using assms(3)
proof (cases rule: writeState_cases)
  case (wrote c)
  from storeWrite_keeps(1,2) [OF assms(1,2) wrote(4)] show ?thesis by (auto simp: initialized_def)
qed (use assms(1) in simp)

lemma CommitMigration_cases:
  assumes "CommitMigration C f1 f2 ok now loaded s = (result, ds, s')"
  obtains (refused) e where "result = Inl e" "ds = [soDisk s]" "s' = s"
  | (backup) b e where "storeWrite f1 migrationBackupName (csSource loaded) s = (b, ds, s')" "result = Inl e"
  | (both) ds1 s1 ds2 where "storeWrite f1 migrationBackupName (csSource loaded) s = (Inr True, ds1, s1)"
      "writeStateLocked C f2 now (csState loaded) s1 = (result, ds2, s')" "ds = ds1 @ ds2"
proof (cases "\<exists>e. CommitMigration C f1 f2 ok now loaded s = refuse e s")
  case True
  then obtain e where "refuse e s = (result, ds, s')" using assms by metis
  then show thesis using refused by (simp add: refuse_eq)
next
  case False
  obtain b ds1 s1 where w: "storeWrite f1 migrationBackupName (csSource loaded) s = (b, ds1, s1)"
    by (cases "storeWrite f1 migrationBackupName (csSource loaded) s") auto
  have c: "CommitMigration C f1 f2 ok now loaded s =
      (case (b, ds1, s1) of
         (Inl _, ds, s) \<Rightarrow> (Inl (StoreFailed ''write migration backup''), ds, s)
       | (Inr False, ds, s) \<Rightarrow> (Inl (StoreFailed ''migration backup durability is unconfirmed''), ds, s)
       | (Inr True, ds, s) \<Rightarrow>
           (let (result, ds', s) = writeStateLocked C f2 now (csState loaded) s in (result, ds @ ds', s)))"
    using False unfolding CommitMigration_def w [symmetric] by (auto split: sum.splits if_splits)
  show thesis
  proof (cases "b = Inr True")
    case True
    obtain r2 ds2 s2 where w2: "writeStateLocked C f2 now (csState loaded) s1 = (r2, ds2, s2)"
      by (cases "writeStateLocked C f2 now (csState loaded) s1") auto
    then have "r2 = result" "ds = ds1 @ ds2" "s2 = s'" using c True assms by simp_all
    then show thesis using both [of ds1 s1 ds2] w w2 True by simp
  next
    case f: False
    then have "ds1 = ds \<and> s1 = s' \<and> (\<exists>e. result = Inl e)"
      using c assms by (auto split: sum.splits bool.splits)
    then show thesis using backup w by blast
  qed
qed

lemma RestoreV3Backup_cases:
  assumes "RestoreV3Backup C f ok ok' s = (result, ds, s')"
  obtains (refused) e where "result = Inl e" "ds = [soDisk s]" "s' = s"
  | (wrote) backup where "storeWrite f stateFile backup s = (result, ds, s')"
      "readFile (soDisk s) migrationBackupName = Some backup"
proof (cases "\<exists>e. RestoreV3Backup C f ok ok' s = refuse e s")
  case True
  then obtain e where "refuse e s = (result, ds, s')" using assms by metis
  then show thesis using refused by (simp add: refuse_eq)
next
  case False
  then obtain backup where b: "readBounded ok' migrationBackupName (soDisk s) = Inr backup"
    "RestoreV3Backup C f ok ok' s = storeWrite f stateFile backup s"
    unfolding RestoreV3Backup_def by (auto split: sum.splits if_splits)
  then have "readFile (soDisk s) migrationBackupName = Some backup"
    by (auto simp: readBounded_def split: option.splits if_splits)
  then show thesis using wrote b(2) assms by simp
qed

lemma setup_cases:
  assumes "storeStep C s e s'" and "diskInv (soDisk s)"
  shows "diskInv (soDisk s') \<and> (initialized s \<longrightarrow> initialized s') \<and> (setupDone e \<longrightarrow> \<not> initialized s \<and> initialized s')"
  using assms(1)
proof cases
  case (initial f statOk now v r ds)
  from CommitInitial_cases [of C f statOk now v s] show ?thesis
  proof
    assume "\<exists>e. CommitInitial C f statOk now v s = refuse e s"
    then show ?thesis using initial assms(2) by (auto simp: refuse_def)
  next
    assume w: "\<not> initialized s \<and> CommitInitial C f statOk now v s = writeStateLocked C f now v s"
    then have "writeStateLocked C f now v s = (r, ds, s')" using initial(3) by simp
    from writeState_keeps [OF assms(2) initial(2) this] w show ?thesis using initial(1) by simp
  qed
next
  case (save f statOk now v r ds)
  from Save_cases [of C f statOk now v s] show ?thesis
  proof
    assume "\<exists>e. Save C f statOk now v s = refuse e s"
    then show ?thesis using save assms(2) by (auto simp: refuse_def)
  next
    assume "Save C f statOk now v s = writeStateLocked C f now v s"
    then have "writeStateLocked C f now v s = (r, ds, s')" using save(3) by simp
    from writeState_keeps [OF assms(2) save(2) this] show ?thesis using save(1) by simp
  qed
next
  case (migrate f1 f2 loaded ok now r ds)
  have t: "tempOK f1 migrationBackupName (soDisk s)" "wfTemp f1 \<noteq> Some stateFile"
    "tempOK f2 stateFile (soDisk (snd (snd (storeWrite f1 migrationBackupName (csSource loaded) s))))"
    using migrate(2) by (simp_all add: migrateTempOK_def)
  from migrate(3) show ?thesis
  proof (cases rule: CommitMigration_cases)
    case refused
    then show ?thesis using migrate(1) assms(2) by simp
  next
    case (backup b e)
    from storeWrite_keeps [OF assms(2) t(1) backup(1)] migrate(1) t(2) show ?thesis
      by (auto simp: initialized_def stateFile_def migrationBackupName_def)
  next
    case (both ds1 s1 ds2)
    have k: "diskInv (soDisk s1)" "readFile (soDisk s1) stateFile = readFile (soDisk s) stateFile"
      using storeWrite_keeps [OF assms(2) t(1) both(1)] t(2) by (auto simp: stateFile_def migrationBackupName_def)
    have "tempOK f2 stateFile (soDisk s1)" using t(3) both(1) by simp
    from writeState_keeps [OF k(1) this both(2)] k(2) migrate(1) show ?thesis by (auto simp: initialized_def)
  qed
next
  case (restore f ok ok' r ds)
  from restore(3) show ?thesis
  proof (cases rule: RestoreV3Backup_cases)
    case refused
    then show ?thesis using restore(1) assms(2) by simp
  next
    case (wrote backup)
    from storeWrite_keeps(1,2) [OF assms(2) restore(2) wrote(1)] restore(1) show ?thesis
      by (auto simp: initialized_def)
  qed
qed

lemma run_once:
  "storeRun C s es s' \<Longrightarrow> diskInv (soDisk s) \<Longrightarrow>
    length (filter setupDone es) \<le> (if initialized s then 0 else 1) \<and>
    (initialized s \<or> filter setupDone es \<noteq> [] \<longrightarrow> initialized s') \<and> diskInv (soDisk s')"
proof (induction s es s' rule: storeRun.induct)
  case (step s e s' es s'')
  note one = setup_cases [OF step.hyps(1) step.prems]
  note rest = step.IH [OF conjunct1 [OF one]]
  show ?case
  proof (cases "setupDone e")
    case True
    then have "\<not> initialized s" "initialized s'" using one by simp_all
    then show ?thesis using rest True by simp
  next
    case False
    then show ?thesis using rest one by (cases "initialized s"; cases "initialized s'") simp_all
  qed
qed simp

text \<open>C12. Setup happens once. In every sequence of store operations, whatever their system calls
  answer, \<open>CommitInitial\<close> succeeds at most once, and never when a state exists at the start; from
  the first success on the store stays initialised, so that every later \<open>CommitInitial\<close> whose
  \<open>os.Stat\<close> succeeds is refused with \<open>ErrAlreadyInitialized\<close> and changes nothing.\<close>

theorem setup_once:
  assumes "storeRun C s es s'" and "diskInv (soDisk s)"
  shows "length (filter setupDone es) \<le> (if initialized s then 0 else 1) \<and>
    (initialized s \<or> list_ex setupDone es \<longrightarrow>
      initialized s' \<and> CommitInitial C f True now v s' = (Inl ErrAlreadyInitialized, [soDisk s'], s'))"
  using run_once [OF assms] by (auto simp: CommitInitial_def refuse_def list_ex_iff filter_empty_conv)

definition emptyDisk :: disk where
  "emptyDisk = \<lparr>dkDir = [], dkData = (\<lambda>_. []), dkMode = (\<lambda>_. 0), dkFlushed = (\<lambda>_. None), dkHistory = [[]], dkNext = 0\<rparr>"

lemma setup_once_witness:
  "\<exists>r s'. storeRun sampleCodec \<lparr>soDisk = emptyDisk, soDurabilityConfirmed = True\<rparr> [EvInitial r] s' \<and> setupDone (EvInitial r) \<and>
     CommitInitial sampleCodec noFaults True 7 sampleState s' = (Inl ErrAlreadyInitialized, [soDisk s'], s')"
proof -
  let ?s = "\<lparr>soDisk = emptyDisk, soDurabilityConfirmed = True\<rparr>"
  have t: "tempOK noFaults stateFile (soDisk ?s)" "diskInv (soDisk ?s)"
    by (simp_all add: tempOK_def noFaults_def emptyDisk_def stateFile_def diskInv_def)
  have "fst (CommitInitial sampleCodec noFaults True 5 sampleState ?s) = Inr True"
    by (simp add: CommitInitial_def initialized_def emptyDisk_def readFile_def writeStateLocked_def
        sampleState_def SchemaVersion_def atomicWrite_def sampleCodec_def maximumSize_def storeWrite_def
        atomicWriteContents_def noFaults_def Let_def)
  then obtain ds s' where "CommitInitial sampleCodec noFaults True 5 sampleState ?s = (Inr True, ds, s')"
    by (metis prod.collapse)
  then have r: "storeRun sampleCodec ?s [EvInitial (Inr True)] s'"
    by (rule storeRun.step [OF storeStep.initial [OF t(1)] storeRun.finished])
  from setup_once [OF r t(2)] r show ?thesis by (intro exI [of _ "Inr True"] exI [of _ s']) simp
qed

subsection \<open>Migration from schema v3\<close>

lemma Load_Inr:
  assumes "Load C True s = Inr v"
  obtains c where "readFile (soDisk s) stateFile = Some c" "length c \<le> maximumSize"
    "schemaVersion C c = Inr SchemaVersion" "decodeState C c = Inr v"
  using assms
  by (auto simp: Load_def readStateLocked_def readBounded_def split: sum.splits option.splits if_splits readError.splits)

lemma Restore_after_Load:
  assumes "Load C True s = Inr v" and "readFile (soDisk s) migrationBackupName = Some src" and "length src \<le> maximumSize"
    and "schemaVersion C src = Inr previousSchema" and "decodeStateV3 C src = Inr v3"
  shows "RestoreV3Backup C f True True s = storeWrite f stateFile src s"
  using assms(1)
proof (cases rule: Load_Inr)
  case (1 c)
  then show ?thesis using assms(2-5) by (simp add: RestoreV3Backup_def readBounded_def)
qed

lemma LoadCompatible_v3:
  "(LoadCompatible C True s = Inr loaded \<and> csSourceVersion loaded = previousSchema) \<longleftrightarrow>
    (\<exists>v. loaded = \<lparr>csState = migrateV3 v, csSourceVersion = previousSchema, csSource = csSource loaded\<rparr> \<and>
       readFile (soDisk s) stateFile = Some (csSource loaded) \<and> length (csSource loaded) \<le> maximumSize \<and>
       schemaVersion C (csSource loaded) = Inr previousSchema \<and> decodeStateV3 C (csSource loaded) = Inr v)"
  (is "?L \<longleftrightarrow> ?R")
proof
  assume ?L
  then obtain c version where c: "readStateLocked True s = Inr c" "schemaVersion C c = Inr version"
    by (auto simp: LoadCompatible_def split: sum.splits)
  then have f: "readFile (soDisk s) stateFile = Some c" "length c \<le> maximumSize"
    by (auto simp: readStateLocked_def readBounded_def split: option.splits if_splits sum.splits readError.splits)
  have "csSourceVersion loaded = version" "csSource loaded = c"
    using \<open>?L\<close> c by (auto simp: LoadCompatible_def split: sum.splits if_splits)
  moreover from this have "version = previousSchema" using \<open>?L\<close> by simp
  moreover from this obtain v where "decodeStateV3 C c = Inr v" "csState loaded = migrateV3 v"
    using \<open>?L\<close> c by (auto simp: LoadCompatible_def SchemaVersion_def previousSchema_def split: sum.splits)
  ultimately show ?R using f c(2) by (intro exI [of _ v]) (cases loaded, simp)
next
  assume ?R
  then obtain v where v: "loaded = \<lparr>csState = migrateV3 v, csSourceVersion = previousSchema, csSource = csSource loaded\<rparr>"
    "readFile (soDisk s) stateFile = Some (csSource loaded)" "length (csSource loaded) \<le> maximumSize"
    "schemaVersion C (csSource loaded) = Inr previousSchema" "decodeStateV3 C (csSource loaded) = Inr v" by blast
  have "readStateLocked True s = Inr (csSource loaded)" using v(2,3) by (simp add: readStateLocked_def readBounded_def)
  then have "LoadCompatible C True s =
      Inr \<lparr>csState = migrateV3 v, csSourceVersion = previousSchema, csSource = csSource loaded\<rparr>"
    using v(4,5) by (simp add: LoadCompatible_def SchemaVersion_def previousSchema_def)
  then show ?L using v(1) by (metis CompatibleState.select_convs(2))
qed

lemma LoadCompatible_cong: "readFile (soDisk s) stateFile = readFile (soDisk t) stateFile \<Longrightarrow> LoadCompatible C ok s = LoadCompatible C ok t"
  by (simp add: LoadCompatible_def readStateLocked_def readBounded_def)

text \<open>What \<open>CommitMigration\<close> leaves, and what a crash at any moment of it leaves.\<close>

lemma CommitMigration_spec:
  assumes inv: "diskInv (soDisk s)" and "LoadCompatible C True s = Inr loaded" and "csSourceVersion loaded = previousSchema"
    and tmp: "migrateTempOK f1 f2 (csSource loaded) s" and law: "codecLaw C (stamped now (csState loaded))"
    and w: "CommitMigration C f1 f2 ok now loaded s = (result, ds, s')"
  shows "diskInv (soDisk s') \<and> soDisk s' \<in> set ds \<and>
    (case result of
       Inl _ \<Rightarrow> readFile (soDisk s') stateFile = readFile (soDisk s) stateFile
     | Inr _ \<Rightarrow> Load C True s' = Inr (stamped now (csState loaded)) \<and>
         readFile (soDisk s') migrationBackupName = Some (csSource loaded)) \<and>
    (\<forall>d' t. d' \<in> set ds \<and> crashReads d' stateFile (readFile (soDisk t) stateFile) \<longrightarrow>
       crashReads (soDisk s) stateFile (readFile (soDisk t) stateFile) \<or>
       Load C True t = Inr (stamped now (csState loaded)) \<and>
       (crashImage d' (soDisk t) \<longrightarrow> readFile (soDisk t) migrationBackupName = Some (csSource loaded)))"
proof -
  have ne: "stateFile \<noteq> migrationBackupName" by (simp add: stateFile_def migrationBackupName_def)
  have t1: "tempOK f1 migrationBackupName (soDisk s)" "wfTemp f1 \<noteq> Some stateFile" "wfTemp f2 \<noteq> Some migrationBackupName"
    using tmp by (simp_all add: migrateTempOK_def)
  from w show ?thesis
  proof (cases rule: CommitMigration_cases)
    case refused
    then show ?thesis using inv by (simp add: crashImage_def)
  next
    case (backup b e)
    note sw = storeWrite_spec [OF inv t1(1) backup(1)]
    note keeps = storeWrite_keeps [OF inv t1(1) backup(1)]
    have "undisturbed (soDisk s) stateFile d'" if "d' \<in> set ds" for d'
      using atomicWrite_spec [OF inv t1(1) sw(1)] that ne t1(2) by blast
    moreover have "soDisk s' \<in> set ds" using sw(2) atomicWrite_nonempty [OF sw(1)] by simp
    ultimately show ?thesis
      using keeps(1) keeps(3) [OF ne t1(2)] backup(2) by (auto simp: crashImage_def undisturbed_def)
  next
    case (both ds1 s1 ds2)
    note sw = storeWrite_spec [OF inv t1(1) both(1)]
    note spec1 = atomicWrite_spec [OF inv t1(1) sw(1)]
    have u1: "undisturbed (soDisk s) stateFile d'" if "d' \<in> set ds1" for d'
      using spec1 that ne t1(2) by blast
    have s1: "soDisk s1 \<in> set ds1" using atomicWrite_nonempty [OF sw(1)] sw(2) by simp
    have inv1: "diskInv (soDisk s1)" using spec1 sw(2) by simp
    have b1: "crashReads (soDisk s1) migrationBackupName c \<longleftrightarrow> c = Some (csSource loaded)"
      "readFile (soDisk s1) migrationBackupName = Some (csSource loaded)" for c using spec1 sw(2) by simp_all
    have t2: "tempOK f2 stateFile (soDisk s1)" using tmp both(1) by (simp add: migrateTempOK_def)
    note spec2 = writeState_spec [OF inv1 t2 law both(2)]
    have u2: "undisturbed (soDisk s1) migrationBackupName d'" if "d' \<in> set ds2" for d'
      using spec2(6) [OF that ne [symmetric] t1(3)] .
    have crash: "crashReads (soDisk s) stateFile (readFile (soDisk t) stateFile) \<or>
        Load C True t = Inr (stamped now (csState loaded)) \<and>
        (crashImage d' (soDisk t) \<longrightarrow> readFile (soDisk t) migrationBackupName = Some (csSource loaded))"
      if d': "d' \<in> set ds1 \<union> set ds2" "crashReads d' stateFile (readFile (soDisk t) stateFile)" for d' t
    proof (cases "d' \<in> set ds1")
      case True
      then show ?thesis using u1 d'(2) by (auto simp: undisturbed_def)
    next
      case False
      then have d2: "d' \<in> set ds2" using d'(1) by simp
      have "crashImage d' (soDisk t) \<Longrightarrow> readFile (soDisk t) migrationBackupName = Some (csSource loaded)"
        using u2 [OF d2] b1(1) by (auto simp: crashImage_def undisturbed_def)
      moreover have "crashReads (soDisk s) stateFile x" if "crashReads (soDisk s1) stateFile x" for x
        using u1 [OF s1] that by (simp add: undisturbed_def)
      ultimately show ?thesis using spec2(5) [OF d2 d'(2)] by blast
    qed
    have "case result of
       Inl _ \<Rightarrow> readFile (soDisk s') stateFile = readFile (soDisk s) stateFile
     | Inr _ \<Rightarrow> Load C True s' = Inr (stamped now (csState loaded)) \<and>
         readFile (soDisk s') migrationBackupName = Some (csSource loaded)"
      using spec2(2,3) u1 [OF s1] u2 [OF spec2(7)] b1(2) by (cases result) (simp_all add: undisturbed_def)
    then show ?thesis using crash spec2(1,7) both(3) by auto
  qed
qed

text \<open>Undoing a migration.\<close>

lemma Restore_migrated:
  assumes "LoadCompatible C True s = Inr loaded" and "csSourceVersion loaded = previousSchema"
    and "diskInv (soDisk s')" and "Load C True s' = Inr v" and "readFile (soDisk s') migrationBackupName = Some (csSource loaded)"
    and "tempOK f stateFile (soDisk s')" and "RestoreV3Backup C f True True s' = (r, ds, s'')"
  shows "r = fst (atomicWriteContents f stateFile (csSource loaded) (soDisk s')) \<and>
    (is_ok r \<longrightarrow> LoadCompatible C True s'' = Inr loaded)"
proof -
  obtain v3 where v: "readFile (soDisk s) stateFile = Some (csSource loaded)" "length (csSource loaded) \<le> maximumSize"
    "schemaVersion C (csSource loaded) = Inr previousSchema" "decodeStateV3 C (csSource loaded) = Inr v3"
    using conjI [OF assms(1,2)] unfolding LoadCompatible_v3 by blast
  have w: "storeWrite f stateFile (csSource loaded) s' = (r, ds, s'')"
    using Restore_after_Load [OF assms(4,5) v(2,3,4)] assms(7) by simp
  have "LoadCompatible C True s'' = Inr loaded" if "is_ok r"
    using storeWrite_keeps(2) [OF assms(3,6) w] that LoadCompatible_cong [of s'' s C True] v(1) assms(1) by simp
  then show ?thesis using storeWrite_spec(1) [OF assms(3,6) w] by simp
qed

text \<open>C10. A migration never loses the schema-v3 file. While \<open>CommitMigration\<close> runs, and after a crash
  anywhere in it, the state file is either as before or the migrated value, and in the second case
  the backup holds the exact v3 contents. An error leaves the v3 state loadable as before; success
  makes \<open>Load\<close> return the migrated value, after which \<open>RestoreV3Backup\<close> fails only if its own write
  does, and otherwise brings back a file that loads exactly as the original did. Assumed:
  \<open>CreateTemp\<close> creates new files, and the text of the migrated value decodes to it.\<close>

theorem migration_safe:
  assumes "diskInv (soDisk s)" and "LoadCompatible C True s = Inr loaded" and "csSourceVersion loaded = previousSchema"
    and "migrateTempOK f1 f2 (csSource loaded) s" and "codecLaw C (stamped now (csState loaded))"
    and "CommitMigration C f1 f2 ok now loaded s = (result, ds, s')"
  shows "(case result of
      Inl _ \<Rightarrow> LoadCompatible C True s' = Inr loaded
    | Inr _ \<Rightarrow> Load C True s' = Inr (stamped now (csState loaded)) \<and>
        (tempOK f3 stateFile (soDisk s') \<longrightarrow>
           (let (r, _, s'') = RestoreV3Backup C f3 True True s'
            in r = fst (atomicWriteContents f3 stateFile (csSource loaded) (soDisk s')) \<and>
               (is_ok r \<longrightarrow> LoadCompatible C True s'' = Inr loaded)))) \<and>
    (\<forall>d'\<in>set ds. crashImage d' (soDisk t) \<longrightarrow>
       crashReads (soDisk s) stateFile (readFile (soDisk t) stateFile) \<or>
       Load C True t = Inr (stamped now (csState loaded)) \<and>
       readFile (soDisk t) migrationBackupName = Some (csSource loaded))"
proof -
  note spec = CommitMigration_spec [OF assms]
  have "case result of
      Inl _ \<Rightarrow> LoadCompatible C True s' = Inr loaded
    | Inr _ \<Rightarrow> Load C True s' = Inr (stamped now (csState loaded)) \<and>
        (tempOK f3 stateFile (soDisk s') \<longrightarrow>
           (let (r, _, s'') = RestoreV3Backup C f3 True True s'
            in r = fst (atomicWriteContents f3 stateFile (csSource loaded) (soDisk s')) \<and>
               (is_ok r \<longrightarrow> LoadCompatible C True s'' = Inr loaded)))"
  proof (cases result)
    case (Inl e)
    then show ?thesis using spec assms(2) LoadCompatible_cong [of s' s C True] by simp
  next
    case (Inr b)
    then show ?thesis
      using spec Restore_migrated [OF assms(2,3), of s' _ f3] by (auto simp: Let_def split: prod.split)
  qed
  then show ?thesis using spec by (auto simp: crashImage_def)
qed

lemma migrate_sample: "migrateV3 sampleV3 = sampleState"
  by (simp add: migrateV3_def sampleV3_def sampleState_def DefaultCache_def SchemaVersion_def duration_defs Let_def)

lemma migration_safe_witness:
  "\<exists>ds s'. CommitMigration sampleCodec noFaults noFaults True 5
       \<lparr>csState = sampleState, csSourceVersion = 3, csSource = ''three''\<rparr> (sampleStore ''three'') = (Inr True, ds, s') \<and>
     Load sampleCodec True s' = Inr sampleState"
proof -
  let ?s = "sampleStore ''three''" and ?l = "\<lparr>csState = sampleState, csSourceVersion = 3, csSource = ''three''\<rparr>"
  have l: "LoadCompatible sampleCodec True ?s = Inr ?l" "csSourceVersion ?l = previousSchema"
    by (simp_all add: LoadCompatible_def readStateLocked_def readBounded_def sampleStore_def oneFile_def readFile_def
        stateFile_def maximumSize_def schemaVersion_def sampleCodec_def SchemaVersion_def previousSchema_def
        decodeStateV3_def decodeStrict_def migrate_sample)
  have t: "migrateTempOK noFaults noFaults (csSource ?l) ?s"
    by (simp add: migrateTempOK_def tempOK_def noFaults_def sampleStore_def oneFile_def stateFile_def
        migrationBackupName_def storeWrite_def atomicWriteContents_def maximumSize_def createFile_def chmodFile_def
        writeFile_def syncFile_def renameFile_def setDir_def syncDirectory_def Let_def)
  have c: "codecLaw sampleCodec (stamped 5 (csState ?l))" by (simp add: stamped_sample sampleCodec_law)
  have "fst (CommitMigration sampleCodec noFaults noFaults True 5 ?l ?s) = Inr True"
    by (simp add: CommitMigration_def previousSchema_def SchemaVersion_def sampleState_def readBounded_def sampleStore_def
        oneFile_def readFile_def stateFile_def maximumSize_def storeWrite_def migrationBackupName_def
        atomicWriteContents_def noFaults_def writeStateLocked_def atomicWrite_def sampleCodec_def Let_def)
  then obtain ds s' where w: "CommitMigration sampleCodec noFaults noFaults True 5 ?l ?s = (Inr True, ds, s')"
    by (metis prod.collapse)
  from migration_safe [OF sampleStore_ok(1) l t c w] w show ?thesis by (simp add: stamped_sample)
qed

subsection \<open>The lock excludes\<close>

text \<open>While an open file holds the lock, every attempt fails and leaves the holder in place; once it is
  closed the next attempt with working system calls gets it. Closing twice does no harm.\<close>

lemma lock_exclusive:
  "AcquireLock h o1 o2 o3 (Some h') = (Inr k, z) \<Longrightarrow> False"
  "AcquireLock h True True True (CloseLock h' (Some h')) = (Inr h, Some h)"
  "CloseLock h (CloseLock h holder) = CloseLock h holder"
  by (simp_all add: AcquireLock_def CloseLock_def split: if_splits)

end
