(* ===== verification/Runtime.thy ===== *)
theory Runtime
  imports QWeatherClient GeoStore Limiters Transport AdminSecrets
begin

section \<open>The live runtime: \<open>internal/app/runtime.go\<close>\<close>

text \<open>
  \<open>RuntimeManager\<close> validates a persisted state, builds provider, cache and device credentials from it
  and swaps them in. \<open>Prepare\<close> builds without touching the active snapshot; the prepared change is
  later activated or discarded, which the locale \<open>prepared_change\<close> states as the contract of the
  interface \<open>platform.PreparedChange\<close> and both kinds of change provide. A service is identified by a
  handle, so that closing can be counted; the device handler is the credentials together with the
  handle of the service its routes call.
\<close>

definition maximumDeviceTokens :: nat where "maximumDeviceTokens = 32"
definition locationBurstCapacity :: int where "locationBurstCapacity = 4"
definition locationRefillPeriod :: duration where "locationRefillPeriod = 5 * minute"
definition localizeBudgetCapacity :: int where "localizeBudgetCapacity = 20"
definition localizeRefillPeriod :: duration where "localizeRefillPeriod = 5 * minute"
definition localizeInFlightMax :: int where "localizeInFlightMax = 4"

subsection \<open>Validation\<close>

text \<open>\<open>^[A-Za-z0-9_-]{1,128}$\<close>\<close>

definition identifierPattern :: "bytes \<Rightarrow> bool" where
  "identifierPattern s \<longleftrightarrow> 1 \<le> length s \<and> length s \<le> 128 \<and>
     list_all (\<lambda>c. inrange 65 90 (byteval c) \<or> inrange 97 122 (byteval c) \<or> inrange 48 57 (byteval c) \<or>
       c = CHR ''_'' \<or> c = CHR ''-'') s"

datatype runtimeError =
    RuntimeFailed bytes
  | RuntimeSetupRequired
  | RuntimeLocation locErr
  | RuntimeProvider clientError

definition validateQWeather :: "golib \<Rightarrow> QWeatherState \<Rightarrow> runtimeError option" where
  "validateQWeather L v =
     (let host = ToLower (ulow L) (TrimSpace (qwAPIHost v))
      in if host = [] \<or> 253 < length host \<or> ContainsAny host ''/:@?# '' \<or> \<not> HasSuffix host ''.qweatherapi.com''
         then Some (RuntimeFailed ''QWeather API Host must be an account-specific qweatherapi.com hostname'')
         else if \<not> list_all validLabel (Split CHR ''.'' host) then Some (RuntimeFailed ''QWeather API Host is invalid'')
         else if \<not> identifierPattern (qwProjectID v) \<or> \<not> identifierPattern (qwCredentialID v)
         then Some (RuntimeFailed ''QWeather project and credential IDs are invalid'')
         else if qwLanguage v \<noteq> ''zh'' \<or> qwUnit v \<noteq> ''m''
         then Some (RuntimeFailed ''v1 requires QWeather language zh and metric units'')
         else if qwRequestTimeoutSeconds v < 1 \<or> 60 < qwRequestTimeoutSeconds v \<or>
                 qwCircuitCooldownSeconds v < 60 \<or> 86400 < qwCircuitCooldownSeconds v
         then Some (RuntimeFailed ''QWeather timeout policy is invalid'')
         else if qwPrivateKeyPEM v = [] \<or> 32 * 1024 < length (qwPrivateKeyPEM v)
         then Some (RuntimeFailed ''QWeather private key is invalid'')
         else if PublicKeyFingerprint L (qwPrivateKeyPEM v) = None then Some (RuntimeFailed ''private key'')
         else None)"

definition validateCache :: "CacheState \<Rightarrow> runtimeError option" where
  "validateCache v =
     (if caCurrentTTL v \<le> 0 \<or> caHourlyTTL v \<le> 0 \<or> caDailyTTL v \<le> 0 \<or>
         caCurrentStaleMax v \<le> caCurrentTTL v \<or>
         caHourlyStaleMax v \<le> caHourlyTTL v \<or>
         caDailyStaleMax v \<le> caDailyTTL v \<or>
         caAlertsTTL v \<le> 0 \<or> caAlertsStaleMax v \<le> caAlertsTTL v \<or>
         caMaxLocations v < 1 \<or> 1024 < caMaxLocations v
      then Some (RuntimeFailed ''weather cache policy is invalid'') else None)"

text \<open>The loop of \<open>credentialsFromState\<close>, with the identifiers seen and the credentials so far.\<close>

fun credentialLoop :: "DeviceToken list \<Rightarrow> bytes list \<Rightarrow> Credential list \<Rightarrow> runtimeError + Credential list" where
  "credentialLoop [] seen credentials = Inr credentials"
| "credentialLoop (tk # ts) seen credentials =
     (if \<not> identifierPattern (dtID tk) \<or> length (TrimSpace (dtName tk)) < 1 \<or> 64 < RuneCount (dtName tk)
      then Inl (RuntimeFailed ''device token identity is invalid'')
      else if dtID tk \<in> set seen then Inl (RuntimeFailed ''device token IDs must be unique'')
      else (case CredentialFromHex (dtID tk) (dtHash tk) of
              None \<Rightarrow> Inl (RuntimeFailed ''device token hash is invalid'')
            | Some credential \<Rightarrow> credentialLoop ts (dtID tk # seen) (credentials @ [credential])))"

definition credentialsFromState :: "DeviceToken list \<Rightarrow> runtimeError + Credential list" where
  "credentialsFromState ts =
     (if ts = [] \<or> maximumDeviceTokens < length ts then Inl (RuntimeFailed ''1-32 device tokens are required'')
      else credentialLoop ts [] [])"

definition validateState :: "golib \<Rightarrow> State \<Rightarrow> runtimeError option" where
  "validateState L v =
     (if stSchemaVersion v \<noteq> SchemaVersion then Some (RuntimeFailed ''unsupported state schema'')
      else if \<not> ValidPasswordHash L (asPassword (stAdmin v))
      then Some (RuntimeFailed ''invalid administrator password verifier'')
      else (case validateQWeather L (stQWeather v) of
              Some e \<Rightarrow> Some e
            | None \<Rightarrow>
                (case validateCache (stCache v) of
                   Some e \<Rightarrow> Some e
                 | None \<Rightarrow>
                     (case credentialsFromState (stDeviceTokens v) of Inl e \<Rightarrow> Some e | Inr _ \<Rightarrow> None))))"

definition deviceIDs :: "DeviceToken list \<Rightarrow> bytes list" where
  "deviceIDs ts = map dtID ts"

subsection \<open>Components\<close>

text \<open>
  \<open>qweather.New\<close>. The client of the model is what changes of it; the base URL, the signer and the units
  are arguments of the requests in \<open>QWeatherRequest\<close>.
\<close>

definition newClient :: "golib \<Rightarrow> bytes \<Rightarrow> bytes \<Rightarrow> bytes \<Rightarrow> bytes \<Rightarrow> duration \<Rightarrow> Client option" where
  "newClient L baseURL privateKeyPEM credentialID projectID circuitCooldown =
     (case UrlParse L baseURL of
        None \<Rightarrow> None
      | Some parsedURL \<Rightarrow>
          if uScheme parsedURL = [] \<or> uHost parsedURL = [] \<or> uRawQuery parsedURL \<noteq> [] \<or> uFragment parsedURL \<noteq> []
          then None
          else if newSigner L privateKeyPEM credentialID projectID = None then None
          else Some \<lparr>clCircuitCooldown = circuitCooldown, clSlots = 0, clBlockedUntil = zero_time, clClosed = False\<rparr>)"

definition seconds :: "int \<Rightarrow> duration" where
  "seconds n = int64 (n * second)"

definition cacheOptions :: "CacheState \<Rightarrow> CacheOptions" where
  "cacheOptions c =
     \<lparr>coCurrentTTL = seconds (caCurrentTTL c), coCurrentStaleMax = seconds (caCurrentStaleMax c),
      coHourlyTTL = seconds (caHourlyTTL c), coHourlyStaleMax = seconds (caHourlyStaleMax c),
      coDailyTTL = seconds (caDailyTTL c), coDailyStaleMax = seconds (caDailyStaleMax c),
      coAlertsTTL = seconds (caAlertsTTL c), coAlertsStaleMax = seconds (caAlertsStaleMax c),
      coMaxLocations = caMaxLocations c\<rparr>"

definition buildComponents :: "golib \<Rightarrow> State \<Rightarrow> runtimeError + Client \<times> CacheOptions \<times> Credential list" where
  "buildComponents L v =
     (case validateState L v of
        Some e \<Rightarrow> Inl e
      | None \<Rightarrow>
          (case newClient L (''https://'' @ qwAPIHost (stQWeather v)) (qwPrivateKeyPEM (stQWeather v))
                  (qwCredentialID (stQWeather v)) (qwProjectID (stQWeather v)) (seconds (qwCircuitCooldownSeconds (stQWeather v))) of
             None \<Rightarrow> Inl (RuntimeFailed ''create QWeather provider'')
           | Some provider \<Rightarrow>
               (case credentialsFromState (stDeviceTokens v) of
                  Inl e \<Rightarrow> Inl e
                | Inr credentials \<Rightarrow> Inr (provider, cacheOptions (stCache v), credentials))))"

definition qweatherSource :: WeatherSource where
  "qweatherSource = \<lparr>wsID = ''qweather'', wsName = ''QWeather'', wsAttributionURL = ''https://www.qweather.com/''\<rparr>"

subsection \<open>The manager\<close>

record runtimeInstance =
  riService :: nat
  riCache :: Service
  riProvider :: Client
  riHandler :: "Credential list \<times> nat"

text \<open>
  A resolver that is a nil \<open>*geoip.Store\<close> in a non-nil interface dereferences nil once it gets past
  the address check; \<open>NilDereference\<close> is that panic.
\<close>

datatype resolveFault = Refused geoErr | NilDereference

definition nilStoreResolve :: "addr \<Rightarrow> resolveFault + Resolved" where
  "nilStoreResolve ip0 =
     (let ip = (if Is4In6 ip0 then Unmap ip0 else ip0)
      in if \<not> isPublic ip then Inl (Refused ErrNotPublic) else Inl NilDereference)"

definition storeResolve :: "reader option \<Rightarrow> addr \<Rightarrow> resolveFault + Resolved" where
  "storeResolve rd ip = map_sum Refused id (Resolve rd ip)"

text \<open>The location source of \<open>NewRuntimeManager\<close>: \<open>geoIP\<close> is the store's reader when a database is configured.\<close>

definition runtimeSource :: "reader option option \<Rightarrow> bytes \<Rightarrow> prefix4or6 list \<Rightarrow> bool \<Rightarrow> resolveFault Source" where
  "runtimeSource geoIP trustedHeader trustedNets cloudflareHeaders =
     (if geoIP \<noteq> None \<or> cloudflareHeaders
      then \<lparr>srcExtractor = Some (NewIPExtractor trustedHeader trustedNets),
            srcResolver = Some (case geoIP of None \<Rightarrow> nilStoreResolve | Some rd \<Rightarrow> storeResolve rd),
            srcCloudflare = (if cloudflareHeaders then Some trustedNets else None)\<rparr>
      else \<lparr>srcExtractor = None, srcResolver = None, srcCloudflare = None\<rparr>)"

record RuntimeManager =
  rmCurrent :: "runtimeInstance option"
  rmLimiter :: ChangeLimiter
  rmLocalizeLimiter :: LocalizeLimiter
  rmSource :: "resolveFault Source"
  rmNext :: nat
  rmClosedServices :: "nat list"

definition NewRuntimeManager :: "reader option option \<Rightarrow> bytes \<Rightarrow> prefix4or6 list \<Rightarrow> bool \<Rightarrow> RuntimeManager" where
  "NewRuntimeManager geoIP trustedHeader trustedNets cloudflareHeaders =
     \<lparr>rmCurrent = None,
      rmLimiter = NewChangeLimiter locationBurstCapacity locationRefillPeriod,
      rmLocalizeLimiter = the (NewLocalizeLimiter localizeBudgetCapacity localizeRefillPeriod localizeInFlightMax),
      rmSource = runtimeSource geoIP trustedHeader trustedNets cloudflareHeaders,
      rmNext = 0, rmClosedServices = []\<rparr>"

definition runtimeReady :: "time \<Rightarrow> RuntimeManager \<Rightarrow> readiness" where
  "runtimeReady now m =
     (case rmCurrent m of
        None \<Rightarrow> SetupRequired
      | Some i \<Rightarrow> (case clientReady now (riProvider i) of None \<Rightarrow> Ready | Some _ \<Rightarrow> NotReady ''provider''))"

text \<open>The two kinds of prepared change; a spent change has lost its instance or handler.\<close>

datatype prepared =
    PreparedRuntime "runtimeInstance option" "bytes list"
  | PreparedTokens "(Credential list \<times> nat) option" "bytes list"

definition Prepare :: "golib \<Rightarrow> time \<Rightarrow> State \<Rightarrow> RuntimeManager \<Rightarrow> (runtimeError + prepared) \<times> RuntimeManager" where
  "Prepare L now v m =
     (case buildComponents L v of
        Inl e \<Rightarrow> (Inl e, m)
      | Inr (provider, options, credentials) \<Rightarrow>
          (let service = rmNext m
           in (Inr (PreparedRuntime
                 (Some \<lparr>riService = service, riCache = NewService qweatherSource now options, riProvider = provider,
                    riHandler = (credentials, service)\<rparr>) (deviceIDs (stDeviceTokens v))),
               m\<lparr>rmNext := Suc service\<rparr>)))"

definition PrepareTokens :: "DeviceToken list \<Rightarrow> RuntimeManager \<Rightarrow> runtimeError + prepared" where
  "PrepareTokens ts m =
     (case credentialsFromState ts of
        Inl e \<Rightarrow> Inl e
      | Inr credentials \<Rightarrow>
          (case rmCurrent m of
             None \<Rightarrow> Inl RuntimeSetupRequired
           | Some current \<Rightarrow> Inr (PreparedTokens (Some (credentials, snd (riHandler current))) (deviceIDs ts))))"

definition closeService :: "nat \<Rightarrow> RuntimeManager \<Rightarrow> RuntimeManager" where
  "closeService h m = m\<lparr>rmClosedServices := h # rmClosedServices m\<rparr>"

definition retainDevices :: "bytes list \<Rightarrow> RuntimeManager \<Rightarrow> RuntimeManager" where
  "retainDevices ids m =
     m\<lparr>rmLimiter := ChangeLimiter_Retain ids (rmLimiter m),
       rmLocalizeLimiter := LocalizeLimiter_Retain ids (rmLocalizeLimiter m)\<rparr>"

definition activate :: "runtimeInstance \<Rightarrow> bytes list \<Rightarrow> RuntimeManager \<Rightarrow> RuntimeManager" where
  "activate i ids m =
     (let previous = rmCurrent m;
          m = retainDevices ids (m\<lparr>rmCurrent := Some i\<rparr>)
      in case previous of None \<Rightarrow> m | Some p \<Rightarrow> closeService (riService p) m)"

fun Activate :: "prepared \<Rightarrow> RuntimeManager \<Rightarrow> prepared \<times> RuntimeManager" where
  "Activate (PreparedRuntime None ids) m = (PreparedRuntime None ids, m)"
| "Activate (PreparedRuntime (Some i) ids) m = (PreparedRuntime None ids, activate i ids m)"
| "Activate (PreparedTokens None ids) m = (PreparedTokens None ids, m)"
| "Activate (PreparedTokens (Some handler) ids) m =
     (PreparedTokens None ids,
      retainDevices ids
        (case rmCurrent m of
           None \<Rightarrow> m | Some current \<Rightarrow> m\<lparr>rmCurrent := Some (current\<lparr>riHandler := handler\<rparr>)\<rparr>))"

fun Discard :: "prepared \<Rightarrow> RuntimeManager \<Rightarrow> prepared \<times> RuntimeManager" where
  "Discard (PreparedRuntime None ids) m = (PreparedRuntime None ids, m)"
| "Discard (PreparedRuntime (Some i) ids) m = (PreparedRuntime None ids, closeService (riService i) m)"
| "Discard (PreparedTokens handler ids) m = (PreparedTokens None ids, m)"

definition closeManager :: "RuntimeManager \<Rightarrow> RuntimeManager" where
  "closeManager m =
     (case rmCurrent m of None \<Rightarrow> m | Some current \<Rightarrow> closeService (riService current) (m\<lparr>rmCurrent := None\<rparr>))"

text \<open>\<open>ServeHTTP\<close>: the 503 of an unconfigured runtime, the 401 of the token check, or the device and service.\<close>

definition ServeHTTP :: "golib \<Rightarrow> RuntimeManager \<Rightarrow> request \<Rightarrow> response + bytes \<times> nat" where
  "ServeHTTP L m r =
     (case rmCurrent m of
        None \<Rightarrow> Inl (WriteError r 503 ''service_unconfigured'' ''service setup is required'')
      | Some current \<Rightarrow>
          (case Wrap L (fst (riHandler current)) r of
             Inl w \<Rightarrow> Inl w | Inr deviceID \<Rightarrow> Inr (deviceID, snd (riHandler current))))"

subsection \<open>Testing a candidate\<close>

record Verification =
  vfSource :: WeatherSource
  vfLocation :: PublicLocation
  vfTestedAt :: time
  vfUpdatedAt :: time
  vfData :: Current

text \<open>
  \<open>Test\<close>; \<open>fetch\<close> is the candidate provider's \<open>Fetch\<close> and \<open>localize\<close> its \<open>Localize\<close>, which may fail.
\<close>

definition RuntimeTest :: "golib \<Rightarrow> time \<Rightarrow> (Client \<Rightarrow> Kind \<Rightarrow> Point \<Rightarrow> clientError + ProviderResult) \<Rightarrow>
    (Client \<Rightarrow> Point \<Rightarrow> LocalizedMetadata option) \<Rightarrow> State \<Rightarrow> Point option \<Rightarrow>
    runtimeError + Verification \<times> bytes list \<times> bytes" where
  "RuntimeTest L now fetch localize v testPoint =
     (case buildComponents L v of
        Inl e \<Rightarrow> Inl e
      | Inr (provider, _, _) \<Rightarrow>
          (case testPoint of
             None \<Rightarrow> Inl (RuntimeLocation ErrRequired)
           | Some tp \<Rightarrow>
               (case Normalize tp of
                  Inl e \<Rightarrow> Inl (RuntimeLocation e)
                | Inr normal \<Rightarrow>
                    (let point = normal\<lparr>Source := ''browser'', Provider := ''browser'', Precision := ''coarse''\<rparr>
                     in case fetch provider KindCurrent point of
                          Inl e \<Rightarrow> Inl (RuntimeProvider e)
                        | Inr result \<Rightarrow>
                            (case prData result of
                               DCurrent current \<Rightarrow>
                                 (case fetch provider KindAlerts point of
                                    Inl e \<Rightarrow> Inl (RuntimeProvider e)
                                  | Inr _ \<Rightarrow>
                                      (case PublicKeyFingerprint L (qwPrivateKeyPEM (stQWeather v)) of
                                         None \<Rightarrow> Inl (RuntimeFailed ''private key'')
                                       | Some fingerprint \<Rightarrow>
                                           (let (point, changed) =
                                              (case localize provider point of
                                                 None \<Rightarrow> (point, False) | Some metadata \<Rightarrow> ApplyLocalized point metadata)
                                            in Inr (\<lparr>vfSource = qweatherSource, vfLocation = publicLocation point,
                                                 vfTestedAt = now, vfUpdatedAt = prUpdatedAt result, vfData = current\<rparr>,
                                               [''current'', ''alerts''] @ (if changed then [''geo_lookup''] else []),
                                               fingerprint))))
                             | _ \<Rightarrow> Inl (RuntimeFailed ''QWeather current response has an unexpected type''))))))"

subsection \<open>The contract of a prepared change\<close>

locale prepared_change =
  fixes act :: "'p \<Rightarrow> 'm \<Rightarrow> 'p \<times> 'm" and dis :: "'p \<Rightarrow> 'm \<Rightarrow> 'p \<times> 'm" and spent :: "'p \<Rightarrow> bool"
  assumes act_spends: "spent (fst (act p m))"
    and dis_spends: "spent (fst (dis p m))"
    and act_idle: "spent p \<Longrightarrow> act p m = (p, m)"
    and dis_idle: "spent p \<Longrightarrow> dis p m = (p, m)"
begin

text \<open>A deferred \<open>Discard\<close> after \<open>Activate\<close> does nothing, and neither operation happens twice.\<close>

lemma activate_discard: "dis (fst (act p m)) m' = (fst (act p m), m')"
  by (rule dis_idle) (rule act_spends)

lemma activate_once: "act (fst (act p m)) m' = (fst (act p m), m')"
  by (rule act_idle) (rule act_spends)

lemma discard_activate: "act (fst (dis p m)) m' = (fst (dis p m), m')"
  by (rule act_idle) (rule dis_spends)

end

fun spentChange :: "prepared \<Rightarrow> bool" where
  "spentChange (PreparedRuntime i _) \<longleftrightarrow> i = None"
| "spentChange (PreparedTokens h _) \<longleftrightarrow> h = None"

interpretation change: prepared_change Activate Discard spentChange
proof
  fix p m
  show "spentChange (fst (Activate p m))" by (cases "(p, m)" rule: Activate.cases) simp_all
  show "spentChange (fst (Discard p m))" by (cases "(p, m)" rule: Discard.cases) simp_all
  show "spentChange p \<Longrightarrow> Activate p m = (p, m)" by (cases "(p, m)" rule: Activate.cases) simp_all
  show "spentChange p \<Longrightarrow> Discard p m = (p, m)" by (cases "(p, m)" rule: Discard.cases) simp_all
qed

subsection \<open>Credentials\<close>

definition credentialOf :: "DeviceToken \<Rightarrow> Credential option" where
  "credentialOf t = CredentialFromHex (dtID t) (dtHash t)"

definition tokenOK :: "DeviceToken \<Rightarrow> bool" where
  "tokenOK t \<longleftrightarrow> identifierPattern (dtID t) \<and> TrimSpace (dtName t) \<noteq> [] \<and> RuneCount (dtName t) \<le> 64 \<and>
     credentialOf t \<noteq> None"

lemma credentialLoop_Inr:
  "credentialLoop ts seen acc = Inr cs \<longleftrightarrow>
     list_all tokenOK ts \<and> distinct (map dtID ts) \<and> set (map dtID ts) \<inter> set seen = {} \<and>
     cs = acc @ map (the \<circ> credentialOf) ts"
proof (induction ts arbitrary: seen acc)
  case (Cons t ts)
  have "\<not> length (TrimSpace (dtName t)) < 1 \<longleftrightarrow> TrimSpace (dtName t) \<noteq> []" by (cases "TrimSpace (dtName t)") auto
  then show ?case
    by (cases "credentialOf t") (auto simp: Cons.IH tokenOK_def credentialOf_def not_less)
qed auto

lemma credentialsFromState_Inr:
  "credentialsFromState ts = Inr cs \<longleftrightarrow>
     ts \<noteq> [] \<and> length ts \<le> 32 \<and> list_all tokenOK ts \<and> distinct (map dtID ts) \<and> cs = map (the \<circ> credentialOf) ts"
  by (auto simp: credentialsFromState_def credentialLoop_Inr maximumDeviceTokens_def)

lemma buildComponents_Inr:
  assumes "buildComponents L v = Inr (provider, options, credentials)"
  shows "validateState L v = None" "credentialsFromState (stDeviceTokens v) = Inr credentials"
    "options = cacheOptions (stCache v)"
    "newClient L (''https://'' @ qwAPIHost (stQWeather v)) (qwPrivateKeyPEM (stQWeather v)) (qwCredentialID (stQWeather v)) (qwProjectID (stQWeather v))
       (seconds (qwCircuitCooldownSeconds (stQWeather v))) = Some provider"
  using assms by (auto simp: buildComponents_def split: option.splits sum.splits)

text \<open>Preparing fails only by building: a state that validates has its credentials.\<close>

lemma validateState_None:
  "validateState L v = None \<longleftrightarrow> stSchemaVersion v = SchemaVersion \<and> ValidPasswordHash L (asPassword (stAdmin v)) \<and>
     validateQWeather L (stQWeather v) = None \<and> validateCache (stCache v) = None \<and>
     (\<exists>cs. credentialsFromState (stDeviceTokens v) = Inr cs)"
  by (auto simp: validateState_def split: option.splits sum.splits)

subsection \<open>Services are closed once\<close>

text \<open>
  Any interleaving of preparing, activating, discarding and closing; pending changes are kept until
  used. With \<open>serial\<close>, a change is prepared only when every earlier one is spent, as the
  administrator's \<open>changeMu\<close> makes it.
\<close>

record runtimeSystem =
  rsManager :: RuntimeManager
  rsPending :: "prepared list"

inductive runtimeStep :: "bool \<Rightarrow> golib \<Rightarrow> runtimeSystem \<Rightarrow> runtimeSystem \<Rightarrow> bool" for serial L where
  prepare: "serial \<longrightarrow> list_all spentChange (rsPending y) \<Longrightarrow> Prepare L now v (rsManager y) = (Inr p, m) \<Longrightarrow>
    runtimeStep serial L y \<lparr>rsManager = m, rsPending = p # rsPending y\<rparr>"
| prepare_tokens: "serial \<longrightarrow> list_all spentChange (rsPending y) \<Longrightarrow> PrepareTokens ts (rsManager y) = Inr p \<Longrightarrow>
    runtimeStep serial L y (y\<lparr>rsPending := p # rsPending y\<rparr>)"
| activate: "i < length (rsPending y) \<Longrightarrow> Activate (rsPending y ! i) (rsManager y) = (p, m) \<Longrightarrow>
    runtimeStep serial L y \<lparr>rsManager = m, rsPending = (rsPending y)[i := p]\<rparr>"
| discard: "i < length (rsPending y) \<Longrightarrow> Discard (rsPending y ! i) (rsManager y) = (p, m) \<Longrightarrow>
    runtimeStep serial L y \<lparr>rsManager = m, rsPending = (rsPending y)[i := p]\<rparr>"
| close: "runtimeStep serial L y (y\<lparr>rsManager := closeManager (rsManager y)\<rparr>)"

inductive runtimeReachable :: "bool \<Rightarrow> golib \<Rightarrow> runtimeSystem \<Rightarrow> bool" for serial L where
  initial: "runtimeReachable serial L \<lparr>rsManager = NewRuntimeManager geoIP header nets cloudflare, rsPending = []\<rparr>"
| step: "runtimeReachable serial L y \<Longrightarrow> runtimeStep serial L y y' \<Longrightarrow> runtimeReachable serial L y'"

fun pendingService :: "prepared \<Rightarrow> nat list" where
  "pendingService (PreparedRuntime (Some i) _) = [riService i]"
| "pendingService _ = []"

definition currentService :: "RuntimeManager \<Rightarrow> nat list" where
  "currentService m = (case rmCurrent m of None \<Rightarrow> [] | Some i \<Rightarrow> [riService i])"

definition servicesInv :: "runtimeSystem \<Rightarrow> bool" where
  "servicesInv y \<longleftrightarrow>
     mset [0..<rmNext (rsManager y)] =
       mset (currentService (rsManager y)) + (\<Sum>p\<in>#mset (rsPending y). mset (pendingService p)) +
       mset (rmClosedServices (rsManager y))"

lemma retainDevices_simps [simp]:
  "rmCurrent (retainDevices ids m) = rmCurrent m" "rmNext (retainDevices ids m) = rmNext m"
  "rmClosedServices (retainDevices ids m) = rmClosedServices m" "currentService (retainDevices ids m) = currentService m"
  by (simp_all add: retainDevices_def currentService_def)

lemma closeService_simps [simp]:
  "rmCurrent (closeService h m) = rmCurrent m" "rmNext (closeService h m) = rmNext m"
  "rmClosedServices (closeService h m) = h # rmClosedServices m" "currentService (closeService h m) = currentService m"
  by (simp_all add: closeService_def currentService_def)

text \<open>What each operation does to the services.\<close>

lemma Activate_services:
  assumes "Activate p m = (p', m')"
  shows "rmNext m' = rmNext m"
    "mset (currentService m') + mset (pendingService p') + mset (rmClosedServices m') =
       mset (currentService m) + mset (pendingService p) + mset (rmClosedServices m)"
  using assms
  by (cases "(p, m)" rule: Activate.cases;
      auto simp: activate_def Let_def currentService_def split: option.splits)+

lemma Discard_services:
  assumes "Discard p m = (p', m')"
  shows "rmNext m' = rmNext m"
    "mset (currentService m') + mset (pendingService p') + mset (rmClosedServices m') =
       mset (currentService m) + mset (pendingService p) + mset (rmClosedServices m)"
  using assms by (cases "(p, m)" rule: Discard.cases; auto)+

lemma closeManager_services:
  "rmNext (closeManager m) = rmNext m"
  "mset (currentService (closeManager m)) + mset (rmClosedServices (closeManager m)) =
     mset (currentService m) + mset (rmClosedServices m)"
  by (auto simp: closeManager_def currentService_def split: option.split)

lemma pending_update:
  assumes "i < length ps"
  shows "(\<Sum>p\<in>#mset (ps[i := p']). mset (pendingService p)) + mset (pendingService (ps ! i)) =
    (\<Sum>p\<in>#mset ps. mset (pendingService p)) + mset (pendingService p')"
proof -
  define M where "M = mset ps - {#ps ! i#}"
  have old: "mset ps = add_mset (ps ! i) M" using assms by (simp add: M_def)
  have new: "mset (ps[i := p']) = add_mset p' M" using assms by (simp add: M_def mset_update)
  show ?thesis unfolding old new by (simp add: ac_simps)
qed

lemma servicesInv_update:
  assumes "servicesInv y" and "i < length (rsPending y)" and "rmNext m' = rmNext (rsManager y)"
    and "mset (currentService m') + mset (pendingService p') + mset (rmClosedServices m') =
       mset (currentService (rsManager y)) + mset (pendingService (rsPending y ! i)) + mset (rmClosedServices (rsManager y))"
  shows "servicesInv \<lparr>rsManager = m', rsPending = (rsPending y)[i := p']\<rparr>"
proof -
  let ?S = "\<lambda>ps. \<Sum>p\<in>#mset ps. mset (pendingService p)"
  have "?S ((rsPending y)[i := p']) + mset (pendingService (rsPending y ! i)) = ?S (rsPending y) + mset (pendingService p')"
    by (rule pending_update [OF assms(2)])
  then have "mset (currentService m') + ?S ((rsPending y)[i := p']) + mset (rmClosedServices m') +
      mset (pendingService (rsPending y ! i)) =
    (mset (currentService m') + mset (pendingService p') + mset (rmClosedServices m')) + ?S (rsPending y)"
    by (simp add: ac_simps)
  also have "\<dots> = mset (currentService (rsManager y)) + ?S (rsPending y) + mset (rmClosedServices (rsManager y)) +
      mset (pendingService (rsPending y ! i))"
    unfolding assms(4) by (simp add: ac_simps)
  finally show ?thesis using assms(1,3) by (simp add: servicesInv_def)
qed

lemma Prepare_manager:
  assumes "Prepare L now v m = (Inr p, m')"
  shows "m' = m\<lparr>rmNext := Suc (rmNext m)\<rparr>" "pendingService p = [rmNext m]"
  using assms by (auto simp: Prepare_def Let_def split: sum.splits prod.splits)

lemma PrepareTokens_service: "PrepareTokens ts m = Inr p \<Longrightarrow> pendingService p = []"
  by (auto simp: PrepareTokens_def split: sum.splits option.splits)

lemma servicesInv_step:
  assumes "runtimeStep serial L y y'" and "servicesInv y"
  shows "servicesInv y'"
  using assms
proof cases
  case (prepare now v p m)
  with Prepare_manager [OF prepare(3)] assms(2) show ?thesis
    by (simp add: servicesInv_def currentService_def)
next
  case (prepare_tokens ts p)
  with PrepareTokens_service [OF prepare_tokens(3)] assms(2) show ?thesis by (simp add: servicesInv_def)
next
  case (activate i p m)
  from servicesInv_update [OF assms(2) activate(2) Activate_services [OF activate(3)]] activate(1) show ?thesis by simp
next
  case (discard i p m)
  from servicesInv_update [OF assms(2) discard(2) Discard_services [OF discard(3)]] discard(1) show ?thesis by simp
next
  case close
  with closeManager_services [of "rsManager y"] assms(2) show ?thesis
    by (simp add: servicesInv_def)
qed

lemma servicesInv_reachable: "runtimeReachable serial L y \<Longrightarrow> servicesInv y"
proof (induction rule: runtimeReachable.induct)
  case (initial geoIP header nets cloudflare)
  show ?case by (simp add: servicesInv_def NewRuntimeManager_def currentService_def)
next
  case (step y y')
  from step.hyps(2) step.IH show ?case by (rule servicesInv_step)
qed

subsection \<open>The live handler calls the live service\<close>

fun handlerOK :: "RuntimeManager \<Rightarrow> prepared \<Rightarrow> bool" where
  "handlerOK m (PreparedRuntime (Some i) _) \<longleftrightarrow> snd (riHandler i) = riService i"
| "handlerOK m (PreparedTokens (Some h) _) \<longleftrightarrow>
     (case rmCurrent m of None \<Rightarrow> True | Some c \<Rightarrow> snd h = riService c)"
| "handlerOK m _ \<longleftrightarrow> True"

definition liveOK :: "RuntimeManager \<Rightarrow> bool" where
  "liveOK m \<longleftrightarrow> (case rmCurrent m of None \<Rightarrow> True | Some c \<Rightarrow> snd (riHandler c) = riService c)"

definition unspent :: "prepared list \<Rightarrow> nat set" where
  "unspent ps = {i. i < length ps \<and> \<not> spentChange (ps ! i)}"

definition serialInv :: "runtimeSystem \<Rightarrow> bool" where
  "serialInv y \<longleftrightarrow> liveOK (rsManager y) \<and> (\<forall>p\<in>set (rsPending y). handlerOK (rsManager y) p) \<and>
     (\<forall>i\<in>unspent (rsPending y). \<forall>j\<in>unspent (rsPending y). i = j)"

lemma handlerOK_spent: "spentChange p \<Longrightarrow> handlerOK m p"
  by (cases "(m, p)" rule: handlerOK.cases) simp_all

lemma Activate_live:
  assumes "handlerOK m p" and "liveOK m" shows "liveOK (snd (Activate p m))"
proof (cases "(p, m)" rule: Activate.cases)
  case (2 i ids m)
  with assms show ?thesis by (simp add: liveOK_def activate_def Let_def split: option.split)
next
  case (4 h ids m)
  with assms show ?thesis by (cases "rmCurrent m") (simp_all add: liveOK_def)
qed (use assms in simp_all)

lemma Discard_current: "rmCurrent (snd (Discard p m)) = rmCurrent m"
  by (cases "(p, m)" rule: Discard.cases) simp_all

lemma unspent_used:
  assumes "spentChange p" and "\<forall>i\<in>unspent ps. \<forall>j\<in>unspent ps. i = j" and "i < length ps" and "\<not> spentChange (ps ! i)"
  shows "list_all spentChange (ps[i := p])"
  unfolding list_all_length
proof (intro allI impI)
  fix j assume j: "j < length (ps[i := p])"
  show "spentChange (ps[i := p] ! j)"
  proof (cases "j = i")
    case False
    then have "j \<notin> unspent ps" using assms(2-4) by (auto simp: unspent_def)
    with j False show ?thesis by (simp add: unspent_def)
  qed (use assms(1,3) in simp)
qed

lemma unspent_all: "list_all spentChange ps \<Longrightarrow> unspent ps = {}" "list_all spentChange ps \<Longrightarrow> unspent (p # ps) \<subseteq> {0}"
  by (auto simp: unspent_def list_all_length less_Suc_eq_0_disj)

lemma serialInv_idle:
  "list_all spentChange (rsPending y) \<Longrightarrow> liveOK (rsManager y) \<Longrightarrow> handlerOK (rsManager y) p \<Longrightarrow>
     serialInv (y\<lparr>rsPending := p # rsPending y\<rparr>)"
  using unspent_all(2) [of "rsPending y" p]
  by (auto simp: serialInv_def list_all_iff intro: handlerOK_spent)

lemma serialInv_used:
  assumes "serialInv y" and "i < length (rsPending y)" and "spentChange p"
    and "liveOK m" and "spentChange (rsPending y ! i) \<Longrightarrow> m = rsManager y \<and> p = rsPending y ! i"
  shows "serialInv \<lparr>rsManager = m, rsPending = (rsPending y)[i := p]\<rparr>"
proof (cases "spentChange (rsPending y ! i)")
  case True
  with assms(1,5) show ?thesis by (cases y) simp
next
  case False
  with assms have all: "list_all spentChange ((rsPending y)[i := p])"
    by (intro unspent_used) (auto simp: serialInv_def)
  with assms(4) unspent_all(1) [OF all] show ?thesis
    by (auto simp: serialInv_def list_all_iff intro: handlerOK_spent)
qed

lemma serialInv_step:
  assumes "runtimeStep True L y y'" and "serialInv y"
  shows "serialInv y'"
  using assms
proof cases
  case (prepare now v p m)
  have "liveOK m" "handlerOK m p" "rmCurrent m = rmCurrent (rsManager y)"
    using prepare(3) assms(2) by (auto simp: Prepare_def liveOK_def serialInv_def Let_def split: sum.splits prod.splits)
  with prepare serialInv_idle [of "y\<lparr>rsManager := m\<rparr>" p] show ?thesis by (cases y) simp
next
  case (prepare_tokens ts p)
  have "handlerOK (rsManager y) p"
    using prepare_tokens(3) assms(2)
    by (auto simp: PrepareTokens_def liveOK_def serialInv_def split: sum.splits option.splits)
  moreover have "liveOK (rsManager y)" using assms(2) by (simp add: serialInv_def)
  ultimately show ?thesis using prepare_tokens by (simp add: serialInv_idle)
next
  case (activate i p m)
  from activate(2) assms(2) have "handlerOK (rsManager y) (rsPending y ! i)" by (simp add: serialInv_def)
  with assms(2) have "liveOK m" using Activate_live [of "rsManager y" "rsPending y ! i"] activate(3) by (simp add: serialInv_def)
  moreover have "spentChange p" using change.act_spends [of "rsPending y ! i" "rsManager y"] activate(3) by simp
  moreover have "m = rsManager y \<and> p = rsPending y ! i" if "spentChange (rsPending y ! i)"
    using change.act_idle [OF that, of "rsManager y"] activate(3) by simp
  ultimately show ?thesis unfolding activate(1) using assms(2) activate(2) by (intro serialInv_used) simp_all
next
  case (discard i p m)
  have "liveOK m" using Discard_current [of "rsPending y ! i" "rsManager y"] discard(3) assms(2)
    by (simp add: serialInv_def liveOK_def)
  moreover have "spentChange p" using change.dis_spends [of "rsPending y ! i" "rsManager y"] discard(3) by simp
  moreover have "m = rsManager y \<and> p = rsPending y ! i" if "spentChange (rsPending y ! i)"
    using change.dis_idle [OF that, of "rsManager y"] discard(3) by simp
  ultimately show ?thesis unfolding discard(1) using assms(2) discard(2) by (intro serialInv_used) simp_all
next
  case close
  have c: "rmCurrent (closeManager (rsManager y)) = None" by (simp add: closeManager_def split: option.split)
  have "handlerOK (closeManager (rsManager y)) p" if "handlerOK (rsManager y) p" for p
    using that c by (cases "(rsManager y, p)" rule: handlerOK.cases) simp_all
  with c assms(2) close show ?thesis by (auto simp: serialInv_def liveOK_def)
qed

lemma serialInv_reachable: "runtimeReachable True L y \<Longrightarrow> serialInv y"
proof (induction rule: runtimeReachable.induct)
  case (initial geoIP header nets cloudflare)
  show ?case by (simp add: serialInv_def liveOK_def NewRuntimeManager_def unspent_def)
next
  case (step y y')
  from step.hyps(2) step.IH show ?case by (rule serialInv_step)
qed

lemma distinct_parts:
  assumes "mset xs = mset as + mset bs + mset cs" and "distinct xs"
  shows "distinct cs" "x \<in> set as \<Longrightarrow> x \<notin> set bs \<and> x \<notin> set cs" "x \<in> set bs \<Longrightarrow> x \<notin> set cs"
    "set xs = set as \<union> set bs \<union> set cs"
proof -
  have e: "mset xs = mset (as @ bs @ cs)" using assms(1) by simp
  then have d: "distinct (as @ bs @ cs)" using assms(2) mset_eq_imp_distinct_iff by metis
  from d show "distinct cs" "x \<in> set as \<Longrightarrow> x \<notin> set bs \<and> x \<notin> set cs" "x \<in> set bs \<Longrightarrow> x \<notin> set cs" by auto
  from mset_eq_setD [OF e] show "set xs = set as \<union> set bs \<union> set cs" by auto
qed

lemma pending_services: "(\<Sum>p\<in>#mset ps. mset (pendingService p)) = mset (concat (map pendingService ps))"
  by (induction ps) simp_all

lemma ServeHTTP_Inr: "ServeHTTP L m r = Inr (d, h) \<Longrightarrow> \<exists>c. rmCurrent m = Some c \<and> h = snd (riHandler c)"
  by (auto simp: ServeHTTP_def split: option.splits sum.splits)

text \<open>C14. Lifecycle of weather services. In every interleaving of preparing, activating, discarding
  and closing, every service created is the current one, is owned by a pending change, or was closed,
  and closed only once; the current service is never closed. When changes are made one at a time, the
  service a device request reaches is the current one, so it is open.\<close>

theorem services_closed_once:
  assumes "runtimeReachable serial L y"
  shows "distinct (rmClosedServices (rsManager y)) \<and>
    {0..<rmNext (rsManager y)} = set (currentService (rsManager y)) \<union>
      set (concat (map pendingService (rsPending y))) \<union> set (rmClosedServices (rsManager y)) \<and>
    set (currentService (rsManager y)) \<inter> set (rmClosedServices (rsManager y)) = {} \<and>
    (serial \<and> ServeHTTP L (rsManager y) r = Inr (d, h) \<longrightarrow>
       currentService (rsManager y) = [h] \<and> h \<notin> set (rmClosedServices (rsManager y)))"
proof -
  let ?m = "rsManager y" and ?p = "concat (map pendingService (rsPending y))"
  have e: "mset [0..<rmNext ?m] = mset (currentService ?m) + mset ?p + mset (rmClosedServices ?m)"
    using servicesInv_reachable [OF assms] unfolding servicesInv_def pending_services .
  note parts = distinct_parts [OF e distinct_upt]
  have "set (currentService ?m) \<inter> set (rmClosedServices ?m) = {}" using parts(2) by blast
  moreover have "currentService ?m = [h]" if "serial" "ServeHTTP L ?m r = Inr (d, h)"
  proof -
    from ServeHTTP_Inr [OF that(2)] obtain c where c: "rmCurrent ?m = Some c" "h = snd (riHandler c)" by blast
    from serialInv_reachable [of L y] assms that(1) have "liveOK ?m" by (simp add: serialInv_def)
    with c show ?thesis by (simp add: liveOK_def currentService_def)
  qed
  ultimately show ?thesis using parts(1,4) by auto
qed

subsection \<open>A missing resolver\<close>

text \<open>
  \<open>EffectivePoint\<close> of the runtime's source; \<open>None\<close> is a request that ends in the panic of
  \<open>NilDereference\<close>.
\<close>

definition runtimeEffective :: "golib \<Rightarrow> resolveFault Source \<Rightarrow> request \<Rightarrow> (locErr + Point \<times> Resolved) option" where
  "runtimeEffective L src r =
     (case (FromRequest L r, srcResolver src, srcExtractor src) of
        (Inr None, Some resolve, Some extractor) \<Rightarrow>
          (if srcCloudflare src = None \<or> CloudflarePoint L (the (srcCloudflare src)) r = Inr None
           then (case ClientIP L extractor r of
                   None \<Rightarrow> Some (EffectivePoint L (Some src) r)
                 | Some ip \<Rightarrow> if resolve ip = Inl NilDereference then None else Some (EffectivePoint L (Some src) r))
           else Some (EffectivePoint L (Some src) r))
      | _ \<Rightarrow> Some (EffectivePoint L (Some src) r))"

lemma storeResolve_returns: "storeResolve rd ip \<noteq> Inl NilDereference"
  by (cases "Resolve rd ip") (simp_all add: storeResolve_def)

lemma nilStoreResolve_panics:
  "nilStoreResolve ip = Inl NilDereference \<longleftrightarrow> isPublic (if Is4In6 ip then Unmap ip else ip)"
  by (simp add: nilStoreResolve_def Let_def)


subsection \<open>Cache windows\<close>

lemma seconds_exact:
  assumes "0 < n" and "n \<le> 9223372036" shows "seconds n = n * second"
proof -
  have "n * second \<le> 9223372036 * second" using assms(2) by (simp add: second_def)
  also have "\<dots> < 2 ^ 63" by (simp add: second_def)
  finally show ?thesis using assms(1) by (simp add: seconds_def second_def)
qed

lemma window_exact:
  "0 < n \<Longrightarrow> n < k \<Longrightarrow> k \<le> 9223372036 \<Longrightarrow> 0 < seconds n \<and> seconds n < seconds k"
  using seconds_exact [of n] seconds_exact [of k] by (simp add: second_def)

text \<open>Cache windows. A cache policy that passes validation gives every kind of data a positive fresh
  window inside a longer stale window, and between 1 and 1024 locations, provided the stale windows
  are at most 9223372036 seconds; the default policy passes. Validation itself sets no upper bound,
  and past this one the window wraps around to a negative duration.\<close>

theorem cache_windows:
  assumes "validateCache c = None"
    and "list_all (\<lambda>n. n \<le> 9223372036) [caCurrentStaleMax c, caHourlyStaleMax c, caDailyStaleMax c, caAlertsStaleMax c]"
  shows "list_all (\<lambda>(k, p). 0 < freshFor p \<and> freshFor p < staleFor p) (svPolicies (NewService src now (cacheOptions c))) \<and>
    1 \<le> svMaximum (NewService src now (cacheOptions c)) \<and> svMaximum (NewService src now (cacheOptions c)) \<le> 1024 \<and>
    validateCache DefaultCache = None \<and>
    validateCache (DefaultCache\<lparr>caCurrentStaleMax := 9223372037\<rparr>) = None \<and> seconds 9223372037 < 0"
proof -
  have "0 < caCurrentTTL c \<and> caCurrentTTL c < caCurrentStaleMax c \<and> 0 < caHourlyTTL c \<and> caHourlyTTL c < caHourlyStaleMax c \<and>
      0 < caDailyTTL c \<and> caDailyTTL c < caDailyStaleMax c \<and> 0 < caAlertsTTL c \<and> caAlertsTTL c < caAlertsStaleMax c \<and>
      1 \<le> caMaxLocations c \<and> caMaxLocations c \<le> 1024"
    using assms(1) by (simp add: validateCache_def split: if_splits)
  moreover have "validateCache DefaultCache = None" "validateCache (DefaultCache\<lparr>caCurrentStaleMax := 9223372037\<rparr>) = None"
    by (simp_all add: validateCache_def DefaultCache_def hour_def minute_def second_def)
  moreover have "seconds 9223372037 < 0" by (simp add: seconds_def second_def int64_def)
  ultimately show ?thesis
    using assms(2) window_exact [of "caCurrentTTL c" "caCurrentStaleMax c"] window_exact [of "caHourlyTTL c" "caHourlyStaleMax c"]
      window_exact [of "caDailyTTL c" "caDailyStaleMax c"] window_exact [of "caAlertsTTL c" "caAlertsStaleMax c"]
    by (simp add: NewService_def cacheOptions_def)
qed

lemma cache_windows_witness:
  "list_all (\<lambda>(k, p). 0 < freshFor p \<and> freshFor p < staleFor p)
     (svPolicies (NewService qweatherSource 0 (cacheOptions DefaultCache)))"
  using cache_windows [of DefaultCache qweatherSource 0]
  by (simp add: validateCache_def DefaultCache_def hour_def minute_def second_def)

subsection \<open>Activated credentials\<close>

lemma Activate_handler:
  assumes "rmCurrent m = Some c"
  shows "PrepareTokens ts m = Inr p \<Longrightarrow> \<exists>c' cs h. rmCurrent (snd (Activate p m)) = Some c' \<and> riHandler c' = (cs, h) \<and>
    credentialsFromState ts = Inr cs"
  using assms by (auto simp: PrepareTokens_def split: sum.splits)

lemma Activate_prepared:
  "Prepare L now v m = (Inr p, m') \<Longrightarrow> \<exists>c' cs h. rmCurrent (snd (Activate p m')) = Some c' \<and> riHandler c' = (cs, h) \<and>
    credentialsFromState (stDeviceTokens v) = Inr cs"
  by (auto simp: Prepare_def activate_def Let_def buildComponents_Inr(2) split: sum.splits prod.splits option.split)

lemma Activate_devices:
  assumes "\<not> spentChange p"
  shows "rmLimiter (snd (Activate p m)) = ChangeLimiter_Retain (case p of PreparedRuntime _ ids \<Rightarrow> ids | PreparedTokens _ ids \<Rightarrow> ids) (rmLimiter m)"
    "rmLocalizeLimiter (snd (Activate p m)) = LocalizeLimiter_Retain (case p of PreparedRuntime _ ids \<Rightarrow> ids | PreparedTokens _ ids \<Rightarrow> ids) (rmLocalizeLimiter m)"
  using assms
  by (cases "(p, m)" rule: Activate.cases;
      simp add: activate_def retainDevices_def closeService_def Let_def split: option.split)+

lemma prepared_ids:
  "PrepareTokens ts m = Inr p \<Longrightarrow> \<not> spentChange p \<and> (case p of PreparedRuntime _ ids \<Rightarrow> ids | PreparedTokens _ ids \<Rightarrow> ids) = map dtID ts"
  "Prepare L now v m = (Inr p, m') \<Longrightarrow> \<not> spentChange p \<and>
     (case p of PreparedRuntime _ ids \<Rightarrow> ids | PreparedTokens _ ids \<Rightarrow> ids) = map dtID (stDeviceTokens v)"
  by (auto simp: PrepareTokens_def Prepare_def Let_def deviceIDs_def split: sum.splits option.splits prod.splits)

lemma credentialOf_tokenOK: "tokenOK t \<Longrightarrow> \<exists>c. credentialOf t = Some c \<and> crDeviceID c = dtID t \<and> hexDecode (dtHash t) = Some (crHash c)"
  by (auto simp: tokenOK_def credentialOf_def dest: CredentialFromHex_hash)

text \<open>The device a validated token list lets through.\<close>

lemma Wrap_tokens:
  assumes "credentialsFromState ts = Inr cs" and "distinct (map (\<lambda>t. hexDecode (dtHash t)) ts)"
  shows "Wrap L cs r = Inr d \<longleftrightarrow>
    (\<exists>k t. bearerToken (HeaderGet r ''Authorization'') = Some k \<and> t \<in> set ts \<and> dtID t = d \<and> hexDecode (dtHash t) = Some (sha256 L k))"
proof (cases "bearerToken (HeaderGet r ''Authorization'')")
  case (Some k)
  from assms(1) have ok: "list_all tokenOK ts" and cs: "cs = map (the \<circ> credentialOf) ts" by (simp_all add: credentialsFromState_Inr)
  have c: "crDeviceID (the (credentialOf t)) = dtID t \<and> hexDecode (dtHash t) = Some (crHash (the (credentialOf t)))" if "t \<in> set ts" for t
    using ok that credentialOf_tokenOK [of t] by (auto simp: list_all_iff)
  let ?hits = "filter (\<lambda>t. hexDecode (dtHash t) = Some (sha256 L k)) ts"
  have "filter (\<lambda>c. crHash c = sha256 L k) cs = map (the \<circ> credentialOf) ?hits"
    unfolding cs filter_map using c by (intro arg_cong [where f = "map (the \<circ> credentialOf)"] filter_cong) auto
  then have w: "Wrap L cs r = (if ?hits = [] then Inl (unauthorized r) else Inr (crDeviceID (the (credentialOf (last ?hits)))))"
    by (simp add: Wrap_eq Some Let_def last_map)
  show ?thesis
  proof (cases "?hits = []")
    case True
    with w Some show ?thesis by (force simp: filter_empty_conv)
  next
    case False
    then obtain t where t: "t \<in> set ts" "hexDecode (dtHash t) = Some (sha256 L k)" by (auto simp: filter_empty_conv)
    have e: "?hits = [t]" using filter_unique [OF assms(2) t(1)] t(2) by simp
    have "u \<in> set ?hits \<longleftrightarrow> u = t" for u unfolding e by simp
    then have u: "u \<in> set ts \<and> hexDecode (dtHash u) = Some (sha256 L k) \<longleftrightarrow> u = t" for u by simp
    have "Wrap L cs r = Inr (dtID t)" using w c [OF t(1)] unfolding e by simp
    moreover have "(\<exists>u. u \<in> set ts \<and> dtID u = d \<and> hexDecode (dtHash u) = Some (sha256 L k)) \<longleftrightarrow> dtID t = d"
      using u by metis
    ultimately show ?thesis using Some by simp
  qed
qed (simp add: Wrap_def)

lemma ServeHTTP_handler:
  "rmCurrent m = Some c \<Longrightarrow> riHandler c = (cs, h) \<Longrightarrow>
    ServeHTTP L m r = (case Wrap L cs r of Inl w \<Rightarrow> Inl w | Inr d \<Rightarrow> Inr (d, h))"
  by (simp add: ServeHTTP_def split: sum.split)

text \<open>Enrolment and revocation of devices. After a change prepared for a token list is activated,
  whether the tokens alone were replaced or the whole configuration, a request is let through as
  device \<open>d\<close> exactly when it presents a bearer token whose digest the list stores for \<open>d\<close>, and any
  other request is refused with 401; the rate limiters keep state for the listed devices only. The
  stored digests are assumed to be distinct.\<close>

theorem activated_tokens:
  assumes "PrepareTokens ts m = Inr p \<or> Prepare L now v m0 = (Inr p, m) \<and> ts = stDeviceTokens v"
    and "distinct (map (\<lambda>t. hexDecode (dtHash t)) ts)"
  shows "((\<exists>h. ServeHTTP L (snd (Activate p m)) r = Inr (d, h)) \<longleftrightarrow>
      (\<exists>k t. bearerToken (HeaderGet r ''Authorization'') = Some k \<and> t \<in> set ts \<and> dtID t = d \<and>
         hexDecode (dtHash t) = Some (sha256 L k))) \<and>
    (case ServeHTTP L (snd (Activate p m)) r of Inl w \<Rightarrow> rsStatus w = 401 | Inr _ \<Rightarrow> True) \<and>
    (d \<notin> dtID ` set ts \<longrightarrow> map_of (clDevices (rmLimiter (snd (Activate p m)))) d = None \<and>
       map_of (llDevices (rmLocalizeLimiter (snd (Activate p m)))) d = None)"
proof -
  have "\<exists>c cs h. rmCurrent (snd (Activate p m)) = Some c \<and> riHandler c = (cs, h) \<and> credentialsFromState ts = Inr cs"
    using assms(1) Activate_prepared [of L now v m0 p m]
    by (cases "rmCurrent m") (auto simp: PrepareTokens_def split: sum.splits)
  then obtain c cs h where live: "rmCurrent (snd (Activate p m)) = Some c" "riHandler c = (cs, h)" "credentialsFromState ts = Inr cs"
    by blast
  have ids: "\<not> spentChange p" "(case p of PreparedRuntime _ ids \<Rightarrow> ids | PreparedTokens _ ids \<Rightarrow> ids) = map dtID ts"
    using assms(1) prepared_ids by blast+
  have s: "ServeHTTP L (snd (Activate p m)) r = (case Wrap L cs r of Inl w \<Rightarrow> Inl w | Inr d \<Rightarrow> Inr (d, h))"
    by (rule ServeHTTP_handler [OF live(1,2)])
  have "(\<exists>h. ServeHTTP L (snd (Activate p m)) r = Inr (d, h)) \<longleftrightarrow> Wrap L cs r = Inr d"
    by (simp add: s split: sum.split)
  moreover have "rsStatus w = 401" if "Wrap L cs r = Inl w" for w
    using that by (auto simp: Wrap_eq Let_def unauthorized_def split: option.splits if_splits)
  ultimately show ?thesis
    using Wrap_tokens [OF live(3) assms(2)] Activate_devices [OF ids(1), of m]
    by (simp add: s ids(2) changeRetain.look_retain localizeRetain.look_retain split: sum.split)
qed

text \<open>A configuration that validates, over a library with toy primitives.\<close>

definition runtimeLib :: golib where
  "runtimeLib = padLib\<lparr>UrlParse := (\<lambda>s. Some \<lparr>uScheme = ''https'', uHost = drop 8 s, uHostname = drop 8 s, uPort = [],
     uHasUser = False, uPath = [], uRawPath = [], uRawQuery = [], uForceQuery = False, uFragment = [], uString = s\<rparr>)\<rparr>"

definition sampleToken :: "bytes \<Rightarrow> bytes \<Rightarrow> DeviceToken" where
  "sampleToken d k = \<lparr>dtID = d, dtName = d, dtHash = HashToken runtimeLib k, dtCreatedAt = 0\<rparr>"

definition sampleConfig :: State where
  "sampleConfig =
     \<lparr>stSchemaVersion = 4, stUpdatedAt = 0,
      stAdmin = \<lparr>asPassword = \<lparr>phAlgorithm = ''argon2id'', phSalt = replicate 16 CHR ''s'', phDigest = replicate 32 CHR ''d'',
        phMemoryKiB = 32768, phIterations = 3, phParallelism = 1\<rparr>, asPublicOrigins = []\<rparr>,
      stQWeather = \<lparr>qwAPIHost = ''a.qweatherapi.com'', qwProjectID = ''P'', qwCredentialID = ''C'', qwPrivateKeyPEM = ''K'',
        qwLanguage = ''zh'', qwUnit = ''m'', qwRequestTimeoutSeconds = 8, qwCircuitCooldownSeconds = 900\<rparr>,
      stCache = DefaultCache, stDeviceTokens = [sampleToken ''a'' ''one'']\<rparr>"

lemma tokenOK_sample: "tokenOK (sampleToken ''a'' k)" "credentialOf (sampleToken ''a'' k) = Some \<lparr>crDeviceID = ''a'', crHash = sha256 runtimeLib k\<rparr>"
proof -
  have "length (sha256 runtimeLib k) = 32" by (simp add: runtimeLib_def padLib_def)
  then show c: "credentialOf (sampleToken ''a'' k) = Some \<lparr>crDeviceID = ''a'', crHash = sha256 runtimeLib k\<rparr>"
    by (simp add: credentialOf_def sampleToken_def CredentialFromHex_HashToken)
  have "TrimSpace ''a'' \<noteq> [] \<and> \<not> 64 < RuneCount ''a'' \<and> identifierPattern ''a''" by code_simp
  with c show "tokenOK (sampleToken ''a'' k)" by (simp add: tokenOK_def) (simp add: sampleToken_def)
qed

lemma sampleConfig_valid: "validateState runtimeLib sampleConfig = None"
proof -
  have "validateQWeather runtimeLib (stQWeather sampleConfig) = None"
  proof -
    have h: "ToLower (ulow runtimeLib) (TrimSpace ''a.qweatherapi.com'') = ''a.qweatherapi.com''" by code_simp
    have l: "list_all validLabel (Split CHR ''.'' ''a.qweatherapi.com'')" by code_simp
    have n: "\<not> ContainsAny ''a.qweatherapi.com'' ''/:@?# '' \<and> HasSuffix ''a.qweatherapi.com'' ''.qweatherapi.com''" by code_simp
    have p: "identifierPattern ''P'' \<and> identifierPattern ''C''" by code_simp
    show ?thesis unfolding validateQWeather_def Let_def
      using h l n p by (simp add: sampleConfig_def) (simp add: PublicKeyFingerprint_def runtimeLib_def padLib_def emptyLib_def)
  qed
  moreover have "ValidPasswordHash runtimeLib (asPassword (stAdmin sampleConfig))"
    by (simp add: ValidPasswordHash_def sampleConfig_def runtimeLib_def padLib_def emptyLib_def password_defs)
  moreover have "credentialsFromState (stDeviceTokens sampleConfig) = Inr [the (credentialOf (sampleToken ''a'' ''one''))]"
    by (simp add: credentialsFromState_Inr sampleConfig_def tokenOK_sample)
  moreover have "validateCache (stCache sampleConfig) = None"
    by (simp add: validateCache_def sampleConfig_def DefaultCache_def hour_def minute_def second_def)
  moreover have "stSchemaVersion sampleConfig = SchemaVersion" by (simp add: sampleConfig_def SchemaVersion_def)
  ultimately show ?thesis unfolding validateState_None by simp
qed

lemma sampleConfig_prepares: "\<exists>p m. Prepare runtimeLib 0 sampleConfig (NewRuntimeManager None [] [] True) = (Inr p, m)"
proof -
  have "\<exists>c. newClient runtimeLib (''https://'' @ qwAPIHost (stQWeather sampleConfig)) (qwPrivateKeyPEM (stQWeather sampleConfig))
      (qwCredentialID (stQWeather sampleConfig)) (qwProjectID (stQWeather sampleConfig)) t = Some c" for t
    by (simp add: newClient_def newSigner_def sampleConfig_def runtimeLib_def padLib_def emptyLib_def)
  moreover have "\<exists>cs. credentialsFromState (stDeviceTokens sampleConfig) = Inr cs"
    using sampleConfig_valid unfolding validateState_None by simp
  ultimately show ?thesis
    by (auto simp: Prepare_def buildComponents_def sampleConfig_valid Let_def split: option.split sum.split)
qed

lemma activated_tokens_witness:
  "\<exists>p m h. Prepare runtimeLib 0 sampleConfig (NewRuntimeManager None [] [] True) = (Inr p, m) \<and>
     ServeHTTP runtimeLib (snd (Activate p m))
       (emptyRequest\<lparr>rHeader := (\<lambda>h. if h = ''Authorization'' then [''Bearer one''] else [])\<rparr>) = Inr (''a'', h)"
proof -
  let ?r = "emptyRequest\<lparr>rHeader := (\<lambda>h. if h = ''Authorization'' then [''Bearer one''] else [])\<rparr>"
  from sampleConfig_prepares obtain p m where p: "Prepare runtimeLib 0 sampleConfig (NewRuntimeManager None [] [] True) = (Inr p, m)" by blast
  have "visibleASCII ''one''" by (simp add: visibleASCII_def inrange_def)
  then have b: "bearerToken (HeaderGet ?r ''Authorization'') = Some ''one''"
    using bearerToken_issued [of "''one''"] by (simp add: HeaderGet_def)
  have t: "stDeviceTokens sampleConfig = [sampleToken ''a'' ''one'']" by (simp add: sampleConfig_def)
  have "\<exists>h. ServeHTTP runtimeLib (snd (Activate p m)) ?r = Inr (''a'', h)"
    using activated_tokens [where ts = "stDeviceTokens sampleConfig" and d = "''a''" and r = ?r, OF disjI2 [OF conjI [OF p refl]]] b
    by (simp add: t sampleToken_def HashToken_def hexDecode_hexEncode)
  with p show ?thesis by blast
qed

lemma services_closed_once_witness:
  "\<exists>y. runtimeReachable True runtimeLib y \<and> rmNext (rsManager y) = 1 \<and>
     {0} = set (currentService (rsManager y)) \<union> set (concat (map pendingService (rsPending y))) \<union>
       set (rmClosedServices (rsManager y)) \<and> distinct (rmClosedServices (rsManager y))"
proof -
  let ?y = "\<lparr>rsManager = NewRuntimeManager None [] [] True, rsPending = []\<rparr>"
  from sampleConfig_prepares obtain p m where p: "Prepare runtimeLib 0 sampleConfig (rsManager ?y) = (Inr p, m)" by auto
  have y: "runtimeReachable True runtimeLib \<lparr>rsManager = m, rsPending = p # rsPending ?y\<rparr>"
    by (rule runtimeReachable.step [OF runtimeReachable.initial runtimeStep.prepare [OF _ p]]) simp
  have "rmNext m = 1" using Prepare_manager(1) [OF p] by (simp add: NewRuntimeManager_def)
  with services_closed_once [OF y] show ?thesis by (intro exI [of _ "\<lparr>rsManager = m, rsPending = p # rsPending ?y\<rparr>"]) (auto simp: y [simplified])
qed

end
