(* ===== verification/RuntimeModule.thy ===== *)
theory RuntimeModule
  imports Runtime GeoPolling
begin

section \<open>The runtime as a module, and closing a weather service\<close>

text \<open>
  \<open>Apply\<close> and \<open>ReplaceTokens\<close> are a prepared change that is activated at once. The manager as a
  \<open>platform.Module\<close> owns the database store: \<open>Start\<close> starts it, \<open>Close\<close> closes it and the current
  service. \<open>Close\<close> of a service cancels its refreshes and closes its provider behind \<open>sync.Once\<close>; whether
  the refreshes end before the deadline is an argument.
\<close>

definition Apply :: "golib \<Rightarrow> time \<Rightarrow> State \<Rightarrow> RuntimeManager \<Rightarrow> runtimeError option \<times> RuntimeManager" where
  "Apply L now v m =
     (case Prepare L now v m of
        (Inl e, m) \<Rightarrow> (Some e, m)
      | (Inr p, m) \<Rightarrow> (None, snd (Activate p m)))"

definition ReplaceTokens :: "DeviceToken list \<Rightarrow> RuntimeManager \<Rightarrow> runtimeError option \<times> RuntimeManager" where
  "ReplaceTokens ts m =
     (case PrepareTokens ts m of
        Inl e \<Rightarrow> (Some e, m)
      | Inr p \<Rightarrow> (None, snd (Activate p m)))"

subsection \<open>Closing a service\<close>

record serviceLife =
  slCanceled :: bool
  slOnce :: bool
  slCloseErr :: "bytes option"
  slProviderCloses :: nat

definition newLife :: serviceLife where
  "newLife = \<lparr>slCanceled = False, slOnce = False, slCloseErr = None, slProviderCloses = 0\<rparr>"

definition closeProvider :: "bytes option \<Rightarrow> serviceLife \<Rightarrow> bytes option \<times> serviceLife" where
  "closeProvider answer s =
     (let s = (if slOnce s then s
               else s\<lparr>slOnce := True, slCloseErr := answer, slProviderCloses := Suc (slProviderCloses s)\<rparr>)
      in (slCloseErr s, s))"

text \<open>The errors joined: that of the context when the deadline comes first, and that of the provider.\<close>

definition serviceClose :: "bytes option \<Rightarrow> bytes option \<Rightarrow> serviceLife \<Rightarrow> bytes option list \<times> serviceLife" where
  "serviceClose deadline answer s =
     (let (e, s) = closeProvider answer (s\<lparr>slCanceled := True\<rparr>)
      in (case deadline of None \<Rightarrow> [e] | Some x \<Rightarrow> [Some x, e], s))"

subsection \<open>The module\<close>

record runtimeModule =
  mdManager :: RuntimeManager
  mdGeoIP :: "Store option"

definition moduleName :: "runtimeModule \<Rightarrow> bytes" where
  "moduleName _ = ''weather''"

definition moduleStart :: "fileInfo option \<Rightarrow> openResult \<Rightarrow> runtimeModule \<Rightarrow> bytes option \<times> runtimeModule" where
  "moduleStart stat result md = (None, md\<lparr>mdGeoIP := map_option (startStore stat result) (mdGeoIP md)\<rparr>)"

text \<open>An error of the store is only logged; that of the service, if there is one, is returned.\<close>

definition moduleClose :: "bool \<Rightarrow> (nat \<Rightarrow> bytes option) \<Rightarrow> runtimeModule \<Rightarrow> bytes option \<times> runtimeModule" where
  "moduleClose fails closing md =
     (case rmCurrent (mdManager md) of None \<Rightarrow> None | Some current \<Rightarrow> closing (riService current),
      md\<lparr>mdManager := closeManager (mdManager md), mdGeoIP := map_option (\<lambda>g. snd (closeStore fails g)) (mdGeoIP md)\<rparr>)"

subsection \<open>What they do\<close>

lemma serviceClose_spec:
  "slCanceled (snd (serviceClose deadline answer s))" "slOnce (snd (serviceClose deadline answer s))"
  "slOnce s \<Longrightarrow> snd (serviceClose deadline answer s) = s\<lparr>slCanceled := True\<rparr> \<and> last (fst (serviceClose deadline answer s)) = slCloseErr s"
  "\<not> slOnce s \<Longrightarrow> last (fst (serviceClose deadline answer s)) = answer \<and> slCloseErr (snd (serviceClose deadline answer s)) = answer \<and>
     slProviderCloses (snd (serviceClose deadline answer s)) = Suc (slProviderCloses s)"
  by (simp_all add: serviceClose_def closeProvider_def split: option.split)

text \<open>Whatever the deadlines, the provider is closed once, and every \<open>Close\<close> reports what that closing answered.\<close>

lemma closes_keep:
  assumes "slOnce s"
  shows "slProviderCloses (fold (\<lambda>(x, c) s. snd (serviceClose x c s)) cs s) = slProviderCloses s"
    "slCloseErr (fold (\<lambda>(x, c) s. snd (serviceClose x c s)) cs s) = slCloseErr s"
    "slOnce (fold (\<lambda>(x, c) s. snd (serviceClose x c s)) cs s)"
  using assms by (induction cs arbitrary: s) (auto simp: serviceClose_spec)

lemma provider_closed_once:
  assumes "s = fold (\<lambda>(x, c) s. snd (serviceClose x c s)) ((deadline, answer) # cs) newLife"
  shows "slProviderCloses s = 1" "last (fst (serviceClose deadline' answer' s)) = answer"
proof -
  let ?t = "snd (serviceClose deadline answer newLife)"
  have s: "s = fold (\<lambda>(x, c) s. snd (serviceClose x c s)) cs ?t" using assms by simp
  have first: "slProviderCloses ?t = 1" "slCloseErr ?t = answer" "slOnce ?t"
    by (simp_all add: newLife_def serviceClose_spec)
  note keep = closes_keep [OF first(3), of cs, folded s]
  from keep(1) first(1) show "slProviderCloses s = 1" by simp
  from keep(2,3) first(2) show "last (fst (serviceClose deadline' answer' s)) = answer" by (simp add: serviceClose_spec)
qed

text \<open>\<open>Apply\<close> and \<open>ReplaceTokens\<close> are steps of the runtime, one change at a time.\<close>

lemma activate_first:
  assumes "runtimeReachable serial L \<lparr>rsManager = m, rsPending = p # ps\<rparr>"
  shows "runtimeReachable serial L \<lparr>rsManager = snd (Activate p m), rsPending = [fst (Activate p m)] @ ps\<rparr>"
proof -
  let ?x = "\<lparr>rsManager = m, rsPending = p # ps\<rparr>"
  have "runtimeStep serial L ?x \<lparr>rsManager = snd (Activate p m), rsPending = (rsPending ?x)[0 := fst (Activate p m)]\<rparr>"
    by (rule runtimeStep.activate) simp_all
  with assms have "runtimeReachable serial L \<lparr>rsManager = snd (Activate p m), rsPending = (rsPending ?x)[0 := fst (Activate p m)]\<rparr>"
    by (rule runtimeReachable.step)
  then show ?thesis by simp
qed

lemma Apply_reachable:
  assumes "runtimeReachable serial L y" and "serial \<longrightarrow> list_all spentChange (rsPending y)" and "Apply L now v (rsManager y) = (e, m)"
  obtains ps where "runtimeReachable serial L \<lparr>rsManager = m, rsPending = ps @ rsPending y\<rparr>" "list_all spentChange ps"
    "e \<noteq> None \<Longrightarrow> m = rsManager y"
proof (cases "Prepare L now v (rsManager y)")
  case (Pair x m')
  show thesis
  proof (cases x)
    case (Inl err)
    then have "m' = rsManager y" using Pair by (auto simp: Prepare_def Let_def split: sum.splits)
    with Inl Pair assms(3) have m: "m = rsManager y" by (simp add: Apply_def)
    show thesis using assms(1) by (intro that [of "[]"]) (cases y, simp_all add: m)
  next
    case (Inr p)
    have "runtimeReachable serial L \<lparr>rsManager = m', rsPending = p # rsPending y\<rparr>"
      using Pair Inr assms(2) by (intro runtimeReachable.step [OF assms(1) runtimeStep.prepare]) simp_all
    then have "runtimeReachable serial L \<lparr>rsManager = snd (Activate p m'), rsPending = [fst (Activate p m')] @ rsPending y\<rparr>"
      by (rule activate_first)
    moreover have "list_all spentChange [fst (Activate p m')]" using change.act_spends by simp
    moreover have "e = None" "m = snd (Activate p m')" using Pair Inr assms(3) by (simp_all add: Apply_def)
    ultimately show thesis using that by blast
  qed
qed

lemma ReplaceTokens_reachable:
  assumes "runtimeReachable serial L y" and "serial \<longrightarrow> list_all spentChange (rsPending y)" and "ReplaceTokens ts (rsManager y) = (e, m)"
  obtains ps where "runtimeReachable serial L \<lparr>rsManager = m, rsPending = ps @ rsPending y\<rparr>" "list_all spentChange ps"
    "e \<noteq> None \<Longrightarrow> m = rsManager y"
proof (cases "PrepareTokens ts (rsManager y)")
  case (Inl err)
  with assms(3) have m: "m = rsManager y" by (simp add: ReplaceTokens_def)
  show thesis using assms(1) by (intro that [of "[]"]) (cases y, simp_all add: m)
next
  case (Inr p)
  have "runtimeReachable serial L \<lparr>rsManager = rsManager y, rsPending = p # rsPending y\<rparr>"
    using runtimeReachable.step [OF assms(1) runtimeStep.prepare_tokens [OF assms(2) Inr]] by (cases y) simp
  then have "runtimeReachable serial L \<lparr>rsManager = snd (Activate p (rsManager y)), rsPending = [fst (Activate p (rsManager y))] @ rsPending y\<rparr>"
    by (rule activate_first)
  moreover have "list_all spentChange [fst (Activate p (rsManager y))]" using change.act_spends by simp
  moreover have "e = None" "m = snd (Activate p (rsManager y))" using Inr assms(3) by (simp_all add: ReplaceTokens_def)
  ultimately show thesis using that by blast
qed

text \<open>A closed module serves no database and has no current service.\<close>

lemma moduleClose_ends:
  assumes "moduleClose fails closing md = (e, md')"
  shows "rmCurrent (mdManager md') = None" "mdGeoIP md' = Some g \<Longrightarrow> stReader g = None \<or> (\<exists>g0. mdGeoIP md = Some g0 \<and> stClosed g0)"
  using assms by (auto simp: moduleClose_def closeManager_def closeStore_def closeReader_def closeTake_def closeService_def split: option.splits)

end
