(* ===== verification/Mux.thy ===== *)
theory Mux
  imports GoStrings
begin

section \<open>Routing: what the server uses of \<open>net/http.ServeMux\<close>\<close>

text \<open>
  Patterns are the texts the code registers: a method or none, then a path whose segments are literals,
  one \<open>{id}\<close>, \<open>{$}\<close>, or a trailing slash that matches every rest. A pattern list is searched the way the
  mux walks its tree: at each segment a literal wins over \<open>{id}\<close>, which wins over a trailing slash, and
  patterns with the request's method are tried before those without one. No pattern names a host.
\<close>

datatype segment = Literal bytes | Wildcard | Multi

type_synonym 'h pattern = "bytes \<times> segment list \<times> 'h"

subsection \<open>Patterns\<close>

text \<open>\<open>{$}\<close> matches the slash that ends a path; \<open>parsePattern\<close> gives the method and the segments.\<close>

definition segmentOf :: "bytes \<Rightarrow> segment" where
  "segmentOf s = (if s = ''{$}'' then Literal ''/'' else if HasPrefix s ''{'' then Wildcard else Literal s)"

fun parseSegments :: "bytes list \<Rightarrow> segment list" where
  "parseSegments [] = []"
| "parseSegments [s] = [if s = [] then Multi else segmentOf s]"
| "parseSegments (s # t # ss) = segmentOf s # parseSegments (t # ss)"

definition parsePattern :: "bytes \<Rightarrow> bytes \<times> segment list" where
  "parsePattern s =
     (case Split CHR '' '' s of
        verb # path # _ \<Rightarrow> (verb, parseSegments (tl (Split CHR ''/'' path)))
      | _ \<Rightarrow> ([], parseSegments (tl (Split CHR ''/'' s))))"

definition HandleFunc :: "(bytes \<times> 'h) list \<Rightarrow> 'h pattern list" where
  "HandleFunc routes = map (\<lambda>(pattern, handler). (fst (parsePattern pattern), snd (parsePattern pattern), handler)) routes"

subsection \<open>Paths\<close>

fun unescape :: "bytes \<Rightarrow> bytes option" where
  "unescape [] = Some []"
| "unescape (c # s) =
     (if c \<noteq> CHR ''%'' then map_option ((#) c) (unescape s)
      else (case s of
              a # b # t \<Rightarrow>
                (case (hexVal a, hexVal b) of
                   (Some x, Some y) \<Rightarrow> map_option ((#) (byte (16 * x + y))) (unescape t)
                 | _ \<Rightarrow> None)
            | _ \<Rightarrow> None))"

definition pathUnescape :: "bytes \<Rightarrow> bytes" where
  "pathUnescape s = (case unescape s of None \<Rightarrow> s | Some t \<Rightarrow> t)"

text \<open>The segments of a path that starts with a slash; a slash at the end is a segment of its own.\<close>

fun segmentsOf :: "bytes list \<Rightarrow> bytes list" where
  "segmentsOf [] = []"
| "segmentsOf [s] = [if s = [] then ''/'' else pathUnescape s]"
| "segmentsOf (s # t # ss) = pathUnescape s # segmentsOf (t # ss)"

definition pathSegments :: "bytes \<Rightarrow> bytes list" where
  "pathSegments path = (if path = [] then [] else segmentsOf (Split CHR ''/'' (tl path)))"

text \<open>\<open>path.Clean\<close> of a rooted path, and \<open>cleanPath\<close>, which keeps a slash at the end.\<close>

fun cleanSegments :: "bytes list \<Rightarrow> bytes list \<Rightarrow> bytes list" where
  "cleanSegments acc [] = acc"
| "cleanSegments acc (s # ss) =
     (if s = [] \<or> s = ''.'' then cleanSegments acc ss
      else if s = ''..'' then cleanSegments (butlast acc) ss
      else cleanSegments (acc @ [s]) ss)"

definition pathClean :: "bytes \<Rightarrow> bytes" where
  "pathClean p =
     (let ss = cleanSegments [] (Split CHR ''/'' p)
      in if ss = [] then ''/'' else concat (map (\<lambda>s. CHR ''/'' # s) ss))"

definition cleanPath :: "bytes \<Rightarrow> bytes" where
  "cleanPath p =
     (if p = [] then ''/''
      else (let p = (if hd p \<noteq> CHR ''/'' then CHR ''/'' # p else p); np = pathClean p
            in if last p = CHR ''/'' \<and> np \<noteq> ''/'' then np @ ''/'' else np))"

subsection \<open>The search\<close>

text \<open>What is left of the patterns whose next segment is the given one, with the whole pattern beside it.\<close>

definition childrenOf :: "segment \<Rightarrow> (segment list \<times> 'p) list \<Rightarrow> (segment list \<times> 'p) list" where
  "childrenOf s ps = map (\<lambda>(ss, p). (tl ss, p)) (filter (\<lambda>(ss, _). ss \<noteq> [] \<and> hd ss = s) ps)"

definition firstPattern :: "(segment list \<times> 'p) list \<Rightarrow> bytes list \<Rightarrow> ('p \<times> bytes list) option" where
  "firstPattern ps taken = (case ps of [] \<Rightarrow> None | (_, p) # _ \<Rightarrow> Some (p, taken))"

definition orElse :: "'a option \<Rightarrow> 'a option \<Rightarrow> 'a option" where
  "orElse x y = (case x of None \<Rightarrow> y | Some _ \<Rightarrow> x)"

text \<open>\<open>matchPath\<close>: \<open>taken\<close> are what the wildcards have taken so far.\<close>

fun matchPath :: "(segment list \<times> 'p) list \<Rightarrow> bytes list \<Rightarrow> bytes list \<Rightarrow> ('p \<times> bytes list) option" where
  "matchPath ps taken [] = firstPattern (filter (\<lambda>(ss, _). ss = []) ps) taken"
| "matchPath ps taken (seg # rest) =
     orElse (matchPath (childrenOf (Literal seg) ps) taken rest)
       (orElse (if seg \<noteq> ''/'' then matchPath (childrenOf Wildcard ps) (taken @ [seg]) rest else None)
          (firstPattern (childrenOf Multi ps) taken))"

definition ofMethod :: "bytes \<Rightarrow> 'h pattern list \<Rightarrow> (segment list \<times> segment list \<times> 'h) list" where
  "ofMethod verb ps = map (\<lambda>(_, ss, h). (ss, ss, h)) (filter (\<lambda>(m, _). m = verb) ps)"

text \<open>\<open>matchMethodAndPath\<close>; a \<open>GET\<close> pattern serves \<open>HEAD\<close> too.\<close>

definition matchMethod :: "'h pattern list \<Rightarrow> bytes \<Rightarrow> bytes \<Rightarrow> ((segment list \<times> 'h) \<times> bytes list) option" where
  "matchMethod ps verb path =
     (let segs = pathSegments path; find = (\<lambda>m. matchPath (ofMethod m ps) [] segs)
      in orElse (find verb) (orElse (if verb = ''HEAD'' then find ''GET'' else None) (find [])))"

definition exactMatch :: "((segment list \<times> 'h) \<times> bytes list) option \<Rightarrow> bytes \<Rightarrow> bool" where
  "exactMatch x path =
     (case x of
        None \<Rightarrow> False
      | Some ((ss, _), _) \<Rightarrow>
          if last ss \<noteq> Multi then True
          else if path \<noteq> [] \<and> last path \<noteq> CHR ''/'' then False
          else length ss = count_list path (CHR ''/''))"

text \<open>
  \<open>findHandler\<close>: \<open>escaped\<close> is the path as sent, \<open>path\<close> its decoded form. A redirect is given by its
  target; \<open>MuxNotAllowed\<close> is the answer when only patterns of other methods match.
\<close>

datatype 'h muxAnswer = MuxHandle 'h "bytes list" | MuxRedirect bytes | MuxNotAllowed | MuxNotFound

definition slashRedirect :: "'h pattern list \<Rightarrow> bytes \<Rightarrow> bytes \<Rightarrow> bool" where
  "slashRedirect ps verb p \<longleftrightarrow> \<not> exactMatch (matchMethod ps verb p) p \<and> \<not> HasSuffix p ''/'' \<and>
     exactMatch (matchMethod ps verb (p @ ''/'')) (p @ ''/'')"

definition methodMatches :: "'h pattern list \<Rightarrow> bytes \<Rightarrow> bool" where
  "methodMatches ps p = list_ex (\<lambda>(m, _). m \<noteq> [] \<and> matchPath (ofMethod m ps) [] (pathSegments p) \<noteq> None) ps"

definition findHandler :: "'h pattern list \<Rightarrow> bytes \<Rightarrow> bytes \<Rightarrow> bytes \<Rightarrow> 'h muxAnswer" where
  "findHandler ps verb escaped path =
     (let p = (if verb = ''CONNECT'' then escaped else cleanPath escaped)
      in if slashRedirect ps verb p then MuxRedirect (cleanPath path @ ''/'')
         else if p \<noteq> escaped then MuxRedirect p
         else (case matchMethod ps verb p of
                 Some ((_, h), taken) \<Rightarrow> MuxHandle h taken
               | None \<Rightarrow>
                   if methodMatches ps p \<or> \<not> HasSuffix p ''/'' \<and> methodMatches ps (p @ ''/'') then MuxNotAllowed else MuxNotFound))"

subsection \<open>What the search finds\<close>

text \<open>The pattern language without the search: whether a pattern matches, and what its wildcard takes.\<close>

fun segMatch :: "segment list \<Rightarrow> bytes list \<Rightarrow> bool" where
  "segMatch [] segs = (segs = [])"
| "segMatch (Literal s # ss) segs = (case segs of [] \<Rightarrow> False | x # xs \<Rightarrow> x = s \<and> segMatch ss xs)"
| "segMatch (Wildcard # ss) segs = (case segs of [] \<Rightarrow> False | x # xs \<Rightarrow> x \<noteq> ''/'' \<and> segMatch ss xs)"
| "segMatch (Multi # ss) segs = (segs \<noteq> [])"

fun segValues :: "segment list \<Rightarrow> bytes list \<Rightarrow> bytes list" where
  "segValues (Literal s # ss) (x # xs) = segValues ss xs"
| "segValues (Wildcard # ss) (x # xs) = x # segValues ss xs"
| "segValues ss segs = []"

lemma orElse_Some: "orElse x y = Some z \<longleftrightarrow> x = Some z \<or> x = None \<and> y = Some z"
  by (auto simp: orElse_def split: option.split)

lemma orElse_None: "orElse x y = None \<longleftrightarrow> x = None \<and> y = None"
  by (simp add: orElse_def split: option.split)

lemma firstPattern_Some: "firstPattern ps taken = Some (p, vs) \<Longrightarrow> vs = taken \<and> (\<exists>ss. (ss, p) \<in> set ps)"
  by (auto simp: firstPattern_def split: list.splits)

lemma firstPattern_None: "firstPattern ps taken = None \<longleftrightarrow> ps = []"
  by (auto simp: firstPattern_def split: list.splits)

lemma childrenOf_iff: "(ss, p) \<in> set (childrenOf s ps) \<longleftrightarrow> (s # ss, p) \<in> set ps"
  by (force simp: childrenOf_def)

lemma matchPath_sound:
  assumes "matchPath ps taken segs = Some (p, vs)"
  shows "\<exists>ss. (ss, p) \<in> set ps \<and> segMatch ss segs \<and> vs = taken @ segValues ss segs"
  using assms
proof (induction segs arbitrary: ps taken)
  case Nil
  then show ?case using firstPattern_Some by fastforce
next
  case (Cons seg rest)
  then consider (literal) "matchPath (childrenOf (Literal seg) ps) taken rest = Some (p, vs)"
    | (wild) "seg \<noteq> ''/''" "matchPath (childrenOf Wildcard ps) (taken @ [seg]) rest = Some (p, vs)"
    | (multi) "firstPattern (childrenOf Multi ps) taken = Some (p, vs)"
    by (auto simp: orElse_Some split: if_splits)
  then show ?case
  proof cases
    case literal
    from Cons.IH [OF this] obtain ss where "(ss, p) \<in> set (childrenOf (Literal seg) ps)" "segMatch ss rest" "vs = taken @ segValues ss rest"
      by blast
    then show ?thesis by (intro exI [of _ "Literal seg # ss"]) (simp add: childrenOf_iff)
  next
    case wild
    from Cons.IH [OF this(2)] obtain ss where "(ss, p) \<in> set (childrenOf Wildcard ps)" "segMatch ss rest"
      "vs = (taken @ [seg]) @ segValues ss rest" by blast
    with wild(1) show ?thesis by (intro exI [of _ "Wildcard # ss"]) (simp add: childrenOf_iff)
  next
    case multi
    from firstPattern_Some [OF this] obtain ss where "(ss, p) \<in> set (childrenOf Multi ps)" "vs = taken" by blast
    then show ?thesis by (intro exI [of _ "Multi # ss"]) (simp add: childrenOf_iff)
  qed
qed

lemma matchPath_complete: "(ss, p) \<in> set ps \<Longrightarrow> segMatch ss segs \<Longrightarrow> matchPath ps taken segs \<noteq> None"
proof (induction segs arbitrary: ps ss taken)
  case Nil
  then have "ss = []" by (cases ss; cases "hd ss") auto
  with Nil(1) show ?case by (auto simp: firstPattern_None filter_empty_conv)
next
  case (Cons seg rest)
  show ?case
  proof (cases ss)
    case (Cons s ts)
    show ?thesis
    proof (cases s)
      case (Literal x)
      with Cons.prems Cons have "(ts, p) \<in> set (childrenOf (Literal seg) ps)" "segMatch ts rest" by (simp_all add: childrenOf_iff)
      from Cons.IH [OF this] show ?thesis by (simp add: orElse_None)
    next
      case Wildcard
      with Cons.prems Cons have "(ts, p) \<in> set (childrenOf Wildcard ps)" "segMatch ts rest" "seg \<noteq> ''/''" by (simp_all add: childrenOf_iff)
      with Cons.IH [OF this(1,2)] show ?thesis by (simp add: orElse_None)
    next
      case Multi
      with Cons.prems Cons have "childrenOf Multi ps \<noteq> []" using childrenOf_iff [of ts p Multi ps] by auto
      then show ?thesis by (simp add: orElse_None firstPattern_None)
    qed
  qed (use Cons.prems in simp)
qed

text \<open>The pattern found matches; one without a method is found only where no pattern of the method matches.\<close>

definition servesMethod :: "bytes \<Rightarrow> bytes \<Rightarrow> bool" where
  "servesMethod m verb \<longleftrightarrow> m = verb \<or> verb = ''HEAD'' \<and> m = ''GET''"

lemma ofMethod_iff: "(ss, p) \<in> set (ofMethod m ps) \<longleftrightarrow> (\<exists>h. p = (ss, h) \<and> (m, ss, h) \<in> set ps)"
  by (force simp: ofMethod_def)

lemma ofMethod_search:
  assumes "matchPath (ofMethod m ps) [] segs = Some ((ss, h), vs)"
  shows "(m, ss, h) \<in> set ps \<and> segMatch ss segs \<and> vs = segValues ss segs"
proof -
  obtain ts where "(ts, (ss, h)) \<in> set (ofMethod m ps)" "segMatch ts segs" "vs = [] @ segValues ts segs"
    using matchPath_sound [OF assms] by blast
  then show ?thesis by (auto simp: ofMethod_iff)
qed

lemma ofMethod_none: "matchPath (ofMethod m ps) [] segs = None \<Longrightarrow> (m, ss, h) \<in> set ps \<Longrightarrow> \<not> segMatch ss segs"
  using matchPath_complete [of ss "(ss, h)" "ofMethod m ps" segs "[]"] by (auto simp: ofMethod_iff)

lemma matchMethod_sound:
  assumes "matchMethod ps verb path = Some ((ss, h), vs)"
  shows "\<exists>m. (m, ss, h) \<in> set ps \<and> segMatch ss (pathSegments path) \<and> vs = segValues ss (pathSegments path) \<and>
    (servesMethod m verb \<or> m = [] \<and> (\<forall>m' ss' h'. (m', ss', h') \<in> set ps \<and> servesMethod m' verb \<longrightarrow> \<not> segMatch ss' (pathSegments path)))"
proof -
  let ?find = "\<lambda>m. matchPath (ofMethod m ps) [] (pathSegments path)"
  consider (own) "?find verb = Some ((ss, h), vs)" | (get) "verb = ''HEAD''" "?find ''GET'' = Some ((ss, h), vs)"
    | (any) "?find verb = None" "verb = ''HEAD'' \<longrightarrow> ?find ''GET'' = None" "?find [] = Some ((ss, h), vs)"
    using assms by (auto simp: matchMethod_def orElse_Some orElse_None Let_def split: if_splits)
  then show ?thesis
  proof cases
    case own
    from ofMethod_search [OF this] show ?thesis by (auto simp: servesMethod_def)
  next
    case get
    from ofMethod_search [OF this(2)] get(1) show ?thesis by (auto simp: servesMethod_def)
  next
    case any
    from ofMethod_search [OF any(3)] any(1,2) ofMethod_none [of _ ps "pathSegments path"] show ?thesis
      by (auto simp: servesMethod_def)
  qed
qed

lemma matchMethod_complete:
  assumes "(m, ss, h) \<in> set ps" and "segMatch ss (pathSegments path)" and "servesMethod m verb \<or> m = []"
  shows "matchMethod ps verb path \<noteq> None"
proof -
  have "matchPath (ofMethod m ps) [] (pathSegments path) \<noteq> None" using ofMethod_none [OF _ assms(1)] assms(2) by blast
  with assms(3) show ?thesis by (auto simp: matchMethod_def orElse_None servesMethod_def Let_def)
qed

lemma findHandler_handles:
  assumes "findHandler ps verb escaped path = MuxHandle h vs"
  obtains ss where "matchMethod ps verb escaped = Some ((ss, h), vs)" "verb \<noteq> ''CONNECT'' \<Longrightarrow> cleanPath escaped = escaped"
  using assms by (auto simp: findHandler_def Let_def split: if_splits option.splits)

lemma findHandler_cases:
  obtains (redirect) q where "findHandler ps verb escaped path = MuxRedirect q"
  | (handles) h vs where "findHandler ps verb escaped path = MuxHandle h vs"
  | (unmatched) "verb = ''CONNECT'' \<or> cleanPath escaped = escaped" "matchMethod ps verb escaped = None"
proof -
  define p where "p = (if verb = ''CONNECT'' then escaped else cleanPath escaped)"
  show thesis
  proof (cases "slashRedirect ps verb p \<or> p \<noteq> escaped")
    case True
    then have "\<exists>q. findHandler ps verb escaped path = MuxRedirect q" by (auto simp: findHandler_def Let_def simp flip: p_def)
    with redirect show thesis by blast
  next
    case False
    show thesis
    proof (cases "matchMethod ps verb escaped")
      case None
      with False unmatched show thesis by (auto simp: p_def split: if_splits)
    next
      case (Some x)
      with False have "findHandler ps verb escaped path = MuxHandle (snd (fst x)) (snd x)"
        by (auto simp: findHandler_def Let_def split_beta simp flip: p_def)
      with handles show thesis by blast
    qed
  qed
qed

lemma findHandler_exact:
  assumes "cleanPath escaped = escaped" and "matchMethod ps verb escaped = Some ((ss, h), vs)" and "last ss \<noteq> Multi"
  shows "findHandler ps verb escaped path = MuxHandle h vs"
  using assms by (simp add: findHandler_def slashRedirect_def exactMatch_def Let_def)

subsection \<open>Shapes of paths and patterns\<close>

lemma childrenOf_simps:
  "childrenOf s [] = []"
  "childrenOf s ((ss, p) # ps) = (if ss \<noteq> [] \<and> hd ss = s then (tl ss, p) # childrenOf s ps else childrenOf s ps)"
  by (simp_all add: childrenOf_def)

lemma matchPath_Nil: "matchPath [] taken segs = None"
  by (induction segs arbitrary: taken) (simp_all add: childrenOf_simps orElse_def firstPattern_def)

lemma Split_snoc: "Split c (s @ [c]) = Split c s @ [[]]"
proof (induction s)
  case (Cons x xs)
  then show ?case by (cases "Split c xs") simp_all
qed simp

lemma segmentsOf_snoc: "ss \<noteq> [] \<Longrightarrow> last (segmentsOf (ss @ [[]])) = ''/'' \<and> segmentsOf (ss @ [[]]) \<noteq> []"
  by (induction ss rule: segmentsOf.induct) auto

lemma pathSegments_slash: "p \<noteq> [] \<Longrightarrow> last (pathSegments (p @ ''/'')) = ''/'' \<and> pathSegments (p @ ''/'') \<noteq> []"
  using segmentsOf_snoc [OF Split_not_Nil, of "CHR ''/''" "tl p"] by (simp add: pathSegments_def Split_snoc)

lemma segmentsOf_length: "length (segmentsOf ss) = length ss"
  by (induction ss rule: segmentsOf.induct) simp_all

lemma Split_count: "length (Split c s) = Suc (count_list s c)"
proof (induction s)
  case (Cons x xs)
  then show ?case by (cases "Split c xs") auto
qed simp

lemma pathSegments_length: "p \<noteq> [] \<Longrightarrow> length (pathSegments p) = Suc (count_list (tl p) (CHR ''/''))"
  by (simp add: pathSegments_def segmentsOf_length Split_count)

fun literals :: "segment list \<Rightarrow> bytes list option" where
  "literals [] = Some []"
| "literals (Literal s # ss) = map_option ((#) s) (literals ss)"
| "literals (_ # ss) = None"

lemma segMatch_literals: "literals ss = Some xs \<Longrightarrow> segMatch ss segs \<longleftrightarrow> segs = xs"
  by (induction ss arbitrary: xs segs rule: literals.induct) (auto split: list.split)

text \<open>Two patterns that no path matches both of.\<close>

fun apart :: "segment list \<Rightarrow> segment list \<Rightarrow> bool" where
  "apart [] ts = (ts \<noteq> [])"
| "apart (s # ss) [] = True"
| "apart (Multi # ss) (t # ts) = False"
| "apart (s # ss) (Multi # ts) = False"
| "apart (Literal x # ss) (Literal y # ts) = (x \<noteq> y \<or> apart ss ts)"
| "apart (Literal x # ss) (Wildcard # ts) = (x = ''/'' \<or> apart ss ts)"
| "apart (Wildcard # ss) (Literal y # ts) = (y = ''/'' \<or> apart ss ts)"
| "apart (Wildcard # ss) (Wildcard # ts) = apart ss ts"

lemma apart_disjoint: "apart ss ts \<Longrightarrow> segMatch ss segs \<Longrightarrow> \<not> segMatch ts segs"
proof (induction ss ts arbitrary: segs rule: apart.induct)
  case (1 ts)
  then show ?case by (cases ts; cases "hd ts") auto
next
  case (2 s ss)
  then show ?case by (cases s) auto
qed (auto split: list.splits)

end
