(* ===== verification/WeatherJson.thy ===== *)
theory WeatherJson
  imports Runtime
begin

section \<open>JSON of the device responses: the field tags of \<open>model.go\<close> and \<open>location.go\<close>\<close>

text \<open>
  One encoder per Go struct of \<open>internal/modules/weather/model.go\<close> and
  \<open>internal/modules/location/location.go\<close>: the fields in order, under their tags, with \<open>omitempty\<close>
  dropping empty strings and nil pointers.
\<close>

definition omitStr :: "bytes \<Rightarrow> bytes \<Rightarrow> (bytes \<times> json) list" where
  "omitStr k v = (if v = [] then [] else [(k, JStr v)])"

definition omitFloat :: "bytes \<Rightarrow> float64 option \<Rightarrow> (bytes \<times> json) list" where
  "omitFloat k v = (case v of None \<Rightarrow> [] | Some x \<Rightarrow> [(k, JFloat x)])"

definition omitTime :: "bytes \<Rightarrow> time option \<Rightarrow> (bytes \<times> json) list" where
  "omitTime k v = (case v of None \<Rightarrow> [] | Some x \<Rightarrow> [(k, JTime x)])"

definition omitInt :: "bytes \<Rightarrow> int option \<Rightarrow> (bytes \<times> json) list" where
  "omitInt k v = (case v of None \<Rightarrow> [] | Some x \<Rightarrow> [(k, JInt x)])"

definition sourceJSON :: "WeatherSource \<Rightarrow> json" where
  "sourceJSON s = JObj [(''id'', JStr (wsID s)), (''name'', JStr (wsName s)), (''attribution_url'', JStr (wsAttributionURL s))]"

definition publicLocationJSON :: "PublicLocation \<Rightarrow> json" where
  "publicLocationJSON l = JObj (omitStr ''city'' (plCity l) @ omitStr ''district'' (plDistrict l) @
     omitStr ''region'' (plRegion l) @ omitStr ''country'' (plCountry l) @ omitStr ''timezone'' (plTimezone l) @
     [(''source'', JStr (plSource l)), (''provider'', JStr (plProvider l)), (''precision'', JStr (plPrecision l))] @
     omitStr ''location_key'' (plLocationKey l))"

definition currentJSON :: "Current \<Rightarrow> json" where
  "currentJSON c = JObj ([(''observed_at'', JTime (cuObservedAt c)), (''temperature_c'', JFloat (cuTemperatureC c)),
     (''feels_like_c'', JFloat (cuFeelsLikeC c)), (''condition_code'', JStr (cuConditionCode c)),
     (''condition_text'', JStr (cuConditionText c)), (''wind_degrees'', JFloat (cuWindDegrees c)),
     (''wind_direction'', JStr (cuWindDirection c)), (''wind_scale'', JStr (cuWindScale c)),
     (''wind_speed_kmh'', JFloat (cuWindSpeedKMH c)), (''humidity_percent'', JFloat (cuHumidityPercent c)),
     (''precipitation_mm'', JFloat (cuPrecipitationMM c)), (''pressure_hpa'', JFloat (cuPressureHPA c)),
     (''visibility_km'', JFloat (cuVisibilityKM c))] @
     omitFloat ''cloud_percent'' (cuCloudPercent c) @ omitFloat ''dew_point_c'' (cuDewPointC c))"

definition hourJSON :: "Hour \<Rightarrow> json" where
  "hourJSON h = JObj ([(''forecast_at'', JTime (hoForecastAt h)), (''temperature_c'', JFloat (hoTemperatureC h)),
     (''condition_code'', JStr (hoConditionCode h)), (''condition_text'', JStr (hoConditionText h)),
     (''wind_degrees'', JFloat (hoWindDegrees h)), (''wind_direction'', JStr (hoWindDirection h)),
     (''wind_scale'', JStr (hoWindScale h)), (''wind_speed_kmh'', JFloat (hoWindSpeedKMH h)),
     (''humidity_percent'', JFloat (hoHumidityPercent h)), (''precipitation_chance_percent'', JFloat (hoPrecipitationChance h)),
     (''precipitation_mm'', JFloat (hoPrecipitationMM h)), (''pressure_hpa'', JFloat (hoPressureHPA h))] @
     omitFloat ''cloud_percent'' (hoCloudPercent h) @ omitFloat ''dew_point_c'' (hoDewPointC h))"

definition dayJSON :: "Day \<Rightarrow> json" where
  "dayJSON d = JObj ([(''date'', JStr (dyDate d))] @ omitTime ''sunrise'' (dySunrise d) @ omitTime ''sunset'' (dySunset d) @
     omitTime ''moonrise'' (dyMoonrise d) @ omitTime ''moonset'' (dyMoonset d) @
     omitStr ''moon_phase'' (dyMoonPhase d) @ omitStr ''moon_phase_code'' (dyMoonPhaseCode d) @
     [(''temperature_max_c'', JFloat (dyTemperatureMaxC d)), (''temperature_min_c'', JFloat (dyTemperatureMinC d)),
      (''condition_day_code'', JStr (dyConditionDayCode d)), (''condition_day_text'', JStr (dyConditionDayText d)),
      (''condition_night_code'', JStr (dyConditionNightCode d)), (''condition_night_text'', JStr (dyConditionNightText d)),
      (''wind_day_degrees'', JFloat (dyWindDayDegrees d)), (''wind_day_direction'', JStr (dyWindDayDirection d)),
      (''wind_day_scale'', JStr (dyWindDayScale d)), (''wind_day_speed_kmh'', JFloat (dyWindDaySpeedKMH d)),
      (''wind_night_degrees'', JFloat (dyWindNightDegrees d)), (''wind_night_direction'', JStr (dyWindNightDirection d)),
      (''wind_night_scale'', JStr (dyWindNightScale d)), (''wind_night_speed_kmh'', JFloat (dyWindNightSpeedKMH d)),
      (''humidity_percent'', JFloat (dyHumidityPercent d)), (''precipitation_mm'', JFloat (dyPrecipitationMM d)),
      (''pressure_hpa'', JFloat (dyPressureHPA d)), (''visibility_km'', JFloat (dyVisibilityKM d))] @
     omitFloat ''cloud_percent'' (dyCloudPercent d) @ [(''uv_index'', JFloat (dyUVIndex d))])"

definition alertJSON :: "Alert \<Rightarrow> json" where
  "alertJSON a = JObj ([(''id'', JStr (alID a)), (''title'', JStr (alTitle a))] @
     omitStr ''issuing_authority'' (alIssuingAuthority a) @
     [(''type_code'', JStr (alTypeCode a)), (''type_name'', JStr (alTypeName a)), (''severity'', JStr (alSeverity a)),
      (''status'', JStr (alStatus a)), (''issued_at'', JTime (alIssuedAt a))] @
     omitTime ''starts_at'' (alStartsAt a) @ omitTime ''ends_at'' (alEndsAt a) @
     [(''urgency'', JStr (alUrgency a)), (''certainty'', JStr (alCertainty a))] @
     omitStr ''description'' (alDescription a) @ omitStr ''instruction'' (alInstruction a) @
     [(''content_truncated'', JBool (alContentTruncated a))])"

definition alertsJSON :: "Alerts \<Rightarrow> json" where
  "alertsJSON a = JObj (omitStr ''detail_url'' (asDetailURL a) @
     [(''truncated'', JBool (asTruncated a)), (''items'', JArr (map alertJSON (asItems a)))])"

fun datasetJSON :: "dataset \<Rightarrow> json" where
  "datasetJSON DNone = JNull"
| "datasetJSON (DCurrent c) = currentJSON c"
| "datasetJSON (DHourly hs) = JObj [(''hours'', JArr (map hourJSON hs))]"
| "datasetJSON (DDaily ds) = JObj [(''days'', JArr (map dayJSON ds))]"
| "datasetJSON (DAlerts a) = alertsJSON a"

text \<open>The service fills \<open>SchemaVersion\<close> with the constant 1.\<close>

definition envelopeJSON :: "Envelope \<Rightarrow> json" where
  "envelopeJSON e = JObj [(''schema_version'', JInt 1), (''source'', sourceJSON (evSource e)),
     (''location'', publicLocationJSON (evLocation e)), (''fetched_at'', JTime (evFetchedAt e)),
     (''updated_at'', JTime (evUpdatedAt e)), (''valid_until'', JTime (evValidUntil e)),
     (''stale'', JBool (evStale e)), (''data'', datasetJSON (evData e))]"

definition verificationJSON :: "Verification \<Rightarrow> json" where
  "verificationJSON v = JObj [(''source'', sourceJSON (vfSource v)), (''location'', publicLocationJSON (vfLocation v)),
     (''tested_at'', JTime (vfTestedAt v)), (''updated_at'', JTime (vfUpdatedAt v)), (''data'', currentJSON (vfData v))]"

record locationResponse =
  lrLocation :: PublicLocation
  lrAccuracyRadiusKm :: "int option"
  lrLocalization :: "WeatherSource option"

definition locationJSON :: "locationResponse \<Rightarrow> json" where
  "locationJSON v = JObj ([(''schema_version'', JInt 1), (''location'', publicLocationJSON (lrLocation v))] @
     omitInt ''accuracy_radius_km'' (lrAccuracyRadiusKm v) @
     (case lrLocalization v of None \<Rightarrow> [] | Some s \<Rightarrow> [(''localization'', sourceJSON s)]))"

lemma omitStr_inject: "omitStr k v = omitStr k w \<longleftrightarrow> v = w"
  by (auto simp: omitStr_def)

end
