(* ===== verification/DeviceApi.thy ===== *)
theory DeviceApi
  imports WeatherJson Mux
begin

section \<open>The device API: \<open>internal/modules/weather/module.go\<close>, \<open>internal/modules/location/location.go\<close>\<close>

text \<open>
  The handlers behind device authentication, and \<open>deviceServe\<close>, a whole device request: dispatch
  through the live runtime, authentication, routing and the handler. The outcome of the cache's
  \<open>Get\<close> (the subject of \<open>WeatherCache\<close>) and of the upstream lookup \<open>Localize\<close> are arguments. A
  response \<open>None\<close> is a panic of the handler, which the middleware of \<open>HttpApi\<close> answers.
\<close>

datatype getResult = GotEnvelope Envelope | GetTimedOut | GetFailed

text \<open>Both limiters of the runtime, as the handlers update them.\<close>

record limiters =
  lmChange :: ChangeLimiter
  lmLocalize :: LocalizeLimiter

definition noMetadata :: LocalizedMetadata where
  "noMetadata = \<lparr>lmCity = [], lmDistrict = [], lmRegion = [], lmTimezone = []\<rparr>"

definition localizeAttempt :: "time \<Rightarrow> (Point \<Rightarrow> LocalizedMetadata option) \<Rightarrow> bytes \<Rightarrow> Point \<Rightarrow> LocalizeLimiter \<Rightarrow>
    LocalizedMetadata \<times> LocalizeLimiter" where
  "localizeAttempt now localize deviceID point l =
     (case Try l now deviceID of
        (None, l) \<Rightarrow> (noMetadata, l)
      | (Some h, l) \<Rightarrow>
          (case localize point of
             None \<Rightarrow> (noMetadata, release h l)
           | Some metadata \<Rightarrow> (metadata, release h l)))"

definition locationError :: "request \<Rightarrow> locErr \<Rightarrow> response" where
  "locationError r e =
     (case e of
        ErrPartial \<Rightarrow> WriteError r 400 ''invalid_location'' ''device location headers must be provided all together or not at all''
      | ErrInvalid \<Rightarrow> WriteError r 400 ''invalid_location'' ''device location headers are invalid''
      | _ \<Rightarrow> WriteError r 503 ''location_unavailable'' ''device location could not be determined'')"

definition weatherLocationError :: "request \<Rightarrow> locErr \<Rightarrow> response" where
  "weatherLocationError r e =
     (case e of
        ErrRequired \<Rightarrow> WriteError r 400 ''location_required'' ''device location headers are required''
      | _ \<Rightarrow> locationError r e)"

definition retrySeconds :: "duration \<Rightarrow> int" where
  "retrySeconds retry = (retry + second - 1) div second"

text \<open>
  \<open>handle\<close> of the weather module. \<open>now\<close> and \<open>now'\<close> are the readings of the two limiters' clocks. The
  localisation goroutine is joined on every path before the handler returns.
\<close>

definition weatherHandle :: "golib \<Rightarrow> time \<Rightarrow> time \<Rightarrow> resolveFault Source \<Rightarrow> (Point \<Rightarrow> LocalizedMetadata option) \<Rightarrow>
    (Kind \<Rightarrow> Point \<Rightarrow> getResult) \<Rightarrow> Kind \<Rightarrow> bytes option \<Rightarrow> request \<Rightarrow> limiters \<Rightarrow> response option \<times> limiters" where
  "weatherHandle L now now' src localize get kind who r m =
     (case who of
        None \<Rightarrow> (Some (WriteError r 401 ''unauthorized'' ''authentication required''), m)
      | Some deviceID \<Rightarrow>
          (case runtimeEffective L src r of
             None \<Rightarrow> (None, m)
           | Some (Inl e) \<Rightarrow> (Some (weatherLocationError r e), m)
           | Some (Inr (point, _)) \<Rightarrow>
               (case Allow (lmChange m) now deviceID (CacheKey point) of
                  ((False, retry), l) \<Rightarrow>
                    (Some (SetHeader ''Retry-After'' (Itoa (retrySeconds retry))
                       (WriteError r 429 ''location_rate_limited'' ''device location changed too frequently'')),
                     m\<lparr>lmChange := l\<rparr>)
                | ((True, _), l) \<Rightarrow>
                    (let m = m\<lparr>lmChange := l\<rparr>;
                         (metadata, ll) = localizeAttempt now' localize deviceID point (lmLocalize m);
                         m = m\<lparr>lmLocalize := ll\<rparr>
                     in (case get kind point of
                           GetTimedOut \<Rightarrow> (Some (WriteError r 504 ''upstream_timeout'' ''weather provider timed out''), m)
                         | GetFailed \<Rightarrow>
                             (Some (WriteError r 503 ''weather_unavailable'' ''weather data is temporarily unavailable''), m)
                         | GotEnvelope envelope \<Rightarrow>
                             (Some (WriteJSON 200
                                (envelopeJSON (envelope\<lparr>evLocation := publicLocation (fst (ApplyLocalized point metadata))\<rparr>))),
                              m))))))"

definition localizationSource :: WeatherSource where
  "localizationSource = \<lparr>wsID = ''qweather'', wsName = ''QWeather'', wsAttributionURL = ''https://www.qweather.com/''\<rparr>"

text \<open>\<open>handle\<close> of the location module.\<close>

definition locationHandle :: "golib \<Rightarrow> time \<Rightarrow> resolveFault Source \<Rightarrow> (Point \<Rightarrow> LocalizedMetadata option) \<Rightarrow>
    bytes option \<Rightarrow> request \<Rightarrow> limiters \<Rightarrow> response option \<times> limiters" where
  "locationHandle L now src localize who r m =
     (case who of
        None \<Rightarrow> (Some (WriteError r 401 ''unauthorized'' ''authentication required''), m)
      | Some deviceID \<Rightarrow>
          (case runtimeEffective L src r of
             None \<Rightarrow> (None, m)
           | Some (Inl e) \<Rightarrow> (Some (locationError r e), m)
           | Some (Inr (point, resolved)) \<Rightarrow>
               (let v = \<lparr>lrLocation = publicLocation point, lrAccuracyRadiusKm = AccuracyKm resolved, lrLocalization = None\<rparr>
                in (case Try (lmLocalize m) now deviceID of
                      (None, l) \<Rightarrow> (Some (WriteJSON 200 (locationJSON v)), m\<lparr>lmLocalize := l\<rparr>)
                    | (Some h, l) \<Rightarrow>
                        (let v = (case localize point of
                             None \<Rightarrow> v
                           | Some metadata \<Rightarrow>
                               (let (point, changed) = ApplyLocalized point metadata
                                in if changed
                                   then v\<lparr>lrLocation := publicLocation point, lrLocalization := Some localizationSource\<rparr>
                                   else v))
                         in (Some (WriteJSON 200 (locationJSON v)), m\<lparr>lmLocalize := release h l\<rparr>))))))"

text \<open>
  The routes of \<open>Prepare\<close>'s mux. Its last pattern takes what the others do not, and the root mux has
  redirected every path that is not clean, so its own answer is always a handler
  (\<open>Server.device_mux_handles\<close>).
\<close>

datatype apiRoute = RouteWeather Kind | RouteLocation | RouteNotFound

definition apiPatterns :: "apiRoute pattern list" where
  "apiPatterns = HandleFunc
     [(''GET /api/v1/weather/current'', RouteWeather KindCurrent), (''GET /api/v1/weather/hourly'', RouteWeather KindHourly),
      (''GET /api/v1/weather/daily'', RouteWeather KindDaily), (''GET /api/v1/weather/alerts'', RouteWeather KindAlerts),
      (''GET /api/v1/location'', RouteLocation), (''/'', RouteNotFound)]"

definition routeOf :: "request \<Rightarrow> apiRoute" where
  "routeOf r =
     (case findHandler apiPatterns (rMethod r) (rEscapedPath r) (rPath r) of MuxHandle route _ \<Rightarrow> route | _ \<Rightarrow> RouteNotFound)"

text \<open>A device request through the live runtime. The handle of the service picks its cache in \<open>get\<close>.\<close>

definition deviceServe :: "golib \<Rightarrow> time \<Rightarrow> time \<Rightarrow> (nat \<Rightarrow> Point \<Rightarrow> LocalizedMetadata option) \<Rightarrow>
    (nat \<Rightarrow> Kind \<Rightarrow> Point \<Rightarrow> getResult) \<Rightarrow> RuntimeManager \<Rightarrow> request \<Rightarrow> response option \<times> RuntimeManager" where
  "deviceServe L now now' localize get m r =
     (case ServeHTTP L m r of
        Inl w \<Rightarrow> (Some w, m)
      | Inr (deviceID, h) \<Rightarrow>
          (let ls = \<lparr>lmChange = rmLimiter m, lmLocalize = rmLocalizeLimiter m\<rparr>;
               (w, ls) = (case routeOf r of
                  RouteWeather kind \<Rightarrow>
                    weatherHandle L now now' (rmSource m) (localize h) (get h) kind (Some deviceID) r ls
                | RouteLocation \<Rightarrow> locationHandle L now' (rmSource m) (localize h) (Some deviceID) r ls
                | RouteNotFound \<Rightarrow> (Some (WriteError r 404 ''not_found'' ''resource not found''), ls))
           in (w, m\<lparr>rmLimiter := lmChange ls, rmLocalizeLimiter := lmLocalize ls\<rparr>)))"

subsection \<open>Budgets\<close>

definition managerInv :: "RuntimeManager \<Rightarrow> bool" where
  "managerInv m \<longleftrightarrow>
     ChangeLimiter_inv locationBurstCapacity (rmLimiter m) \<and> clInterval (rmLimiter m) = locationRefillPeriod \<and>
     LocalizeLimiter_inv localizeBudgetCapacity (rmLocalizeLimiter m) \<and>
     llInterval (rmLocalizeLimiter m) = localizeRefillPeriod \<and>
     llConcurrency (rmLocalizeLimiter m) = nat localizeInFlightMax"

lemmas runtime_limits = locationBurstCapacity_def locationRefillPeriod_def localizeBudgetCapacity_def
  localizeRefillPeriod_def localizeInFlightMax_def minute_def second_def

lemma managerInv_new: "managerInv (NewRuntimeManager geoIP header nets cloudflare)"
proof -
  have "limitsOK 4 300000000000" "limitsOK 20 300000000000" by (simp_all add: limitsOK_def)
  then show ?thesis
    using NewChangeLimiter_inv [of 4 300000000000] NewLocalizeLimiter_inv [of 20 300000000000 4]
    by (simp add: managerInv_def NewRuntimeManager_def runtime_limits NewLocalizeLimiter_def NewChangeLimiter_def)
qed

lemma managerInv_Prepare: "managerInv m \<Longrightarrow> managerInv (snd (Prepare L now v m))"
  by (auto simp: Prepare_def Let_def managerInv_def split: sum.split prod.split)

lemma retain_config [simp]:
  "clInterval (ChangeLimiter_Retain ids l) = clInterval l" "llInterval (LocalizeLimiter_Retain ids k) = llInterval k"
  "llConcurrency (LocalizeLimiter_Retain ids k) = llConcurrency k"
  by (simp_all add: ChangeLimiter_Retain_def LocalizeLimiter_Retain_def)

lemma managerInv_Activate: "managerInv m \<Longrightarrow> managerInv (snd (Activate p m))"
  by (cases "spentChange p")
    (simp_all add: change.act_idle managerInv_def Activate_devices ChangeLimiter_Retain_inv LocalizeLimiter_Retain_inv)

lemma release_config [simp]: "llInterval (release h l) = llInterval l" "llConcurrency (release h l) = llConcurrency l"
  "llDevices (release h l) = llDevices l"
  by (simp_all add: release_def)

text \<open>A lookup takes a slot, asks once and gives the slot back, whatever the outcome.\<close>

lemma Try_release:
  assumes "LocalizeLimiter_inv c l" and "Try l now d = (Some h, l')"
  shows "llHeld (release h l') = llHeld l"
  using Try_held(1) [of l now d h] Try_inv [OF assms(1), of now d] assms
  by (auto simp: release_def LocalizeLimiter_inv_def filter_id_conv)

definition sameLimits :: "bytes \<Rightarrow> LocalizeLimiter \<Rightarrow> LocalizeLimiter \<Rightarrow> bool" where
  "sameLimits d l l' \<longleftrightarrow> llHeld l' = llHeld l \<and> llInterval l' = llInterval l \<and> llConcurrency l' = llConcurrency l \<and>
     (\<forall>d'. d \<noteq> d' \<longrightarrow> map_of (llDevices l') d' = map_of (llDevices l) d')"

lemma Try_fst_snd: "Try l now d = (x, l') \<Longrightarrow> x = fst (Try l now d) \<and> l' = snd (Try l now d)"
  by simp

lemma Try_none:
  assumes "Try l now d = (None, l')" shows "sameLimits d l l'"
proof -
  have l': "l' = snd (Try l now d)" and n: "fst (Try l now d) = None" using assms by simp_all
  have "llHeld l' = llHeld l" unfolding l'
    by (rule Try_cases [where l = l and now = now and d = d]) (use n in simp_all)
  then show ?thesis by (simp add: sameLimits_def l' Try_other)
qed

lemma Try_some:
  assumes "LocalizeLimiter_inv c l" and "Try l now d = (Some h, l')" shows "sameLimits d l (release h l')"
proof -
  have l': "l' = snd (Try l now d)" using assms by simp
  from Try_release [OF assms] show ?thesis by (simp add: sameLimits_def l' Try_other)
qed

lemma localizeAttempt_limits:
  assumes "LocalizeLimiter_inv c l"
  shows "sameLimits d l (snd (localizeAttempt now localize d p l)) \<and>
    LocalizeLimiter_inv c (snd (localizeAttempt now localize d p l))"
proof (cases "Try l now d")
  case (Pair x l')
  have inv: "LocalizeLimiter_inv c l'" using Try_inv [OF assms, of now d] Pair by simp
  show ?thesis
  proof (cases x)
    case None
    with Pair inv Try_none [of l now d l'] show ?thesis by (simp add: localizeAttempt_def)
  next
    case (Some h)
    with Pair inv Try_some [OF assms, of now d h l'] release_inv [OF inv, of h] show ?thesis
      by (simp add: localizeAttempt_def split: option.split)
  qed
qed

lemma locationHandle_limits:
  assumes "LocalizeLimiter_inv c (lmLocalize m)"
  shows "sameLimits d (lmLocalize m) (lmLocalize (snd (locationHandle L now src localize (Some d) r m))) \<and>
    LocalizeLimiter_inv c (lmLocalize (snd (locationHandle L now src localize (Some d) r m))) \<and>
    lmChange (snd (locationHandle L now src localize (Some d) r m)) = lmChange m"
proof (cases "runtimeEffective L src r")
  case (Some e)
  show ?thesis
  proof (cases e)
    case (Inr q)
    obtain p res where q: "q = (p, res)" by force
    show ?thesis
    proof (cases "Try (lmLocalize m) now d")
      case (Pair x l')
      have inv: "LocalizeLimiter_inv c l'" using Try_inv [OF assms, of now d] Pair by simp
      show ?thesis
      proof (cases x)
        case None
        with Pair Some Inr q inv Try_none [of "lmLocalize m" now d l'] show ?thesis
          by (simp add: locationHandle_def Let_def)
      next
        case (Some h)
        with Pair \<open>runtimeEffective L src r = Some e\<close> Inr q inv Try_some [OF assms, of now d h l'] release_inv [OF inv, of h]
        show ?thesis by (simp add: locationHandle_def Let_def)
      qed
    qed
  qed (simp add: Some locationHandle_def sameLimits_def assms)
qed (simp add: locationHandle_def sameLimits_def assms)

text \<open>The weather handler, by what stops it.\<close>

lemma weatherHandle_refused:
  assumes "runtimeEffective L src r = Some (Inr (p, res))" and "Allow (lmChange m) now d (CacheKey p) = ((False, w), l)"
  shows "weatherHandle L now now' src localize get kind (Some d) r m =
    (Some (SetHeader ''Retry-After'' (Itoa (retrySeconds w))
       (WriteError r 429 ''location_rate_limited'' ''device location changed too frequently'')), m\<lparr>lmChange := l\<rparr>)"
  using assms by (simp add: weatherHandle_def)

lemma weatherHandle_allowed:
  assumes "runtimeEffective L src r = Some (Inr (p, res))" and "Allow (lmChange m) now d (CacheKey p) = ((True, w), l)"
  shows "snd (weatherHandle L now now' src localize get kind (Some d) r m) =
      m\<lparr>lmChange := l, lmLocalize := snd (localizeAttempt now' localize d p (lmLocalize m))\<rparr>"
    "fst (weatherHandle L now now' src localize get kind (Some d) r m) =
      Some (case get kind p of
        GetTimedOut \<Rightarrow> WriteError r 504 ''upstream_timeout'' ''weather provider timed out''
      | GetFailed \<Rightarrow> WriteError r 503 ''weather_unavailable'' ''weather data is temporarily unavailable''
      | GotEnvelope envelope \<Rightarrow> WriteJSON 200 (envelopeJSON (envelope\<lparr>evLocation := publicLocation
          (fst (ApplyLocalized p (fst (localizeAttempt now' localize d p (lmLocalize m)))))\<rparr>)))"
  using assms by (simp_all add: weatherHandle_def Let_def split: prod.split getResult.split)

lemma weatherHandle_unlocated:
  "runtimeEffective L src r = None \<Longrightarrow> weatherHandle L now now' src localize get kind (Some d) r m = (None, m)"
  "runtimeEffective L src r = Some (Inl e) \<Longrightarrow>
     weatherHandle L now now' src localize get kind (Some d) r m = (Some (weatherLocationError r e), m)"
  by (simp_all add: weatherHandle_def)

lemma locationHandle_unlocated:
  "runtimeEffective L src r = None \<Longrightarrow> locationHandle L now src localize (Some d) r m = (None, m)"
  "runtimeEffective L src r = Some (Inl e) \<Longrightarrow>
     locationHandle L now src localize (Some d) r m = (Some (locationError r e), m)"
  by (simp_all add: locationHandle_def)

text \<open>What the location endpoint answers, given the names found, if any.\<close>

definition locationValue :: "Point \<Rightarrow> Resolved \<Rightarrow> LocalizedMetadata option \<Rightarrow> locationResponse" where
  "locationValue p res found =
     (let v = \<lparr>lrLocation = publicLocation p, lrAccuracyRadiusKm = AccuracyKm res, lrLocalization = None\<rparr>
      in case found of
           None \<Rightarrow> v
         | Some metadata \<Rightarrow>
             if snd (ApplyLocalized p metadata)
             then v\<lparr>lrLocation := publicLocation (fst (ApplyLocalized p metadata)), lrLocalization := Some localizationSource\<rparr>
             else v)"

lemma locationHandle_located:
  assumes "runtimeEffective L src r = Some (Inr (p, res))"
  shows "fst (locationHandle L now src localize (Some d) r m) =
    Some (WriteJSON 200 (locationJSON (locationValue p res (if fst (Try (lmLocalize m) now d) = None then None else localize p))))"
proof (cases "Try (lmLocalize m) now d")
  case (Pair x l)
  show ?thesis
  proof (cases x)
    case None
    with Pair assms show ?thesis by (simp add: locationHandle_def locationValue_def Let_def)
  next
    case (Some h)
    with Pair assms show ?thesis
      by (cases "localize p") (simp_all add: locationHandle_def locationValue_def Let_def case_prod_unfold)
  qed
qed

lemma location_cases:
  assumes "locationHandle L now src localize (Some d) r m = (w, m')"
  obtains (panic) "runtimeEffective L src r = None" "w = None"
  | (unlocated) e where "runtimeEffective L src r = Some (Inl e)" "w = Some (locationError r e)"
  | (located) p res v where "runtimeEffective L src r = Some (Inr (p, res))" "w = Some (WriteJSON 200 v)"
proof (cases "runtimeEffective L src r")
  case None
  with assms locationHandle_unlocated(1) [OF None, of now localize d m] panic show thesis by simp
next
  case (Some y)
  show thesis
  proof (cases y)
    case (Inl e)
    with Some assms locationHandle_unlocated(2) [of L src r e now localize d m] unlocated show thesis by simp
  next
    case (Inr q)
    obtain p res where "q = (p, res)" by force
    with Some Inr assms locationHandle_located [of L src r p res now localize d m] located show thesis by simp
  qed
qed

definition locatedBy :: "golib \<Rightarrow> RuntimeManager \<Rightarrow> request \<Rightarrow> bool" where
  "locatedBy L m r \<longleftrightarrow> (\<exists>x. runtimeEffective L (rmSource m) r = Some (Inr x))"

lemma deviceServe_cases:
  assumes "deviceServe L now now' localize get m r = (w, m')"
  obtains (stopped) x where "ServeHTTP L m r = Inl x" "w = Some x" "m' = m"
  | (notFound) d h where "ServeHTTP L m r = Inr (d, h)" "routeOf r = RouteNotFound"
      "w = Some (WriteError r 404 ''not_found'' ''resource not found'')" "m' = m"
  | (weather) d h kind ls where "ServeHTTP L m r = Inr (d, h)" "routeOf r = RouteWeather kind"
      "weatherHandle L now now' (rmSource m) (localize h) (get h) kind (Some d) r
         \<lparr>lmChange = rmLimiter m, lmLocalize = rmLocalizeLimiter m\<rparr> = (w, ls)"
      "m' = m\<lparr>rmLimiter := lmChange ls, rmLocalizeLimiter := lmLocalize ls\<rparr>"
  | (location) d h ls where "ServeHTTP L m r = Inr (d, h)" "routeOf r = RouteLocation"
      "locationHandle L now' (rmSource m) (localize h) (Some d) r
         \<lparr>lmChange = rmLimiter m, lmLocalize = rmLocalizeLimiter m\<rparr> = (w, ls)"
      "m' = m\<lparr>rmLimiter := lmChange ls, rmLocalizeLimiter := lmLocalize ls\<rparr>"
proof (cases "ServeHTTP L m r")
  case (Inl x)
  with assms show thesis by (intro stopped [of x]) (auto simp: deviceServe_def)
next
  case (Inr q)
  obtain d h where q: "q = (d, h)" by force
  let ?ls = "\<lparr>lmChange = rmLimiter m, lmLocalize = rmLocalizeLimiter m\<rparr>"
  show thesis
  proof (cases "routeOf r")
    case (RouteWeather kind)
    obtain w' ls where e: "weatherHandle L now now' (rmSource m) (localize h) (get h) kind (Some d) r ?ls = (w', ls)" by force
    have r: "w' = w" "m' = m\<lparr>rmLimiter := lmChange ls, rmLocalizeLimiter := lmLocalize ls\<rparr>"
      using assms Inr q RouteWeather e by (simp_all add: deviceServe_def Let_def)
    show thesis by (rule weather [of d h kind ls]) (use Inr q RouteWeather e r in simp_all)
  next
    case RouteLocation
    obtain w' ls where e: "locationHandle L now' (rmSource m) (localize h) (Some d) r ?ls = (w', ls)" by force
    have r: "w' = w" "m' = m\<lparr>rmLimiter := lmChange ls, rmLocalizeLimiter := lmLocalize ls\<rparr>"
      using assms Inr q RouteLocation e by (simp_all add: deviceServe_def Let_def)
    show thesis by (rule location [of d h ls]) (use Inr q RouteLocation e r in simp_all)
  next
    case RouteNotFound
    with assms Inr q show thesis by (intro notFound [of d h]) (simp_all add: deviceServe_def Let_def)
  qed
qed

text \<open>The weather handler from the manager's point of view.\<close>

lemma weather_cases:
  assumes "weatherHandle L now now' src localize get kind (Some d) r ls = (w, ls')"
  obtains (panic) "runtimeEffective L src r = None" "w = None" "ls' = ls"
  | (unlocated) e where "runtimeEffective L src r = Some (Inl e)" "w = Some (weatherLocationError r e)" "ls' = ls"
  | (limited) p res retry l where "runtimeEffective L src r = Some (Inr (p, res))"
      "Allow (lmChange ls) now d (CacheKey p) = ((False, retry), l)"
      "w = Some (SetHeader ''Retry-After'' (Itoa (retrySeconds retry))
         (WriteError r 429 ''location_rate_limited'' ''device location changed too frequently''))"
      "ls' = ls\<lparr>lmChange := l\<rparr>"
  | (allowed) p res x l where "runtimeEffective L src r = Some (Inr (p, res))"
      "Allow (lmChange ls) now d (CacheKey p) = ((True, x), l)"
      "w = Some (case get kind p of
        GetTimedOut \<Rightarrow> WriteError r 504 ''upstream_timeout'' ''weather provider timed out''
      | GetFailed \<Rightarrow> WriteError r 503 ''weather_unavailable'' ''weather data is temporarily unavailable''
      | GotEnvelope envelope \<Rightarrow> WriteJSON 200 (envelopeJSON (envelope\<lparr>evLocation := publicLocation
          (fst (ApplyLocalized p (fst (localizeAttempt now' localize d p (lmLocalize ls)))))\<rparr>)))"
      "ls' = ls\<lparr>lmChange := l, lmLocalize := snd (localizeAttempt now' localize d p (lmLocalize ls))\<rparr>"
proof (cases "runtimeEffective L src r")
  case None
  with assms weatherHandle_unlocated(1) [OF None] show thesis by (intro panic) simp_all
next
  case (Some y)
  show thesis
  proof (cases y)
    case (Inl e)
    with Some assms weatherHandle_unlocated(2) [of L src r e] show thesis by (intro unlocated [of e]) simp_all
  next
    case (Inr q)
    obtain p res where q: "q = (p, res)" by force
    obtain ok x l where a: "Allow (lmChange ls) now d (CacheKey p) = ((ok, x), l)" by (metis prod.exhaust)
    show thesis
    proof (cases ok)
      case True
      from Some Inr q have e: "runtimeEffective L src r = Some (Inr (p, res))" by simp
      from a True have a': "Allow (lmChange ls) now d (CacheKey p) = ((True, x), l)" by simp
      show thesis
        by (rule allowed [OF e a'])
          (use assms weatherHandle_allowed [OF e a', of now' localize get kind] in simp_all)
    next
      case False
      from Some Inr q have e: "runtimeEffective L src r = Some (Inr (p, res))" by simp
      from a False have a': "Allow (lmChange ls) now d (CacheKey p) = ((False, x), l)" by simp
      show thesis
        by (rule limited [OF e a'])
          (use assms weatherHandle_refused [OF e a', of now' localize get kind] in simp_all)
    qed
  qed
qed

lemma retrySeconds_range:
  assumes "0 \<le> w" and "w \<le> locationRefillPeriod" shows "0 \<le> retrySeconds w \<and> retrySeconds w \<le> 300"
proof -
  have "(w + second - 1) div second \<le> (locationRefillPeriod + second - 1) div second"
    using assms(2) by (intro zdiv_mono1) (simp_all add: second_def)
  with assms(1) show ?thesis
    by (simp add: retrySeconds_def runtime_limits pos_imp_zdiv_nonneg_iff)
qed

definition untouched :: "bytes \<Rightarrow> RuntimeManager \<Rightarrow> RuntimeManager \<Rightarrow> bool" where
  "untouched d m m' \<longleftrightarrow> map_of (clDevices (rmLimiter m')) d = map_of (clDevices (rmLimiter m)) d \<and>
     map_of (llDevices (rmLocalizeLimiter m')) d = map_of (llDevices (rmLocalizeLimiter m)) d"

lemma untouched_refl [simp]: "untouched d m m"
  by (simp add: untouched_def)

definition limited429 :: "response \<Rightarrow> bool" where
  "limited429 x \<longleftrightarrow> (\<exists>n. 0 \<le> n \<and> n \<le> 300 \<and> map_of (rsHeaders x) ''Retry-After'' = Some (Itoa n))"

lemma managerInv_update:
  assumes "managerInv m" and "ChangeLimiter_inv locationBurstCapacity l" and "clInterval l = clInterval (rmLimiter m)"
    and "LocalizeLimiter_inv localizeBudgetCapacity k" and "sameLimits d (rmLocalizeLimiter m) k"
  shows "managerInv (m\<lparr>rmLimiter := l, rmLocalizeLimiter := k\<rparr>)"
  using assms by (simp add: managerInv_def sameLimits_def)

lemma sameLimits_refl [simp]: "sameLimits d l l"
  by (simp add: sameLimits_def)

lemma manager_id: "m\<lparr>rmLimiter := rmLimiter m, rmLocalizeLimiter := rmLocalizeLimiter m\<rparr> = (m :: RuntimeManager)"
  by simp

lemma Wrap_status: "ServeHTTP L m r = Inl x \<Longrightarrow> rsStatus x = 401 \<or> rsStatus x = 503"
  by (auto simp: ServeHTTP_def Wrap_eq Let_def unauthorized_def split: option.splits sum.splits if_splits)

lemma locationError_status: "rsStatus (locationError r e) \<in> {400, 503}" "rsStatus (weatherLocationError r e) \<in> {400, 503}"
  by (cases e; simp add: locationError_def weatherLocationError_def)+

text \<open>What every request served to device \<open>d\<close> respects.\<close>

definition withinBudget :: "golib \<Rightarrow> request \<Rightarrow> bytes \<Rightarrow> RuntimeManager \<Rightarrow> response option \<Rightarrow> RuntimeManager \<Rightarrow> bool" where
  "withinBudget L r d m w m' \<longleftrightarrow>
     managerInv m' \<and> llHeld (rmLocalizeLimiter m') = llHeld (rmLocalizeLimiter m) \<and> rmCurrent m' = rmCurrent m \<and>
     (\<forall>d'. d \<noteq> d' \<longrightarrow> untouched d' m m') \<and> (\<not> locatedBy L m r \<longrightarrow> m' = m) \<and>
     (case w of None \<Rightarrow> True
      | Some x \<Rightarrow> rsStatus x = 429 \<longrightarrow> limited429 x \<and> rmLocalizeLimiter m' = rmLocalizeLimiter m)"

lemma withinBudget_refl: "managerInv m \<Longrightarrow> (case w of None \<Rightarrow> True | Some x \<Rightarrow> rsStatus x \<noteq> 429) \<Longrightarrow> withinBudget L r d m w m"
  by (simp add: withinBudget_def split: option.splits)

lemma location_within:
  assumes inv: "managerInv m"
    and h: "locationHandle L now src localize (Some d) r \<lparr>lmChange = rmLimiter m, lmLocalize = rmLocalizeLimiter m\<rparr> = (w, ls)"
    and src: "src = rmSource m"
  shows "withinBudget L r d m w (m\<lparr>rmLimiter := lmChange ls, rmLocalizeLimiter := lmLocalize ls\<rparr>)"
proof (cases "runtimeEffective L src r")
  case None
  with locationHandle_unlocated(1) [OF this, of now localize d] h inv show ?thesis
    by (auto simp: manager_id intro!: withinBudget_refl)
next
  case (Some y)
  show ?thesis
  proof (cases y)
    case (Inl e)
    with Some locationHandle_unlocated(2) [of L src r e] locationError_status(1) [of r e] h inv show ?thesis
      by (auto simp: manager_id intro!: withinBudget_refl)
  next
    case (Inr q)
    let ?ls = "\<lparr>lmChange = rmLimiter m, lmLocalize = rmLocalizeLimiter m\<rparr>"
    have linv: "LocalizeLimiter_inv localizeBudgetCapacity (lmLocalize ?ls)" and cinv: "ChangeLimiter_inv locationBurstCapacity (rmLimiter m)"
      using inv by (simp_all add: managerInv_def)
    have ls: "sameLimits d (rmLocalizeLimiter m) (lmLocalize ls)" "LocalizeLimiter_inv localizeBudgetCapacity (lmLocalize ls)"
      "lmChange ls = rmLimiter m"
      using locationHandle_limits [OF linv, of d L now src localize r] h by simp_all
    have "managerInv (m\<lparr>rmLimiter := lmChange ls, rmLocalizeLimiter := lmLocalize ls\<rparr>)"
      by (rule managerInv_update [OF inv _ _ ls(2,1)]) (simp_all add: ls(3) cinv)
    moreover have "\<exists>v. w = Some (WriteJSON 200 v)"
      using Some Inr h locationHandle_located [of L src r "fst q" "snd q" now localize d ?ls] by auto
    moreover have "locatedBy L m r" using Some Inr src by (simp add: locatedBy_def)
    ultimately show ?thesis using ls by (auto simp: withinBudget_def sameLimits_def untouched_def WriteJSON_def)
  qed
qed

lemma weather_within:
  assumes inv: "managerInv m"
    and h: "weatherHandle L now now' src localize get kind (Some d) r
      \<lparr>lmChange = rmLimiter m, lmLocalize = rmLocalizeLimiter m\<rparr> = (w, ls)"
    and src: "src = rmSource m"
  shows "withinBudget L r d m w (m\<lparr>rmLimiter := lmChange ls, rmLocalizeLimiter := lmLocalize ls\<rparr>)"
proof -
  have cinv: "ChangeLimiter_inv locationBurstCapacity (rmLimiter m)"
    and linv: "LocalizeLimiter_inv localizeBudgetCapacity (rmLocalizeLimiter m)"
    using inv by (simp_all add: managerInv_def)
  have allow: "ChangeLimiter_inv locationBurstCapacity l" "clInterval l = clInterval (rmLimiter m)"
    "d \<noteq> d' \<Longrightarrow> map_of (clDevices l) d' = map_of (clDevices (rmLimiter m)) d'"
    if "Allow (rmLimiter m) now d k = (x, l)" for l k x d'
    using Allow_inv [OF cinv, of now d k] Allow_config(1) [of "rmLimiter m" now d k] Allow_other [of d d' "rmLimiter m" now k] that
    by simp_all
  from h show ?thesis
  proof (cases rule: weather_cases)
    case panic
    with inv show ?thesis by (simp add: manager_id withinBudget_refl)
  next
    case (unlocated e)
    with inv locationError_status(2) [of r e] show ?thesis by (auto simp: manager_id intro!: withinBudget_refl)
  next
    case (limited p res retry l)
    have a: "Allow (rmLimiter m) now d (CacheKey p) = ((False, retry), l)" using limited(2) by simp
    from Allow_denied [OF cinv a] inv have "0 \<le> retry \<and> retry \<le> locationRefillPeriod" by (simp add: managerInv_def)
    then have "limited429 (SetHeader ''Retry-After'' (Itoa (retrySeconds retry)) x)" for x
      using retrySeconds_range [of retry] by (auto simp: limited429_def)
    moreover have "managerInv (m\<lparr>rmLimiter := l, rmLocalizeLimiter := rmLocalizeLimiter m\<rparr>)"
      by (rule managerInv_update [OF inv, where d = d]) (simp_all add: allow [OF a] linv)
    ultimately show ?thesis using limited allow [OF a] src by (simp add: withinBudget_def locatedBy_def untouched_def)
  next
    case (allowed p res x l)
    have a: "Allow (rmLimiter m) now d (CacheKey p) = ((True, x), l)" using allowed(2) by simp
    note la = localizeAttempt_limits [OF linv, of d now' localize p]
    have "managerInv (m\<lparr>rmLimiter := l, rmLocalizeLimiter := snd (localizeAttempt now' localize d p (rmLocalizeLimiter m))\<rparr>)"
      by (rule managerInv_update [OF inv, where d = d]) (use la in \<open>simp_all add: allow [OF a]\<close>)
    then show ?thesis using allowed allow [OF a] src la
      by (simp add: withinBudget_def locatedBy_def untouched_def sameLimits_def WriteJSON_def split: getResult.split)
  qed
qed


subsection \<open>Answers\<close>

lemma locationError_status_ne [simp]:
  "n \<noteq> 400 \<Longrightarrow> n \<noteq> 503 \<Longrightarrow> rsStatus (locationError r e) \<noteq> n"
  "n \<noteq> 400 \<Longrightarrow> n \<noteq> 503 \<Longrightarrow> rsStatus (weatherLocationError r e) \<noteq> n"
  using locationError_status [of r e] by auto

lemma json_status [simp]: "rsStatus (WriteJSON n v) = n" "rsBody (WriteJSON n v) = v"
  by (simp_all add: WriteJSON_def)


subsection \<open>What a device is shown\<close>

lemma ApplyLocalized_display:
  "snd (ApplyLocalized p md) \<longleftrightarrow> publicLocation (fst (ApplyLocalized p md)) \<noteq> publicLocation p"
  by (auto simp: ApplyLocalized_def publicLocation_def overlay_changed case_prod_unfold Let_def)

lemma ApplyLocalized_kept:
  "Key (fst (ApplyLocalized p md)) = Key p" "Source (fst (ApplyLocalized p md)) = Source p"
  "Provider (fst (ApplyLocalized p md)) = Provider p" "Precision (fst (ApplyLocalized p md)) = Precision p"
  "Country (fst (ApplyLocalized p md)) = Country p"
  by (simp_all add: ApplyLocalized_def case_prod_unfold Let_def)

lemma ApplyLocalized_safe:
  "normalized p \<Longrightarrow> displaySafe (City (fst (ApplyLocalized p md))) \<and> displaySafe (District (fst (ApplyLocalized p md))) \<and>
     displaySafe (Region (fst (ApplyLocalized p md))) \<and> displaySafe (Timezone (fst (ApplyLocalized p md)))"
  using normalized_safe [of p] by (simp add: ApplyLocalized_def case_prod_unfold Let_def overlay_safe)

definition displays :: "Point \<Rightarrow> PublicLocation \<Rightarrow> bool" where
  "displays p l \<longleftrightarrow> list_all displaySafe [plCity l, plDistrict l, plRegion l, plCountry l, plTimezone l] \<and>
     plCountry l = Country p \<and> plSource l = Source p \<and> plProvider l = Provider p \<and> plPrecision l = Precision p \<and>
     plLocationKey l = locationKey (Latitude p) (Longitude p)"

lemma displays_public: "normalized p \<Longrightarrow> displays p (publicLocation p)"
  using normalized_safe [of p] by (simp add: displays_def publicLocation_def normalized_def)

lemma displays_localized: "normalized p \<Longrightarrow> displays p (publicLocation (fst (ApplyLocalized p md)))"
  using ApplyLocalized_safe [of p md] normalized_safe [of p]
  by (simp add: displays_def publicLocation_def normalized_def ApplyLocalized_kept)

lemma runtimeEffective_normalized:
  assumes "runtimeEffective L src r = Some (Inr (p, res))" shows "normalized p"
proof -
  have "EffectivePoint L (Some src) r = Inr (p, res)"
    using assms by (auto simp: runtimeEffective_def split: sum.splits option.splits if_splits)
  then show ?thesis by (rule EffectivePoint_normalized)
qed

text \<open>What a device is shown. The body of a 200 answer is built from the weather data, the accuracy
  radius and a public location whose text fields are display-safe and whose country, source,
  provider and precision are those of the effective point, identified by the key of its two-decimal
  coordinates; the coordinates themselves and the client address are in no field of it. On the
  location endpoint the attribution of the name provider is present exactly when the names shown
  differ from the request's.\<close>

theorem device_display:
  assumes "deviceServe L now now' localize get m r = (Some x, m')" and "rsStatus x = 200"
  shows "\<exists>p res l. runtimeEffective L (rmSource m) r = Some (Inr (p, res)) \<and> displays p l \<and>
    (case routeOf r of
       RouteNotFound \<Rightarrow> False
     | RouteWeather kind \<Rightarrow> \<exists>e. rsBody x = envelopeJSON (e\<lparr>evLocation := l\<rparr>)
     | RouteLocation \<Rightarrow> rsBody x = locationJSON \<lparr>lrLocation = l, lrAccuracyRadiusKm = AccuracyKm res,
         lrLocalization = (if l = publicLocation p then None else Some localizationSource)\<rparr>)"
  using assms(1)
proof (cases rule: deviceServe_cases)
  case (stopped y)
  with assms(2) Wrap_status [OF stopped(1)] show ?thesis by auto
next
  case (notFound d h)
  with assms(2) show ?thesis by simp
next
  case (location d h ls)
  let ?ls = "\<lparr>lmChange = rmLimiter m, lmLocalize = rmLocalizeLimiter m\<rparr>"
  show ?thesis
  proof (cases "\<exists>p res. runtimeEffective L (rmSource m) r = Some (Inr (p, res))")
    case True
    then obtain p res where p: "runtimeEffective L (rmSource m) r = Some (Inr (p, res))" by blast
    obtain found where x: "x = WriteJSON 200 (locationJSON (locationValue p res found))"
      using locationHandle_located [OF p, of now' "localize h" d ?ls] location by auto
    note n = runtimeEffective_normalized [OF p]
    show ?thesis
    proof (intro exI conjI)
      show "runtimeEffective L (rmSource m) r = Some (Inr (p, res))" by (rule p)
      show "displays p (lrLocation (locationValue p res found))"
        using displays_public [OF n] displays_localized [OF n] by (simp add: locationValue_def Let_def split: option.split)
      show "case routeOf r of RouteNotFound \<Rightarrow> False
        | RouteWeather kind \<Rightarrow> \<exists>e. rsBody x = envelopeJSON (e\<lparr>evLocation := lrLocation (locationValue p res found)\<rparr>)
        | RouteLocation \<Rightarrow> rsBody x = locationJSON \<lparr>lrLocation = lrLocation (locationValue p res found),
            lrAccuracyRadiusKm = AccuracyKm res,
            lrLocalization = (if lrLocation (locationValue p res found) = publicLocation p then None else Some localizationSource)\<rparr>"
        using location(2) by (simp add: x locationValue_def Let_def ApplyLocalized_display split: option.split)
    qed
  next
    case False
    then consider "runtimeEffective L (rmSource m) r = None" | e where "runtimeEffective L (rmSource m) r = Some (Inl e)"
      by (metis not_None_eq old.prod.exhaust sum.exhaust)
    then have False
    proof cases
      case 1
      with location locationHandle_unlocated(1) [OF 1, of now' "localize h" d ?ls] show ?thesis by simp
    next
      case 2
      with assms(2) location locationHandle_unlocated(2) [OF 2, of now' "localize h" d ?ls] locationError_status(1) [of r e]
      show ?thesis by auto
    qed
    then show ?thesis ..
  qed
next
  case (weather d h kind ls)
  from weather(3) show ?thesis
  proof (cases rule: weather_cases)
    case (allowed p res y l)
    note n = runtimeEffective_normalized [OF allowed(1)]
    from allowed(3) assms(2) obtain e where "get h kind p = GotEnvelope e" by (cases "get h kind p") simp_all
    with allowed n weather(2) show ?thesis by (auto intro!: exI [of _ p] displays_localized [OF n])
  qed (use assms(2) in auto)
qed

subsection \<open>A request\<close>

text \<open>A manager with one device, and its request for its location with explicit headers.\<close>

definition deviceLib :: golib where
  "deviceLib = runtimeLib\<lparr>ParseFloat := (\<lambda>s. Some (Fin 0))\<rparr>"

definition sampleManager :: RuntimeManager where
  "sampleManager = (NewRuntimeManager None [] [] False)
     \<lparr>rmCurrent := Some \<lparr>riService = 0, riCache = NewService qweatherSource 0 (cacheOptions DefaultCache),
        riProvider = sampleClient, riHandler = ([\<lparr>crDeviceID = ''a'', crHash = sha256 deviceLib ''one''\<rparr>], 0)\<rparr>,
      rmNext := 1\<rparr>"

definition sampleRequest :: request where
  "sampleRequest = emptyRequest
     \<lparr>rHeader := (\<lambda>h. if h = ''Authorization'' then [''Bearer one'']
        else if h = HeaderLatitude \<or> h = HeaderLongitude then [''0''] else if h = HeaderProvider then [''p''] else []),
      rMethod := ''GET'', rPath := ''/api/v1/location'',
      rEscapedPath := ''/api/v1/location''\<rparr>"

lemma sampleManager_inv: "managerInv sampleManager"
  using managerInv_new [of None "[]" "[]" False] by (simp add: managerInv_def sampleManager_def)

lemma sampleRequest_serves: "ServeHTTP deviceLib sampleManager sampleRequest = Inr (''a'', 0)"
proof -
  have "visibleASCII ''one''" by (simp add: visibleASCII_def inrange_def)
  then have b: "bearerToken (HeaderGet sampleRequest ''Authorization'') = Some ''one''"
    using bearerToken_issued [of "''one''"] by (simp add: HeaderGet_def sampleRequest_def)
  have "Wrap deviceLib [\<lparr>crDeviceID = ''a'', crHash = sha256 deviceLib ''one''\<rparr>] sampleRequest = Inr ''a''"
    by (simp add: Wrap_eq b)
  then show ?thesis by (simp add: ServeHTTP_def sampleManager_def)
qed

lemma sampleRequest_located: "\<exists>p. runtimeEffective deviceLib (rmSource sampleManager) sampleRequest = Some (Inr (p, emptyResolved))"
proof -
  have h: "HeaderGet sampleRequest HeaderLatitude = ''0''" "HeaderGet sampleRequest HeaderLongitude = ''0''"
    "HeaderGet sampleRequest HeaderProvider = ''p''" "HeaderGet sampleRequest HeaderCity = []"
    "HeaderGet sampleRequest HeaderRegion = []" "HeaderGet sampleRequest HeaderCountry = []"
    "HeaderGet sampleRequest HeaderTimezone = []"
    by (simp_all add: HeaderGet_def sampleRequest_def header_names)
  have t: "TrimSpace ''0'' = ''0'' \<and> TrimSpace ''p'' = ''p'' \<and> TrimSpace [] = [] \<and> providerPattern ''p''" by code_simp
  have "\<exists>q. Normalize (emptyPoint\<lparr>Latitude := Fin 0, Longitude := Fin 0, City := [], Region := [], Country := [], Timezone := [],
      Source := ''device'', Provider := ''p'', Precision := ''city''\<rparr>) = Inr q"
    using t by (auto simp: Normalize_Inr badCoordinate_def isNaN_def isInf_def metaFields_def emptyPoint_def fval_def)
  then obtain q where "FromRequest deviceLib sampleRequest = Inr (Some q)"
    using t by (auto simp: FromRequest_def h parseCoordinate_def deviceLib_def isNaN_def isInf_def)
  then show ?thesis
    by (simp add: runtimeEffective_def sampleManager_def NewRuntimeManager_def runtimeSource_def EffectivePoint_explicit)
qed

lemma sampleRequest_route: "routeOf sampleRequest = RouteLocation"
proof -
  have "findHandler apiPatterns ''GET'' ''/api/v1/location'' ''/api/v1/location'' = MuxHandle RouteLocation []" by code_simp
  then show ?thesis by (simp add: routeOf_def sampleRequest_def)
qed

lemma sampleRequest_answer:
  "\<exists>v m'. deviceServe deviceLib 5 5 (\<lambda>_ _. None) (\<lambda>_ _ _. GetFailed) sampleManager sampleRequest = (Some (WriteJSON 200 v), m')"
proof -
  obtain p where p: "runtimeEffective deviceLib (rmSource sampleManager) sampleRequest = Some (Inr (p, emptyResolved))"
    using sampleRequest_located by blast
  show ?thesis
    using locationHandle_located [OF p, of 5 "\<lambda>_. None" "''a''" "\<lparr>lmChange = rmLimiter sampleManager, lmLocalize = rmLocalizeLimiter sampleManager\<rparr>"]
    by (auto simp: deviceServe_def sampleRequest_serves sampleRequest_route Let_def split: prod.split)
qed



lemma device_display_witness:
  "\<exists>p l x m'. deviceServe deviceLib 5 5 (\<lambda>_ _. None) (\<lambda>_ _ _. GetFailed) sampleManager sampleRequest = (Some x, m') \<and>
     displays p l \<and> rsBody x = locationJSON \<lparr>lrLocation = l, lrAccuracyRadiusKm = None,
       lrLocalization = (if l = publicLocation p then None else Some localizationSource)\<rparr>"
proof -
  obtain v m' where s: "deviceServe deviceLib 5 5 (\<lambda>_ _. None) (\<lambda>_ _ _. GetFailed) sampleManager sampleRequest = (Some (WriteJSON 200 v), m')"
    using sampleRequest_answer by blast
  have "rsStatus (WriteJSON 200 v) = 200" by simp
  from device_display [OF s this] obtain p res l where d: "runtimeEffective deviceLib (rmSource sampleManager) sampleRequest = Some (Inr (p, res))"
    "displays p l" "rsBody (WriteJSON 200 v) = locationJSON \<lparr>lrLocation = l, lrAccuracyRadiusKm = AccuracyKm res,
       lrLocalization = (if l = publicLocation p then None else Some localizationSource)\<rparr>"
    by (simp only: sampleRequest_route apiRoute.case) blast
  have "AccuracyKm res = None" using d(1) sampleRequest_located by (auto simp: emptyResolved_def)
  with d(2,3) s show ?thesis by (intro exI [of _ p] exI [of _ l] exI [of _ "WriteJSON 200 v"] exI [of _ m']) simp
qed

end
