(* ===== verification/WeatherDiagnostics.thy ===== *)
theory WeatherDiagnostics
  imports WeatherJson
begin

section \<open>The diagnostics snapshot: \<open>Service.Diagnostics\<close> of \<open>internal/modules/weather/service.go\<close>\<close>

text \<open>
  Counts per kind of data and the times of the last success and error; \<open>runtimeDiagnostics\<close> is the
  manager's entry point. The lemmas show that the counts add up.
\<close>

record KindDiagnostics =
  kdEntries :: int
  kdFreshEntries :: int
  kdStaleEntries :: int
  kdRefreshing :: int
  kdCounters :: kindCounters

record Diagnostics =
  dgGeneratedAt :: time
  dgRuntimeStarted :: time
  dgProvider :: ProviderDiagnostics
  dgLastSuccessAt :: "time option"
  dgLastErrorAt :: "time option"
  dgLastErrorClass :: bytes
  dgLocations :: int
  dgEntries :: int
  dgKinds :: "(Kind, KindDiagnostics) gomap"

definition zeroKind :: KindDiagnostics where
  "zeroKind = \<lparr>kdEntries = 0, kdFreshEntries = 0, kdStaleEntries = 0, kdRefreshing = 0, kdCounters = zeroCounters\<rparr>"

definition countEntry :: "time \<Rightarrow> cacheEntry \<Rightarrow> KindDiagnostics \<Rightarrow> KindDiagnostics" where
  "countEntry now entry value =
     (let value = value\<lparr>kdEntries := kdEntries value + 1\<rparr>;
          value = (if ceHasValue entry \<and> now < ceValidUntil entry
                   then value\<lparr>kdFreshEntries := kdFreshEntries value + 1\<rparr>
                   else if ceHasValue entry \<and> now < ceStaleUntil entry
                   then value\<lparr>kdStaleEntries := kdStaleEntries value + 1\<rparr> else value)
      in if ceRefreshing entry then value\<lparr>kdRefreshing := kdRefreshing value + 1\<rparr> else value)"

fun countEntries :: "time \<Rightarrow> (nat \<Rightarrow> cacheEntry) \<Rightarrow> (cacheKey, nat) gomap \<Rightarrow> (Kind, KindDiagnostics) gomap \<Rightarrow>
    (Kind, KindDiagnostics) gomap" where
  "countEntries now heap [] kinds = kinds"
| "countEntries now heap ((key, e) # entries) kinds =
     (let value = (case map_of kinds (ckKind key) of None \<Rightarrow> zeroKind | Some v \<Rightarrow> v)
      in countEntries now heap entries (AList.update (ckKind key) (countEntry now (heap e) value) kinds))"

definition timeIfSet :: "time \<Rightarrow> time option" where
  "timeIfSet t = (if \<not> IsZero t then Some t else None)"

definition serviceDiagnostics :: "time \<Rightarrow> ProviderDiagnostics \<Rightarrow> Service \<Rightarrow> Diagnostics" where
  "serviceDiagnostics now provider s =
     (let kinds = map (\<lambda>(kind, counters). (kind, zeroKind\<lparr>kdCounters := counters\<rparr>)) (svCounters s)
      in \<lparr>dgGeneratedAt = now, dgRuntimeStarted = svStarted s, dgProvider = provider,
          dgLastSuccessAt = timeIfSet (svLastSuccessAt s), dgLastErrorAt = timeIfSet (svLastErrorAt s),
          dgLastErrorClass = svLastErrorClass s, dgLocations = int (length (svLocations s)),
          dgEntries = int (length (svEntries s)), dgKinds = countEntries now (svHeap s) (svEntries s) kinds\<rparr>)"

definition runtimeDiagnostics :: "time \<Rightarrow> RuntimeManager \<Rightarrow> Diagnostics option" where
  "runtimeDiagnostics now m =
     (case rmCurrent m of
        None \<Rightarrow> None
      | Some i \<Rightarrow> Some (serviceDiagnostics now (clientDiagnostics now (riProvider i)) (riCache i)))"

definition kindJSON :: "KindDiagnostics \<Rightarrow> json" where
  "kindJSON k = JObj [(''entries'', JInt (kdEntries k)), (''fresh_entries'', JInt (kdFreshEntries k)),
     (''stale_entries'', JInt (kdStaleEntries k)), (''refreshing'', JInt (kdRefreshing k)),
     (''requests'', JInt (int (kcRequests (kdCounters k)))), (''fresh_hits'', JInt (int (kcFreshHits (kdCounters k)))),
     (''stale_hits'', JInt (int (kcStaleHits (kdCounters k)))),
     (''fetch_successes'', JInt (int (kcFetchSuccesses (kdCounters k)))),
     (''fetch_failures'', JInt (int (kcFetchFailures (kdCounters k))))]"

definition providerJSON :: "ProviderDiagnostics \<Rightarrow> json" where
  "providerJSON p = JObj ([(''status'', JStr (pdStatus p))] @ omitTime ''blocked_until'' (pdBlockedUntil p))"

definition diagnosticsJSON :: "Diagnostics \<Rightarrow> json" where
  "diagnosticsJSON d = JObj ([(''generated_at'', JTime (dgGeneratedAt d)), (''runtime_started_at'', JTime (dgRuntimeStarted d)),
     (''provider'', providerJSON (dgProvider d))] @
     omitTime ''last_success_at'' (dgLastSuccessAt d) @ omitTime ''last_error_at'' (dgLastErrorAt d) @
     omitStr ''last_error_class'' (dgLastErrorClass d) @
     [(''locations'', JInt (dgLocations d)), (''entries'', JInt (dgEntries d)),
      (''kinds'', JObj (map (\<lambda>(kind, v). (kind, kindJSON v)) (dgKinds d)))])"

subsection \<open>The counts add up\<close>

definition kindOK :: "KindDiagnostics \<Rightarrow> bool" where
  "kindOK k \<longleftrightarrow> 0 \<le> kdFreshEntries k \<and> 0 \<le> kdStaleEntries k \<and> 0 \<le> kdRefreshing k \<and>
     kdFreshEntries k + kdStaleEntries k \<le> kdEntries k \<and> kdRefreshing k \<le> kdEntries k"

lemma countEntry_simps [simp]:
  "kdEntries (countEntry now e v) = kdEntries v + 1" "kdCounters (countEntry now e v) = kdCounters v"
  by (simp_all add: countEntry_def Let_def)

lemma countEntry_ok: "kindOK v \<Longrightarrow> kindOK (countEntry now e v)"
  by (auto simp: countEntry_def kindOK_def Let_def)

lemma sum_update:
  fixes f :: "'v \<Rightarrow> int"
  shows "distinct (map fst m) \<Longrightarrow> sum_list (map (\<lambda>p. f (snd p)) (AList.update k v m)) =
     sum_list (map (\<lambda>p. f (snd p)) m) + f v - (case map_of m k of None \<Rightarrow> 0 | Some u \<Rightarrow> f u)"
proof (induction m)
  case (Cons p m)
  then show ?case by (cases p) (auto split: option.split dest: map_of_SomeD)
qed simp

lemma countEntries_sum:
  "distinct (map fst kinds) \<Longrightarrow> list_all (\<lambda>p. kindOK (snd p)) kinds \<Longrightarrow>
     distinct (map fst (countEntries now heap es kinds)) \<and>
     list_all (\<lambda>p. kindOK (snd p)) (countEntries now heap es kinds) \<and>
     sum_list (map (\<lambda>p. kdEntries (snd p)) (countEntries now heap es kinds)) =
       sum_list (map (\<lambda>p. kdEntries (snd p)) kinds) + int (length es)"
proof (induction now heap es kinds rule: countEntries.induct)
  case (2 now heap key e entries kinds)
  let ?v = "case map_of kinds (ckKind key) of None \<Rightarrow> zeroKind | Some v \<Rightarrow> v"
  let ?k = "AList.update (ckKind key) (countEntry now (heap e) ?v) kinds"
  have "kindOK ?v"
  proof (cases "map_of kinds (ckKind key)")
    case None
    then show ?thesis by (simp add: kindOK_def zeroKind_def)
  next
    case (Some v)
    with list_all_lookup [OF 2(3) Some] show ?thesis by simp
  qed
  then have ok: "list_all (\<lambda>p. kindOK (snd p)) ?k" by (intro list_all_update 2(3) countEntry_ok)
  have "sum_list (map (\<lambda>p. kdEntries (snd p)) ?k) = sum_list (map (\<lambda>p. kdEntries (snd p)) kinds) + 1"
    using sum_update [OF 2(2), of kdEntries "ckKind key"] by (simp add: zeroKind_def split: option.split)
  with 2(1) [OF refl _ ok] 2(2) show ?case by (simp add: distinct_update Let_def)
qed simp

lemma Diagnostics_adds_up:
  assumes "distinct (map fst (svCounters s))"
  shows "sum_list (map (\<lambda>p. kdEntries (snd p)) (dgKinds (serviceDiagnostics now provider s))) =
      dgEntries (serviceDiagnostics now provider s)"
    "list_all (\<lambda>p. kindOK (snd p)) (dgKinds (serviceDiagnostics now provider s))"
proof -
  let ?k = "map (\<lambda>(kind, counters). (kind, zeroKind\<lparr>kdCounters := counters\<rparr>)) (svCounters s)"
  have "map fst ?k = map fst (svCounters s)" by (simp add: case_prod_unfold)
  then have d: "distinct (map fst ?k)" using assms by metis
  have o: "list_all (\<lambda>p. kindOK (snd p)) ?k" by (auto simp: list_all_iff kindOK_def zeroKind_def)
  have z: "sum_list (map (\<lambda>p. kdEntries (snd p)) ?k) = 0"
    by (simp add: comp_def case_prod_unfold zeroKind_def)
  show "sum_list (map (\<lambda>p. kdEntries (snd p)) (dgKinds (serviceDiagnostics now provider s))) =
      dgEntries (serviceDiagnostics now provider s)"
    "list_all (\<lambda>p. kindOK (snd p)) (dgKinds (serviceDiagnostics now provider s))"
    using countEntries_sum [OF d o, of now "svHeap s" "svEntries s"] z by (simp_all add: serviceDiagnostics_def)
qed

end
