(* ===== verification/AdminApi.thy ===== *)
theory AdminApi
  imports WeatherDiagnostics StateStore AdminAuth
begin

section \<open>The management API: \<open>internal/modules/admin/admin.go\<close>\<close>

text \<open>
  \<open>admin\<close> is everything a management handler reads or changes: the state store, the live runtime, the
  sessions, the transport policy, the attempt limiters and the slots. \<open>adminEnv\<close> is what one request
  observes of its surroundings: clock readings, random bytes, outcomes of file system calls and the
  candidate provider's answers. A handler is a function from \<open>admin\<close> to a response and the \<open>admin\<close> it
  leaves. Handlers that hold \<open>changeMu\<close> run one at a time in the code; each is one step here.
\<close>

record admin =
  adStore :: Store
  adRuntime :: RuntimeManager
  adSessions :: Sessions
  adTransport :: TransportPolicy
  adSetupLimit :: Limiter
  adLoginLimit :: Limiter
  adTestLimit :: Limiter
  adPasswordSlots :: nat
  adTestSlot :: bool
  adPublicCSRF :: bytes
  adVersion :: bytes

text \<open>The clock readings of one request, by what they are for.\<close>

datatype reading = AtSession | AtCSRF | AtHandler | AtLimit | AtTestLimit | AtTest | AtToken | AtUpdate | AtService | AtCreate | AtSave

record adminEnv =
  enNow :: "reading \<Rightarrow> time"
  enReadOk :: bool
  enStatOk :: bool
  enFaults :: writeFaults
  enSalt :: "bytes option"
  enTokenRandom :: "bytes option"
  enIDRandom :: "bytes option"
  enSessionRandom :: "bytes option"
  enCSRFRandom :: "bytes option"
  enFetch :: "Client \<Rightarrow> Kind \<Rightarrow> Point \<Rightarrow> clientError + ProviderResult"
  enLocalize :: "Client \<Rightarrow> Point \<Rightarrow> LocalizedMetadata option"

subsection \<open>Request bodies\<close>

definition maximumJSONBody :: nat where "maximumJSONBody = 64 * 1024"

record testLocationInput =
  tlLatitude :: "float64 option"
  tlLongitude :: "float64 option"
  tlCity :: bytes
  tlRegion :: bytes
  tlCountry :: bytes
  tlTimezone :: bytes

record qweatherInput =
  qiAPIHost :: bytes
  qiProjectID :: bytes
  qiCredentialID :: bytes
  qiPrivateKeyPEM :: bytes
  qiTestLocation :: "testLocationInput option"

record setupRequest =
  suPassword :: bytes
  suQWeather :: qweatherInput
  suDeviceName :: bytes
  suAdminOrigins :: "bytes list"

record passwordRequest =
  pwCurrentPassword :: bytes
  pwNewPassword :: bytes

text \<open>
  \<open>json.Decoder.Decode\<close> with \<open>DisallowUnknownFields\<close>, one function per request type; the second
  component is what \<open>Decode\<close> finds after the value. A \<open>loginRequest\<close>, \<open>tokenRequest\<close> or \<open>originRequest\<close> is
  its only field.
\<close>

record requestCodec =
  rcSetup :: "bytes \<Rightarrow> (setupRequest \<times> jsonRest) option"
  rcQWeather :: "bytes \<Rightarrow> (qweatherInput \<times> jsonRest) option"
  rcLogin :: "bytes \<Rightarrow> (bytes \<times> jsonRest) option"
  rcToken :: "bytes \<Rightarrow> (bytes \<times> jsonRest) option"
  rcPassword :: "bytes \<Rightarrow> (passwordRequest \<times> jsonRest) option"
  rcOrigin :: "bytes \<Rightarrow> (bytes \<times> jsonRest) option"

text \<open>\<open>MaxBytesReader\<close> lets through 64 KiB; in a longer body the read after them is an error, not the end.\<close>

definition decodeJSON :: "(bytes \<Rightarrow> ('a \<times> jsonRest) option) \<Rightarrow> request \<Rightarrow> response + 'a" where
  "decodeJSON dec r =
     (case dec (take maximumJSONBody (rBody r)) of
        None \<Rightarrow> Inl (WriteError r 400 ''invalid_json'' ''request body is invalid'')
      | Some (v, rest) \<Rightarrow>
          if rest \<noteq> AtEOF \<or> maximumJSONBody < length (rBody r)
          then Inl (WriteError r 400 ''invalid_json'' ''request body has trailing data'')
          else Inr v)"

subsection \<open>Responses\<close>

definition stateWarningHeader :: bytes where "stateWarningHeader = ''X-MT-State-Warning''"
definition stateWarningValue :: bytes where "stateWarningValue = ''durability_unconfirmed''"

text \<open>\<open>reportWriteResult\<close>: the header it sets is on whatever is written afterwards.\<close>

definition reportWriteResult :: "bool \<Rightarrow> response \<Rightarrow> response" where
  "reportWriteResult confirmed w = (if confirmed then w else SetHeader stateWarningHeader stateWarningValue w)"

definition sessionCookieName :: bytes where "sessionCookieName = ''mt_admin_session''"

text \<open>The \<open>Set-Cookie\<close> text of \<open>http.SetCookie\<close> for the attributes both calls use.\<close>

definition cookieText :: "bytes \<Rightarrow> bytes \<Rightarrow> bool \<Rightarrow> bytes" where
  "cookieText value maxAge secure =
     sessionCookieName @ ''='' @ value @ ''; Path=/admin/; Max-Age='' @ maxAge @ ''; HttpOnly'' @
     (if secure then ''; Secure'' else []) @ ''; SameSite=Strict''"

definition setSessionCookie :: "admin \<Rightarrow> request \<Rightarrow> bytes \<Rightarrow> response \<Rightarrow> response" where
  "setSessionCookie a r tk w = SetHeader ''Set-Cookie'' (cookieText tk (Itoa ((12 * hour) div second)) (Secure (adTransport a) r)) w"

definition clearSessionCookie :: "admin \<Rightarrow> request \<Rightarrow> response \<Rightarrow> response" where
  "clearSessionCookie a r w = SetHeader ''Set-Cookie'' (cookieText [] ''0'' (Secure (adTransport a) r)) w"

text \<open>A 204 answer; it has no body.\<close>

definition noContent :: response where
  "noContent = \<lparr>rsStatus = 204, rsHeaders = [(''Cache-Control'', ''private, no-store'')], rsBody = JNull\<rparr>"

definition publicToken :: "DeviceToken \<Rightarrow> json" where
  "publicToken t = JObj [(''id'', JStr (dtID t)), (''name'', JStr (dtName t)), (''created_at'', JTime (dtCreatedAt t))]"

definition publicOrigin :: "golib \<Rightarrow> bytes \<Rightarrow> json" where
  "publicOrigin L origin = JObj [(''id'', JStr (PublicOriginID L origin)), (''origin'', JStr origin)]"

fun originMessage :: "originError \<Rightarrow> bytes" where
  "originMessage TooManyOrigins = ''at most 16 origins are allowed''"
| "originMessage InvalidOrigin = ''invalid HTTPS origin''"
| "originMessage DuplicateOrigin = ''duplicate origin''"
| "originMessage OriginRequired = ''at least one HTTPS origin is required in proxy mode''"

subsection \<open>Guards\<close>

definition httpsRequired :: "request \<Rightarrow> response" where
  "httpsRequired r = WriteError r 403 ''https_required'' ''HTTPS is required for management changes''"

definition originRejected :: "request \<Rightarrow> response" where
  "originRejected r = WriteError r 403 ''origin_rejected'' ''management request origin could not be verified''"

definition csrfRejected :: "request \<Rightarrow> response" where
  "csrfRejected r = WriteError r 403 ''csrf_rejected'' ''management CSRF token is invalid''"

definition rateLimited :: "request \<Rightarrow> response" where
  "rateLimited r = SetHeader ''Retry-After'' ''60'' (WriteError r 429 ''rate_limited'' ''too many authentication attempts'')"

definition adminUnauthorized :: "request \<Rightarrow> response" where
  "adminUnauthorized r = WriteError r 401 ''admin_unauthorized'' ''administrator login required''"

definition stateUnavailable :: "request \<Rightarrow> response" where
  "stateUnavailable r = WriteError r 500 ''state_unavailable'' ''application state is unavailable''"

definition csrfMatches :: "admin \<Rightarrow> request \<Rightarrow> bool" where
  "csrfMatches a r \<longleftrightarrow> (let provided = HeaderGet r ''X-CSRF-Token''
     in length provided = length (adPublicCSRF a) \<and> provided = adPublicCSRF a)"

text \<open>
  Both guards of the public write endpoints: a response when the request is stopped, and the limiter
  as they leave it.
\<close>

definition preparePublicWriteWithoutOrigin :: "time \<Rightarrow> request \<Rightarrow> admin \<Rightarrow> Limiter \<Rightarrow> response option \<times> Limiter" where
  "preparePublicWriteWithoutOrigin now r a l =
     (if \<not> AllowWrite (adTransport a) r then (Some (httpsRequired r), l)
      else if \<not> csrfMatches a r then (Some (csrfRejected r), l)
      else (case LimiterAllow now l of (ok, l) \<Rightarrow> (if \<not> ok then Some (rateLimited r) else None, l)))"

definition preparePublicWrite :: "golib \<Rightarrow> time \<Rightarrow> request \<Rightarrow> admin \<Rightarrow> Limiter \<Rightarrow> response option \<times> Limiter" where
  "preparePublicWrite L now r a l =
     (if \<not> AllowWrite (adTransport a) r then (Some (httpsRequired r), l)
      else if \<not> SameOrigin L (adTransport a) r then (Some (originRejected r), l)
      else if \<not> csrfMatches a r then (Some (csrfRejected r), l)
      else (case LimiterAllow now l of (ok, l) \<Rightarrow> (if \<not> ok then Some (rateLimited r) else None, l)))"

text \<open>\<open>sessionFromRequest\<close>: the cookie's value and the CSRF token of its session, if it is valid.\<close>

definition sessionFromRequest :: "golib \<Rightarrow> time \<Rightarrow> request \<Rightarrow> admin \<Rightarrow> (bytes \<times> bytes option) \<times> admin" where
  "sessionFromRequest L now r a =
     (case rCookie r of
        None \<Rightarrow> (([], None), a)
      | Some tk \<Rightarrow>
          (let (csrf, s) = Validate L now tk (adSessions a) in ((tk, csrf), a\<lparr>adSessions := s\<rparr>)))"

type_synonym handler = "admin \<Rightarrow> response \<times> admin"

definition requireSession :: "golib \<Rightarrow> adminEnv \<Rightarrow> request \<Rightarrow> bool \<Rightarrow> handler \<Rightarrow> handler" where
  "requireSession L E r isWrite handler a =
     (case sessionFromRequest L (enNow E AtSession) r a of
        ((tk, None), a) \<Rightarrow> (adminUnauthorized r, a)
      | ((tk, Some _), a) \<Rightarrow>
          if \<not> isWrite then handler a
          else if \<not> AllowWrite (adTransport a) r then (httpsRequired r, a)
          else if \<not> SameOrigin L (adTransport a) r then (originRejected r, a)
          else
            (let (ok, s) = ValidateCSRF L (enNow E AtCSRF) tk (HeaderGet r ''X-CSRF-Token'') (adSessions a);
                 a = a\<lparr>adSessions := s\<rparr>
             in if \<not> ok then (csrfRejected r, a) else handler a))"

definition loadState :: "codec \<Rightarrow> adminEnv \<Rightarrow> request \<Rightarrow> admin \<Rightarrow> response + State" where
  "loadState C E r a =
     (case Load C (enReadOk E) (adStore a) of Inl _ \<Rightarrow> Inl (stateUnavailable r) | Inr v \<Rightarrow> Inr v)"

text \<open>A failed \<open>acquirePasswordSlot\<close>; a slot taken by this request is free again when its handler ends.\<close>

definition passwordBusy :: "admin \<Rightarrow> bool" where
  "passwordBusy a \<longleftrightarrow> 2 \<le> adPasswordSlots a"

definition authenticationBusy :: "request \<Rightarrow> response" where
  "authenticationBusy r = WriteError r 429 ''authentication_busy'' ''authentication is temporarily busy''"

subsection \<open>Connection tests\<close>

datatype testError = TestBusy | TestRateLimited | TestFailed runtimeError

definition testPoint :: "testLocationInput option \<Rightarrow> Point option" where
  "testPoint t =
     (case t of
        None \<Rightarrow> None
      | Some v \<Rightarrow>
          (case (tlLatitude v, tlLongitude v) of
             (Some lat, Some lon) \<Rightarrow>
               Some (emptyPoint\<lparr>Latitude := lat, Longitude := lon, City := tlCity v, Region := tlRegion v,
                 Country := tlCountry v, Timezone := tlTimezone v\<rparr>)
           | _ \<Rightarrow> None))"

text \<open>The test slot is taken for the duration of the test; \<open>testLimit\<close> counts every attempt that gets it.\<close>

definition testCandidate :: "golib \<Rightarrow> adminEnv \<Rightarrow> State \<Rightarrow> testLocationInput option \<Rightarrow> admin \<Rightarrow>
    (testError + Verification \<times> bytes list \<times> bytes) \<times> admin" where
  "testCandidate L E v loc a =
     (if adTestSlot a then (Inl TestBusy, a)
      else
        (let (ok, l) = LimiterAllow (enNow E AtTestLimit) (adTestLimit a); a = a\<lparr>adTestLimit := l\<rparr>
         in if \<not> ok then (Inl TestRateLimited, a)
            else (case testPoint loc of
                    None \<Rightarrow> (Inl (TestFailed (RuntimeLocation ErrRequired)), a)
                  | Some point \<Rightarrow>
                      (case RuntimeTest L (enNow E AtTest) (enFetch E) (enLocalize E) v (Some point) of
                         Inl e \<Rightarrow> (Inl (TestFailed e), a)
                       | Inr result \<Rightarrow> (Inr result, a)))))"

definition ceilSeconds :: "duration \<Rightarrow> int" where
  "ceilSeconds d = int64 (d + second - 1) div second"

text \<open>The answer to an upstream error: status, code, message and \<open>Retry-After\<close>.\<close>

definition upstreamAnswer :: "UpstreamError \<Rightarrow> int \<times> bytes \<times> bytes \<times> bytes option" where
  "upstreamAnswer u =
     (if ueHTTPStatus u = 401 \<or> ueHTTPStatus u = 403 \<or> ueCode u = ''401'' \<or> ueCode u = ''403'' then
        (502, ''qweather_credentials_rejected'',
         ''QWeather rejected the credential; check the Project ID, Credential ID, API Host, and private key'', None)
      else if ueHTTPStatus u = 429 \<or> ueCode u = ''429'' then
        (429, ''qweather_rate_limited'', ''QWeather request limit was reached; try again later'',
         if 0 < ueDelay u then Some (Itoa (ceilSeconds (ueDelay u))) else None)
      else if 500 \<le> ueHTTPStatus u \<or> HasPrefix (ueCode u) ''5'' then
        (502, ''qweather_unavailable'', ''QWeather is temporarily unavailable'', None)
      else (502, ''qweather_test_failed'', ''QWeather connection test failed'', None))"

fun testAnswer :: "testError \<Rightarrow> int \<times> bytes \<times> bytes \<times> bytes option" where
  "testAnswer TestBusy = (429, ''qweather_test_busy'', ''Another QWeather connection test is already running'', Some ''1'')"
| "testAnswer TestRateLimited =
     (429, ''qweather_test_rate_limited'', ''Too many QWeather connection tests; try again later'', Some ''60'')"
| "testAnswer (TestFailed (RuntimeLocation ErrRequired)) =
     (422, ''test_location_unavailable'', ''A temporary browser location is required for QWeather verification'', None)"
| "testAnswer (TestFailed (RuntimeLocation ErrInvalid)) =
     (422, ''invalid_test_location'', ''The temporary browser location is invalid'', None)"
| "testAnswer (TestFailed (RuntimeProvider e)) =
     (if peDeadlineExceeded (asProviderError e) then
        (504, ''qweather_timeout'', ''QWeather connection test timed out'', None)
      else (case e of Upstream u \<Rightarrow> upstreamAnswer u
            | _ \<Rightarrow> (502, ''qweather_test_failed'', ''QWeather connection test failed'', None)))"
| "testAnswer (TestFailed _) = (502, ''qweather_test_failed'', ''QWeather connection test failed'', None)"

definition writeTestError :: "request \<Rightarrow> testError \<Rightarrow> bool \<Rightarrow> response" where
  "writeTestError r e retained =
     (let (status, code, message, retryAfter) = testAnswer e;
          message = (if retained then message @ ''; existing settings were retained'' else message);
          w = WriteError r status code message
      in case retryAfter of None \<Rightarrow> w | Some v \<Rightarrow> SetHeader ''Retry-After'' v w)"

subsection \<open>Candidate data\<close>

definition qweatherState :: "golib \<Rightarrow> qweatherInput \<Rightarrow> bytes \<Rightarrow> QWeatherState" where
  "qweatherState L input existingKey =
     (let privateKey = TrimSpace (qiPrivateKeyPEM input);
          privateKey = (if privateKey = [] then existingKey else privateKey)
      in \<lparr>qwAPIHost = ToLower (ulow L) (TrimSpace (qiAPIHost input)), qwProjectID = TrimSpace (qiProjectID input),
          qwCredentialID = TrimSpace (qiCredentialID input), qwPrivateKeyPEM = privateKey, qwLanguage = ''zh'', qwUnit = ''m'',
          qwRequestTimeoutSeconds = 10, qwCircuitCooldownSeconds = (15 * minute) div second\<rparr>)"

text \<open>
  \<open>newDeviceToken\<close>: the message of its error (\<open>rand\<close> stands for that of \<open>rand.Read\<close>), or the raw token and
  what is stored of it.
\<close>

definition newDeviceToken :: "golib \<Rightarrow> bytes option \<Rightarrow> bytes option \<Rightarrow> time \<Rightarrow> bytes \<Rightarrow> bytes + bytes \<times> DeviceToken" where
  "newDeviceToken L random idRandom now name0 =
     (let name = TrimSpace name0
      in if name = [] \<or> 64 < RuneCount name then Inl ''device name must contain 1-64 characters''
         else (case random of
                 None \<Rightarrow> Inl ''rand''
               | Some v \<Rightarrow>
                   (case idRandom of
                      None \<Rightarrow> Inl ''rand''
                    | Some idBytes \<Rightarrow>
                        (let raw = ''mt_'' @ b64RawURL L v
                         in Inr (raw, \<lparr>dtID = ''device_'' @ b64RawURL L idBytes, dtName = name,
                              dtHash = HashToken L raw, dtCreatedAt = now\<rparr>)))))"

definition updatedState :: "adminEnv \<Rightarrow> State \<Rightarrow> State" where
  "updatedState E v = v\<lparr>stUpdatedAt := enNow E AtUpdate\<rparr>"

text \<open>\<open>Save\<close> through the handler's store: the result, and the store as it leaves it.\<close>

definition saveState :: "codec \<Rightarrow> adminEnv \<Rightarrow> State \<Rightarrow> admin \<Rightarrow> (storeError + bool) \<times> admin" where
  "saveState C E v a =
     (let (result, _, s) = Save C (enFaults E) (enStatOk E) (enNow E AtSave) v (adStore a)
      in (result, a\<lparr>adStore := s\<rparr>))"

definition commitState :: "codec \<Rightarrow> adminEnv \<Rightarrow> State \<Rightarrow> admin \<Rightarrow> (storeError + bool) \<times> admin" where
  "commitState C E v a =
     (let (result, _, s) = CommitInitial C (enFaults E) (enStatOk E) (enNow E AtSave) v (adStore a)
      in (result, a\<lparr>adStore := s\<rparr>))"

text \<open>\<open>Activate\<close> and the deferred \<open>Discard\<close> on the handler's runtime.\<close>

definition activateChange :: "prepared \<Rightarrow> admin \<Rightarrow> admin" where
  "activateChange p a = a\<lparr>adRuntime := snd (Activate p (adRuntime a))\<rparr>"

definition discardChange :: "prepared \<Rightarrow> admin \<Rightarrow> admin" where
  "discardChange p a = a\<lparr>adRuntime := snd (Discard p (adRuntime a))\<rparr>"

definition stateWriteFailed :: "request \<Rightarrow> bytes \<Rightarrow> response" where
  "stateWriteFailed r message = WriteError r 500 ''state_write_failed'' message"

definition prepareFailed :: "request \<Rightarrow> bytes \<Rightarrow> response" where
  "prepareFailed r message = WriteError r 500 ''runtime_prepare_failed'' message"

subsection \<open>Status, setup and login\<close>

definition statusHandler :: "codec \<Rightarrow> adminEnv \<Rightarrow> request \<Rightarrow> handler" where
  "statusHandler C E r a =
     (let reply = (\<lambda>configured ready durability.
        WriteJSON 200 (JObj [(''configured'', JBool configured), (''status'', JStr ready), (''version'', JStr (adVersion a)),
          (''secure_transport'', JBool (Secure (adTransport a) r)), (''admin_origin_mode'', JStr (OriginMode (adTransport a))),
          (''state_durability'', JStr durability), (''csrf_token'', JStr (adPublicCSRF a))]))
      in case Load C (enReadOk E) (adStore a) of
           Inl e \<Rightarrow> (if e \<noteq> ErrNotInitialized then (stateUnavailable r, a)
                     else (reply False ''setup_required'' ''not_applicable'', a))
         | Inr _ \<Rightarrow>
             (reply True (case runtimeReady (enNow E AtHandler) (adRuntime a) of Ready \<Rightarrow> ''ready'' | _ \<Rightarrow> ''unavailable'')
                (if soDurabilityConfirmed (adStore a) then ''confirmed'' else ''unconfirmed''), a))"

definition setupReply :: "bytes \<Rightarrow> bytes \<Rightarrow> DeviceToken \<Rightarrow> Verification \<times> bytes list \<times> bytes \<Rightarrow> response" where
  "setupReply csrf raw device tested =
     (case tested of (verification, capabilities, fingerprint) \<Rightarrow>
        WriteJSON 201 (JObj [(''csrf_token'', JStr csrf), (''device_token'', JStr raw), (''device'', publicToken device),
          (''qweather_public_key_fingerprint'', JStr fingerprint), (''verification'', verificationJSON verification),
          (''tested_capabilities'', JArr (map JStr capabilities))]))"

text \<open>The end of \<open>setup\<close>, from \<open>Prepare\<close> on: the session is kept and the change activated only after the commit.\<close>

definition setupCommit :: "golib \<Rightarrow> codec \<Rightarrow> adminEnv \<Rightarrow> request \<Rightarrow> State \<Rightarrow> bytes list \<Rightarrow> bytes \<Rightarrow> DeviceToken \<Rightarrow>
    Verification \<times> bytes list \<times> bytes \<Rightarrow> handler" where
  "setupCommit L C E r v origins raw device tested a =
     (case Prepare L (enNow E AtService) v (adRuntime a) of
        (Inl _, m) \<Rightarrow> (prepareFailed r ''configuration could not be prepared'', a\<lparr>adRuntime := m\<rparr>)
      | (Inr p, m) \<Rightarrow>
          (let a = a\<lparr>adRuntime := m\<rparr>
           in case Create L (enNow E AtCreate) (enSessionRandom E) (enCSRFRandom E) (adSessions a) of
                (None, s) \<Rightarrow>
                  (WriteError r 500 ''session_failed'' ''could not create administrator session'',
                   discardChange p (a\<lparr>adSessions := s\<rparr>))
              | (Some (sessionToken, csrf), s) \<Rightarrow>
                  (let a = a\<lparr>adSessions := s\<rparr>
                   in case commitState C E v a of
                        (Inl e, a) \<Rightarrow>
                          (if e = ErrAlreadyInitialized
                           then WriteError r 409 ''already_configured'' ''service setup is already complete''
                           else stateWriteFailed r ''could not save application state'',
                           discardChange p (a\<lparr>adSessions := DeleteSession L sessionToken (adSessions a)\<rparr>))
                      | (Inr confirmed, a) \<Rightarrow>
                          (let a = a\<lparr>adTransport := ReplacePublicOrigins origins (adTransport a)\<rparr>;
                               a = activateChange p a;
                               a = a\<lparr>adSetupLimit := LimiterReset (adSetupLimit a)\<rparr>
                           in (reportWriteResult confirmed (setSessionCookie a r sessionToken (setupReply csrf raw device tested)),
                               a)))))"

definition setupValue :: "golib \<Rightarrow> adminEnv \<Rightarrow> setupRequest \<Rightarrow> bytes list \<Rightarrow> PasswordHash \<Rightarrow> DeviceToken \<Rightarrow> State" where
  "setupValue L E req origins passwordHash device =
     \<lparr>stSchemaVersion = SchemaVersion, stUpdatedAt = enNow E AtUpdate,
      stAdmin = \<lparr>asPassword = passwordHash, asPublicOrigins = origins\<rparr>,
      stQWeather = qweatherState L (suQWeather req) [], stCache = DefaultCache, stDeviceTokens = [device]\<rparr>"

definition setupHandler :: "golib \<Rightarrow> codec \<Rightarrow> requestCodec \<Rightarrow> adminEnv \<Rightarrow> request \<Rightarrow> handler" where
  "setupHandler L C J E r a =
     (case preparePublicWriteWithoutOrigin (enNow E AtLimit) r a (adSetupLimit a) of
        (Some w, l) \<Rightarrow> (w, a\<lparr>adSetupLimit := l\<rparr>)
      | (None, l) \<Rightarrow>
          (let a = a\<lparr>adSetupLimit := l\<rparr>
           in case Load C (enReadOk E) (adStore a) of
                Inr _ \<Rightarrow>
                  (if \<not> SameOrigin L (adTransport a) r then (originRejected r, a)
                   else (WriteError r 409 ''already_configured'' ''service setup is already complete'', a))
              | Inl e \<Rightarrow>
                  if e \<noteq> ErrNotInitialized then (stateUnavailable r, a)
                  else (case decodeJSON (rcSetup J) r of
                     Inl w \<Rightarrow> (w, a)
                   | Inr req \<Rightarrow>
                   (case ValidatePublicOrigins L (adTransport a) (suAdminOrigins req) of
                      Inl e \<Rightarrow> (WriteError r 400 ''invalid_admin_origin'' (originMessage e), a)
                    | Inr origins \<Rightarrow>
                   if \<not> SetupOriginAllowed L (adTransport a) r origins
                   then (WriteError r 403 ''origin_rejected'' ''management request origin is not present in setup settings'', a)
                   else if passwordBusy a then (authenticationBusy r, a)
                   else (case HashPassword L (enSalt E) (suPassword req) of
                      None \<Rightarrow> (WriteError r 400 ''invalid_password''
                        ''password must contain at least 12 Unicode characters and at most 128 UTF-8 bytes'', a)
                    | Some passwordHash \<Rightarrow>
                   (case newDeviceToken L (enTokenRandom E) (enIDRandom E) (enNow E AtToken) (suDeviceName req) of
                      Inl message \<Rightarrow> (WriteError r 400 ''invalid_device_name'' message, a)
                    | Inr (raw, device) \<Rightarrow>
                   (let v = setupValue L E req origins passwordHash device
                    in case testCandidate L E v (qiTestLocation (suQWeather req)) a of
                         (Inl e, a) \<Rightarrow> (writeTestError r e False, a)
                       | (Inr tested, a) \<Rightarrow> setupCommit L C E r v origins raw device tested a)))))))"

definition loginHandler :: "golib \<Rightarrow> codec \<Rightarrow> requestCodec \<Rightarrow> adminEnv \<Rightarrow> request \<Rightarrow> handler" where
  "loginHandler L C J E r a =
     (case preparePublicWrite L (enNow E AtLimit) r a (adLoginLimit a) of
        (Some w, l) \<Rightarrow> (w, a\<lparr>adLoginLimit := l\<rparr>)
      | (None, l) \<Rightarrow>
          (let a = a\<lparr>adLoginLimit := l\<rparr>
           in case decodeJSON (rcLogin J) r of
                Inl w \<Rightarrow> (w, a)
              | Inr password \<Rightarrow>
                  (case Load C (enReadOk E) (adStore a) of
                     Inl e \<Rightarrow>
                       (if e = ErrNotInitialized then (WriteError r 409 ''setup_required'' ''service setup is required'', a)
                        else (stateUnavailable r, a))
                   | Inr v \<Rightarrow>
                       if passwordBusy a then (authenticationBusy r, a)
                       else if \<not> VerifyPassword L password (asPassword (stAdmin v))
                       then (WriteError r 401 ''invalid_credentials'' ''administrator password is incorrect'', a)
                       else
                         (let a = a\<lparr>adLoginLimit := LimiterReset (adLoginLimit a)\<rparr>
                          in case Create L (enNow E AtCreate) (enSessionRandom E) (enCSRFRandom E) (adSessions a) of
                               (None, s) \<Rightarrow>
                                 (WriteError r 500 ''session_failed'' ''could not create administrator session'', a\<lparr>adSessions := s\<rparr>)
                             | (Some (sessionToken, csrf), s) \<Rightarrow>
                                 (setSessionCookie a r sessionToken (WriteJSON 200 (JObj [(''csrf_token'', JStr csrf)])),
                                  a\<lparr>adSessions := s\<rparr>)))))"

definition sessionHandler :: "golib \<Rightarrow> adminEnv \<Rightarrow> request \<Rightarrow> handler" where
  "sessionHandler L E r a =
     (case sessionFromRequest L (enNow E AtHandler) r a of
        ((_, None), a) \<Rightarrow> (adminUnauthorized r, a)
      | ((_, Some csrf), a) \<Rightarrow> (WriteJSON 200 (JObj [(''csrf_token'', JStr csrf)]), a))"

definition logoutHandler :: "golib \<Rightarrow> adminEnv \<Rightarrow> request \<Rightarrow> handler" where
  "logoutHandler L E r a =
     (let ((tk, _), a) = sessionFromRequest L (enNow E AtHandler) r a
      in (clearSessionCookie a r (WriteJSON 200 (JObj [(''status'', JStr ''logged_out'')])),
          a\<lparr>adSessions := DeleteSession L tk (adSessions a)\<rparr>))"

subsection \<open>Provider settings\<close>

definition getQWeatherHandler :: "golib \<Rightarrow> codec \<Rightarrow> adminEnv \<Rightarrow> request \<Rightarrow> handler" where
  "getQWeatherHandler L C E r a =
     (case loadState C E r a of
        Inl w \<Rightarrow> (w, a)
      | Inr v \<Rightarrow>
          (let q = stQWeather v;
               fingerprint = (case PublicKeyFingerprint L (qwPrivateKeyPEM q) of None \<Rightarrow> [] | Some f \<Rightarrow> f)
           in (WriteJSON 200 (JObj [(''api_host'', JStr (qwAPIHost q)), (''project_id'', JStr (qwProjectID q)),
                 (''credential_id'', JStr (qwCredentialID q)), (''private_key_configured'', JBool (qwPrivateKeyPEM q \<noteq> [])),
                 (''public_key_fingerprint'', JStr fingerprint), (''language'', JStr (qwLanguage q)), (''unit'', JStr (qwUnit q))]), a)))"

definition testedReply :: "bytes \<Rightarrow> Verification \<times> bytes list \<times> bytes \<Rightarrow> response" where
  "testedReply status tested =
     (case tested of (verification, capabilities, fingerprint) \<Rightarrow>
        WriteJSON 200 (JObj [(''status'', JStr status), (''public_key_fingerprint'', JStr fingerprint),
          (''verification'', verificationJSON verification), (''tested_capabilities'', JArr (map JStr capabilities))]))"

definition testQWeatherHandler :: "golib \<Rightarrow> codec \<Rightarrow> requestCodec \<Rightarrow> adminEnv \<Rightarrow> request \<Rightarrow> handler" where
  "testQWeatherHandler L C J E r a =
     (case decodeJSON (rcQWeather J) r of
        Inl w \<Rightarrow> (w, a)
      | Inr req \<Rightarrow>
          (case loadState C E r a of
             Inl w \<Rightarrow> (w, a)
           | Inr v \<Rightarrow>
               (let v = v\<lparr>stQWeather := qweatherState L req (qwPrivateKeyPEM (stQWeather v))\<rparr>
                in case testCandidate L E v (qiTestLocation req) a of
                     (Inl e, a) \<Rightarrow> (writeTestError r e False, a)
                   | (Inr tested, a) \<Rightarrow> (testedReply ''ok'' tested, a))))"

definition saveAndActivate :: "codec \<Rightarrow> adminEnv \<Rightarrow> request \<Rightarrow> State \<Rightarrow> prepared \<Rightarrow> response \<Rightarrow> handler" where
  "saveAndActivate C E r candidate p reply a =
     (case saveState C E candidate a of
        (Inl _, a) \<Rightarrow> (stateWriteFailed r ''could not save application state'', discardChange p a)
      | (Inr confirmed, a) \<Rightarrow> (reportWriteResult confirmed reply, activateChange p a))"

definition qweatherCandidate :: "golib \<Rightarrow> adminEnv \<Rightarrow> qweatherInput \<Rightarrow> State \<Rightarrow> State" where
  "qweatherCandidate L E req v = updatedState E (v\<lparr>stQWeather := qweatherState L req (qwPrivateKeyPEM (stQWeather v))\<rparr>)"

definition putQWeatherHandler :: "golib \<Rightarrow> codec \<Rightarrow> requestCodec \<Rightarrow> adminEnv \<Rightarrow> request \<Rightarrow> handler" where
  "putQWeatherHandler L C J E r a =
     (case decodeJSON (rcQWeather J) r of
        Inl w \<Rightarrow> (w, a)
      | Inr req \<Rightarrow>
          (case loadState C E r a of
             Inl w \<Rightarrow> (w, a)
           | Inr previous \<Rightarrow>
               (let candidate = qweatherCandidate L E req previous
                in case testCandidate L E candidate (qiTestLocation req) a of
                     (Inl e, a) \<Rightarrow> (writeTestError r e True, a)
                   | (Inr tested, a) \<Rightarrow>
                       (case Prepare L (enNow E AtService) candidate (adRuntime a) of
                          (Inl _, m) \<Rightarrow> (prepareFailed r ''new settings could not be prepared'', a\<lparr>adRuntime := m\<rparr>)
                        | (Inr p, m) \<Rightarrow>
                            saveAndActivate C E r candidate p (testedReply ''saved'' tested) (a\<lparr>adRuntime := m\<rparr>)))))"

subsection \<open>Management origins\<close>

definition listAdminOriginsHandler :: "golib \<Rightarrow> codec \<Rightarrow> adminEnv \<Rightarrow> request \<Rightarrow> handler" where
  "listAdminOriginsHandler L C E r a =
     (case loadState C E r a of
        Inl w \<Rightarrow> (w, a)
      | Inr v \<Rightarrow>
          (WriteJSON 200 (JObj [(''mode'', JStr (OriginMode (adTransport a))), (''maximum'', JInt (int MaximumPublicOrigins)),
             (''origins'', JArr (map (publicOrigin L) (asPublicOrigins (stAdmin v))))]), a))"

definition withOrigins :: "bytes list \<Rightarrow> State \<Rightarrow> State" where
  "withOrigins origins v = v\<lparr>stAdmin := (stAdmin v)\<lparr>asPublicOrigins := origins\<rparr>\<rparr>"

definition addAdminOriginHandler :: "golib \<Rightarrow> codec \<Rightarrow> requestCodec \<Rightarrow> adminEnv \<Rightarrow> request \<Rightarrow> handler" where
  "addAdminOriginHandler L C J E r a =
     (case decodeJSON (rcOrigin J) r of
        Inl w \<Rightarrow> (w, a)
      | Inr req \<Rightarrow>
          (case NormalizePublicOrigin L req of
             None \<Rightarrow> (WriteError r 400 ''invalid_admin_origin'' (originMessage InvalidOrigin), a)
           | Some origin \<Rightarrow>
               (case loadState C E r a of
                  Inl w \<Rightarrow> (w, a)
                | Inr v \<Rightarrow>
                    (let origins = asPublicOrigins (stAdmin v)
                     in if origin \<in> set origins
                        then (WriteError r 409 ''admin_origin_exists'' ''management origin already exists'', a)
                        else if MaximumPublicOrigins \<le> length origins
                        then (WriteError r 409 ''admin_origin_limit_reached'' ''management origin limit reached'', a)
                        else
                          (let v = updatedState E (withOrigins (origins @ [origin]) v)
                           in case ValidatePublicOrigins L (adTransport a) (origins @ [origin]) of
                                Inl e \<Rightarrow> (WriteError r 400 ''invalid_admin_origin'' (originMessage e), a)
                              | Inr checked \<Rightarrow>
                                  (case saveState C E v a of
                                     (Inl _, a) \<Rightarrow> (stateWriteFailed r ''could not save management origin'', a)
                                   | (Inr confirmed, a) \<Rightarrow>
                                       (reportWriteResult confirmed (WriteJSON 201 (publicOrigin L origin)),
                                        a\<lparr>adTransport := ReplacePublicOrigins checked (adTransport a)\<rparr>)))))))"

text \<open>The loop of \<open>deleteAdminOrigin\<close>: the last origin with the identifier, and the others in order.\<close>

definition splitOrigins :: "golib \<Rightarrow> bytes \<Rightarrow> bytes list \<Rightarrow> bytes \<times> bytes list" where
  "splitOrigins L oid origins =
     (let hits = filter (\<lambda>x. PublicOriginID L x = oid) origins in if hits = [] then [] else last hits,
      filter (\<lambda>x. PublicOriginID L x \<noteq> oid) origins)"

definition deleteAdminOriginHandler :: "golib \<Rightarrow> codec \<Rightarrow> adminEnv \<Rightarrow> request \<Rightarrow> handler" where
  "deleteAdminOriginHandler L C E r a =
     (case loadState C E r a of
        Inl w \<Rightarrow> (w, a)
      | Inr v \<Rightarrow>
          (let (target, filtered) = splitOrigins L (rPathValue r) (asPublicOrigins (stAdmin v))
           in if target = [] then (WriteError r 404 ''admin_origin_not_found'' ''management origin not found'', a)
              else if tpBehindHTTPSProxy (adTransport a) \<and> length filtered = 0
              then (WriteError r 409 ''last_admin_origin'' ''the last management origin cannot be removed in proxy mode'', a)
              else if RequestOrigin L r = Some target
              then (WriteError r 409 ''current_admin_origin'' ''the current management origin cannot be removed'', a)
              else (case ValidatePublicOrigins L (adTransport a) filtered of
                      Inl e \<Rightarrow> (WriteError r 400 ''invalid_admin_origin'' (originMessage e), a)
                    | Inr checked \<Rightarrow>
                        (case saveState C E (updatedState E (withOrigins checked v)) a of
                           (Inl _, a) \<Rightarrow> (stateWriteFailed r ''could not remove management origin'', a)
                         | (Inr confirmed, a) \<Rightarrow>
                             (let a = a\<lparr>adTransport := ReplacePublicOrigins checked (adTransport a),
                                        adSessions := ClearSessions (adSessions a)\<rparr>
                              in (reportWriteResult confirmed (clearSessionCookie a r noContent), a))))))"

subsection \<open>Device tokens and the password\<close>

definition listTokensHandler :: "codec \<Rightarrow> adminEnv \<Rightarrow> request \<Rightarrow> handler" where
  "listTokensHandler C E r a =
     (case loadState C E r a of
        Inl w \<Rightarrow> (w, a)
      | Inr v \<Rightarrow> (WriteJSON 200 (JObj [(''tokens'', JArr (map publicToken (stDeviceTokens v)))]), a))"

definition withTokens :: "DeviceToken list \<Rightarrow> State \<Rightarrow> State" where
  "withTokens ts v = v\<lparr>stDeviceTokens := ts\<rparr>"

text \<open>The common end of \<open>createToken\<close> and \<open>deleteToken\<close>: prepare, save, activate.\<close>

definition replaceTokens :: "codec \<Rightarrow> adminEnv \<Rightarrow> request \<Rightarrow> State \<Rightarrow> DeviceToken list \<Rightarrow> bytes \<Rightarrow> bytes \<Rightarrow> response \<Rightarrow> handler" where
  "replaceTokens C E r v ts prepareMessage saveMessage reply a =
     (case PrepareTokens ts (adRuntime a) of
        Inl _ \<Rightarrow> (prepareFailed r prepareMessage, a)
      | Inr p \<Rightarrow>
          (case saveState C E (updatedState E (withTokens ts v)) a of
             (Inl _, a) \<Rightarrow> (stateWriteFailed r saveMessage, discardChange p a)
           | (Inr confirmed, a) \<Rightarrow> (reportWriteResult confirmed reply, activateChange p a)))"

definition createTokenHandler :: "golib \<Rightarrow> codec \<Rightarrow> requestCodec \<Rightarrow> adminEnv \<Rightarrow> request \<Rightarrow> handler" where
  "createTokenHandler L C J E r a =
     (case decodeJSON (rcToken J) r of
        Inl w \<Rightarrow> (w, a)
      | Inr name \<Rightarrow>
          (case loadState C E r a of
             Inl w \<Rightarrow> (w, a)
           | Inr v \<Rightarrow>
               if 32 \<le> length (stDeviceTokens v)
               then (WriteError r 409 ''token_limit_reached'' ''at most 32 device tokens are allowed'', a)
               else (case newDeviceToken L (enTokenRandom E) (enIDRandom E) (enNow E AtToken) name of
                       Inl message \<Rightarrow> (WriteError r 400 ''invalid_device_name'' message, a)
                     | Inr (raw, device) \<Rightarrow>
                         replaceTokens C E r v (stDeviceTokens v @ [device]) ''device token could not be prepared''
                           ''could not save device token''
                           (WriteJSON 201 (JObj [(''device_token'', JStr raw), (''device'', publicToken device)])) a)))"

definition deleteTokenHandler :: "codec \<Rightarrow> adminEnv \<Rightarrow> request \<Rightarrow> handler" where
  "deleteTokenHandler C E r a =
     (case loadState C E r a of
        Inl w \<Rightarrow> (w, a)
      | Inr v \<Rightarrow>
          if length (stDeviceTokens v) = 1
          then (WriteError r 409 ''last_token'' ''create a replacement token before revoking the last token'', a)
          else if \<not> list_ex (\<lambda>t. dtID t = rPathValue r) (stDeviceTokens v)
          then (WriteError r 404 ''device_not_found'' ''device token not found'', a)
          else replaceTokens C E r v (filter (\<lambda>t. dtID t \<noteq> rPathValue r) (stDeviceTokens v))
                 ''device token revocation could not be prepared'' ''could not revoke device token'' noContent a)"

definition withPassword :: "PasswordHash \<Rightarrow> State \<Rightarrow> State" where
  "withPassword h v = v\<lparr>stAdmin := (stAdmin v)\<lparr>asPassword := h\<rparr>\<rparr>"

definition changePasswordHandler :: "golib \<Rightarrow> codec \<Rightarrow> requestCodec \<Rightarrow> adminEnv \<Rightarrow> request \<Rightarrow> handler" where
  "changePasswordHandler L C J E r a =
     (case decodeJSON (rcPassword J) r of
        Inl w \<Rightarrow> (w, a)
      | Inr req \<Rightarrow>
          (case loadState C E r a of
             Inl w \<Rightarrow> (w, a)
           | Inr v \<Rightarrow>
               if passwordBusy a then (authenticationBusy r, a)
               else if \<not> VerifyPassword L (pwCurrentPassword req) (asPassword (stAdmin v))
               then (WriteError r 401 ''invalid_credentials'' ''current administrator password is incorrect'', a)
               else (case HashPassword L (enSalt E) (pwNewPassword req) of
                       None \<Rightarrow> (WriteError r 400 ''invalid_password''
                         ''password must contain at least 12 Unicode characters and at most 128 UTF-8 bytes'', a)
                     | Some passwordHash \<Rightarrow>
                         (case saveState C E (updatedState E (withPassword passwordHash v)) a of
                            (Inl _, a) \<Rightarrow> (stateWriteFailed r ''could not update administrator password'', a)
                          | (Inr confirmed, a) \<Rightarrow>
                              (let a = a\<lparr>adSessions := ClearSessions (adSessions a)\<rparr>
                               in (reportWriteResult confirmed
                                     (clearSessionCookie a r (WriteJSON 200 (JObj [(''status'', JStr ''password_updated'')]))), a))))))"

definition diagnosticsHandler :: "adminEnv \<Rightarrow> request \<Rightarrow> handler" where
  "diagnosticsHandler E r a =
     (case runtimeDiagnostics (enNow E AtHandler) (adRuntime a) of
        None \<Rightarrow> (WriteError r 503 ''diagnostics_unavailable'' ''runtime diagnostics are unavailable'', a)
      | Some v \<Rightarrow> (WriteJSON 200 (diagnosticsJSON v), a))"

subsection \<open>Routes\<close>

datatype adminRoute =
    StatusRoute | SetupRoute | LoginRoute | SessionRoute | LogoutRoute | GetQWeatherRoute | TestQWeatherRoute
  | PutQWeatherRoute | ListOriginsRoute | AddOriginRoute | DeleteOriginRoute | ListTokensRoute | DiagnosticsRoute
  | CreateTokenRoute | DeleteTokenRoute | ChangePasswordRoute

text \<open>\<open>RegisterRoutes\<close>, with the guard of every route; the mux has matched method and path.\<close>

fun adminServe :: "golib \<Rightarrow> codec \<Rightarrow> requestCodec \<Rightarrow> adminEnv \<Rightarrow> request \<Rightarrow> adminRoute \<Rightarrow> handler" where
  "adminServe L C J E r StatusRoute a = statusHandler C E r a"
| "adminServe L C J E r SetupRoute a = setupHandler L C J E r a"
| "adminServe L C J E r LoginRoute a = loginHandler L C J E r a"
| "adminServe L C J E r SessionRoute a = requireSession L E r False (sessionHandler L E r) a"
| "adminServe L C J E r LogoutRoute a = requireSession L E r True (logoutHandler L E r) a"
| "adminServe L C J E r GetQWeatherRoute a = requireSession L E r False (getQWeatherHandler L C E r) a"
| "adminServe L C J E r TestQWeatherRoute a = requireSession L E r True (testQWeatherHandler L C J E r) a"
| "adminServe L C J E r PutQWeatherRoute a = requireSession L E r True (putQWeatherHandler L C J E r) a"
| "adminServe L C J E r ListOriginsRoute a = requireSession L E r False (listAdminOriginsHandler L C E r) a"
| "adminServe L C J E r AddOriginRoute a = requireSession L E r True (addAdminOriginHandler L C J E r) a"
| "adminServe L C J E r DeleteOriginRoute a = requireSession L E r True (deleteAdminOriginHandler L C E r) a"
| "adminServe L C J E r ListTokensRoute a = requireSession L E r False (listTokensHandler C E r) a"
| "adminServe L C J E r DiagnosticsRoute a = requireSession L E r False (diagnosticsHandler E r) a"
| "adminServe L C J E r CreateTokenRoute a = requireSession L E r True (createTokenHandler L C J E r) a"
| "adminServe L C J E r DeleteTokenRoute a = requireSession L E r True (deleteTokenHandler C E r) a"
| "adminServe L C J E r ChangePasswordRoute a = requireSession L E r True (changePasswordHandler L C J E r) a"

text \<open>\<open>New\<close>: \<open>None\<close> when no random CSRF token can be made.\<close>

definition newAdmin :: "golib \<Rightarrow> bytes option \<Rightarrow> Store \<Rightarrow> RuntimeManager \<Rightarrow> Sessions \<Rightarrow> TransportPolicy \<Rightarrow> bytes \<Rightarrow> admin option" where
  "newAdmin L random s rt sessions transport version =
     (case random of
        None \<Rightarrow> None
      | Some v \<Rightarrow>
          Some \<lparr>adStore = s, adRuntime = rt, adSessions = sessions, adTransport = transport,
            adSetupLimit = NewLimiter 5 minute, adLoginLimit = NewLimiter 5 minute, adTestLimit = NewLimiter 6 minute,
            adPasswordSlots = 0, adTestSlot = False, adPublicCSRF = b64RawURL L v, adVersion = version\<rparr>)"

end
