(* ===== verification/AdminSafety.thy ===== *)
theory AdminSafety
  imports AdminApi
begin

section \<open>What the management API guarantees\<close>

text \<open>
  The invariant \<open>adminInv\<close>: a stored state can be loaded, built and activated again, the live
  credentials are those of the stored tokens, the live handler calls the live service and the live
  allowlist is the stored one. One lemma per handler shows that it keeps the invariant and that an
  error answer leaves everything a client or a restart can observe unchanged; both facts together
  are \<open>outcome\<close>.
\<close>

subsection \<open>Assumptions on the library and on one request\<close>

definition urlLaw :: "golib \<Rightarrow> bool" where
  "urlLaw L \<longleftrightarrow> (\<forall>h p. canonicalHost L h \<and> portOK ''https'' p \<longrightarrow>
     UrlParse L (''https://'' @ hostPart h p) = Some (canonicalURL h p))"

definition plainOrigins :: "golib \<Rightarrow> bytes list \<Rightarrow> bool" where
  "plainOrigins L vs \<longleftrightarrow> (\<forall>v\<in>set vs. \<forall>u. UrlParse L (TrimSpace v) = Some u \<longrightarrow>
     plainHost (uHostname u) \<and> visibleASCII (uHostname u))"

definition passwordLaw :: "golib \<Rightarrow> bool" where
  "passwordLaw L \<longleftrightarrow> (\<forall>x. b64RawStdDecode L (b64RawStd L x) = Some x) \<and>
     (\<forall>p s t m n k. length (argon2id L p s t m n k) = k)"

definition libraryLaws :: "golib \<Rightarrow> codec \<Rightarrow> bool" where
  "libraryLaws L C \<longleftrightarrow> urlLaw L \<and> passwordLaw L \<and> (\<forall>v. codecLaw C v)"

text \<open>\<open>CreateTemp\<close> makes a new file, and \<open>rand.Read\<close> fills the salt.\<close>

definition envOK :: "adminEnv \<Rightarrow> admin \<Rightarrow> bool" where
  "envOK E a \<longleftrightarrow> tempOK (enFaults E) stateFile (soDisk (adStore a)) \<and>
     (case enSalt E of None \<Rightarrow> True | Some s \<Rightarrow> length s = passwordSaltSize)"

definition bodyOK :: "golib \<Rightarrow> requestCodec \<Rightarrow> request \<Rightarrow> bool" where
  "bodyOK L J r \<longleftrightarrow>
     (case rcSetup J (take maximumJSONBody (rBody r)) of None \<Rightarrow> True | Some (req, _) \<Rightarrow> plainOrigins L (suAdminOrigins req)) \<and>
     (case rcOrigin J (take maximumJSONBody (rBody r)) of None \<Rightarrow> True | Some (v, _) \<Rightarrow> plainOrigins L [v])"

subsection \<open>The invariant\<close>

text \<open>A restart from this state succeeds.\<close>

definition restartable :: "golib \<Rightarrow> State \<Rightarrow> bool" where
  "restartable L v \<longleftrightarrow> (\<exists>x. buildComponents L v = Inr x)"

lemma restartable_iff:
  "restartable L v \<longleftrightarrow> stSchemaVersion v = SchemaVersion \<and> ValidPasswordHash L (asPassword (stAdmin v)) \<and>
     validateQWeather L (stQWeather v) = None \<and> validateCache (stCache v) = None \<and>
     (\<exists>cs. credentialsFromState (stDeviceTokens v) = Inr cs) \<and>
     newClient L (''https://'' @ qwAPIHost (stQWeather v)) (qwPrivateKeyPEM (stQWeather v)) (qwCredentialID (stQWeather v)) (qwProjectID (stQWeather v))
       (seconds (qwCircuitCooldownSeconds (stQWeather v))) \<noteq> None"
proof (cases "validateState L v")
  case None
  then obtain cs where "credentialsFromState (stDeviceTokens v) = Inr cs" unfolding validateState_None by blast
  with None show ?thesis unfolding restartable_def buildComponents_def
    by (cases "newClient L (''https://'' @ qwAPIHost (stQWeather v)) (qwPrivateKeyPEM (stQWeather v)) (qwCredentialID (stQWeather v)) (qwProjectID (stQWeather v))
       (seconds (qwCircuitCooldownSeconds (stQWeather v)))") (simp_all add: None [unfolded validateState_None])
next
  case (Some e)
  then have "validateState L v \<noteq> None" by simp
  with Some show ?thesis unfolding restartable_def buildComponents_def validateState_None by auto
qed

definition liveMatches :: "golib \<Rightarrow> admin \<Rightarrow> State \<Rightarrow> bool" where
  "liveMatches L a v \<longleftrightarrow>
     restartable L v \<and>
     (\<exists>c cs. rmCurrent (adRuntime a) = Some c \<and> riHandler c = (cs, riService c) \<and>
        credentialsFromState (stDeviceTokens v) = Inr cs) \<and>
     asPublicOrigins (stAdmin v) = tpPublicOrigins (adTransport a) \<and>
     ValidatePublicOrigins L (adTransport a) (tpPublicOrigins (adTransport a)) = Inr (tpPublicOrigins (adTransport a))"

definition adminInv :: "golib \<Rightarrow> codec \<Rightarrow> admin \<Rightarrow> bool" where
  "adminInv L C a \<longleftrightarrow> diskInv (soDisk (adStore a)) \<and>
     (\<forall>e. Load C True (adStore a) = Inl e \<longrightarrow> e = ErrNotInitialized) \<and>
     (\<forall>v. Load C True (adStore a) = Inr v \<longrightarrow> liveMatches L a v)"

definition unchanged :: "codec \<Rightarrow> admin \<Rightarrow> admin \<Rightarrow> bool" where
  "unchanged C a a' \<longleftrightarrow> (\<forall>ok. Load C ok (adStore a') = Load C ok (adStore a)) \<and> adTransport a' = adTransport a \<and>
     rmCurrent (adRuntime a') = rmCurrent (adRuntime a) \<and> rmLimiter (adRuntime a') = rmLimiter (adRuntime a) \<and>
     rmLocalizeLimiter (adRuntime a') = rmLocalizeLimiter (adRuntime a)"

definition outcome :: "golib \<Rightarrow> codec \<Rightarrow> admin \<Rightarrow> response \<Rightarrow> admin \<Rightarrow> bool" where
  "outcome L C a w a' \<longleftrightarrow> adminInv L C a' \<and> (400 \<le> rsStatus w \<longrightarrow> unchanged C a a')"

lemma Load_ok: "Load C ok s = Inr v \<Longrightarrow> Load C True s = Inr v"
  by (auto simp: Load_def readStateLocked_def readBounded_def split: sum.splits option.splits if_splits)

lemma liveMatches_cong:
  "rmCurrent (adRuntime a') = rmCurrent (adRuntime a) \<Longrightarrow> adTransport a' = adTransport a \<Longrightarrow>
     liveMatches L a' v = liveMatches L a v"
  by (simp add: liveMatches_def)

lemma unchanged_refl [simp]: "unchanged C a a"
  by (simp add: unchanged_def)

lemma unchanged_outcome:
  assumes "adminInv L C a" and "diskInv (soDisk (adStore a'))" and u: "unchanged C a a'"
  shows "outcome L C a w a'"
proof -
  have "Load C True (adStore a') = Load C True (adStore a)" using u by (simp add: unchanged_def)
  moreover have "liveMatches L a' v = liveMatches L a v" for v
    by (rule liveMatches_cong) (use u in \<open>simp_all add: unchanged_def\<close>)
  ultimately show ?thesis using assms by (simp add: outcome_def adminInv_def)
qed

lemma same_outcome: "adminInv L C a \<Longrightarrow> adStore a' = adStore a \<Longrightarrow> adTransport a' = adTransport a \<Longrightarrow>
    adRuntime a' = adRuntime a \<Longrightarrow> outcome L C a w a'"
  by (rule unchanged_outcome) (simp_all add: adminInv_def unchanged_def)

lemma refl_outcome: "adminInv L C a \<Longrightarrow> outcome L C a w a"
  by (rule same_outcome) simp_all

lemma outcome_inv: "outcome L C a w a' \<Longrightarrow> adminInv L C a'"
  by (simp add: outcome_def)

lemma outcome_trans:
  "unchanged C a b \<Longrightarrow> outcome L C b w a' \<Longrightarrow> outcome L C a w a'"
  by (auto simp: outcome_def unchanged_def)

subsection \<open>Saving\<close>

lemma stamped_fields [simp]:
  "stAdmin (stamped t v) = stAdmin v" "stCache (stamped t v) = stCache v" "stDeviceTokens (stamped t v) = stDeviceTokens v" "stQWeather (stamped t v) = stQWeather v"
  by (simp_all add: stamped_def)

lemma liveMatches_stamp [simp]: "liveMatches L a (stamped t v) = liveMatches L a v"
  by (simp add: liveMatches_def restartable_iff)

lemma liveMatches_updated [simp]: "liveMatches L a (updatedState E v) = liveMatches L a v"
  by (simp add: liveMatches_def restartable_iff updatedState_def)

text \<open>A write that starts from a sound disk, by its result.\<close>

lemma written:
  assumes "diskInv (soDisk s)" "tempOK f stateFile (soDisk s)" "\<And>v. codecLaw C v"
    and "writeStateLocked C f now v s = (result, ds, s') \<or> (\<exists>e. refuse e s = (result, ds, s'))"
  shows "diskInv (soDisk s') \<and> (case result of Inl _ \<Rightarrow> \<forall>ok. Load C ok s' = Load C ok s
    | Inr _ \<Rightarrow> Load C True s' = Inr (stamped now v))"
  using assms(4)
proof
  assume w: "writeStateLocked C f now v s = (result, ds, s')"
  note spec = writeState_spec [OF assms(1-3) w]
  from spec(1) spec(2) [THEN Load_cong] spec(3) show ?thesis by (cases result) auto
next
  assume "\<exists>e. refuse e s = (result, ds, s')"
  with assms(1) show ?thesis by (auto simp: refuse_eq)
qed

lemma saveState_spec:
  assumes "adminInv L C a" "envOK E a" "libraryLaws L C" and "saveState C E v a = (result, a')"
  shows "\<exists>s. a' = a\<lparr>adStore := s\<rparr> \<and> diskInv (soDisk s) \<and>
    (case result of Inl _ \<Rightarrow> \<forall>ok. Load C ok s = Load C ok (adStore a)
     | Inr _ \<Rightarrow> Load C True s = Inr (stamped (enNow E AtSave) v))"
proof -
  obtain ds s where w: "Save C (enFaults E) (enStatOk E) (enNow E AtSave) v (adStore a) = (result, ds, s)" and a': "a' = a\<lparr>adStore := s\<rparr>"
    using assms(4) by (auto simp: saveState_def split: prod.splits)
  have "writeStateLocked C (enFaults E) (enNow E AtSave) v (adStore a) = (result, ds, s) \<or> (\<exists>e. refuse e (adStore a) = (result, ds, s))"
    using Save_cases [of C "enFaults E" "enStatOk E" "enNow E AtSave" v "adStore a"] w by auto
  from written [OF _ _ _ this] assms(1-3) a' show ?thesis
    by (auto simp: adminInv_def envOK_def libraryLaws_def)
qed

lemma commitState_spec:
  assumes "adminInv L C a" "envOK E a" "libraryLaws L C" and "commitState C E v a = (result, a')"
  shows "\<exists>s. a' = a\<lparr>adStore := s\<rparr> \<and> diskInv (soDisk s) \<and>
    (case result of Inl _ \<Rightarrow> \<forall>ok. Load C ok s = Load C ok (adStore a)
     | Inr _ \<Rightarrow> Load C True s = Inr (stamped (enNow E AtSave) v))"
proof -
  obtain ds s where w: "CommitInitial C (enFaults E) (enStatOk E) (enNow E AtSave) v (adStore a) = (result, ds, s)"
    and a': "a' = a\<lparr>adStore := s\<rparr>"
    using assms(4) by (auto simp: commitState_def split: prod.splits)
  have "writeStateLocked C (enFaults E) (enNow E AtSave) v (adStore a) = (result, ds, s) \<or> (\<exists>e. refuse e (adStore a) = (result, ds, s))"
    using CommitInitial_cases [of C "enFaults E" "enStatOk E" "enNow E AtSave" v "adStore a"] w by auto
  from written [OF _ _ _ this] assms(1-3) a' show ?thesis
    by (auto simp: adminInv_def envOK_def libraryLaws_def)
qed

text \<open>After a save, the invariant asks only that the new state matches what is live.\<close>

lemma saved_inv:
  assumes "diskInv (soDisk s)" "Load C True s = Inr (stamped t v)" "adStore a' = s" "liveMatches L a' v"
  shows "adminInv L C a'"
  using assms by (simp add: adminInv_def)

lemma adminInv_live: "adminInv L C a \<Longrightarrow> Load C ok (adStore a) = Inr v \<Longrightarrow> liveMatches L a v"
  using Load_ok by (auto simp: adminInv_def)

lemma loadState_Inr: "loadState C E r a = Inr v \<longleftrightarrow> Load C (enReadOk E) (adStore a) = Inr v"
  by (simp add: loadState_def split: sum.split)

lemma status_ge [simp]:
  "rsStatus (reportWriteResult b w) = rsStatus w" "rsStatus (clearSessionCookie a r w) = rsStatus w"
  "rsStatus (setSessionCookie a r t w) = rsStatus w" "rsStatus noContent = 204"
  by (simp_all add: reportWriteResult_def clearSessionCookie_def setSessionCookie_def noContent_def)

subsection \<open>The handlers\<close>

lemma discard_simps [simp]:
  "adStore (discardChange p a) = adStore a" "adTransport (discardChange p a) = adTransport a"
  "adSessions (discardChange p a) = adSessions a" "rmCurrent (adRuntime (discardChange p a)) = rmCurrent (adRuntime a)"
  by (simp_all add: discardChange_def Discard_current)

lemma Discard_limiters: "rmLimiter (snd (Discard p m)) = rmLimiter m" "rmLocalizeLimiter (snd (Discard p m)) = rmLocalizeLimiter m"
  by (cases "(p, m)" rule: Discard.cases; simp add: closeService_def)+

lemma discard_unchanged: "unchanged C a b \<Longrightarrow> unchanged C a (discardChange p b)"
  by (simp add: unchanged_def) (simp add: discardChange_def Discard_limiters)

lemma Prepare_unchanged: "Prepare L now v (adRuntime a) = (x, m) \<Longrightarrow> unchanged C a (a\<lparr>adRuntime := m\<rparr>)"
  by (auto simp: Prepare_def unchanged_def Let_def split: sum.splits prod.splits)

lemma testCandidate_store:
  assumes "testCandidate L E v loc a = (x, a')"
  shows "adStore a' = adStore a \<and> adTransport a' = adTransport a \<and> adRuntime a' = adRuntime a \<and> adSessions a' = adSessions a"
proof (cases "adTestSlot a")
  case False
  obtain ok l where "LimiterAllow (enNow E AtTestLimit) (adTestLimit a) = (ok, l)" by force
  with False assms have "a' = a\<lparr>adTestLimit := l\<rparr>"
    by (auto simp: testCandidate_def Let_def split: if_splits option.splits sum.splits)
  then show ?thesis by simp
qed (use assms in \<open>simp add: testCandidate_def\<close>)

text \<open>Activating a change whose credentials are those of the new state re-establishes the match.\<close>

definition carries :: "prepared \<Rightarrow> RuntimeManager \<Rightarrow> DeviceToken list \<Rightarrow> bool" where
  "carries p m ts \<longleftrightarrow> (\<exists>c cs. rmCurrent (snd (Activate p m)) = Some c \<and> riHandler c = (cs, riService c) \<and>
     credentialsFromState ts = Inr cs)"

lemma carries_Prepare: "Prepare L now v m = (Inr p, m') \<Longrightarrow> carries p m' (stDeviceTokens v) \<and> restartable L v"
  by (auto simp: carries_def restartable_def Prepare_def activate_def Let_def buildComponents_Inr(2)
      split: sum.splits prod.splits option.split)

lemma carries_PrepareTokens:
  "PrepareTokens ts m = Inr p \<Longrightarrow> liveOK m \<Longrightarrow> carries p m ts"
  by (auto simp: carries_def PrepareTokens_def liveOK_def split: sum.splits option.splits)

lemma activate_fields [simp]:
  "adStore (activateChange p a) = adStore a" "adTransport (activateChange p a) = adTransport a"
  "adRuntime (activateChange p a) = snd (Activate p (adRuntime a))"
  by (simp_all add: activateChange_def)

definition originsOK :: "golib \<Rightarrow> admin \<Rightarrow> State \<Rightarrow> bool" where
  "originsOK L a v \<longleftrightarrow> asPublicOrigins (stAdmin v) = tpPublicOrigins (adTransport a) \<and>
     ValidatePublicOrigins L (adTransport a) (tpPublicOrigins (adTransport a)) = Inr (tpPublicOrigins (adTransport a))"

lemma liveMatches_activated:
  "restartable L v \<Longrightarrow> carries p (adRuntime a) (stDeviceTokens v) \<Longrightarrow> originsOK L a v \<Longrightarrow> liveMatches L (activateChange p a) v"
  by (simp add: liveMatches_def carries_def originsOK_def)

lemma liveMatches_parts:
  "liveMatches L a v \<Longrightarrow> restartable L v \<and> originsOK L a v \<and> liveOK (adRuntime a)"
  by (auto simp: liveMatches_def originsOK_def liveOK_def)

text \<open>Saving a state and activating the change prepared for it.\<close>

lemma save_activate:
  assumes inv: "adminInv L C a" and env: "envOK E a" and laws: "libraryLaws L C"
    and save: "saveState C E v a = (result, b)"
    and new: "restartable L v" "carries p (adRuntime a) (stDeviceTokens v)" "originsOK L a v"
  shows "case result of Inl _ \<Rightarrow> unchanged C a (discardChange p b) \<and> adminInv L C (discardChange p b)
    | Inr _ \<Rightarrow> adminInv L C (activateChange p b)"
proof -
  obtain s where b: "b = a\<lparr>adStore := s\<rparr>" and d: "diskInv (soDisk s)"
    and l: "case result of Inl _ \<Rightarrow> \<forall>ok. Load C ok s = Load C ok (adStore a) | Inr _ \<Rightarrow> Load C True s = Inr (stamped (enNow E AtSave) v)"
    using saveState_spec [OF inv env laws save] by blast
  show ?thesis
  proof (cases result)
    case (Inl e)
    with l b have u: "unchanged C a (discardChange p b)" by (intro discard_unchanged) (simp add: unchanged_def)
    from unchanged_outcome [OF inv _ u] d b have "outcome L C a w (discardChange p b)" for w by simp
    with u Inl show ?thesis by (simp add: outcome_def)
  next
    case (Inr confirmed)
    have "liveMatches L (activateChange p b) v"
      using new by (intro liveMatches_activated) (simp_all add: b originsOK_def)
    with Inr l d b show ?thesis by (auto intro!: saved_inv [of s])
  qed
qed

lemma saveAndActivate_outcome:
  assumes "adminInv L C a" "envOK E a" "libraryLaws L C" "restartable L v" "carries p (adRuntime a) (stDeviceTokens v)"
    "originsOK L a v" and "saveAndActivate C E r v p reply a = (w, a')" and "rsStatus reply < 400"
  shows "outcome L C a w a'"
proof -
  obtain result b where s: "saveState C E v a = (result, b)" by force
  from save_activate [OF assms(1-3) s assms(4-6)] assms(7,8) s show ?thesis
    by (cases result) (auto simp: saveAndActivate_def outcome_def)
qed

lemma replaceTokens_outcome:
  assumes inv: "adminInv L C a" and env: "envOK E a" and laws: "libraryLaws L C" and live: "liveMatches L a v"
    and h: "replaceTokens C E r v ts m1 m2 reply a = (w, a')" and ok: "rsStatus reply < 400"
  shows "outcome L C a w a'"
proof (cases "PrepareTokens ts (adRuntime a)")
  case (Inl e)
  with h inv show ?thesis by (simp add: replaceTokens_def refl_outcome)
next
  case (Inr p)
  obtain result b where s: "saveState C E (updatedState E (withTokens ts v)) a = (result, b)" by force
  have "\<exists>cs. credentialsFromState ts = Inr cs" using Inr by (auto simp: PrepareTokens_def split: sum.splits)
  with live have "restartable L (updatedState E (withTokens ts v))" "originsOK L a (updatedState E (withTokens ts v))"
    by (simp_all add: liveMatches_def restartable_iff originsOK_def updatedState_def withTokens_def)
  moreover have "carries p (adRuntime a) (stDeviceTokens (updatedState E (withTokens ts v)))"
    using carries_PrepareTokens [OF Inr] liveMatches_parts [OF live] by (simp add: updatedState_def withTokens_def)
  ultimately show ?thesis
    using save_activate [OF inv env laws s] h s Inr ok by (cases result) (auto simp: replaceTokens_def outcome_def)
qed

text \<open>What the session guard lets through.\<close>

definition authorized :: "golib \<Rightarrow> adminEnv \<Rightarrow> request \<Rightarrow> bool \<Rightarrow> admin \<Rightarrow> bool" where
  "authorized L E r isWrite a \<longleftrightarrow> (\<exists>tk csrf. rCookie r = Some tk \<and>
     fst (Validate L (enNow E AtSession) tk (adSessions a)) = Some csrf \<and>
     (isWrite \<longrightarrow> AllowWrite (adTransport a) r \<and> SameOrigin L (adTransport a) r \<and> HeaderGet r ''X-CSRF-Token'' = csrf))"

lemma Validate_csrf:
  assumes "Validate L t tk s = (Some csrf, s')" and "ValidateCSRF L t' tk v s' = (True, s'')"
  shows "v = csrf"
  using assms by (auto simp: Validate_def ValidateCSRF_def Let_def update_conv' split: if_splits option.splits)

lemma requireSession_cases:
  assumes "requireSession L E r isWrite handler a = (w, a')"
  obtains (refused) s where "a' = a\<lparr>adSessions := s\<rparr>" "rsStatus w = 401 \<or> rsStatus w = 403"
  | (passed) s where "handler (a\<lparr>adSessions := s\<rparr>) = (w, a')" "authorized L E r isWrite a"
proof (cases "rCookie r")
  case None
  show thesis by (rule refused [of "adSessions a"])
      (use None assms in \<open>auto simp: requireSession_def sessionFromRequest_def adminUnauthorized_def\<close>)
next
  case tk: (Some tk)
  obtain x s where v: "Validate L (enNow E AtSession) tk (adSessions a) = (x, s)" by force
  show thesis
  proof (cases x)
    case None
    show thesis by (rule refused [of s])
        (use None tk v assms in \<open>auto simp: requireSession_def sessionFromRequest_def adminUnauthorized_def\<close>)
  next
    case (Some csrf)
    obtain ok s' where c: "ValidateCSRF L (enNow E AtCSRF) tk (HeaderGet r ''X-CSRF-Token'') s = (ok, s')" by force
    have e: "(w, a') =
      (if \<not> isWrite then handler (a\<lparr>adSessions := s\<rparr>)
       else if \<not> AllowWrite (adTransport a) r then (httpsRequired r, a\<lparr>adSessions := s\<rparr>)
       else if \<not> SameOrigin L (adTransport a) r then (originRejected r, a\<lparr>adSessions := s\<rparr>)
       else if \<not> ok then (csrfRejected r, a\<lparr>adSessions := s'\<rparr>) else handler (a\<lparr>adSessions := s'\<rparr>))"
      unfolding assms [symmetric] using v c Some tk
      by (simp add: requireSession_def sessionFromRequest_def Let_def cong: if_cong)
    have auth: "authorized L E r isWrite a \<longleftrightarrow>
        (isWrite \<longrightarrow> AllowWrite (adTransport a) r \<and> SameOrigin L (adTransport a) r \<and> HeaderGet r ''X-CSRF-Token'' = csrf)"
      using v Some tk by (simp add: authorized_def)
    show thesis
    proof (cases "isWrite \<and> \<not> (AllowWrite (adTransport a) r \<and> SameOrigin L (adTransport a) r \<and> ok)")
      case True
      then have "\<exists>s. a' = a\<lparr>adSessions := s\<rparr> \<and> rsStatus w = 403"
        using e by (auto simp: httpsRequired_def originRejected_def csrfRejected_def split: if_splits)
      with refused show thesis by blast
    next
      case False
      have "HeaderGet r ''X-CSRF-Token'' = csrf" if ok using Validate_csrf [of L _ tk _ csrf s] v Some c that by simp
      with False auth have au: "authorized L E r isWrite a" by blast
      from e False have "(w, a') = handler (a\<lparr>adSessions := if isWrite then s' else s\<rparr>)" by auto
      with passed au show thesis by metis
    qed
  qed
qed

text \<open>The guard itself changes sessions only.\<close>

lemma sessions_only: "adminInv L C (a\<lparr>adSessions := s\<rparr>) = adminInv L C a" "envOK E (a\<lparr>adSessions := s\<rparr>) = envOK E a"
  "unchanged C (a\<lparr>adSessions := s\<rparr>) a' = unchanged C a a'" "outcome L C (a\<lparr>adSessions := s\<rparr>) w a' = outcome L C a w a'"
  by (simp_all add: adminInv_def envOK_def unchanged_def outcome_def liveMatches_def)

lemma guarded_outcome:
  assumes "requireSession L E r isWrite handler a = (w, a')" and "adminInv L C a"
    and "\<And>s. handler (a\<lparr>adSessions := s\<rparr>) = (w, a') \<Longrightarrow> outcome L C (a\<lparr>adSessions := s\<rparr>) w a'"
  shows "outcome L C a w a'"
  using assms(1)
proof (cases rule: requireSession_cases)
  case (refused s)
  with assms(2) show ?thesis by (intro same_outcome) simp_all
next
  case (passed s)
  with assms(3) show ?thesis by (simp add: sessions_only)
qed

lemma loadState_live:
  assumes "adminInv L C a" and "loadState C E r a = Inr v" shows "liveMatches L a v"
  using adminInv_live [OF assms(1)] assms(2) by (simp add: loadState_Inr)

lemma putQWeather_outcome:
  assumes inv: "adminInv L C a" and env: "envOK E a" and laws: "libraryLaws L C"
    and h: "putQWeatherHandler L C J E r a = (w, a')"
  shows "outcome L C a w a'"
proof (cases "decodeJSON (rcQWeather J) r")
  case (Inl e)
  with h inv show ?thesis by (auto simp: putQWeatherHandler_def intro: refl_outcome)
next
  case req: (Inr req)
  show ?thesis
  proof (cases "loadState C E r a")
    case (Inl e)
    with req h inv show ?thesis by (auto simp: putQWeatherHandler_def intro: refl_outcome)
  next
    case (Inr v)
    let ?v = "qweatherCandidate L E req v"
    obtain x b where t: "testCandidate L E ?v (qiTestLocation req) a = (x, b)" by force
    note b = testCandidate_store [OF t]
    have inv': "adminInv L C b" "envOK E b" "unchanged C a b"
      using b inv env by (auto simp: adminInv_def liveMatches_def envOK_def unchanged_def)
    show ?thesis
    proof (cases x)
      case (Inl e)
      with req Inr t h b inv show ?thesis by (intro same_outcome) (auto simp: putQWeatherHandler_def Let_def)
    next
      case tested: (Inr tested)
      obtain y m where p: "Prepare L (enNow E AtService) ?v (adRuntime b) = (y, m)" by force
      have u: "unchanged C b (b\<lparr>adRuntime := m\<rparr>)" by (rule Prepare_unchanged [OF p])
      have inv'': "adminInv L C (b\<lparr>adRuntime := m\<rparr>)" "envOK E (b\<lparr>adRuntime := m\<rparr>)"
        using unchanged_outcome [OF inv'(1) _ u] inv'(1,2) by (auto simp: outcome_def adminInv_def envOK_def)
      show ?thesis
      proof (cases y)
        case (Inl e)
        with req Inr t tested p h have "a' = b\<lparr>adRuntime := m\<rparr>" by (simp add: putQWeatherHandler_def Let_def)
        with inv'' u inv'(3) show ?thesis by (auto simp: outcome_def unchanged_def)
      next
        case ch: (Inr ch)
        have s: "saveAndActivate C E r ?v ch (testedReply ''saved'' tested) (b\<lparr>adRuntime := m\<rparr>) = (w, a')"
          using req Inr t tested p ch h by (simp add: putQWeatherHandler_def Let_def)
        have o: "originsOK L (b\<lparr>adRuntime := m\<rparr>) ?v"
          using loadState_live [OF inv Inr] b by (simp add: liveMatches_def originsOK_def qweatherCandidate_def updatedState_def)
        from carries_Prepare [OF p [unfolded ch]]
        have "outcome L C (b\<lparr>adRuntime := m\<rparr>) w a'"
          by (intro saveAndActivate_outcome [OF inv'' laws _ _ o s]) (simp_all add: testedReply_def WriteJSON_def split: prod.split)
        then show ?thesis using u inv'(3) by (auto simp: outcome_def unchanged_def)
      qed
    qed
  qed
qed

text \<open>Lists of origins that normalisation keeps as they are.\<close>

definition fixedOrigins :: "golib \<Rightarrow> bytes list \<Rightarrow> bool" where
  "fixedOrigins L os \<longleftrightarrow> (\<forall>x\<in>set os. NormalizePublicOrigin L x = Some x)"

lemma Validate_Inr:
  "ValidatePublicOrigins L p vs = Inr ns \<longleftrightarrow> length vs \<le> 16 \<and> map (NormalizePublicOrigin L) vs = map Some ns \<and> distinct ns \<and>
     (tpBehindHTTPSProxy p \<longrightarrow> ns \<noteq> [])"
proof -
  have "ValidatePublicOrigins L p vs = Inr ns \<longleftrightarrow> NormalizePublicOrigins L vs = Inr ns \<and> (tpBehindHTTPSProxy p \<longrightarrow> ns \<noteq> [])"
    by (cases "NormalizePublicOrigins L vs") (auto simp: ValidatePublicOrigins_def)
  then show ?thesis unfolding NormalizePublicOrigins_Inr by blast
qed

lemma Validate_fixed_iff:
  "ValidatePublicOrigins L p os = Inr os \<longleftrightarrow> length os \<le> 16 \<and> fixedOrigins L os \<and> distinct os \<and> (tpBehindHTTPSProxy p \<longrightarrow> os \<noteq> [])"
  by (simp add: Validate_Inr fixedOrigins_def)

lemma Validate_fixed:
  assumes "fixedOrigins L vs" "ValidatePublicOrigins L p vs = Inr ns" shows "ns = vs"
proof -
  have "map (NormalizePublicOrigin L) vs = map Some vs" using assms(1) by (simp add: fixedOrigins_def)
  with assms(2) show ?thesis by (simp add: Validate_Inr inj_map_eq_map)
qed

lemma Normalize_fixed:
  assumes "urlLaw L" "plainOrigins L vs" "v \<in> set vs" "NormalizePublicOrigin L v = Some c"
  shows "NormalizePublicOrigin L c = Some c"
proof -
  have "canonicalHTTPS L c" using NormalizePublicOrigin_shape [OF assms(4)] assms(2,3) by (simp add: plainOrigins_def)
  with assms(1) show ?thesis by (intro NormalizePublicOrigin_fixpoint) (simp_all add: urlLaw_def)
qed

lemma Validate_stable:
  assumes "urlLaw L" "plainOrigins L vs" "ValidatePublicOrigins L p vs = Inr ns"
  shows "ValidatePublicOrigins L p ns = Inr ns"
proof -
  have m: "map (NormalizePublicOrigin L) vs = map Some ns" and d: "length vs \<le> 16" "distinct ns" "tpBehindHTTPSProxy p \<longrightarrow> ns \<noteq> []"
    using assms(3) by (simp_all add: Validate_Inr)
  have "NormalizePublicOrigin L c = Some c" if "c \<in> set ns" for c
  proof -
    have "Some c \<in> set (map (NormalizePublicOrigin L) vs)" unfolding m using that by simp
    then obtain v where "v \<in> set vs" "NormalizePublicOrigin L v = Some c" by auto
    then show ?thesis by (rule Normalize_fixed [OF assms(1,2)])
  qed
  then show ?thesis using d map_eq_imp_length_eq [OF m] by (simp add: Validate_fixed_iff fixedOrigins_def)
qed

lemma Validate_replaced [simp]:
  "ValidatePublicOrigins L (ReplacePublicOrigins os p) vs = ValidatePublicOrigins L p vs"
  "tpPublicOrigins (ReplacePublicOrigins os p) = os" "tpBehindHTTPSProxy (ReplacePublicOrigins os p) = tpBehindHTTPSProxy p"
  by (simp_all add: ValidatePublicOrigins_def ReplacePublicOrigins_def split: sum.split)

lemma liveMatches_fixed:
  "liveMatches L a v \<Longrightarrow> fixedOrigins L (asPublicOrigins (stAdmin v)) \<and> length (asPublicOrigins (stAdmin v)) \<le> 16 \<and>
     distinct (asPublicOrigins (stAdmin v))"
  by (simp add: liveMatches_def Validate_fixed_iff)

text \<open>Saving a state whose origins are new, and installing them.\<close>

lemma save_origins:
  assumes inv: "adminInv L C a" and env: "envOK E a" and laws: "libraryLaws L C" and live: "liveMatches L a v"
    and save: "saveState C E (updatedState E (withOrigins os v)) a = (result, b)"
    and os: "ValidatePublicOrigins L (adTransport a) os = Inr os"
  shows "case result of Inl _ \<Rightarrow> unchanged C a b \<and> adminInv L C b
    | Inr _ \<Rightarrow> adminInv L C (b\<lparr>adTransport := ReplacePublicOrigins os (adTransport b), adSessions := s\<rparr>)"
proof -
  obtain t where b: "b = a\<lparr>adStore := t\<rparr>" and d: "diskInv (soDisk t)"
    and l: "case result of Inl _ \<Rightarrow> \<forall>ok. Load C ok t = Load C ok (adStore a)
      | Inr _ \<Rightarrow> Load C True t = Inr (stamped (enNow E AtSave) (updatedState E (withOrigins os v)))"
    using saveState_spec [OF inv env laws save] by blast
  show ?thesis
  proof (cases result)
    case (Inl e)
    with l b have u: "unchanged C a b" by (simp add: unchanged_def)
    from unchanged_outcome [OF inv _ u] d b have "outcome L C a w b" for w by simp
    with u Inl show ?thesis by (simp add: outcome_def)
  next
    case (Inr confirmed)
    let ?b = "b\<lparr>adTransport := ReplacePublicOrigins os (adTransport b), adSessions := s\<rparr>"
    have "liveMatches L ?b (withOrigins os v)"
      using live os by (simp add: b liveMatches_def restartable_iff withOrigins_def)
    then have "adminInv L C ?b" using Inr l d b
      by (intro saved_inv [where s = t and t = "enNow E AtSave" and v = "updatedState E (withOrigins os v)"]) simp_all
    with Inr show ?thesis by simp
  qed
qed

lemma addAdminOrigin_outcome:
  assumes inv: "adminInv L C a" and env: "envOK E a" and laws: "libraryLaws L C" and body: "bodyOK L J r"
    and h: "addAdminOriginHandler L C J E r a = (w, a')"
  shows "outcome L C a w a'"
proof (cases "decodeJSON (rcOrigin J) r")
  case (Inl e)
  with h inv show ?thesis by (auto simp: addAdminOriginHandler_def intro: refl_outcome)
next
  case req: (Inr req)
  show ?thesis
  proof (cases "\<exists>x v. NormalizePublicOrigin L req = Some x \<and> loadState C E r a = Inr v \<and> x \<notin> set (asPublicOrigins (stAdmin v)) \<and>
      \<not> MaximumPublicOrigins \<le> length (asPublicOrigins (stAdmin v)) \<and>
      (\<exists>ns. ValidatePublicOrigins L (adTransport a) (asPublicOrigins (stAdmin v) @ [x]) = Inr ns)")
    case False
    with req h have "a' = a"
      by (auto simp: addAdminOriginHandler_def Let_def split: option.splits sum.splits if_splits)
    with inv show ?thesis by (simp add: refl_outcome)
  next
    case True
    then obtain x v ns where x: "NormalizePublicOrigin L req = Some x" and v: "loadState C E r a = Inr v"
      and g: "x \<notin> set (asPublicOrigins (stAdmin v))" "\<not> MaximumPublicOrigins \<le> length (asPublicOrigins (stAdmin v))"
      and ns: "ValidatePublicOrigins L (adTransport a) (asPublicOrigins (stAdmin v) @ [x]) = Inr ns" by blast
    note live = loadState_live [OF inv v]
    have "plainOrigins L [req]"
      using body req by (auto simp: bodyOK_def decodeJSON_def split: option.splits if_splits)
    then have "NormalizePublicOrigin L x = Some x"
      using Normalize_fixed [of L "[req]" req x] laws x by (simp add: libraryLaws_def)
    then have f: "fixedOrigins L (asPublicOrigins (stAdmin v) @ [x])"
      using liveMatches_fixed [OF live] by (auto simp: fixedOrigins_def)
    from Validate_fixed [OF f ns] have e: "ns = asPublicOrigins (stAdmin v) @ [x]" .
    obtain result b where s: "saveState C E (updatedState E (withOrigins ns v)) a = (result, b)" by force
    from save_origins [OF inv env laws live s, of "adSessions b"] ns e req x v g s h show ?thesis
      by (cases result) (auto simp: addAdminOriginHandler_def Let_def outcome_def WriteJSON_def)
  qed
qed

lemma deleteAdminOrigin_outcome:
  assumes inv: "adminInv L C a" and env: "envOK E a" and laws: "libraryLaws L C"
    and h: "deleteAdminOriginHandler L C E r a = (w, a')"
  shows "outcome L C a w a'"
proof (cases "loadState C E r a")
  case (Inl e)
  with h inv show ?thesis by (auto simp: deleteAdminOriginHandler_def intro: refl_outcome)
next
  case v: (Inr v)
  note live = loadState_live [OF inv v]
  obtain target filtered where t: "splitOrigins L (rPathValue r) (asPublicOrigins (stAdmin v)) = (target, filtered)" by force
  have f: "fixedOrigins L filtered"
    using t liveMatches_fixed [OF live] by (auto simp: splitOrigins_def fixedOrigins_def)
  show ?thesis
  proof (cases "target \<noteq> [] \<and> \<not> (tpBehindHTTPSProxy (adTransport a) \<and> length filtered = 0) \<and> RequestOrigin L r \<noteq> Some target \<and>
      (\<exists>ns. ValidatePublicOrigins L (adTransport a) filtered = Inr ns)")
    case False
    with v t h have "a' = a"
      by (auto simp: deleteAdminOriginHandler_def Let_def split: sum.splits if_splits)
    with inv show ?thesis by (simp add: refl_outcome)
  next
    case True
    then obtain ns where g: "target \<noteq> []" "\<not> (tpBehindHTTPSProxy (adTransport a) \<and> length filtered = 0)"
      "RequestOrigin L r \<noteq> Some target" and ns: "ValidatePublicOrigins L (adTransport a) filtered = Inr ns" by blast
    from Validate_fixed [OF f ns] have e: "ns = filtered" .
    obtain result b where s: "saveState C E (updatedState E (withOrigins ns v)) a = (result, b)" by force
    from save_origins [OF inv env laws live s, of "ClearSessions (adSessions b)"] ns e v t g s h show ?thesis
      by (cases result) (auto simp: deleteAdminOriginHandler_def Let_def outcome_def)
  qed
qed

lemma createToken_outcome:
  assumes inv: "adminInv L C a" and env: "envOK E a" and laws: "libraryLaws L C"
    and h: "createTokenHandler L C J E r a = (w, a')"
  shows "outcome L C a w a'"
proof (cases "\<exists>name v raw device. decodeJSON (rcToken J) r = Inr name \<and> loadState C E r a = Inr v \<and>
    \<not> 32 \<le> length (stDeviceTokens v) \<and>
    newDeviceToken L (enTokenRandom E) (enIDRandom E) (enNow E AtToken) name = Inr (raw, device)")
  case False
  with h have "a' = a" by (auto simp: createTokenHandler_def split: sum.splits if_splits prod.splits)
  with inv show ?thesis by (simp add: refl_outcome)
next
  case True
  then obtain name v raw device where g: "decodeJSON (rcToken J) r = Inr name" "loadState C E r a = Inr v"
    "\<not> 32 \<le> length (stDeviceTokens v)" "newDeviceToken L (enTokenRandom E) (enIDRandom E) (enNow E AtToken) name = Inr (raw, device)"
    by blast
  with h have "replaceTokens C E r v (stDeviceTokens v @ [device]) ''device token could not be prepared''
      ''could not save device token'' (WriteJSON 201 (JObj [(''device_token'', JStr raw), (''device'', publicToken device)])) a = (w, a')"
    by (simp add: createTokenHandler_def)
  from replaceTokens_outcome [OF inv env laws loadState_live [OF inv g(2)] this] show ?thesis by (simp add: WriteJSON_def)
qed

lemma deleteToken_outcome:
  assumes inv: "adminInv L C a" and env: "envOK E a" and laws: "libraryLaws L C"
    and h: "deleteTokenHandler C E r a = (w, a')"
  shows "outcome L C a w a'"
proof (cases "\<exists>v. loadState C E r a = Inr v \<and> length (stDeviceTokens v) \<noteq> 1 \<and> list_ex (\<lambda>t. dtID t = rPathValue r) (stDeviceTokens v)")
  case False
  with h have "a' = a" by (auto simp: deleteTokenHandler_def split: sum.splits if_splits)
  with inv show ?thesis by (simp add: refl_outcome)
next
  case True
  then obtain v where g: "loadState C E r a = Inr v" "length (stDeviceTokens v) \<noteq> 1"
    "list_ex (\<lambda>t. dtID t = rPathValue r) (stDeviceTokens v)" by blast
  with h have "replaceTokens C E r v (filter (\<lambda>t. dtID t \<noteq> rPathValue r) (stDeviceTokens v))
      ''device token revocation could not be prepared'' ''could not revoke device token'' noContent a = (w, a')"
    by (simp add: deleteTokenHandler_def)
  from replaceTokens_outcome [OF inv env laws loadState_live [OF inv g(1)] this] show ?thesis by simp
qed

lemma HashPassword_valid:
  assumes "passwordLaw L" "length salt = passwordSaltSize" "HashPassword L (Some salt) password = Some h"
  shows "ValidPasswordHash L h"
  using HashPassword_verifies(1) [OF _ _ assms(2,3)] assms(1) by (simp add: passwordLaw_def)

lemma changePassword_outcome:
  assumes inv: "adminInv L C a" and env: "envOK E a" and laws: "libraryLaws L C"
    and h: "changePasswordHandler L C J E r a = (w, a')"
  shows "outcome L C a w a'"
proof (cases "\<exists>req v ph. decodeJSON (rcPassword J) r = Inr req \<and> loadState C E r a = Inr v \<and> \<not> passwordBusy a \<and>
    VerifyPassword L (pwCurrentPassword req) (asPassword (stAdmin v)) \<and> HashPassword L (enSalt E) (pwNewPassword req) = Some ph")
  case False
  with h have "a' = a" by (auto simp: changePasswordHandler_def split: sum.splits if_splits option.splits)
  with inv show ?thesis by (simp add: refl_outcome)
next
  case True
  then obtain req v ph where g: "decodeJSON (rcPassword J) r = Inr req" "loadState C E r a = Inr v" "\<not> passwordBusy a"
    "VerifyPassword L (pwCurrentPassword req) (asPassword (stAdmin v))" "HashPassword L (enSalt E) (pwNewPassword req) = Some ph"
    by blast
  obtain result b where s: "saveState C E (updatedState E (withPassword ph v)) a = (result, b)" by force
  obtain t where b: "b = a\<lparr>adStore := t\<rparr>" and d: "diskInv (soDisk t)"
    and l: "case result of Inl _ \<Rightarrow> \<forall>ok. Load C ok t = Load C ok (adStore a)
      | Inr _ \<Rightarrow> Load C True t = Inr (stamped (enNow E AtSave) (updatedState E (withPassword ph v)))"
    using saveState_spec [OF inv env laws s] by blast
  obtain salt where salt: "enSalt E = Some salt" using g(5) by (cases "enSalt E") (auto simp: HashPassword_def split: if_splits)
  have ok: "ValidPasswordHash L ph"
    using HashPassword_valid [of L salt "pwNewPassword req" ph] g(5) salt env laws by (simp add: envOK_def libraryLaws_def)
  show ?thesis
  proof (cases result)
    case (Inl e)
    with g s h have "a' = b" by (simp add: changePasswordHandler_def)
    with Inl l b d show ?thesis by (intro unchanged_outcome [OF inv]) (simp_all add: unchanged_def)
  next
    case (Inr confirmed)
    with g s h have a': "a' = b\<lparr>adSessions := ClearSessions (adSessions b)\<rparr>" "rsStatus w = 200"
      by (auto simp: changePasswordHandler_def Let_def WriteJSON_def)
    have "liveMatches L a' (withPassword ph v)"
      using loadState_live [OF inv g(2)] ok by (simp add: a' b liveMatches_def restartable_iff withPassword_def)
    then have "adminInv L C a'" using Inr l d
      by (intro saved_inv [where s = t and t = "enNow E AtSave" and v = "updatedState E (withPassword ph v)"]) (simp_all add: a' b)
    with a'(2) show ?thesis by (simp add: outcome_def)
  qed
qed

text \<open>The handlers that change neither store, runtime nor transport.\<close>

definition sameCore :: "admin \<Rightarrow> admin \<Rightarrow> bool" where
  "sameCore a a' \<longleftrightarrow> adStore a' = adStore a \<and> adTransport a' = adTransport a \<and> adRuntime a' = adRuntime a"

lemma sameCore_outcome: "adminInv L C a \<Longrightarrow> sameCore a a' \<Longrightarrow> outcome L C a w a'"
  by (rule same_outcome) (simp_all add: sameCore_def)

lemma status_core: "sameCore a (snd (statusHandler C E r a))"
  by (simp add: statusHandler_def sameCore_def Let_def split: sum.split)

lemma sessionFromRequest_core: "sameCore a (snd (sessionFromRequest L now r a))"
  by (simp add: sessionFromRequest_def sameCore_def split: option.split prod.split)

lemma session_core: "sameCore a (snd (sessionHandler L E r a))"
  using sessionFromRequest_core [of a L "enNow E AtHandler" r]
  by (auto simp: sessionHandler_def split: prod.split option.split)

lemma logout_core: "sameCore a (snd (logoutHandler L E r a))"
  using sessionFromRequest_core [of a L "enNow E AtHandler" r]
  by (auto simp: logoutHandler_def sameCore_def Let_def split: prod.split)

lemma getters_core:
  "snd (getQWeatherHandler L C E r a) = a" "snd (listAdminOriginsHandler L C E r a) = a" "snd (listTokensHandler C E r a) = a"
  "snd (diagnosticsHandler E r a) = a"
  by (simp_all add: getQWeatherHandler_def listAdminOriginsHandler_def listTokensHandler_def diagnosticsHandler_def Let_def
      split: sum.split option.split)

lemma testQWeather_core: "sameCore a (snd (testQWeatherHandler L C J E r a))"
  by (auto simp: testQWeatherHandler_def sameCore_def Let_def dest: testCandidate_store split: sum.split prod.split)

lemma login_core: "sameCore a (snd (loginHandler L C J E r a))"
  by (simp add: loginHandler_def sameCore_def Let_def split: prod.split option.split sum.split)

lemma setupCommit_outcome:
  assumes inv: "adminInv L C a" and env: "envOK E a" and laws: "libraryLaws L C"
    and os: "ValidatePublicOrigins L (adTransport a) os = Inr os" and v: "asPublicOrigins (stAdmin v) = os"
    and h: "setupCommit L C E r v os raw device tested a = (w, a')"
  shows "outcome L C a w a'"
proof -
  obtain y m where p: "Prepare L (enNow E AtService) v (adRuntime a) = (y, m)" by force
  let ?a = "a\<lparr>adRuntime := m\<rparr>"
  have u: "unchanged C a ?a" by (rule Prepare_unchanged [OF p])
  have inv': "adminInv L C ?a" "envOK E ?a"
    using unchanged_outcome [OF inv _ u] inv env by (auto simp: outcome_def adminInv_def envOK_def)
  show ?thesis
  proof (cases y)
    case (Inl e)
    with h p have "a' = ?a" by (simp add: setupCommit_def)
    with inv' u show ?thesis by (simp add: outcome_def)
  next
    case ch: (Inr ch)
    obtain x s where c: "Create L (enNow E AtCreate) (enSessionRandom E) (enCSRFRandom E) (adSessions a) = (x, s)" by force
    show ?thesis
    proof (cases x)
      case None
      with h p ch c have a': "a' = discardChange ch (?a\<lparr>adSessions := s\<rparr>)" by (simp add: setupCommit_def Let_def)
      have "unchanged C a a'" unfolding a' by (rule discard_unchanged) (use u in \<open>simp add: unchanged_def\<close>)
      with inv a' show ?thesis by (intro unchanged_outcome [OF inv]) (simp_all add: adminInv_def)
    next
      case (Some q)
      obtain tk csrf where q: "q = (tk, csrf)" by force
      let ?b = "?a\<lparr>adSessions := s\<rparr>"
      obtain result b where k: "commitState C E v ?b = (result, b)" by force
      have "adminInv L C ?b" "envOK E ?b" using inv' by (simp_all add: sessions_only)
      from commitState_spec [OF this laws k] obtain t where b: "b = ?b\<lparr>adStore := t\<rparr>" and d: "diskInv (soDisk t)"
        and l': "case result of Inl _ \<Rightarrow> \<forall>ok. Load C ok t = Load C ok (adStore ?b) | Inr _ \<Rightarrow> Load C True t = Inr (stamped (enNow E AtSave) v)"
        by blast
      have st: "adStore ?b = adStore a" by simp
      note l = l' [unfolded st]
      show ?thesis
      proof (cases result)
        case (Inl e)
        with h p ch c Some q k have a': "a' = discardChange ch (b\<lparr>adSessions := DeleteSession L tk (adSessions b)\<rparr>)"
          by (simp add: setupCommit_def Let_def)
        have "unchanged C a a'" unfolding a' by (rule discard_unchanged) (use u l Inl b in \<open>simp add: unchanged_def\<close>)
        with a' b d show ?thesis by (intro unchanged_outcome [OF inv]) simp_all
      next
        case (Inr confirmed)
        let ?c = "b\<lparr>adTransport := ReplacePublicOrigins os (adTransport b)\<rparr>"
        have "carries ch m (stDeviceTokens v) \<and> restartable L v" by (rule carries_Prepare [OF p [unfolded ch]])
        then have "liveMatches L (activateChange ch ?c) v"
          using os v by (intro liveMatches_activated) (simp_all add: b originsOK_def)
        then have i: "adminInv L C (activateChange ch ?c)"
          using Inr l d b by (intro saved_inv [where s = t and t = "enNow E AtSave" and v = v]) simp_all
        from h p ch c Some q k Inr have a': "a' = (activateChange ch ?c)\<lparr>adSetupLimit := LimiterReset (adSetupLimit (activateChange ch ?c))\<rparr>"
          and w: "rsStatus w = 201"
          by (auto simp: setupCommit_def Let_def setupReply_def WriteJSON_def split: prod.splits)
        from i have "adminInv L C a'" by (simp add: a' adminInv_def liveMatches_def)
        with w show ?thesis by (simp add: outcome_def)
      qed
    qed
  qed
qed

lemma setupHandler_cases:
  assumes "setupHandler L C J E r a = (w, a')"
  obtains (refused) l where "a' = a\<lparr>adSetupLimit := l\<rparr>"
  | (untested) l v loc e where "testCandidate L E v loc (a\<lparr>adSetupLimit := l\<rparr>) = (Inl e, a')"
  | (commit) l req os ph raw device b tested where "decodeJSON (rcSetup J) r = Inr req"
      "ValidatePublicOrigins L (adTransport a) (suAdminOrigins req) = Inr os"
      "testCandidate L E (setupValue L E req os ph device) (qiTestLocation (suQWeather req)) (a\<lparr>adSetupLimit := l\<rparr>) = (Inr tested, b)"
      "setupCommit L C E r (setupValue L E req os ph device) os raw device tested b = (w, a')"
proof -
  obtain x l where g: "preparePublicWriteWithoutOrigin (enNow E AtLimit) r a (adSetupLimit a) = (x, l)" by force
  let ?a = "a\<lparr>adSetupLimit := l\<rparr>"
  show thesis
  proof (cases "x = None \<and> (\<exists>req os ph raw device. decodeJSON (rcSetup J) r = Inr req \<and>
      Load C (enReadOk E) (adStore a) = Inl ErrNotInitialized \<and>
      ValidatePublicOrigins L (adTransport a) (suAdminOrigins req) = Inr os \<and> SetupOriginAllowed L (adTransport a) r os \<and>
      \<not> passwordBusy ?a \<and> HashPassword L (enSalt E) (suPassword req) = Some ph \<and>
      newDeviceToken L (enTokenRandom E) (enIDRandom E) (enNow E AtToken) (suDeviceName req) = Inr (raw, device))")
    case False
    with g assms have "a' = ?a"
      by (auto simp: setupHandler_def Let_def split: sum.splits option.splits if_splits prod.splits)
    then show thesis by (rule refused)
  next
    case True
    then obtain req os ph raw device where n: "x = None" and k: "decodeJSON (rcSetup J) r = Inr req"
      "Load C (enReadOk E) (adStore a) = Inl ErrNotInitialized"
      "ValidatePublicOrigins L (adTransport a) (suAdminOrigins req) = Inr os" "SetupOriginAllowed L (adTransport a) r os"
      "\<not> passwordBusy ?a" "HashPassword L (enSalt E) (suPassword req) = Some ph"
      "newDeviceToken L (enTokenRandom E) (enIDRandom E) (enNow E AtToken) (suDeviceName req) = Inr (raw, device)" by blast
    obtain y b where t: "testCandidate L E (setupValue L E req os ph device) (qiTestLocation (suQWeather req)) ?a = (y, b)" by force
    show thesis
    proof (cases y)
      case (Inl e)
      with g n k t assms have "a' = b" by (simp add: setupHandler_def Let_def)
      with t Inl untested show thesis by blast
    next
      case (Inr tested)
      have "setupCommit L C E r (setupValue L E req os ph device) os raw device tested b = (w, a')"
        using g n k t Inr assms by (simp add: setupHandler_def Let_def)
      with t Inr k(1,3) commit show thesis by blast
    qed
  qed
qed

lemma setup_outcome:
  assumes inv: "adminInv L C a" and env: "envOK E a" and laws: "libraryLaws L C" and body: "bodyOK L J r"
    and h: "setupHandler L C J E r a = (w, a')"
  shows "outcome L C a w a'"
proof -
  have core: "adminInv L C b \<and> envOK E b \<and> unchanged C a b"
    if "testCandidate L E v loc (a\<lparr>adSetupLimit := l\<rparr>) = (y, b)" for l v loc y b
    using testCandidate_store [OF that] inv env by (simp add: adminInv_def liveMatches_def envOK_def unchanged_def)
  from h show ?thesis
  proof (cases rule: setupHandler_cases)
    case refused
    then show ?thesis using inv by (intro sameCore_outcome) (simp_all add: sameCore_def)
  next
    case untested
    with core show ?thesis by (simp add: outcome_def)
  next
    case (commit l req os ph raw device b tested)
    note b = core [OF commit(3)]
    have "plainOrigins L (suAdminOrigins req)"
      using body commit(1) by (auto simp: bodyOK_def decodeJSON_def split: option.splits if_splits)
    with commit(2) laws have "ValidatePublicOrigins L (adTransport b) os = Inr os"
      using Validate_stable [of L "suAdminOrigins req" "adTransport a" os] testCandidate_store [OF commit(3)]
      by (simp add: libraryLaws_def)
    then have "outcome L C b w a'"
      using setupCommit_outcome [OF conjunct1 [OF b] conjunct1 [OF conjunct2 [OF b]] laws _ _ commit(4)] by (simp add: setupValue_def)
    with b show ?thesis by (blast intro: outcome_trans)
  qed
qed

lemma core_guarded:
  assumes "requireSession L E r isWrite handler a = (w, a')" and "adminInv L C a" and "\<And>a. sameCore a (snd (handler a))"
  shows "outcome L C a w a'"
  using assms(1,2)
proof (rule guarded_outcome)
  fix s assume "handler (a\<lparr>adSessions := s\<rparr>) = (w, a')"
  then have "sameCore (a\<lparr>adSessions := s\<rparr>) a'" using assms(3) by (metis snd_conv)
  with assms(2) show "outcome L C (a\<lparr>adSessions := s\<rparr>) w a'" by (intro sameCore_outcome) (simp add: sessions_only)
qed

lemma sameCore_refl [simp]: "sameCore a a"
  by (simp add: sameCore_def)

text \<open>Every route.\<close>

lemma serve_outcome:
  assumes inv: "adminInv L C a" and env: "envOK E a" and laws: "libraryLaws L C" and body: "bodyOK L J r"
    and h: "adminServe L C J E r route a = (w, a')"
  shows "outcome L C a w a'"
proof -
  have inv': "adminInv L C (a\<lparr>adSessions := s\<rparr>)" and env': "envOK E (a\<lparr>adSessions := s\<rparr>)" for s
    using inv env by (simp_all add: sessions_only)
  show ?thesis
  proof (cases route)
    case StatusRoute
    then show ?thesis using h inv status_core [of a C E r] by (intro sameCore_outcome) simp_all
  next
    case SetupRoute
    then show ?thesis using h by (intro setup_outcome [OF inv env laws body]) simp
  next
    case LoginRoute
    then show ?thesis using h inv login_core [of a L C J E r] by (intro sameCore_outcome) simp_all
  next
    case SessionRoute
    then show ?thesis using h by (intro core_guarded [OF _ inv session_core]) simp_all
  next
    case LogoutRoute
    then show ?thesis using h by (intro core_guarded [OF _ inv logout_core]) simp_all
  next
    case GetQWeatherRoute
    then show ?thesis using h
      by (intro core_guarded [OF _ inv, where handler = "getQWeatherHandler L C E r"]) (simp_all add: getters_core)
  next
    case TestQWeatherRoute
    then show ?thesis using h by (intro core_guarded [OF _ inv testQWeather_core]) simp_all
  next
    case PutQWeatherRoute
    then show ?thesis using h by (intro guarded_outcome [OF _ inv putQWeather_outcome [OF inv' env' laws]]) simp_all
  next
    case ListOriginsRoute
    then show ?thesis using h
      by (intro core_guarded [OF _ inv, where handler = "listAdminOriginsHandler L C E r"]) (simp_all add: getters_core)
  next
    case AddOriginRoute
    then show ?thesis using h by (intro guarded_outcome [OF _ inv addAdminOrigin_outcome [OF inv' env' laws body]]) simp_all
  next
    case DeleteOriginRoute
    then show ?thesis using h by (intro guarded_outcome [OF _ inv deleteAdminOrigin_outcome [OF inv' env' laws]]) simp_all
  next
    case ListTokensRoute
    then show ?thesis using h
      by (intro core_guarded [OF _ inv, where handler = "listTokensHandler C E r"]) (simp_all add: getters_core)
  next
    case DiagnosticsRoute
    then show ?thesis using h
      by (intro core_guarded [OF _ inv, where handler = "diagnosticsHandler E r"]) (simp_all add: getters_core)
  next
    case CreateTokenRoute
    then show ?thesis using h by (intro guarded_outcome [OF _ inv createToken_outcome [OF inv' env' laws]]) simp_all
  next
    case DeleteTokenRoute
    then show ?thesis using h by (intro guarded_outcome [OF _ inv deleteToken_outcome [OF inv' env' laws]]) simp_all
  next
    case ChangePasswordRoute
    then show ?thesis using h by (intro guarded_outcome [OF _ inv changePassword_outcome [OF inv' env' laws]]) simp_all
  qed
qed

subsection \<open>Sequences of requests\<close>

text \<open>
  Every sequence of management requests to a server that starts without a state file. Each request
  meets a clock, random bytes, file system and provider of its own.
\<close>

inductive adminReachable :: "golib \<Rightarrow> codec \<Rightarrow> admin \<Rightarrow> bool" for L C where
  boot: "newAdmin L random s (NewRuntimeManager geoIP header nets cloudflare) NewSessions
      (NewTransportPolicy allowInsecure proxy) version = Some a \<Longrightarrow>
    diskInv (soDisk s) \<Longrightarrow> \<not> initialized s \<Longrightarrow> adminReachable L C a"
| request: "adminReachable L C a \<Longrightarrow> envOK E a \<Longrightarrow> bodyOK L J r \<Longrightarrow> adminServe L C J E r route a = (w, a') \<Longrightarrow>
    adminReachable L C a'"

lemma Load_uninitialized: "\<not> initialized s \<Longrightarrow> Load C ok s = Inl ErrNotInitialized"
  by (simp add: initialized_def Load_def readStateLocked_def readBounded_def)

lemma adminReachable_inv:
  assumes "libraryLaws L C" and "adminReachable L C a" shows "adminInv L C a"
  using assms(2)
proof (induction rule: adminReachable.induct)
  case (boot random s geoIP header nets cloudflare allowInsecure proxy version a)
  then have "adStore a = s" by (auto simp: newAdmin_def split: option.splits)
  with boot show ?case by (simp add: adminInv_def Load_uninitialized)
next
  case (request a E J r route w a')
  then show ?case using serve_outcome [OF request.IH _ assms(1)] by (blast intro: outcome_inv)
qed

text \<open>C1. The stored configuration and the live one agree. After every sequence of management requests,
  whatever fails on the way, a stored state that loads can be built and started again, its device
  tokens are the live credentials, its management origins are valid and are the live allowlist, and
  the live handler calls the live service. Assumed: the laws of the libraries, and that origins typed
  by the administrator have plain host names.\<close>

theorem stored_matches_live:
  assumes "libraryLaws L C" and "adminReachable L C a" and "Load C ok (adStore a) = Inr v"
  shows "(\<exists>provider options credentials c. buildComponents L v = Inr (provider, options, credentials) \<and>
      rmCurrent (adRuntime a) = Some c \<and> riHandler c = (credentials, riService c)) \<and>
    asPublicOrigins (stAdmin v) = tpPublicOrigins (adTransport a) \<and>
    ValidatePublicOrigins L (adTransport a) (asPublicOrigins (stAdmin v)) = Inr (asPublicOrigins (stAdmin v)) \<and>
    1 \<le> length (stDeviceTokens v) \<and> length (stDeviceTokens v) \<le> 32"
proof -
  have m: "liveMatches L a v" by (rule adminInv_live [OF adminReachable_inv [OF assms(1,2)] assms(3)])
  then obtain provider options credentials where b: "buildComponents L v = Inr (provider, options, credentials)"
    by (auto simp: liveMatches_def restartable_def)
  from m obtain c cs where c: "rmCurrent (adRuntime a) = Some c" "riHandler c = (cs, riService c)"
    "credentialsFromState (stDeviceTokens v) = Inr cs" by (auto simp: liveMatches_def)
  have "credentials = cs" using buildComponents_Inr(2) [OF b] c(3) by simp
  moreover have "1 \<le> length (stDeviceTokens v)" "length (stDeviceTokens v) \<le> 32"
    using c(3) by (auto simp: credentialsFromState_Inr Suc_le_eq)
  ultimately show ?thesis using m b c(1,2) by (auto simp: liveMatches_def)
qed


subsection \<open>Who may change the configuration\<close>

fun isWriteRoute :: "adminRoute \<Rightarrow> bool" where
  "isWriteRoute PutQWeatherRoute = True" | "isWriteRoute AddOriginRoute = True" | "isWriteRoute DeleteOriginRoute = True"
| "isWriteRoute CreateTokenRoute = True" | "isWriteRoute DeleteTokenRoute = True" | "isWriteRoute ChangePasswordRoute = True"
| "isWriteRoute _ = False"

definition setupAuthorized :: "golib \<Rightarrow> codec \<Rightarrow> requestCodec \<Rightarrow> request \<Rightarrow> admin \<Rightarrow> bool" where
  "setupAuthorized L C J r a \<longleftrightarrow> (\<exists>req os ok. Load C ok (adStore a) = Inl ErrNotInitialized \<and> AllowWrite (adTransport a) r \<and>
     HeaderGet r ''X-CSRF-Token'' = adPublicCSRF a \<and> decodeJSON (rcSetup J) r = Inr req \<and>
     ValidatePublicOrigins L (adTransport a) (suAdminOrigins req) = Inr os \<and> SetupOriginAllowed L (adTransport a) r os)"

lemma prepareWithoutOrigin_None:
  "preparePublicWriteWithoutOrigin now r a l = (None, l') \<Longrightarrow> AllowWrite (adTransport a) r \<and> HeaderGet r ''X-CSRF-Token'' = adPublicCSRF a"
  by (auto simp: preparePublicWriteWithoutOrigin_def csrfMatches_def Let_def split: if_splits)

lemma setup_authorized:
  assumes "setupHandler L C J E r a = (w, a')" and "\<not> sameCore a a'"
  shows "setupAuthorized L C J r a"
proof (rule ccontr)
  assume n: "\<not> setupAuthorized L C J r a"
  obtain x l where g: "preparePublicWriteWithoutOrigin (enNow E AtLimit) r a (adSetupLimit a) = (x, l)" by force
  have "\<not> (\<exists>req os. x = None \<and> Load C (enReadOk E) (adStore a) = Inl ErrNotInitialized \<and> decodeJSON (rcSetup J) r = Inr req \<and>
      ValidatePublicOrigins L (adTransport a) (suAdminOrigins req) = Inr os \<and> SetupOriginAllowed L (adTransport a) r os)"
    using n prepareWithoutOrigin_None [of "enNow E AtLimit" r a "adSetupLimit a" l] g by (auto simp: setupAuthorized_def)
  then have "a' = a\<lparr>adSetupLimit := l\<rparr>"
    using assms(1) g by (auto simp: setupHandler_def Let_def split: sum.splits option.splits if_splits)
  with assms(2) show False by (simp add: sameCore_def)
qed

lemma guarded_authorized:
  assumes "requireSession L E r isWrite handler a = (w, a')" and "\<not> sameCore a a'"
  shows "authorized L E r isWrite a"
  using assms(1)
proof (cases rule: requireSession_cases)
  case (refused s)
  with assms(2) show ?thesis by (simp add: sameCore_def)
qed

lemma guarded_core:
  assumes "requireSession L E r isWrite handler a = (w, a')" and "\<And>a. sameCore a (snd (handler a))"
  shows "sameCore a a'"
  using assms(1)
proof (cases rule: requireSession_cases)
  case (refused s)
  then show ?thesis by (simp add: sameCore_def)
next
  case (passed s)
  then have "sameCore (a\<lparr>adSessions := s\<rparr>) a'" using assms(2) by (metis snd_conv)
  then show ?thesis by (simp add: sameCore_def)
qed

text \<open>C4. Who can change the configuration. A management request that changes the store, the live
  runtime or the live allowlist in any way is either the setup of a server that has no state yet,
  over an allowed transport, with the public CSRF token and from an origin the setup itself
  declares; or a write with a valid session cookie, over an allowed transport, from an allowed
  origin and with the CSRF token of that session.\<close>

theorem change_authorized:
  assumes "adminServe L C J E r route a = (w, a')"
    and "adStore a' \<noteq> adStore a \<or> adRuntime a' \<noteq> adRuntime a \<or> adTransport a' \<noteq> adTransport a"
  shows "route = SetupRoute \<and> setupAuthorized L C J r a \<or> isWriteRoute route \<and> authorized L E r True a"
proof -
  have n: "\<not> sameCore a a'" using assms(2) by (auto simp: sameCore_def)
  show ?thesis
  proof (cases "isWriteRoute route")
    case True
    then have "\<exists>handler. requireSession L E r True handler a = (w, a')" using assms(1) by (cases route) auto
    with n True guarded_authorized show ?thesis by blast
  next
    case False
    have "sameCore a a'" if "route \<noteq> SetupRoute"
      using False that assms(1) status_core [of a C E r] login_core [of a L C J E r]
        guarded_core [OF _ session_core] guarded_core [OF _ logout_core] guarded_core [OF _ testQWeather_core]
        guarded_core [where handler = "getQWeatherHandler L C E r"] guarded_core [where handler = "listAdminOriginsHandler L C E r"]
        guarded_core [where handler = "listTokensHandler C E r"] guarded_core [where handler = "diagnosticsHandler E r"]
      by (cases route) (auto simp: getters_core)
    with n have "route = SetupRoute" by blast
    with assms(1) n setup_authorized [of L C J E r a w a'] show ?thesis by simp
  qed
qed

end
