(* ===== verification/AdminTokens.thy ===== *)
theory AdminTokens
  imports AdminSafety
begin

section \<open>Enrolment and revocation through the management API\<close>

text \<open>
  What \<open>createToken\<close> and \<open>deleteToken\<close> of \<open>internal/modules/admin/admin.go\<close> do to the device API: the
  answers of the live runtime before and after the change, and a server set up from nothing as a
  concrete run.
\<close>

subsection \<open>Device tokens\<close>

lemma replaceTokens_live:
  assumes "replaceTokens C E r v ts m1 m2 reply a = (w, a')" and "rsStatus w < 400"
  obtains c cs where "rmCurrent (adRuntime a) = Some c" "credentialsFromState ts = Inr cs"
    "adRuntime a' = retainDevices (map dtID ts) ((adRuntime a)\<lparr>rmCurrent := Some (c\<lparr>riHandler := (cs, snd (riHandler c))\<rparr>)\<rparr>)"
    "rsBody w = rsBody reply"
proof -
  have p: "\<exists>p. PrepareTokens ts (adRuntime a) = Inr p"
    using assms by (cases "PrepareTokens ts (adRuntime a)") (auto simp: replaceTokens_def prepareFailed_def)
  then obtain p where p: "PrepareTokens ts (adRuntime a) = Inr p" by blast
  obtain result b where s: "saveState C E (updatedState E (withTokens ts v)) a = (result, b)" by force
  have b: "adRuntime b = adRuntime a" using s by (auto simp: saveState_def split: prod.splits)
  obtain confirmed where r: "result = Inr confirmed"
    using assms p s by (cases result) (auto simp: replaceTokens_def stateWriteFailed_def)
  with assms(1) p s have w: "w = reportWriteResult confirmed reply" "a' = activateChange p b" by (simp_all add: replaceTokens_def)
  from p obtain c cs where c: "rmCurrent (adRuntime a) = Some c" "credentialsFromState ts = Inr cs"
    "p = PreparedTokens (Some (cs, snd (riHandler c))) (map dtID ts)"
    by (auto simp: PrepareTokens_def deviceIDs_def split: sum.splits option.splits)
  show thesis
    by (rule that [OF c(1,2)]) (use w b c in \<open>simp_all add: reportWriteResult_def\<close>)
qed

lemma Wrap_hits:
  assumes "bearerToken (HeaderGet r ''Authorization'') = Some k"
  shows "Wrap L cs r = (let hits = filter (\<lambda>c. crHash c = sha256 L k) cs
    in if hits = [] then Inl (unauthorized r) else Inr (crDeviceID (last hits)))"
  by (simp add: Wrap_eq assms)

lemma credentials_ids:
  "credentialsFromState ts = Inr cs \<Longrightarrow> map crDeviceID cs = map dtID ts"
  using credentialOf_tokenOK by (fastforce simp: credentialsFromState_Inr list_all_iff)

lemma HashToken_credential:
  "credentialOf t = Some c \<Longrightarrow> dtHash t = HashToken L raw \<Longrightarrow> crHash c = sha256 L raw"
  by (auto simp: credentialOf_def HashToken_def hexDecode_hexEncode dest!: CredentialFromHex_hash)

text \<open>C15. Enrolment. When \<open>createToken\<close> answers below 400, its answer shows a raw token and the new device,
  the live runtime at once lets a request with that bearer token through as the new device, and the
  service and every other device's rate-limit state are kept. Assumed: base64url text is visible
  ASCII, and the token fits in a header of 512 bytes.\<close>

theorem created_token_authenticates:
  assumes "createTokenHandler L C J E r a = (w, a')" and "rsStatus w < 400"
    and "\<And>x. visibleASCII (b64RawURL L x)"
    and "case enTokenRandom E of None \<Rightarrow> True | Some x \<Rightarrow> length (b64RawURL L x) \<le> 502"
  shows "\<exists>raw device. rsBody w = JObj [(''device_token'', JStr raw), (''device'', publicToken device)] \<and>
    (\<forall>r'. HeaderGet r' ''Authorization'' = ''Bearer '' @ raw \<longrightarrow>
       (\<exists>c. rmCurrent (adRuntime a) = Some c \<and> ServeHTTP L (adRuntime a') r' = Inr (dtID device, snd (riHandler c)))) \<and>
    (\<forall>v. loadState C E r a = Inr v \<longrightarrow> (\<forall>d\<in>dtID ` set (stDeviceTokens v).
       map_of (clDevices (rmLimiter (adRuntime a'))) d = map_of (clDevices (rmLimiter (adRuntime a))) d))"
proof -
  obtain name v raw device where g: "loadState C E r a = Inr v"
    "newDeviceToken L (enTokenRandom E) (enIDRandom E) (enNow E AtToken) name = Inr (raw, device)"
    "replaceTokens C E r v (stDeviceTokens v @ [device]) ''device token could not be prepared''
       ''could not save device token'' (WriteJSON 201 (JObj [(''device_token'', JStr raw), (''device'', publicToken device)])) a = (w, a')"
  proof -
    have "\<exists>name v raw device. decodeJSON (rcToken J) r = Inr name \<and> loadState C E r a = Inr v \<and> \<not> 32 \<le> length (stDeviceTokens v) \<and>
        newDeviceToken L (enTokenRandom E) (enIDRandom E) (enNow E AtToken) name = Inr (raw, device)"
      using assms(1,2) by (auto simp: createTokenHandler_def decodeJSON_def loadState_def stateUnavailable_def
        split: sum.splits option.splits if_splits)
    with assms(1) that show thesis by (auto simp: createTokenHandler_def)
  qed
  obtain x idb where raw: "enTokenRandom E = Some x" "raw = ''mt_'' @ b64RawURL L x" "dtHash device = HashToken L raw"
    using g(2) by (auto simp: newDeviceToken_def Let_def split: if_splits option.splits)
  obtain c cs where c: "rmCurrent (adRuntime a) = Some c"
    "credentialsFromState (stDeviceTokens v @ [device]) = Inr cs"
    "adRuntime a' = retainDevices (map dtID (stDeviceTokens v @ [device])) ((adRuntime a)\<lparr>rmCurrent := Some (c\<lparr>riHandler := (cs, snd (riHandler c))\<rparr>)\<rparr>)"
    "rsBody w = rsBody (WriteJSON 201 (JObj [(''device_token'', JStr raw), (''device'', publicToken device)]))"
    by (rule replaceTokens_live [OF g(3) assms(2)])
  have cs: "cs = map (the \<circ> credentialOf) (stDeviceTokens v) @ [the (credentialOf device)]" and ok: "tokenOK device"
    using c(2) by (simp_all add: credentialsFromState_Inr)
  obtain cd where cd: "credentialOf device = Some cd" "crDeviceID cd = dtID device" using credentialOf_tokenOK [OF ok] by blast
  have hash: "crHash cd = sha256 L raw" by (rule HashToken_credential [OF cd(1) raw(3)])
  have vis: "visibleASCII raw" "length raw \<le> 505" using assms(3,4) raw by (simp_all add: visibleASCII_def inrange_def)
  have "ServeHTTP L (adRuntime a') r' = Inr (dtID device, snd (riHandler c))" if "HeaderGet r' ''Authorization'' = ''Bearer '' @ raw" for r'
  proof -
    have "bearerToken (HeaderGet r' ''Authorization'') = Some raw" unfolding that by (rule bearerToken_issued) (use vis raw in simp_all)
    then have "Wrap L cs r' = Inr (dtID device)" by (simp add: Wrap_hits cs cd hash Let_def)
    then show ?thesis by (simp add: ServeHTTP_def c(3))
  qed
  moreover have "map_of (clDevices (rmLimiter (adRuntime a'))) d = map_of (clDevices (rmLimiter (adRuntime a))) d"
    if "d \<in> dtID ` set (stDeviceTokens v)" for d
    using that by (auto simp: c(3) retainDevices_def changeRetain.retain_kept)
  moreover have "rsBody w = JObj [(''device_token'', JStr raw), (''device'', publicToken device)]" using c(4) by (simp add: WriteJSON_def)
  ultimately show ?thesis using c(1) g(1) by auto
qed

text \<open>Removing a device's credential removes that device and no other.\<close>

lemma Wrap_member: "Wrap L cs r = Inr d \<Longrightarrow> d \<in> crDeviceID ` set cs"
  by (auto simp: Wrap_eq Let_def split: option.splits if_splits dest!: last_in_set)

lemma Wrap_without:
  assumes "d \<noteq> i" and "Wrap L cs r = Inr d" shows "Wrap L (filter (\<lambda>k. crDeviceID k \<noteq> i) cs) r = Inr d"
proof (cases "bearerToken (HeaderGet r ''Authorization'')")
  case (Some k)
  let ?hits = "filter (\<lambda>c. crHash c = sha256 L k) cs"
  have h: "?hits \<noteq> []" "crDeviceID (last ?hits) = d" using assms(2) by (auto simp: Wrap_hits [OF Some] Let_def split: if_splits)
  have "filter (\<lambda>c. crHash c = sha256 L k) (filter (\<lambda>k. crDeviceID k \<noteq> i) cs) =
      filter (\<lambda>k. crDeviceID k \<noteq> i) (butlast ?hits @ [last ?hits])"
    unfolding append_butlast_last_id [OF h(1)] by (simp add: conj_commute)
  also have "\<dots> = filter (\<lambda>k. crDeviceID k \<noteq> i) (butlast ?hits) @ [last ?hits]" using h(2) assms(1) by simp
  finally show ?thesis by (simp add: Wrap_hits [OF Some] Let_def h(2))
qed (use assms in \<open>simp add: Wrap_def\<close>)

text \<open>C16. Revocation. When \<open>deleteToken\<close> answers below 400, no request whatsoever is let through as the
  revoked device from then on and its rate-limit state is gone, while a request that was let through
  as another device still is, to the same service.\<close>

theorem revoked_token_refused:
  assumes "adminInv L C a" and "deleteTokenHandler C E r a = (w, a')" and "rsStatus w < 400"
  shows "(\<forall>h. ServeHTTP L (adRuntime a') r' \<noteq> Inr (rPathValue r, h)) \<and>
    map_of (clDevices (rmLimiter (adRuntime a'))) (rPathValue r) = None \<and>
    map_of (llDevices (rmLocalizeLimiter (adRuntime a'))) (rPathValue r) = None \<and>
    (d \<noteq> rPathValue r \<and> ServeHTTP L (adRuntime a) r' = Inr (d, h) \<longrightarrow> ServeHTTP L (adRuntime a') r' = Inr (d, h))"
proof -
  obtain v where g: "loadState C E r a = Inr v" and rt: "replaceTokens C E r v (filter (\<lambda>t. dtID t \<noteq> rPathValue r) (stDeviceTokens v))
      ''device token revocation could not be prepared'' ''could not revoke device token'' noContent a = (w, a')"
    using assms(2,3) by (auto simp: deleteTokenHandler_def loadState_def stateUnavailable_def split: sum.splits if_splits)
  let ?ts = "filter (\<lambda>t. dtID t \<noteq> rPathValue r) (stDeviceTokens v)"
  obtain c cs where c: "rmCurrent (adRuntime a) = Some c" "credentialsFromState ?ts = Inr cs"
    "adRuntime a' = retainDevices (map dtID ?ts) ((adRuntime a)\<lparr>rmCurrent := Some (c\<lparr>riHandler := (cs, snd (riHandler c))\<rparr>)\<rparr>)"
    "rsBody w = rsBody noContent"
    by (rule replaceTokens_live [OF rt assms(3)])
  from loadState_live [OF assms(1) g] c(1) obtain cs0 where cs0: "riHandler c = (cs0, riService c)"
    "credentialsFromState (stDeviceTokens v) = Inr cs0" by (auto simp: liveMatches_def)
  have m: "cs0 = map (the \<circ> credentialOf) (stDeviceTokens v)" "cs = map (the \<circ> credentialOf) ?ts"
    using cs0(2) c(2) by (simp_all add: credentialsFromState_Inr)
  have ids: "crDeviceID (the (credentialOf t)) = dtID t" if "t \<in> set (stDeviceTokens v)" for t
    using cs0(2) that credentialOf_tokenOK [of t] by (auto simp: credentialsFromState_Inr list_all_iff)
  then have cs: "cs = filter (\<lambda>k. crDeviceID k \<noteq> rPathValue r) cs0"
    unfolding m filter_map by (intro arg_cong [where f = "map (the \<circ> credentialOf)"] filter_cong) auto
  have serve: "ServeHTTP L (adRuntime a') r' = (case Wrap L cs r' of Inl w \<Rightarrow> Inl w | Inr d \<Rightarrow> Inr (d, snd (riHandler c)))"
    "ServeHTTP L (adRuntime a) r' = (case Wrap L cs0 r' of Inl w \<Rightarrow> Inl w | Inr d \<Rightarrow> Inr (d, snd (riHandler c)))"
    using c(1,3) cs0(1) by (auto simp: ServeHTTP_def split: sum.split)
  have "ServeHTTP L (adRuntime a') r' \<noteq> Inr (rPathValue r, h)" for h
    using Wrap_member [of L cs r' "rPathValue r"] by (auto simp: serve(1) cs split: sum.splits)
  moreover have "ServeHTTP L (adRuntime a') r' = Inr (d, h)" if "d \<noteq> rPathValue r" "ServeHTTP L (adRuntime a) r' = Inr (d, h)"
    using that Wrap_without [of d "rPathValue r" L cs0 r'] by (auto simp: serve cs split: sum.splits)
  moreover have "map_of (clDevices (rmLimiter (adRuntime a'))) (rPathValue r) = None"
    "map_of (llDevices (rmLocalizeLimiter (adRuntime a'))) (rPathValue r) = None"
    using c(3) by (auto simp: retainDevices_def changeRetain.look_retain localizeRetain.look_retain)
  ultimately show ?thesis by blast
qed

end
