(* ===== verification/Server.thy ===== *)
theory Server
  imports AdminSafety DeviceApi
begin

section \<open>The whole server: the root mux of \<open>app.New\<close> and the page of \<open>modules/admin/assets.go\<close>\<close>

text \<open>
  One request through \<open>RequestContext\<close>, the root mux and the handler it finds: the device API, the health
  endpoints, the management page and its API, or the last resort. The state is the management
  interface with the runtime in it. \<open>serverEnv\<close> holds the readings and answers of one request;
  \<open>snFiles\<close> are the embedded files.
\<close>

datatype target =
    DeviceTarget
  | HealthLive
  | HealthReady
  | AdminRedirect
  | AssetTarget bytes bytes
  | AdminTarget adminRoute
  | CatchAll

definition runtimeRoutes :: "(bytes \<times> target) list" where
  "runtimeRoutes = [(''/api/'', DeviceTarget)]"

definition healthRoutes :: "(bytes \<times> target) list" where
  "healthRoutes = [(''GET /health/live'', HealthLive), (''GET /health/ready'', HealthReady)]"

definition assetRoutes :: "(bytes \<times> target) list" where
  "assetRoutes =
     [(''GET /admin'', AdminRedirect),
      (''GET /admin/{$}'', AssetTarget ''assets/index.html'' ''text/html; charset=utf-8''),
      (''GET /admin/assets/styles.css'', AssetTarget ''assets/styles.css'' ''text/css; charset=utf-8''),
      (''GET /admin/assets/app.js'', AssetTarget ''assets/app.js'' ''text/javascript; charset=utf-8'')]"

definition managementRoutes :: "(bytes \<times> target) list" where
  "managementRoutes = map (\<lambda>(pattern, route). (pattern, AdminTarget route))
     [(''GET /admin/api/v1/status'', StatusRoute),
      (''POST /admin/api/v1/setup'', SetupRoute),
      (''POST /admin/api/v1/session'', LoginRoute),
      (''GET /admin/api/v1/session'', SessionRoute),
      (''DELETE /admin/api/v1/session'', LogoutRoute),
      (''GET /admin/api/v1/settings/qweather'', GetQWeatherRoute),
      (''POST /admin/api/v1/settings/qweather/test'', TestQWeatherRoute),
      (''PUT /admin/api/v1/settings/qweather'', PutQWeatherRoute),
      (''GET /admin/api/v1/settings/admin-origins'', ListOriginsRoute),
      (''POST /admin/api/v1/settings/admin-origins'', AddOriginRoute),
      (''DELETE /admin/api/v1/settings/admin-origins/{id}'', DeleteOriginRoute),
      (''GET /admin/api/v1/device-tokens'', ListTokensRoute),
      (''GET /admin/api/v1/diagnostics'', DiagnosticsRoute),
      (''POST /admin/api/v1/device-tokens'', CreateTokenRoute),
      (''DELETE /admin/api/v1/device-tokens/{id}'', DeleteTokenRoute),
      (''PUT /admin/api/v1/account/password'', ChangePasswordRoute)]"

definition rootPatterns :: "target pattern list" where
  "rootPatterns = HandleFunc (runtimeRoutes @ healthRoutes @ assetRoutes @ managementRoutes @ [(''/'', CatchAll)])"

subsection \<open>Serving\<close>

datatype reply =
    JSONReply response
  | AssetReply "(bytes, bytes) gomap" bytes
  | RedirectReply int bytes
  | MuxReply "target muxAnswer"

record serverEnv =
  snAdmin :: adminEnv
  snNow :: time
  snLocalizeNow :: time
  snLocalize :: "nat \<Rightarrow> Point \<Rightarrow> LocalizedMetadata option"
  snGet :: "nat \<Rightarrow> Kind \<Rightarrow> Point \<Rightarrow> getResult"
  snReadyNow :: time
  snStartedAt :: time
  snFiles :: "bytes \<Rightarrow> bytes"
  snRandom :: "bytes option"

definition quoted :: "bytes \<Rightarrow> bytes" where
  "quoted s = CHR 0x27 # s @ [CHR 0x27]"

definition assetHeaders :: "bytes \<Rightarrow> (bytes, bytes) gomap" where
  "assetHeaders contentType =
     [(''Content-Type'', contentType),
      (''Cache-Control'', ''private, no-store''),
      (''Content-Security-Policy'',
         ''default-src '' @ quoted ''self'' @ ''; script-src '' @ quoted ''self'' @ ''; style-src '' @ quoted ''self'' @
         ''; connect-src '' @ quoted ''self'' @ ''; img-src '' @ quoted ''self'' @ '' data:; frame-ancestors '' @ quoted ''none'' @
         ''; base-uri '' @ quoted ''none'' @ ''; form-action '' @ quoted ''self''),
      (''Referrer-Policy'', ''no-referrer''),
      (''X-Content-Type-Options'', ''nosniff''),
      (''X-Frame-Options'', ''DENY'')]"

definition serveAsset :: "(bytes \<Rightarrow> bytes) \<Rightarrow> bytes \<Rightarrow> bytes \<Rightarrow> reply" where
  "serveAsset files file contentType = AssetReply (assetHeaders contentType) (files file)"

text \<open>The last pattern of the root mux.\<close>

definition catchAll :: "request \<Rightarrow> reply" where
  "catchAll r =
     (if rMethod r = ''GET'' \<and> rPath r = ''/'' then RedirectReply 307 ''/admin/''
      else JSONReply (WriteError r 404 ''not_found'' ''resource not found''))"

text \<open>\<open>None\<close> is a panic.\<close>

fun serveTarget :: "golib \<Rightarrow> codec \<Rightarrow> requestCodec \<Rightarrow> serverEnv \<Rightarrow> request \<Rightarrow> target \<Rightarrow> admin \<Rightarrow> reply option \<times> admin" where
  "serveTarget L C J E r DeviceTarget a =
     (let (w, rt) = deviceServe L (snNow E) (snLocalizeNow E) (snLocalize E) (snGet E) (adRuntime a) r
      in (map_option JSONReply w, a\<lparr>adRuntime := rt\<rparr>))"
| "serveTarget L C J E r HealthLive a = (Some (JSONReply (healthLive (adVersion a) (snStartedAt E))), a)"
| "serveTarget L C J E r HealthReady a =
     (Some (JSONReply (healthReady [(''weather'', runtimeReady (snReadyNow E) (adRuntime a))])), a)"
| "serveTarget L C J E r AdminRedirect a = (Some (RedirectReply 308 ''/admin/''), a)"
| "serveTarget L C J E r (AssetTarget file contentType) a = (Some (serveAsset (snFiles E) file contentType), a)"
| "serveTarget L C J E r (AdminTarget route) a =
     (let (w, a) = adminServe L C J (snAdmin E) r route a in (Some (JSONReply w), a))"
| "serveTarget L C J E r CatchAll a = (Some (catchAll r), a)"

definition pathValue :: "bytes list \<Rightarrow> bytes" where
  "pathValue vs = (case vs of [] \<Rightarrow> [] | v # _ \<Rightarrow> v)"

definition rootServe :: "golib \<Rightarrow> codec \<Rightarrow> requestCodec \<Rightarrow> serverEnv \<Rightarrow> request \<Rightarrow> admin \<Rightarrow> reply option \<times> admin" where
  "rootServe L C J E r a =
     (case findHandler rootPatterns (rMethod r) (rEscapedPath r) (rPath r) of
        MuxHandle target vs \<Rightarrow> serveTarget L C J E (r\<lparr>rPathValue := pathValue vs\<rparr>) target a
      | answer \<Rightarrow> (Some (MuxReply answer), a))"

text \<open>\<open>RequestContext\<close> around it: the request identifier, the reply, and 500 for a panic, all of which precede any write.\<close>

definition serverHandler :: "golib \<Rightarrow> codec \<Rightarrow> requestCodec \<Rightarrow> serverEnv \<Rightarrow> request \<Rightarrow> admin \<Rightarrow> bytes \<times> reply \<times> admin" where
  "serverHandler L C J E r a =
     (let requestID = newRequestID (snRandom E); r = r\<lparr>rRequestID := requestID\<rparr>; (w, a) = rootServe L C J E r a
      in (requestID,
          case w of None \<Rightarrow> JSONReply (WriteError r 500 ''internal_error'' ''internal server error'') | Some w \<Rightarrow> w, a))"

subsection \<open>Which handler a request reaches\<close>

text \<open>The targets behind a method that is not \<open>GET\<close>, and those anyone may use.\<close>

fun postTarget :: "target \<Rightarrow> bool" where
  "postTarget (AdminTarget route) = (isWriteRoute route \<or> route \<in> {SetupRoute, LoginRoute, LogoutRoute, TestQWeatherRoute})"
| "postTarget _ = False"

fun publicTarget :: "target \<Rightarrow> bool" where
  "publicTarget DeviceTarget = False"
| "publicTarget (AdminTarget route) = (route \<in> {StatusRoute, SetupRoute, LoginRoute})"
| "publicTarget _ = True"

definition writeMethods :: "bytes list" where "writeMethods = [''POST'', ''PUT'', ''DELETE'']"

abbreviation reached :: "request \<Rightarrow> target muxAnswer" where
  "reached r \<equiv> findHandler rootPatterns (rMethod r) (rEscapedPath r) (rPath r)"

lemma root_methods: "list_all (\<lambda>(m, _, t). (postTarget t \<longrightarrow> m \<in> set writeMethods) \<and> (t = DeviceTarget \<longrightarrow> m = [])) rootPatterns"
  by code_simp

lemma root_last: "([], [Multi], CatchAll) \<in> set rootPatterns"
proof -
  have "list_ex (\<lambda>p. p = ([], [Multi], CatchAll)) rootPatterns" by code_simp
  then show ?thesis by (auto simp: list_ex_iff)
qed

lemma reached_post:
  assumes "findHandler rootPatterns verb escaped path = MuxHandle t vs" and "postTarget t"
  shows "verb \<in> set writeMethods"
proof -
  obtain ss where "matchMethod rootPatterns verb escaped = Some ((ss, t), vs)" by (rule findHandler_handles [OF assms(1)])
  then obtain m where "(m, ss, t) \<in> set rootPatterns" "servesMethod m verb \<or> m = []" using matchMethod_sound by fast
  moreover from this(1) have "m \<in> set writeMethods" using root_methods assms(2) by (auto simp: list_all_iff)
  ultimately show ?thesis by (auto simp: servesMethod_def writeMethods_def)
qed

text \<open>A device request goes on to a mux that has a handler for it.\<close>

lemma api_last: "([], [Multi], RouteNotFound) \<in> set apiPatterns"
proof -
  have "list_ex (\<lambda>p. p = ([], [Multi], RouteNotFound)) apiPatterns" by code_simp
  then show ?thesis by (auto simp: list_ex_iff)
qed

lemma api_shapes: "list_all (\<lambda>(_, ss, _). ss = [Multi] \<or> (case literals ss of None \<Rightarrow> False | Some xs \<Rightarrow> xs \<noteq> [] \<and> last xs \<noteq> ''/'')) apiPatterns"
  by code_simp

lemma root_device: "list_all (\<lambda>(_, ss, t). t = DeviceTarget \<longrightarrow> ss = [Literal ''api'', Multi]) rootPatterns"
  by code_simp

lemma device_mux_handles:
  assumes "findHandler rootPatterns verb escaped path = MuxHandle DeviceTarget vs"
  shows "\<exists>route vs'. findHandler apiPatterns verb escaped path = MuxHandle route vs'"
proof -
  obtain ss where m: "matchMethod rootPatterns verb escaped = Some ((ss, DeviceTarget), vs)"
    and clean: "verb = ''CONNECT'' \<or> cleanPath escaped = escaped" using findHandler_handles [OF assms] by metis
  obtain k where k: "(k, ss, DeviceTarget) \<in> set rootPatterns" "segMatch ss (pathSegments escaped)" using matchMethod_sound [OF m] by blast
  have "ss = [Literal ''api'', Multi]" using bspec [OF root_device [unfolded list_all_iff] k(1)] by simp
  with k(2) have two: "2 \<le> length (pathSegments escaped)" by (auto split: list.splits simp: Suc_le_eq)
  then have e: "escaped \<noteq> []" "pathSegments escaped \<noteq> []" by (auto simp: pathSegments_def)
  with two have count: "2 \<le> count_list (escaped @ ''/'') (CHR ''/'')" using pathSegments_length [of escaped] by (cases escaped) simp_all
  have "\<not> exactMatch (matchMethod apiPatterns verb (escaped @ ''/'')) (escaped @ ''/'')"
  proof (cases "matchMethod apiPatterns verb (escaped @ ''/'')")
    case (Some x)
    obtain ts h us where x: "x = ((ts, h), us)" by (metis prod.collapse)
    obtain k' where k': "(k', ts, h) \<in> set apiPatterns" "segMatch ts (pathSegments (escaped @ ''/''))"
      using matchMethod_sound [OF Some [unfolded x]] by blast
    have "ts = [Multi] \<or> (\<exists>xs. literals ts = Some xs \<and> xs \<noteq> [] \<and> last xs \<noteq> ''/'')"
      using bspec [OF api_shapes [unfolded list_all_iff] k'(1)] by (simp split: option.splits)
    then have "ts = [Multi]" using k'(2) segMatch_literals pathSegments_slash [OF e(1)] by auto
    with count Some x show ?thesis by (simp add: exactMatch_def)
  qed (simp add: exactMatch_def)
  moreover obtain ts h us where "matchMethod apiPatterns verb escaped = Some ((ts, h), us)"
    using matchMethod_complete [OF api_last, of escaped verb] e(2) by auto
  moreover have "(if verb = ''CONNECT'' then escaped else cleanPath escaped) = escaped" using clean by auto
  ultimately show ?thesis by (simp add: findHandler_def slashRedirect_def Let_def)
qed

subsection \<open>The table read row by row\<close>

lemma root_apart: "list_all (\<lambda>(m, ss, t). list_all (\<lambda>(m', ss', t').
    m = m' \<and> m \<noteq> [] \<longrightarrow> ss = ss' \<and> t = t' \<or> apart ss ss') rootPatterns) rootPatterns"
  by code_simp

lemma root_no_head: "list_all (\<lambda>(m, _, _). m \<noteq> ''HEAD'') rootPatterns"
  by code_simp

lemma root_any: "ofMethod [] rootPatterns = [([Literal ''api'', Multi], [Literal ''api'', Multi], DeviceTarget), ([Multi], [Multi], CatchAll)]"
  by code_simp

definition serves :: "bytes \<Rightarrow> bytes list \<Rightarrow> bytes \<times> segment list \<times> target \<Rightarrow> bool" where
  "serves verb segs p \<longleftrightarrow> servesMethod (fst p) verb \<and> segMatch (fst (snd p)) segs"

lemma serves_unique:
  assumes "(m, ss, t) \<in> set rootPatterns" "(m', ss', t') \<in> set rootPatterns" "verb \<noteq> []"
    and "serves verb segs (m, ss, t)" "serves verb segs (m', ss', t')"
  shows "ss = ss' \<and> t = t'"
proof -
  have "m \<noteq> ''HEAD''" "m' \<noteq> ''HEAD''" using root_no_head assms(1,2) by (auto simp: list_all_iff)
  then have m: "m = m'" "m \<noteq> []" using assms(3-5) by (auto simp: serves_def servesMethod_def)
  have "list_all (\<lambda>(m', ss', t'). m = m' \<and> m \<noteq> [] \<longrightarrow> ss = ss' \<and> t = t' \<or> apart ss ss') rootPatterns"
    using bspec [OF root_apart [unfolded list_all_iff] assms(1)] by (simp add: list_all_iff)
  from bspec [OF this [unfolded list_all_iff] assms(2)] m have "ss = ss' \<and> t = t' \<or> apart ss ss'" by simp
  with apart_disjoint [of ss ss' segs] assms(4,5) show ?thesis by (auto simp: serves_def)
qed

lemma root_any_search:
  "matchPath (ofMethod [] rootPatterns) [] segs =
     (if segs = [] then None
      else if segMatch [Literal ''api'', Multi] segs then Some (([Literal ''api'', Multi], DeviceTarget), [])
      else Some (([Multi], CatchAll), []))"
  unfolding root_any
  by (cases segs; cases "tl segs") (simp_all add: childrenOf_simps matchPath_Nil firstPattern_def orElse_def)

lemma root_answers: "findHandler rootPatterns verb escaped path \<in> {MuxNotAllowed, MuxNotFound} \<Longrightarrow> verb = ''CONNECT'' \<and> escaped = []"
proof (cases rule: findHandler_cases [of rootPatterns verb escaped path])
  case unmatched
  have "pathSegments escaped = []" using matchMethod_complete [OF root_last, of escaped verb] unmatched(2) by auto
  then have "escaped = []" using pathSegments_length [of escaped] by auto
  with unmatched(1) show ?thesis by (auto simp: cleanPath_def)
qed auto

text \<open>C23. The search of the mux finds the row a reader of the table would. For every method and path that is
  dispatched, the handler is that of the first registered row with that method (\<open>GET\<close> for \<open>HEAD\<close>) whose
  segments match, and \<open>{id}\<close> is the path's last segment; when there is none, the device API answers for what
  lies below \<open>/api/\<close>, and the last row everything else. Every clean path is dispatched or redirected.\<close>

theorem root_dispatch:
  assumes "verb \<noteq> []"
  shows "case findHandler rootPatterns verb escaped path of
      MuxHandle t vs \<Rightarrow>
        (case find (serves verb (pathSegments escaped)) rootPatterns of
           Some (m, ss, t') \<Rightarrow> t = t' \<and> vs = segValues ss (pathSegments escaped)
         | None \<Rightarrow> t = (if segMatch [Literal ''api'', Multi] (pathSegments escaped) then DeviceTarget else CatchAll) \<and> vs = [])
    | MuxRedirect _ \<Rightarrow> True
    | _ \<Rightarrow> verb = ''CONNECT'' \<and> escaped = []"
proof (cases "findHandler rootPatterns verb escaped path")
  case (MuxHandle t vs)
  let ?segs = "pathSegments escaped"
  obtain ss where f: "matchMethod rootPatterns verb escaped = Some ((ss, t), vs)" by (rule findHandler_handles [OF MuxHandle])
  show ?thesis
  proof (cases "find (serves verb ?segs) rootPatterns")
    case (Some row)
    obtain m' ss' t' where row: "row = (m', ss', t')" by (cases row)
    have r: "(m', ss', t') \<in> set rootPatterns" "serves verb ?segs (m', ss', t')"
      using Some by (auto simp: row find_Some_iff)
    obtain m where p: "(m, ss, t) \<in> set rootPatterns" "segMatch ss ?segs" "vs = segValues ss ?segs" "servesMethod m verb"
      using matchMethod_sound [OF f] r by (auto simp: serves_def)
    have "ss = ss' \<and> t = t'" by (rule serves_unique [OF p(1) r(1) assms _ r(2)]) (use p in \<open>simp add: serves_def\<close>)
    with MuxHandle Some row p(3) show ?thesis by simp
  next
    case None
    then have none: "\<not> serves verb ?segs p" if "p \<in> set rootPatterns" for p
      using that unfolding find_None_iff by blast
    have "matchPath (ofMethod m rootPatterns) [] ?segs = None" if "servesMethod m verb" for m
    proof (rule ccontr)
      assume "matchPath (ofMethod m rootPatterns) [] ?segs \<noteq> None"
      then obtain ts h us where "matchPath (ofMethod m rootPatterns) [] ?segs = Some ((ts, h), us)" by auto
      from ofMethod_search [OF this] none [of "(m, ts, h)"] that show False by (simp add: serves_def)
    qed
    then have "matchPath (ofMethod [] rootPatterns) [] ?segs = Some ((ss, t), vs)"
      using f by (auto simp: matchMethod_def servesMethod_def orElse_Some Let_def split: if_splits)
    with MuxHandle None show ?thesis by (auto simp: root_any_search split: if_splits)
  qed
next
  case MuxNotAllowed
  with root_answers [of verb escaped path] show ?thesis by simp
next
  case MuxNotFound
  with root_answers [of verb escaped path] show ?thesis by simp
qed simp

subsection \<open>Safe methods\<close>

definition noneBegins :: "Sessions \<Rightarrow> Sessions \<Rightarrow> bool" where
  "noneBegins s s' \<longleftrightarrow> dom (map_of s') \<subseteq> dom (map_of s)"

lemma noneBegins_trans: "noneBegins s t \<Longrightarrow> noneBegins t u \<Longrightarrow> noneBegins s u"
  by (auto simp: noneBegins_def)

lemma noneBegins_refl [simp]: "noneBegins s s"
  by (simp add: noneBegins_def)

definition safeStep :: "admin \<Rightarrow> admin \<Rightarrow> bool" where
  "safeStep a a' \<longleftrightarrow> adStore a' = adStore a \<and> adTransport a' = adTransport a \<and> rmCurrent (adRuntime a') = rmCurrent (adRuntime a) \<and>
     noneBegins (adSessions a) (adSessions a')"

lemma Validate_keys: "Validate L now tk s = (x, s') \<Longrightarrow> noneBegins s s'"
  by (auto simp: noneBegins_def Validate_def Let_def update_conv' delete_conv' split: if_splits option.splits)

lemma sessionFromRequest_safe: "sessionFromRequest L now r a = (x, a') \<Longrightarrow> safeStep a a'"
  using Validate_keys [of L now _ "adSessions a"] by (auto simp: sessionFromRequest_def safeStep_def split: option.splits prod.splits)

lemma safe_trans: "safeStep a b \<Longrightarrow> safeStep b c \<Longrightarrow> safeStep a c"
  unfolding safeStep_def by (auto intro: noneBegins_trans)

lemma safe_refl [simp]: "safeStep a a"
  by (simp add: safeStep_def)

lemma getter_safe:
  assumes "requireSession L E r False handler a = (w, a')" and "\<And>a. safeStep a (snd (handler a))"
  shows "safeStep a a'"
proof -
  obtain tk x b where s: "sessionFromRequest L (enNow E AtSession) r a = ((tk, x), b)" by (metis prod.collapse)
  then have "safeStep a b" by (rule sessionFromRequest_safe)
  moreover have "safeStep b a'"
    using assms s by (cases x) (auto simp: requireSession_def, metis snd_conv)
  ultimately show ?thesis by (rule safe_trans)
qed

lemma sessionHandler_safe: "safeStep a (snd (sessionHandler L E r a))"
  using sessionFromRequest_safe [of L "enNow E AtHandler" r a]
  by (auto simp: sessionHandler_def split: prod.split option.split)

lemma deviceServe_safe: "deviceServe L now now' localize get m r = (w, m') \<Longrightarrow> rmCurrent m' = rmCurrent m"
  by (auto simp: deviceServe_def Let_def split: sum.splits prod.splits)

lemma safe_target:
  assumes "serveTarget L C J E r t a = (w, a')" and "\<not> postTarget t"
  shows "safeStep a a'"
proof (cases t)
  case DeviceTarget
  then show ?thesis using assms(1) by (auto simp: safeStep_def dest: deviceServe_safe split: prod.splits)
next
  case (AdminTarget route)
  then obtain x where h: "adminServe L C J (snAdmin E) r route a = (x, a')" using assms(1) by (auto split: prod.splits)
  show ?thesis
  proof (cases route)
    case StatusRoute
    then show ?thesis using h by (auto simp: statusHandler_def Let_def split: sum.splits if_splits)
  next
    case SessionRoute
    then show ?thesis using h by (intro getter_safe [OF _ sessionHandler_safe]) simp
  next
    case GetQWeatherRoute
    then show ?thesis using h by (rule_tac getter_safe [where handler = "getQWeatherHandler L C (snAdmin E) r"]) (simp_all add: getters_core)
  next
    case ListOriginsRoute
    then show ?thesis using h by (rule_tac getter_safe [where handler = "listAdminOriginsHandler L C (snAdmin E) r"]) (simp_all add: getters_core)
  next
    case ListTokensRoute
    then show ?thesis using h by (rule_tac getter_safe [where handler = "listTokensHandler C (snAdmin E) r"]) (simp_all add: getters_core)
  next
    case DiagnosticsRoute
    then show ?thesis using h by (rule_tac getter_safe [where handler = "diagnosticsHandler (snAdmin E) r"]) (simp_all add: getters_core)
  qed (use assms(2) AdminTarget in simp_all)
qed (use assms(1) in auto)

text \<open>C24. Requests with a safe method are safe. Whatever is requested with a method other than \<open>POST\<close>, \<open>PUT\<close>
  or \<open>DELETE\<close>, by whomever and however often, the stored state, the live configuration with its device
  tokens, and the allowlist stay as they are, and no session begins: such a request can only use up rate
  limits, look up places, refresh the weather, and end or refresh sessions.\<close>

theorem safe_methods:
  assumes "serverHandler L C J E r a = (requestID, w, a')" and "rMethod r \<notin> set writeMethods"
  shows "adStore a' = adStore a \<and> adTransport a' = adTransport a \<and> rmCurrent (adRuntime a') = rmCurrent (adRuntime a) \<and>
    dom (map_of (adSessions a')) \<subseteq> dom (map_of (adSessions a))"
proof -
  let ?r = "r\<lparr>rRequestID := newRequestID (snRandom E)\<rparr>"
  obtain x where h: "rootServe L C J E ?r a = (x, a')" using assms(1) by (auto simp: serverHandler_def Let_def split: prod.splits)
  have "safeStep a a'"
  proof (cases "reached r")
    case (MuxHandle t vs)
    then have "serveTarget L C J E (?r\<lparr>rPathValue := pathValue vs\<rparr>) t a = (x, a')" using h by (simp add: rootServe_def)
    moreover have "\<not> postTarget t" using reached_post [OF MuxHandle] assms(2) by blast
    ultimately show ?thesis by (rule safe_target)
  qed (use h in \<open>simp_all add: rootServe_def\<close>)
  then show ?thesis by (simp add: safeStep_def noneBegins_def)
qed

subsection \<open>Requests without credentials\<close>

definition anonymous :: "golib \<Rightarrow> serverEnv \<Rightarrow> request \<Rightarrow> admin \<Rightarrow> bool" where
  "anonymous L E r a \<longleftrightarrow> (\<forall>d h. ServeHTTP L (adRuntime a) r \<noteq> Inr (d, h)) \<and>
     (\<forall>tk. rCookie r = Some tk \<longrightarrow> fst (Validate L (enNow (snAdmin E) AtSession) tk (adSessions a)) = None)"

lemma anonymous_session:
  assumes "\<And>tk. rCookie r = Some tk \<Longrightarrow> fst (Validate L (enNow E AtSession) tk (adSessions a)) = None"
    and "requireSession L E r isWrite handler a = (w, a')"
  shows "rsStatus w = 401 \<and> (\<exists>s. a' = a\<lparr>adSessions := s\<rparr> \<and> noneBegins (adSessions a) s)"
proof (cases "rCookie r")
  case None
  then have "w = adminUnauthorized r" "a' = a\<lparr>adSessions := adSessions a\<rparr>"
    using assms(2) by (simp_all add: requireSession_def sessionFromRequest_def)
  then show ?thesis by (intro conjI exI [of _ "adSessions a"]) (simp_all add: adminUnauthorized_def)
next
  case (Some tk)
  obtain s where v: "Validate L (enNow E AtSession) tk (adSessions a) = (None, s)" using assms(1) [OF Some] by (metis prod.collapse)
  with Some assms(2) have "w = adminUnauthorized r" "a' = a\<lparr>adSessions := s\<rparr>"
    by (simp_all add: requireSession_def sessionFromRequest_def)
  with Validate_keys [OF v] show ?thesis by (auto simp: adminUnauthorized_def)
qed

text \<open>The handlers see the request with its identifier and path value; neither bears on who it comes from.\<close>

lemma ServeHTTP_tagged: "ServeHTTP L m (r\<lparr>rRequestID := i, rPathValue := v\<rparr>) = Inr x \<longleftrightarrow> ServeHTTP L m r = Inr x"
  by (simp add: ServeHTTP_def Wrap_eq HeaderGet_def Let_def split: option.split)

lemma decodeJSON_tagged: "decodeJSON dec (r\<lparr>rRequestID := i, rPathValue := v\<rparr>) = Inr x \<longleftrightarrow> decodeJSON dec r = Inr x"
  by (simp add: decodeJSON_def split: option.split)

lemma origin_tagged: "RequestOrigin L (r\<lparr>rRequestID := i, rPathValue := v\<rparr>) = RequestOrigin L r"
  "rHost (r\<lparr>rRequestID := i, rPathValue := v\<rparr>) = rHost r" "Secure p (r\<lparr>rRequestID := i, rPathValue := v\<rparr>) = Secure p r" "AllowWrite p (r\<lparr>rRequestID := i, rPathValue := v\<rparr>) = AllowWrite p r"
  by (simp_all add: RequestOrigin_def HeaderValues_def Secure_def AllowWrite_def)

lemma setupOrigin_tagged: "SetupOriginAllowed L p (r\<lparr>rRequestID := i, rPathValue := v\<rparr>) os = SetupOriginAllowed L p r os"
  unfolding SetupOriginAllowed_def SameOrigin_def origin_tagged ..

lemma setupAuthorized_tagged: "setupAuthorized L C J (r\<lparr>rRequestID := i, rPathValue := v\<rparr>) a = setupAuthorized L C J r a"
  unfolding setupAuthorized_def decodeJSON_tagged setupOrigin_tagged origin_tagged by (simp add: HeaderGet_def)

lemma guarded_anonymous:
  assumes "adminServe L C J E r route a = (w, a')" and "\<not> publicTarget (AdminTarget route)"
    and "\<And>tk. rCookie r = Some tk \<Longrightarrow> fst (Validate L (enNow E AtSession) tk (adSessions a)) = None"
  shows "rsStatus w = 401 \<and> (\<exists>s. a' = a\<lparr>adSessions := s\<rparr> \<and> noneBegins (adSessions a) s)"
proof -
  obtain isWrite handler where "requireSession L E r isWrite handler a = (w, a')" using assms(1,2) by (cases route) auto
  from anonymous_session [OF assms(3) this] show ?thesis by blast
qed

text \<open>Behind the handlers that are not public there is the device token or the session; the rest is public.\<close>

lemma private_anonymous:
  assumes "serveTarget L C J E (r\<lparr>rRequestID := i, rPathValue := v\<rparr>) t a = (y, a')" and "anonymous L E r a" and "\<not> publicTarget t"
  shows "sameCore a a' \<and> noneBegins (adSessions a) (adSessions a') \<and>
    (\<exists>x. y = Some (JSONReply x) \<and> (rsStatus x = 401 \<or> t = DeviceTarget \<and> rmCurrent (adRuntime a) = None \<and> rsStatus x = 503))"
proof (cases t)
  case DeviceTarget
  let ?r = "r\<lparr>rRequestID := i, rPathValue := v\<rparr>"
  have "\<And>x. ServeHTTP L (adRuntime a) ?r \<noteq> Inr x" using assms(2) by (auto simp: anonymous_def ServeHTTP_tagged)
  then obtain x where x: "ServeHTTP L (adRuntime a) ?r = Inl x" by (cases "ServeHTTP L (adRuntime a) ?r") auto
  then have "y = Some (JSONReply x)" "a' = a" using assms(1) DeviceTarget by (simp_all add: deviceServe_def)
  moreover have "rsStatus x = 401 \<or> rmCurrent (adRuntime a) = None \<and> rsStatus x = 503"
    using x by (auto simp: ServeHTTP_def Wrap_eq Let_def unauthorized_def split: option.splits sum.splits if_splits)
  ultimately show ?thesis using DeviceTarget by (simp add: sameCore_def)
next
  case (AdminTarget route)
  let ?r = "r\<lparr>rRequestID := i, rPathValue := v\<rparr>"
  obtain x where x: "adminServe L C J (snAdmin E) ?r route a = (x, a')" "y = Some (JSONReply x)"
    using assms(1) AdminTarget by (auto split: prod.splits)
  have "\<And>tk. rCookie ?r = Some tk \<Longrightarrow> fst (Validate L (enNow (snAdmin E) AtSession) tk (adSessions a)) = None"
    using assms(2) by (simp add: anonymous_def)
  from guarded_anonymous [OF x(1) _ this] assms(3) AdminTarget x(2) show ?thesis by (auto simp: sameCore_def)
qed (use assms(3) in simp_all)

lemma public_core:
  assumes "serveTarget L C J E (r\<lparr>rRequestID := i, rPathValue := v\<rparr>) t a = (y, a')" and "publicTarget t"
  shows "sameCore a a' \<or> t = AdminTarget SetupRoute \<and> setupAuthorized L C J r a"
proof (cases "t = AdminTarget SetupRoute")
  case True
  then obtain x where "setupHandler L C J (snAdmin E) (r\<lparr>rRequestID := i, rPathValue := v\<rparr>) a = (x, a')"
    using assms(1) by (auto split: prod.splits)
  from setup_authorized [OF this] True show ?thesis by (auto simp: setupAuthorized_tagged)
next
  case False
  with assms login_core [of a L C J "snAdmin E" "r\<lparr>rRequestID := i, rPathValue := v\<rparr>"]
    status_core [of a C "snAdmin E" "r\<lparr>rRequestID := i, rPathValue := v\<rparr>"] show ?thesis
    by (cases t) (auto simp: sameCore_def split: prod.splits)
qed

text \<open>C5. What a request without credentials can do. Whatever it asks for, over whatever method and path, a
  request with neither the token of a device nor the cookie of a session that is accepted gets 401 from
  every handler but the public ones, or 503 from the device API before the setup; the stored state, the
  live runtime and the allowlist stay as they are, except by an authorised first setup; and no session
  begins except by that setup or a login. Public are the page, the health endpoints, the management
  status, setup and login, and the answer that nothing is there.\<close>

theorem anonymous_surface:
  assumes "serverHandler L C J E r a = (requestID, w, a')" and "anonymous L E r a"
  shows "case reached r of
      MuxHandle t _ \<Rightarrow>
        (sameCore a a' \<or> t = AdminTarget SetupRoute \<and> setupAuthorized L C J r a) \<and>
        (dom (map_of (adSessions a')) \<subseteq> dom (map_of (adSessions a)) \<or> t = AdminTarget SetupRoute \<or> t = AdminTarget LoginRoute) \<and>
        (publicTarget t \<or> (\<exists>x. w = JSONReply x \<and> (rsStatus x = 401 \<or> t = DeviceTarget \<and> rmCurrent (adRuntime a) = None \<and> rsStatus x = 503)))
    | answer \<Rightarrow> w = MuxReply answer \<and> a' = a"
proof (cases "reached r")
  case (MuxHandle t vs)
  let ?r = "r\<lparr>rRequestID := newRequestID (snRandom E), rPathValue := pathValue vs\<rparr>"
  obtain y where h: "serveTarget L C J E ?r t a = (y, a')" and w: "\<And>x. y = Some x \<Longrightarrow> w = x"
    using assms(1) MuxHandle by (auto simp: serverHandler_def rootServe_def Let_def split: prod.splits option.splits)
  note guarded = private_anonymous [OF h assms(2)]
  have "sameCore a a' \<or> t = AdminTarget SetupRoute \<and> setupAuthorized L C J r a"
    using guarded public_core [OF h] by blast
  moreover have "noneBegins (adSessions a) (adSessions a') \<or> t = AdminTarget SetupRoute \<or> t = AdminTarget LoginRoute"
  proof (cases "postTarget t")
    case False
    then show ?thesis using safe_target [OF h] by (simp add: safeStep_def)
  next
    case True
    then have "publicTarget t \<Longrightarrow> t = AdminTarget SetupRoute \<or> t = AdminTarget LoginRoute" by (cases t) auto
    with guarded show ?thesis by blast
  qed
  moreover have "publicTarget t \<or> (\<exists>x. w = JSONReply x \<and> (rsStatus x = 401 \<or> t = DeviceTarget \<and> rmCurrent (adRuntime a) = None \<and> rsStatus x = 503))"
    using guarded w by blast
  ultimately show ?thesis using MuxHandle by (auto simp: noneBegins_def)
qed (use assms(1) in \<open>simp_all add: serverHandler_def rootServe_def Let_def\<close>)

end
