(* ===== verification/AppConfig.thy ===== *)
theory AppConfig
  imports Transport NetAddr
begin

section \<open>Process configuration: \<open>internal/platform/config/config.go\<close>\<close>

text \<open>
  \<open>load\<close> reads the environment through \<open>getenv\<close> and stops at the first variable it cannot accept;
  \<open>configError\<close> names that variable. \<open>strconv.ParseBool\<close> and \<open>filepath.IsAbs\<close> (on Unix) are written out.
\<close>

record Config =
  cfListenAddr :: bytes
  cfLogLevel :: bytes
  cfStateDir :: bytes
  cfAdminAllowInsecureHTTP :: bool
  cfAdminBehindHTTPSProxy :: bool
  cfGeoIPDBPath :: bytes
  cfCloudflareLocationHeaders :: bool
  cfTrustedClientIPHeader :: bytes
  cfTrustedClientIPNets :: "prefix4or6 list"

datatype configError =
    BadListenAddr
  | UnsupportedLogLevel bytes
  | StateDirNotAbsolute
  | NotBool bytes
  | ProxyAndInsecure
  | InvalidCIDR bytes
  | HeaderNeedsNets
  | CloudflareNeedsNets

definition valueOrDefault :: "bytes \<Rightarrow> bytes \<Rightarrow> bytes" where
  "valueOrDefault v0 fallback = (let v = TrimSpace v0 in if v = [] then fallback else v)"

definition ParseBool :: "bytes \<Rightarrow> bool option" where
  "ParseBool s =
     (if s \<in> set [''1'', ''t'', ''T'', ''TRUE'', ''true'', ''True''] then Some True
      else if s \<in> set [''0'', ''f'', ''F'', ''FALSE'', ''false'', ''False''] then Some False
      else None)"

definition boolValue :: "bytes \<Rightarrow> bool \<Rightarrow> bool option" where
  "boolValue v0 fallback = (let v = TrimSpace v0 in if v = [] then Some fallback else ParseBool v)"

text \<open>The loop of \<open>parsePrefixes\<close>: empty parts are skipped, the first part that is no CIDR is the error.\<close>

fun prefixLoop :: "golib \<Rightarrow> bytes list \<Rightarrow> prefix4or6 list \<Rightarrow> bytes + prefix4or6 list" where
  "prefixLoop L [] acc = Inr acc"
| "prefixLoop L (part0 # parts) acc =
     (let part = TrimSpace part0
      in if part = [] then prefixLoop L parts acc
         else (case ParsePrefix L part of
                 None \<Rightarrow> Inl part
               | Some net \<Rightarrow> prefixLoop L parts (acc @ [net])))"

definition parsePrefixes :: "golib \<Rightarrow> bytes \<Rightarrow> bytes + prefix4or6 list" where
  "parsePrefixes L v0 = (let v = TrimSpace v0 in if v = [] then Inr [] else prefixLoop L (Split CHR '','' v) [])"

definition IsAbs :: "bytes \<Rightarrow> bool" where
  "IsAbs path = HasPrefix path ''/''"

definition envBool :: "(bytes \<Rightarrow> bytes) \<Rightarrow> bytes \<Rightarrow> configError + bool" where
  "envBool getenv name = (case boolValue (getenv name) False of None \<Rightarrow> Inl (NotBool name) | Some b \<Rightarrow> Inr b)"

definition load :: "golib \<Rightarrow> (bytes \<Rightarrow> bytes) \<Rightarrow> configError + Config" where
  "load L getenv =
     (let listenAddr = valueOrDefault (getenv ''MT_LISTEN_ADDR'') '':8080''
      in if SplitHostPort listenAddr = None then Inl BadListenAddr else
      let logLevel = valueOrDefault (getenv ''MT_LOG_LEVEL'') ''info''
      in if logLevel \<notin> set [''debug'', ''info'', ''warn'', ''error''] then Inl (UnsupportedLogLevel logLevel) else
      let stateDir = valueOrDefault (getenv ''MT_STATE_DIR'') ''/var/lib/mt-server''
      in if \<not> IsAbs stateDir then Inl StateDirNotAbsolute else
      case envBool getenv ''MT_ADMIN_ALLOW_INSECURE_HTTP'' of Inl e \<Rightarrow> Inl e | Inr allowInsecure \<Rightarrow>
      (case envBool getenv ''MT_ADMIN_BEHIND_HTTPS_PROXY'' of Inl e \<Rightarrow> Inl e | Inr behindHTTPSProxy \<Rightarrow>
      if behindHTTPSProxy \<and> allowInsecure then Inl ProxyAndInsecure else
      let geoIPDBPath = TrimSpace (getenv ''MT_GEOIP_DB'')
      in case envBool getenv ''MT_CLOUDFLARE_LOCATION_HEADERS'' of Inl e \<Rightarrow> Inl e | Inr cloudflareHeaders \<Rightarrow>
      (let trustedHeader = TrimSpace (getenv ''MT_TRUSTED_CLIENT_IP_HEADER'')
       in case parsePrefixes L (getenv ''MT_TRUSTED_CLIENT_IP_NETS'') of Inl part \<Rightarrow> Inl (InvalidCIDR part) | Inr trustedNets \<Rightarrow>
       if trustedHeader \<noteq> [] \<and> length trustedNets = 0 then Inl HeaderNeedsNets
       else if cloudflareHeaders \<and> length trustedNets = 0 then Inl CloudflareNeedsNets
       else Inr \<lparr>cfListenAddr = listenAddr, cfLogLevel = logLevel, cfStateDir = stateDir,
         cfAdminAllowInsecureHTTP = allowInsecure, cfAdminBehindHTTPSProxy = behindHTTPSProxy, cfGeoIPDBPath = geoIPDBPath,
         cfCloudflareLocationHeaders = cloudflareHeaders, cfTrustedClientIPHeader = trustedHeader,
         cfTrustedClientIPNets = trustedNets\<rparr>)))"

subsection \<open>What an accepted configuration guarantees\<close>

lemma prefixLoop_Inr:
  "prefixLoop L parts acc = Inr ps \<longleftrightarrow>
     (\<forall>x\<in>set parts. TrimSpace x \<noteq> [] \<longrightarrow> ParsePrefix L (TrimSpace x) \<noteq> None) \<and>
     ps = acc @ List.map_filter (\<lambda>x. if TrimSpace x = [] then None else ParsePrefix L (TrimSpace x)) parts"
  by (induction L parts acc rule: prefixLoop.induct)
    (auto simp: Let_def List.map_filter_def split: option.splits if_splits)

lemma envBool_iff:
  "envBool getenv n = Inr b \<longleftrightarrow> (TrimSpace (getenv n) = [] \<and> \<not> b \<or> ParseBool (TrimSpace (getenv n)) = Some b)"
proof -
  have "ParseBool [] = None" by (simp add: ParseBool_def)
  then show ?thesis by (auto simp: envBool_def boolValue_def Let_def split: option.splits)
qed

text \<open>Every accepted configuration: the interlocks between its settings.\<close>

definition configOK :: "Config \<Rightarrow> bool" where
  "configOK c \<longleftrightarrow> SplitHostPort (cfListenAddr c) \<noteq> None \<and> cfLogLevel c \<in> set [''debug'', ''info'', ''warn'', ''error''] \<and>
     IsAbs (cfStateDir c) \<and> \<not> (cfAdminBehindHTTPSProxy c \<and> cfAdminAllowInsecureHTTP c) \<and>
     (cfTrustedClientIPHeader c \<noteq> [] \<or> cfCloudflareLocationHeaders c \<longrightarrow> cfTrustedClientIPNets c \<noteq> [])"

lemma load_Inr:
  assumes "load L getenv = Inr c"
  shows "configOK c \<and>
    envBool getenv ''MT_ADMIN_ALLOW_INSECURE_HTTP'' = Inr (cfAdminAllowInsecureHTTP c) \<and>
    envBool getenv ''MT_ADMIN_BEHIND_HTTPS_PROXY'' = Inr (cfAdminBehindHTTPSProxy c) \<and>
    envBool getenv ''MT_CLOUDFLARE_LOCATION_HEADERS'' = Inr (cfCloudflareLocationHeaders c) \<and>
    parsePrefixes L (getenv ''MT_TRUSTED_CLIENT_IP_NETS'') = Inr (cfTrustedClientIPNets c)"
proof -
  let ?addr = "valueOrDefault (getenv ''MT_LISTEN_ADDR'') '':8080''" and ?level = "valueOrDefault (getenv ''MT_LOG_LEVEL'') ''info''"
    and ?dir = "valueOrDefault (getenv ''MT_STATE_DIR'') ''/var/lib/mt-server''"
  have 1: "SplitHostPort ?addr \<noteq> None" using assms by (rule_tac notI) (simp add: load_def Let_def)
  have 2: "?level \<in> set [''debug'', ''info'', ''warn'', ''error'']"
  proof (rule ccontr)
    assume "?level \<notin> set [''debug'', ''info'', ''warn'', ''error'']"
    then show False using assms 1 unfolding load_def Let_def by (simp only: if_False if_True simp_thms) simp
  qed
  note unf = load_def Let_def 1 2 if_False if_True not_True_eq_False not_False_eq_True simp_thms
  have 3: "IsAbs ?dir"
  proof (rule ccontr)
    assume "\<not> IsAbs ?dir"
    then show False using assms by (simp only: unf) simp
  qed
  obtain ai where ai: "envBool getenv ''MT_ADMIN_ALLOW_INSECURE_HTTP'' = Inr ai"
    using assms by (cases "envBool getenv ''MT_ADMIN_ALLOW_INSECURE_HTTP''") (simp_all only: unf 3 sum.case, simp_all)
  obtain bp where bp: "envBool getenv ''MT_ADMIN_BEHIND_HTTPS_PROXY'' = Inr bp"
    using assms by (cases "envBool getenv ''MT_ADMIN_BEHIND_HTTPS_PROXY''") (simp_all only: unf 3 ai sum.case, simp_all)
  have x: "\<not> (bp \<and> ai)"
  proof
    assume "bp \<and> ai"
    then show False using assms by (simp only: unf 3 ai bp sum.case) simp
  qed
  obtain cf where cf: "envBool getenv ''MT_CLOUDFLARE_LOCATION_HEADERS'' = Inr cf"
    using assms by (cases "envBool getenv ''MT_CLOUDFLARE_LOCATION_HEADERS''") (simp_all only: unf 3 ai bp x sum.case, simp_all)
  obtain nets where nets: "parsePrefixes L (getenv ''MT_TRUSTED_CLIENT_IP_NETS'') = Inr nets"
    using assms by (cases "parsePrefixes L (getenv ''MT_TRUSTED_CLIENT_IP_NETS'')") (simp_all only: unf 3 ai bp x cf sum.case, simp_all)
  define header where "header = TrimSpace (getenv ''MT_TRUSTED_CLIENT_IP_HEADER'')"
  have r: "(if header \<noteq> [] \<and> length nets = 0 then Inl HeaderNeedsNets
       else if cf \<and> length nets = 0 then Inl CloudflareNeedsNets
       else Inr \<lparr>cfListenAddr = ?addr, cfLogLevel = ?level, cfStateDir = ?dir,
         cfAdminAllowInsecureHTTP = ai, cfAdminBehindHTTPSProxy = bp, cfGeoIPDBPath = TrimSpace (getenv ''MT_GEOIP_DB''),
         cfCloudflareLocationHeaders = cf, cfTrustedClientIPHeader = header, cfTrustedClientIPNets = nets\<rparr>) = Inr c"
    using assms unfolding header_def by (simp only: unf 3 ai bp x cf nets sum.case)
  have c: "c = \<lparr>cfListenAddr = ?addr, cfLogLevel = ?level, cfStateDir = ?dir,
         cfAdminAllowInsecureHTTP = ai, cfAdminBehindHTTPSProxy = bp, cfGeoIPDBPath = TrimSpace (getenv ''MT_GEOIP_DB''),
         cfCloudflareLocationHeaders = cf, cfTrustedClientIPHeader = header, cfTrustedClientIPNets = nets\<rparr>"
    and n: "\<not> (header \<noteq> [] \<and> length nets = 0)" "\<not> (cf \<and> length nets = 0)"
    using r by (simp_all only: sum.inject Inl_Inr_False not_False_eq_True split: if_split_asm)
  have "configOK c" unfolding configOK_def c Config.select_convs using 1 2 3 x n by blast
  then show ?thesis unfolding c Config.select_convs using ai bp cf nets by blast
qed

text \<open>C18. An accepted configuration is well-formed: the listen address splits into host and port, the
  state directory is absolute, plain HTTP and a TLS-terminating proxy exclude each other, and a client
  address header or Cloudflare's location headers are believed only with a list of proxies. Hence a
  management write without TLS needs one of the two options set to true, and without a list of
  proxies no header at all can choose the client address.\<close>

theorem accepted_config:
  assumes "load L getenv = Inr c"
  shows "configOK c \<and>
    (AllowWrite (NewTransportPolicy (cfAdminAllowInsecureHTTP c) (cfAdminBehindHTTPSProxy c)) r \<and> \<not> rTLS r \<longrightarrow>
       ParseBool (TrimSpace (getenv ''MT_ADMIN_ALLOW_INSECURE_HTTP'')) = Some True \<and> \<not> cfAdminBehindHTTPSProxy c \<or>
       ParseBool (TrimSpace (getenv ''MT_ADMIN_BEHIND_HTTPS_PROXY'')) = Some True \<and> \<not> cfAdminAllowInsecureHTTP c) \<and>
    (cfTrustedClientIPNets c = [] \<longrightarrow> ClientIP L (NewIPExtractor (cfTrustedClientIPHeader c) (cfTrustedClientIPNets c)) r =
       ClientIP L (NewIPExtractor [] []) (r\<lparr>rHeader := (\<lambda>_. [])\<rparr>) \<and> \<not> cfCloudflareLocationHeaders c)"
proof -
  note facts = load_Inr [OF assms]
  have ok: "configOK c" using facts by blast
  have flags: "cfAdminAllowInsecureHTTP c \<Longrightarrow> ParseBool (TrimSpace (getenv ''MT_ADMIN_ALLOW_INSECURE_HTTP'')) = Some True"
    "cfAdminBehindHTTPSProxy c \<Longrightarrow> ParseBool (TrimSpace (getenv ''MT_ADMIN_BEHIND_HTTPS_PROXY'')) = Some True"
    using facts by (simp_all add: envBool_iff)
  have x: "\<not> (cfAdminBehindHTTPSProxy c \<and> cfAdminAllowInsecureHTTP c)"
    and h: "cfTrustedClientIPNets c = [] \<Longrightarrow> cfTrustedClientIPHeader c = [] \<and> \<not> cfCloudflareLocationHeaders c"
    using ok by (auto simp: configOK_def)
  have "AllowWrite (NewTransportPolicy ai bp) r \<Longrightarrow> \<not> rTLS r \<Longrightarrow> ai \<or> bp" for ai bp
    by (auto simp: AllowWrite_def Secure_def NewTransportPolicy_def ReplacePublicOrigins_def)
  moreover have "ClientIP L (NewIPExtractor [] []) r = ClientIP L (NewIPExtractor [] []) (r\<lparr>rHeader := (\<lambda>_. [])\<rparr>)"
    by (simp add: ClientIP_def NewIPExtractor_def trusts_def split: option.split)
  ultimately show ?thesis using ok flags x h by auto
qed

text \<open>With nothing set, the defaults.\<close>

lemma load_defaults:
  "load L (\<lambda>_. []) = Inr \<lparr>cfListenAddr = '':8080'', cfLogLevel = ''info'', cfStateDir = ''/var/lib/mt-server'',
     cfAdminAllowInsecureHTTP = False, cfAdminBehindHTTPSProxy = False, cfGeoIPDBPath = [], cfCloudflareLocationHeaders = False,
     cfTrustedClientIPHeader = [], cfTrustedClientIPNets = []\<rparr>"
proof -
  have "TrimSpace [] = [] \<and> SplitHostPort '':8080'' \<noteq> None \<and> IsAbs ''/var/lib/mt-server''" by code_simp
  then show ?thesis by (simp add: load_def Let_def valueOrDefault_def envBool_def boolValue_def parsePrefixes_def)
qed

lemma accepted_config_witness:
  "\<exists>c. load emptyLib (\<lambda>_. []) = Inr c \<and> configOK c \<and>
     \<not> AllowWrite (NewTransportPolicy (cfAdminAllowInsecureHTTP c) (cfAdminBehindHTTPSProxy c)) emptyRequest"
proof -
  have "TrimSpace [] = [] \<and> ParseBool [] = None" by code_simp
  moreover have "\<not> rTLS emptyRequest" by (simp add: emptyRequest_def)
  ultimately show ?thesis
    using accepted_config [OF load_defaults [of emptyLib], of emptyRequest] load_defaults [of emptyLib] by auto
qed

end
