(* ===== verification/AppStart.thy ===== *)
theory AppStart
  imports AdminSafety AppConfig
begin

section \<open>Start-up and shutdown: \<open>internal/app/app.go\<close>\<close>

text \<open>
  \<open>appNew\<close> is \<open>New\<close>: it opens and locks the state directory, prepares the stored configuration, migrates
  a schema v3 file and builds the management interface. \<open>disk\<close> is the state directory and the lock
  holder is that of \<open>flock\<close>. \<open>appRun\<close> is the module life cycle of \<open>Run\<close>, as the list of what it does.
\<close>

datatype startError =
    OpenState storeError
  | LockState storeError
  | LoadStored storeError
  | StoredOrigins "originError option"
  | PrepareStored runtimeError
  | MigrateStored storeError
  | ManagementFailed

text \<open>What the system calls, the clock and \<open>rand\<close> answer during one start; \<open>seProcess\<close> is the locking process.\<close>

record startEnv =
  seMkdirOk :: bool
  seChmodOk :: bool
  seProcess :: nat
  seLockOpenOk :: bool
  seLockChmodOk :: bool
  seFlockOk :: bool
  seReadOk :: bool
  seNow :: time
  seBackupFaults :: writeFaults
  seStateFaults :: writeFaults
  seRereadOk :: bool
  seSaveNow :: time
  seGeoIP :: "reader option"
  seRandom :: "bytes option"

definition commitStateMigration :: "codec \<Rightarrow> startEnv \<Rightarrow> CompatibleState \<Rightarrow> Store \<Rightarrow> storeError option \<times> Store" where
  "commitStateMigration C E loaded s =
     (let (result, _, s) = CommitMigration C (seBackupFaults E) (seStateFaults E) (seRereadOk E) (seSaveNow E) loaded s
      in case result of Inl e \<Rightarrow> (Some e, s) | Inr _ \<Rightarrow> (None, s))"

text \<open>The end of \<open>New\<close>: the management interface over the store, the runtime and the transport policy.\<close>

definition buildManagement :: "golib \<Rightarrow> startEnv \<Rightarrow> bytes \<Rightarrow> Store \<Rightarrow> RuntimeManager \<Rightarrow> TransportPolicy \<Rightarrow> (startError + admin) \<times> Store" where
  "buildManagement L E version s rt transport =
     (case newAdmin L (seRandom E) s rt NewSessions transport version of
        None \<Rightarrow> (Inl ManagementFailed, s) | Some a \<Rightarrow> (Inr a, s))"

definition migrateLoaded :: "codec \<Rightarrow> startEnv \<Rightarrow> CompatibleState \<Rightarrow> Store \<Rightarrow> storeError option \<times> Store" where
  "migrateLoaded C E loaded s =
     (if csSourceVersion loaded \<noteq> SchemaVersion then commitStateMigration C E loaded s else (None, s))"

definition startLocked :: "golib \<Rightarrow> codec \<Rightarrow> startEnv \<Rightarrow> Config \<Rightarrow> bytes \<Rightarrow> Store \<Rightarrow> (startError + admin) \<times> Store" where
  "startLocked L C E cfg version s =
     (let transport = NewTransportPolicy (cfAdminAllowInsecureHTTP cfg) (cfAdminBehindHTTPSProxy cfg);
          geoIP = (if cfGeoIPDBPath cfg = [] then None else Some (seGeoIP E));
          rt = NewRuntimeManager geoIP (cfTrustedClientIPHeader cfg) (cfTrustedClientIPNets cfg) (cfCloudflareLocationHeaders cfg)
      in case LoadCompatible C (seReadOk E) s of
           Inl e \<Rightarrow>
             if e \<noteq> ErrNotInitialized then (Inl (LoadStored e), s)
             else buildManagement L E version s rt transport
         | Inr loaded \<Rightarrow>
             (let persisted = csState loaded
              in case ValidatePublicOrigins L transport (asPublicOrigins (stAdmin persisted)) of
                   Inl e \<Rightarrow> (Inl (StoredOrigins (Some e)), s)
                 | Inr origins \<Rightarrow>
                     if origins \<noteq> asPublicOrigins (stAdmin persisted) then (Inl (StoredOrigins None), s)
                     else (case Prepare L (seNow E) persisted rt of
                             (Inl e, _) \<Rightarrow> (Inl (PrepareStored e), s)
                           | (Inr p, rt) \<Rightarrow>
                               (case migrateLoaded C E loaded s of
                                  (Some e, s) \<Rightarrow> (Inl (MigrateStored e), s)
                                | (None, s) \<Rightarrow>
                                    buildManagement L E version s (snd (Activate p rt)) (ReplacePublicOrigins origins transport)))))"

text \<open>A failed start gives the lock back; a running server keeps it.\<close>

definition appNew :: "golib \<Rightarrow> codec \<Rightarrow> startEnv \<Rightarrow> Config \<Rightarrow> bytes \<Rightarrow> disk \<Rightarrow> nat option \<Rightarrow> (startError + admin) \<times> disk \<times> nat option" where
  "appNew L C E cfg version d holder =
     (case NewStore (IsAbs (cfStateDir cfg)) (seMkdirOk E) (seChmodOk E) d of
        Inl e \<Rightarrow> (Inl (OpenState e), d, holder)
      | Inr s \<Rightarrow>
          (case AcquireLock (seProcess E) (seLockOpenOk E) (seLockChmodOk E) (seFlockOk E) holder of
             (Inl e, holder) \<Rightarrow> (Inl (LockState e), d, holder)
           | (Inr h, holder) \<Rightarrow>
               (case startLocked L C E cfg version s of
                  (Inl e, s) \<Rightarrow> (Inl e, soDisk s, CloseLock h holder)
                | (Inr a, s) \<Rightarrow> (Inr a, soDisk s, holder))))"

subsection \<open>\<open>Run\<close>\<close>

text \<open>A module by name, with what its \<open>Start\<close> and \<open>Close\<close> answer; \<open>None\<close> is no error.\<close>

record moduleRun =
  mdName :: bytes
  mdStart :: "bytes option"
  mdClose :: "bytes option"

datatype runEvent = Started bytes | Serve | Shutdown | Closed bytes | LockReleased

datatype runError = StartFailed bytes bytes | ListenFailed bytes | ShutdownFailed bytes | CloseFailed bytes bytes

text \<open>The loop of \<open>closeModules\<close>, from the last module to the first; the first error is kept.\<close>

fun closeLoop :: "moduleRun list \<Rightarrow> runError option \<Rightarrow> runEvent list \<times> runError option" where
  "closeLoop [] closeError = ([], closeError)"
| "closeLoop (md # mds) closeError =
     (let closeError = (case mdClose md of
            Some e \<Rightarrow> if closeError = None then Some (CloseFailed (mdName md) e) else closeError
          | None \<Rightarrow> closeError);
          (events, closeError) = closeLoop mds closeError
      in (Closed (mdName md) # events, closeError))"

definition closeModules :: "moduleRun list \<Rightarrow> runEvent list \<times> runError option" where
  "closeModules modules = closeLoop (rev modules) None"

fun startLoop :: "moduleRun list \<Rightarrow> moduleRun list \<Rightarrow> moduleRun list \<times> runError option" where
  "startLoop [] started = (started, None)"
| "startLoop (md # mds) started =
     (case mdStart md of
        Some e \<Rightarrow> (started, Some (StartFailed (mdName md) e))
      | None \<Rightarrow> startLoop mds (started @ [md]))"

text \<open>
  \<open>listen\<close> is the error of \<open>ListenAndServe\<close> when it returns before the context is cancelled, other than
  \<open>ErrServerClosed\<close>; \<open>shutdown\<close> is the error of \<open>Shutdown\<close>.
\<close>

definition appRun :: "moduleRun list \<Rightarrow> bytes option \<Rightarrow> bytes option \<Rightarrow> runEvent list \<times> runError option" where
  "appRun modules listen shutdown =
     (case startLoop modules [] of
        (started, Some e) \<Rightarrow>
          (map (Started \<circ> mdName) started @ fst (closeModules started) @ [LockReleased], Some e)
      | (started, None) \<Rightarrow>
          (let runError = map_option ListenFailed listen;
               runError = (case shutdown of
                 Some e \<Rightarrow> if runError = None then Some (ShutdownFailed e) else runError | None \<Rightarrow> runError);
               (closed, closeError) = closeModules started;
               runError = (if closeError \<noteq> None \<and> runError = None then closeError else runError)
           in (map (Started \<circ> mdName) started @ [Serve, Shutdown] @ closed @ [LockReleased], runError)))"

lemma closeLoop_events: "fst (closeLoop mds e) = map (Closed \<circ> mdName) mds"
  by (induction mds e rule: closeLoop.induct) (simp_all add: case_prod_unfold Let_def)

lemma closeLoop_error:
  "snd (closeLoop mds e) = (if e \<noteq> None then e
     else map_option (\<lambda>md. CloseFailed (mdName md) (the (mdClose md))) (find (\<lambda>md. mdClose md \<noteq> None) mds))"
  by (induction mds e rule: closeLoop.induct) (auto simp: case_prod_unfold Let_def split: option.split)

lemma startLoop_spec:
  "startLoop mds acc =
     (acc @ takeWhile (\<lambda>md. mdStart md = None) mds,
      case dropWhile (\<lambda>md. mdStart md = None) mds of [] \<Rightarrow> None | md # _ \<Rightarrow> Some (StartFailed (mdName md) (the (mdStart md))))"
  by (induction mds acc rule: startLoop.induct) (auto split: option.split)

text \<open>The life cycle of the modules. Whatever the modules, the listener and the shutdown answer,
  \<open>Run\<close> starts the modules in order up to the first that fails, serves only when all have started,
  closes exactly the modules it started, in reverse order and once each, and releases the lock last;
  its error is that of the start, else of the listener, else of the shutdown, else of the first close
  that failed.\<close>

theorem appRun_lifecycle:
  "appRun modules listen shutdown =
    (let started = takeWhile (\<lambda>md. mdStart md = None) modules;
         failed = dropWhile (\<lambda>md. mdStart md = None) modules;
         closeFailed = find (\<lambda>md. mdClose md \<noteq> None) (rev started)
     in (map (Started \<circ> mdName) started @ (if failed = [] then [Serve, Shutdown] else []) @
           map (Closed \<circ> mdName) (rev started) @ [LockReleased],
         if failed \<noteq> [] then Some (StartFailed (mdName (hd failed)) (the (mdStart (hd failed))))
         else if listen \<noteq> None then Some (ListenFailed (the listen))
         else if shutdown \<noteq> None then Some (ShutdownFailed (the shutdown))
         else map_option (\<lambda>md. CloseFailed (mdName md) (the (mdClose md))) closeFailed))"
proof -
  define started where "started = takeWhile (\<lambda>md. mdStart md = None) modules"
  have closed: "closeModules started = (map (Closed \<circ> mdName) (rev started),
      map_option (\<lambda>md. CloseFailed (mdName md) (the (mdClose md))) (find (\<lambda>md. mdClose md \<noteq> None) (rev started)))"
    using closeLoop_events [of "rev started" None] closeLoop_error [of "rev started" None]
    unfolding closeModules_def by (metis (no_types, lifting) prod.collapse)
  show ?thesis
  proof (cases "dropWhile (\<lambda>md. mdStart md = None) modules")
    case Nil
    then have "startLoop modules [] = (started, None)" unfolding startLoop_spec Nil started_def by simp
    then show ?thesis unfolding Nil started_def [symmetric]
      by (cases listen; cases shutdown) (simp_all add: appRun_def closed Let_def)
  next
    case (Cons md mds)
    then have "startLoop modules [] = (started, Some (StartFailed (mdName md) (the (mdStart md))))"
      unfolding startLoop_spec Cons started_def by simp
    then show ?thesis unfolding Cons started_def [symmetric] by (simp add: appRun_def closed Let_def)
  qed
qed

end
