(* ===== verification/Maintenance.thy ===== *)
theory Maintenance
  imports AppStart
begin

section \<open>The command line: \<open>cmd/mt-server\<close>\<close>

text \<open>
  \<open>main\<close>'s dispatch, and the two offline commands \<open>admin-origin\<close> and \<open>state restore-v3-backup\<close>. Both
  load the configuration, open and lock the state directory, work on the store and give the lock back;
  \<open>withStore\<close> is that frame, and the body of each command a function on the store.
\<close>

datatype commandError =
    Usage
  | BadConfiguration configError
  | OpenFailed storeError
  | ServerRunning bytes
  | LockFailed storeError
  | StoreRefused storeError
  | OriginsNotCanonical
  | BadOrigin
  | OriginExists
  | OriginLimit
  | OriginMissing
  | PolicyRefused originError
  | ReleaseFailed

text \<open>What the process and the system calls answer to one command.\<close>

record commandEnv =
  ceGetenv :: "bytes \<Rightarrow> bytes"
  ceMkdirOk :: bool
  ceChmodOk :: bool
  ceProcess :: nat
  ceLockOpenOk :: bool
  ceLockChmodOk :: bool
  ceFlockOk :: bool
  ceReleaseOk :: bool
  ceReadOk :: bool
  ceBackupOk :: bool
  ceStatOk :: bool
  ceFaults :: writeFaults
  ceNow :: time
  ceSaveNow :: time

text \<open>What a command ends with: its error, if any, and what it prints to standard output and error.\<close>

record commandResult =
  crError :: "commandError option"
  crOut :: "bytes list"
  crErr :: "bytes list"

definition failWith :: "commandError \<Rightarrow> commandResult" where
  "failWith e = \<lparr>crError = Some e, crOut = [], crErr = []\<rparr>"

definition printing :: "bytes list \<Rightarrow> commandResult" where
  "printing ls = \<lparr>crError = None, crOut = ls, crErr = []\<rparr>"

definition withStore :: "golib \<Rightarrow> commandEnv \<Rightarrow> bytes \<Rightarrow> (Config \<Rightarrow> Store \<Rightarrow> commandResult \<times> Store) \<Rightarrow> disk \<Rightarrow> nat option \<Rightarrow>
    commandResult \<times> disk \<times> nat option" where
  "withStore L E busy body d holder =
     (case load L (ceGetenv E) of
        Inl e \<Rightarrow> (failWith (BadConfiguration e), d, holder)
      | Inr cfg \<Rightarrow>
          (case NewStore (IsAbs (cfStateDir cfg)) (ceMkdirOk E) (ceChmodOk E) d of
             Inl e \<Rightarrow> (failWith (OpenFailed e), d, holder)
           | Inr s \<Rightarrow>
               (case AcquireLock (ceProcess E) (ceLockOpenOk E) (ceLockChmodOk E) (ceFlockOk E) holder of
                  (Inl e, holder) \<Rightarrow> (failWith (if e = ErrLocked then ServerRunning busy else LockFailed e), d, holder)
                | (Inr h, holder) \<Rightarrow>
                    (let (result, s) = body cfg s;
                         result = (if crError result = None \<and> \<not> ceReleaseOk E
                                   then result\<lparr>crError := Some ReleaseFailed\<rparr> else result)
                     in (result, soDisk s, CloseLock h holder)))))"

subsection \<open>\<open>admin-origin\<close>\<close>

definition saveOrigins :: "codec \<Rightarrow> commandEnv \<Rightarrow> State \<Rightarrow> bytes list \<Rightarrow> Store \<Rightarrow> commandResult \<times> Store" where
  "saveOrigins C E v origins s =
     (let v = v\<lparr>stAdmin := (stAdmin v)\<lparr>asPublicOrigins := origins\<rparr>, stUpdatedAt := ceNow E\<rparr>;
          (result, _, s) = Save C (ceFaults E) (ceStatOk E) (ceSaveNow E) v s
      in case result of
           Inl e \<Rightarrow> (failWith (StoreRefused e), s)
         | Inr confirmed \<Rightarrow>
             ((printing [''management origins updated''])\<lparr>crErr := if confirmed then []
                else [''warning: state was committed, but directory durability could not be confirmed'']\<rparr>, s))"

definition editOrigins :: "bytes \<Rightarrow> bytes \<Rightarrow> bytes list \<Rightarrow> commandError + bytes list" where
  "editOrigins command origin origins =
     (if command = ''add'' then
        if origin \<in> set origins then Inl OriginExists
        else if MaximumPublicOrigins \<le> length origins then Inl OriginLimit
        else Inr (origins @ [origin])
      else if command = ''remove'' then
        if origin \<notin> set origins then Inl OriginMissing else Inr (remove1 origin origins)
      else Inr origins)"

definition originBody :: "golib \<Rightarrow> codec \<Rightarrow> commandEnv \<Rightarrow> bytes \<Rightarrow> bytes \<Rightarrow> Config \<Rightarrow> Store \<Rightarrow> commandResult \<times> Store" where
  "originBody L C E command argument cfg s =
     (case Load C (ceReadOk E) s of
        Inl e \<Rightarrow> (failWith (StoreRefused e), s)
      | Inr v \<Rightarrow>
          (case NormalizePublicOrigins L (asPublicOrigins (stAdmin v)) of
             Inl _ \<Rightarrow> (failWith OriginsNotCanonical, s)
           | Inr origins \<Rightarrow>
               if origins \<noteq> asPublicOrigins (stAdmin v) then (failWith OriginsNotCanonical, s)
               else if command = ''list'' then (printing origins, s)
               else (case NormalizePublicOrigin L argument of
                       None \<Rightarrow> (failWith BadOrigin, s)
                     | Some origin \<Rightarrow>
                         (case editOrigins command origin origins of
                            Inl e \<Rightarrow> (failWith e, s)
                          | Inr origins \<Rightarrow>
                              (case ValidatePublicOrigins L (NewTransportPolicy (cfAdminAllowInsecureHTTP cfg) (cfAdminBehindHTTPSProxy cfg)) origins of
                                 Inl e \<Rightarrow> (failWith (PolicyRefused e), s)
                               | Inr origins \<Rightarrow> saveOrigins C E v origins s)))))"

definition runAdminOrigin :: "golib \<Rightarrow> codec \<Rightarrow> commandEnv \<Rightarrow> bytes list \<Rightarrow> disk \<Rightarrow> nat option \<Rightarrow> commandResult \<times> disk \<times> nat option" where
  "runAdminOrigin L C E arguments d holder =
     (if length arguments < 1 \<or> 2 < length arguments then (failWith Usage, d, holder)
      else
        (let command = hd arguments
         in if command = ''list'' \<and> length arguments \<noteq> 1 \<or> (command = ''add'' \<or> command = ''remove'') \<and> length arguments \<noteq> 2
            then (failWith Usage, d, holder)
            else if command \<noteq> ''list'' \<and> command \<noteq> ''add'' \<and> command \<noteq> ''remove'' then (failWith Usage, d, holder)
            else withStore L E ''stop mt-server before running offline origin maintenance''
                   (originBody L C E command (if length arguments = 2 then arguments ! 1 else [])) d holder))"

subsection \<open>\<open>state\<close> and the dispatch of \<open>main\<close>\<close>

definition restoreBody :: "codec \<Rightarrow> commandEnv \<Rightarrow> Config \<Rightarrow> Store \<Rightarrow> commandResult \<times> Store" where
  "restoreBody C E cfg s =
     (let (result, _, s) = RestoreV3Backup C (ceFaults E) (ceReadOk E) (ceBackupOk E) s
      in case result of
           Inl e \<Rightarrow> (failWith (StoreRefused e), s)
         | Inr confirmed \<Rightarrow>
             ((printing [''schema v3 migration backup restored''])\<lparr>crErr := if confirmed then []
                else [''warning: schema v3 was restored, but directory durability could not be confirmed'']\<rparr>, s))"

definition runState :: "golib \<Rightarrow> codec \<Rightarrow> commandEnv \<Rightarrow> bytes list \<Rightarrow> disk \<Rightarrow> nat option \<Rightarrow> commandResult \<times> disk \<times> nat option" where
  "runState L C E arguments d holder =
     (if arguments \<noteq> [''restore-v3-backup''] then (failWith Usage, d, holder)
      else withStore L E ''stop mt-server before restoring the migration backup'' (restoreBody C E) d holder)"

datatype invocation = RunServer | RunHealthcheck | RunAdminOrigin "bytes list" | RunStateCommand "bytes list" | UnknownCommand

text \<open>\<open>os.Args\<close> without the program's name.\<close>

fun invocationOf :: "bytes list \<Rightarrow> invocation" where
  "invocationOf [] = RunServer"
| "invocationOf (a # as) =
     (if a = ''healthcheck'' then RunHealthcheck
      else if a = ''admin-origin'' then RunAdminOrigin as
      else if a = ''state'' then RunStateCommand as
      else UnknownCommand)"

text \<open>The status of the probe's answer, if it got one.\<close>

definition healthcheck :: "int option \<Rightarrow> bool" where
  "healthcheck status = (status = Some 200)"

definition healthEndpoint :: "(bytes \<Rightarrow> bytes) \<Rightarrow> bytes" where
  "healthEndpoint getenv = (let e = getenv ''MT_HEALTHCHECK_URL'' in if e = [] then ''http://127.0.0.1:8080/health/live'' else e)"

text \<open>The level of the logger.\<close>

datatype logLevel = LevelDebug | LevelInfo | LevelWarn | LevelError

definition newLogger :: "bytes \<Rightarrow> logLevel" where
  "newLogger levelName =
     (if levelName = ''debug'' then LevelDebug
      else if levelName = ''warn'' then LevelWarn
      else if levelName = ''error'' then LevelError
      else LevelInfo)"

text \<open>
  The running server: its only module is the runtime, whose \<open>Start\<close> cannot fail. What its \<open>Close\<close>, the
  listener and the shutdown answer is \<open>runEnds\<close>.
\<close>

record runEnds =
  reClose :: "bytes option"
  reListen :: "bytes option"
  reShutdown :: "bytes option"

definition runServer :: "golib \<Rightarrow> codec \<Rightarrow> startEnv \<Rightarrow> (bytes \<Rightarrow> bytes) \<Rightarrow> bytes \<Rightarrow> runEnds \<Rightarrow> disk \<Rightarrow> nat option \<Rightarrow> int" where
  "runServer L C S getenv version ends d holder =
     (case load L getenv of
        Inl _ \<Rightarrow> 1
      | Inr cfg \<Rightarrow>
          (case fst (appNew L C S cfg version d holder) of
             Inl _ \<Rightarrow> 1
           | Inr _ \<Rightarrow>
               (case snd (appRun [\<lparr>mdName = ''weather'', mdStart = None, mdClose = reClose ends\<rparr>] (reListen ends) (reShutdown ends)) of
                  Some _ \<Rightarrow> 1 | None \<Rightarrow> 0)))"

definition exitStatus :: "golib \<Rightarrow> codec \<Rightarrow> commandEnv \<Rightarrow> startEnv \<Rightarrow> bytes \<Rightarrow> runEnds \<Rightarrow> int option \<Rightarrow> bytes list \<Rightarrow> disk \<Rightarrow> nat option \<Rightarrow> int" where
  "exitStatus L C E S version ends probe arguments d holder =
     (case invocationOf arguments of
        RunServer \<Rightarrow> runServer L C S (ceGetenv E) version ends d holder
      | RunHealthcheck \<Rightarrow> (if healthcheck probe then 0 else 1)
      | RunAdminOrigin as \<Rightarrow> (if crError (fst (runAdminOrigin L C E as d holder)) = None then 0 else 1)
      | RunStateCommand as \<Rightarrow> (if crError (fst (runState L C E as d holder)) = None then 0 else 1)
      | UnknownCommand \<Rightarrow> 2)"

lemma exit_unknown: "exitStatus L C E S version ends probe arguments d holder = 2 \<longleftrightarrow> invocationOf arguments = UnknownCommand"
  by (simp add: exitStatus_def runServer_def split: invocation.split sum.split option.split)

text \<open>An accepted log level is the level it names.\<close>

lemma newLogger_accepted:
  assumes "configOK cfg" and "newLogger (cfLogLevel cfg) = LevelInfo" shows "cfLogLevel cfg = ''info''"
  using assms by (auto simp: configOK_def newLogger_def split: if_splits)

subsection \<open>What the offline commands do\<close>

lemma withStore_cases:
  assumes "withStore L E busy body d holder = (result, d', holder')"
  obtains (unopened) "crError result \<noteq> None" "d' = d" "holder' = holder"
  | (opened) cfg out s where "load L (ceGetenv E) = Inr cfg" "holder = None" "holder' = None"
      "body cfg \<lparr>soDisk = d, soDurabilityConfirmed = True\<rparr> = (out, s)" "d' = soDisk s" "crOut result = crOut out"
      "crError result = crError out \<or> crError out = None \<and> crError result = Some ReleaseFailed"
proof -
  have f: "crError (failWith e) \<noteq> None" for e by (simp add: failWith_def)
  show thesis
  proof (cases "load L (ceGetenv E)")
    case (Inl e)
    with assms f unopened show thesis by (auto simp: withStore_def)
  next
    case cfg: (Inr cfg)
    show thesis
    proof (cases "NewStore (IsAbs (cfStateDir cfg)) (ceMkdirOk E) (ceChmodOk E) d")
      case (Inl e)
      with cfg assms f unopened show thesis by (auto simp: withStore_def)
    next
      case (Inr s0)
      then have s0: "s0 = \<lparr>soDisk = d, soDurabilityConfirmed = True\<rparr>" by (auto simp: NewStore_def split: if_splits)
      obtain x h1 where l: "AcquireLock (ceProcess E) (ceLockOpenOk E) (ceLockChmodOk E) (ceFlockOk E) holder = (x, h1)" by force
      obtain out s where b: "body cfg s0 = (out, s)" by force
      show thesis
      proof (cases x)
        case (Inl e)
        then have "h1 = holder" using l by (auto simp: AcquireLock_def split: if_splits)
        with cfg Inr l Inl assms f unopened show thesis by (auto simp: withStore_def)
      next
        case k: (Inr k)
        then have "holder = None" "h1 = Some k" using l by (auto simp: AcquireLock_def split: if_splits)
        with cfg Inr l k b assms opened [OF cfg] show thesis
          unfolding s0 by (auto simp: withStore_def CloseLock_def split: if_splits)
      qed
    qed
  qed
qed

lemma originBody_cases:
  assumes "originBody L C E command argument cfg s = (result, s')"
  obtains (refused) "crError result \<noteq> None" "s' = s"
  | (listed) v where "command = ''list''" "Load C (ceReadOk E) s = Inr v" "result = printing (asPublicOrigins (stAdmin v))" "s' = s"
      "NormalizePublicOrigins L (asPublicOrigins (stAdmin v)) = Inr (asPublicOrigins (stAdmin v))"
  | (saved) v origin edited new where "command \<noteq> ''list''" "Load C (ceReadOk E) s = Inr v"
      "NormalizePublicOrigins L (asPublicOrigins (stAdmin v)) = Inr (asPublicOrigins (stAdmin v))"
      "NormalizePublicOrigin L argument = Some origin" "editOrigins command origin (asPublicOrigins (stAdmin v)) = Inr edited"
      "ValidatePublicOrigins L (NewTransportPolicy (cfAdminAllowInsecureHTTP cfg) (cfAdminBehindHTTPSProxy cfg)) edited = Inr new"
      "saveOrigins C E v new s = (result, s')"
proof -
  have f: "crError (failWith e) \<noteq> None" for e by (simp add: failWith_def)
  show thesis
  proof (cases "Load C (ceReadOk E) s")
    case (Inl e)
    with assms f refused show thesis by (auto simp: originBody_def)
  next
    case v: (Inr v)
    let ?os = "asPublicOrigins (stAdmin v)"
    show thesis
    proof (cases "NormalizePublicOrigins L ?os = Inr ?os")
      case False
      then have "result = failWith OriginsNotCanonical" "s' = s"
        using assms v by (auto simp: originBody_def split: sum.splits if_splits)
      with f refused show thesis by simp
    next
      case n: True
      show thesis
      proof (cases "command = ''list''")
        case True
        show thesis by (rule listed [OF True v]) (use assms v n True in \<open>simp_all add: originBody_def\<close>)
      next
        case False
        show thesis
        proof (cases "\<exists>origin edited new. NormalizePublicOrigin L argument = Some origin \<and> editOrigins command origin ?os = Inr edited \<and>
            ValidatePublicOrigins L (NewTransportPolicy (cfAdminAllowInsecureHTTP cfg) (cfAdminBehindHTTPSProxy cfg)) edited = Inr new")
          case True
          then obtain origin edited new where o: "NormalizePublicOrigin L argument = Some origin" "editOrigins command origin ?os = Inr edited"
            "ValidatePublicOrigins L (NewTransportPolicy (cfAdminAllowInsecureHTTP cfg) (cfAdminBehindHTTPSProxy cfg)) edited = Inr new" by blast
          show thesis by (rule saved [OF False v n o]) (use assms v n False o in \<open>simp add: originBody_def\<close>)
        next
          case none: False
          then have "(\<exists>e. result = failWith e) \<and> s' = s"
            using assms v n False by (auto simp: originBody_def split: option.splits sum.splits)
          with f refused show thesis by blast
        qed
      qed
    qed
  qed
qed

lemma editOrigins_Inr:
  assumes "editOrigins command origin os = Inr new" and "command = ''add'' \<or> command = ''remove''"
  shows "command = ''add'' \<and> origin \<notin> set os \<and> new = os @ [origin] \<or> command = ''remove'' \<and> origin \<in> set os \<and> new = remove1 origin os"
  using assms by (auto simp: editOrigins_def split: if_splits)

definition editedState :: "commandEnv \<Rightarrow> State \<Rightarrow> bytes list \<Rightarrow> State" where
  "editedState E v origins = v\<lparr>stAdmin := (stAdmin v)\<lparr>asPublicOrigins := origins\<rparr>, stUpdatedAt := ceNow E\<rparr>"

lemma saveOrigins_spec:
  assumes "saveOrigins C E v origins s = (result, s')"
  obtains r ds where "Save C (ceFaults E) (ceStatOk E) (ceSaveNow E) (editedState E v origins) s = (r, ds, s')"
    "crError result = (case r of Inl e \<Rightarrow> Some (StoreRefused e) | Inr _ \<Rightarrow> None)"
proof -
  obtain r ds t where w: "Save C (ceFaults E) (ceStatOk E) (ceSaveNow E) (editedState E v origins) s = (r, ds, t)"
    by (metis prod_cases3)
  then have "t = s'" "crError result = (case r of Inl e \<Rightarrow> Some (StoreRefused e) | Inr _ \<Rightarrow> None)"
    using assms by (cases r; auto simp: saveOrigins_def editedState_def failWith_def printing_def Let_def)+
  with w that show thesis by blast
qed

lemma Save_written:
  assumes "Save C f statOk now v s = (r, ds, s')"
  shows "writeStateLocked C f now v s = (r, ds, s') \<or> (\<exists>e. refuse e s = (r, ds, s'))"
  using Save_cases [of C f statOk now v s] assms by auto

text \<open>The stored origins, and one more or one fewer, when the argument names a plain host.\<close>

lemma edited_fixed:
  assumes "urlLaw L" and "plainOrigins L [argument]" and "NormalizePublicOrigin L argument = Some origin"
    and "NormalizePublicOrigins L os = Inr os" and "editOrigins command origin os = Inr edited"
    and "ValidatePublicOrigins L p edited = Inr new"
  shows "new = edited \<and> ValidatePublicOrigins L p new = Inr new"
proof -
  have "fixedOrigins L os"
  proof -
    have "map (NormalizePublicOrigin L) os = map Some os" using assms(4) by (simp add: NormalizePublicOrigins_Inr)
    then show ?thesis by (simp add: fixedOrigins_def)
  qed
  moreover have "NormalizePublicOrigin L origin = Some origin"
    by (rule Normalize_fixed [OF assms(1,2) _ assms(3)]) simp
  ultimately have f: "fixedOrigins L edited"
    using assms(5) set_remove1_subset [of origin os] by (auto simp: editOrigins_def fixedOrigins_def split: if_splits)
  from Validate_fixed [OF f assms(6)] assms(6) show ?thesis by simp
qed

lemma runAdminOrigin_cases:
  assumes "runAdminOrigin L C E arguments d holder = (result, d', holder')"
  obtains (usage) "result = failWith Usage" "d' = d" "holder' = holder"
  | (listing) "arguments = [''list'']" "withStore L E ''stop mt-server before running offline origin maintenance''
      (originBody L C E ''list'' []) d holder = (result, d', holder')"
  | (editing) command argument where "arguments = [command, argument]" "command = ''add'' \<or> command = ''remove''"
      "withStore L E ''stop mt-server before running offline origin maintenance'' (originBody L C E command argument) d holder =
        (result, d', holder')"
proof -
  consider "arguments = []" | c where "arguments = [c]" | c a where "arguments = [c, a]" | c a b cs where "arguments = c # a # b # cs"
    by (metis neq_Nil_conv)
  then show thesis
  proof cases
    case 1
    with assms usage show thesis by (simp add: runAdminOrigin_def)
  next
    case (2 c)
    show thesis
    proof (cases "c = ''list''")
      case True
      with assms 2 listing show thesis by (simp add: runAdminOrigin_def)
    next
      case False
      then have "result = failWith Usage \<and> d' = d \<and> holder' = holder"
        using assms 2 by (cases "c = ''add''"; cases "c = ''remove''") (simp_all add: runAdminOrigin_def)
      with usage show thesis by blast
    qed
  next
    case (3 c a)
    show thesis
    proof (cases "c = ''add'' \<or> c = ''remove''")
      case True
      then have "withStore L E ''stop mt-server before running offline origin maintenance'' (originBody L C E c a) d holder = (result, d', holder')"
        using assms 3 by (elim disjE) (simp_all add: runAdminOrigin_def)
      with editing 3 True show thesis by blast
    next
      case False
      then have "result = failWith Usage \<and> d' = d \<and> holder' = holder"
        using assms 3 by (cases "c = ''list''") (simp_all add: runAdminOrigin_def)
      with usage show thesis by blast
    qed
  next
    case 4
    with assms usage show thesis by (simp add: runAdminOrigin_def)
  qed
qed

text \<open>A list that is changed.\<close>

lemma origin_saved:
  assumes body: "originBody L C E command argument cfg s = (out, s')" and edit: "command = ''add'' \<or> command = ''remove''"
    and "diskInv (soDisk s)" "tempOK (ceFaults E) stateFile (soDisk s)" "\<And>v. codecLaw C v" "urlLaw L" "plainOrigins L [argument]"
  shows "diskInv (soDisk s') \<and> (crError out \<noteq> None \<longrightarrow> (\<forall>ok. Load C ok s' = Load C ok s)) \<and>
    (crError out = None \<longrightarrow> (\<exists>v origin new. Load C True s = Inr v \<and> NormalizePublicOrigin L argument = Some origin \<and>
       (command = ''add'' \<and> origin \<notin> set (asPublicOrigins (stAdmin v)) \<and> new = asPublicOrigins (stAdmin v) @ [origin] \<or>
        command = ''remove'' \<and> origin \<in> set (asPublicOrigins (stAdmin v)) \<and> new = remove1 origin (asPublicOrigins (stAdmin v))) \<and>
       ValidatePublicOrigins L (NewTransportPolicy (cfAdminAllowInsecureHTTP cfg) (cfAdminBehindHTTPSProxy cfg)) new = Inr new \<and>
       Load C True s' = Inr (stamped (ceSaveNow E) (editedState E v new))))"
  using body
proof (cases rule: originBody_cases)
  case refused
  then show ?thesis using assms(3) by (cases "crError out") simp_all
next
  case (listed v)
  then show ?thesis using edit by auto
next
  case (saved v origin edited new)
  note new = edited_fixed [OF assms(6,7) saved(4,3,5,6)]
  from saved(7) obtain r ds where w: "Save C (ceFaults E) (ceStatOk E) (ceSaveNow E) (editedState E v new) s = (r, ds, s')"
    "crError out = (case r of Inl e \<Rightarrow> Some (StoreRefused e) | Inr _ \<Rightarrow> None)" by (rule saveOrigins_spec)
  have saves: "diskInv (soDisk s') \<and> (case r of Inl _ \<Rightarrow> \<forall>ok. Load C ok s' = Load C ok s
      | Inr _ \<Rightarrow> Load C True s' = Inr (stamped (ceSaveNow E) (editedState E v new)))"
    by (rule written [OF _ _ _ Save_written [OF w(1)]]) (use assms(3-5) in simp_all)
  have old: "Load C True s = Inr v" by (rule Load_ok [OF saved(2)])
  show ?thesis
  proof (cases r)
    case (Inl e)
    with saves w(2) show ?thesis by simp
  next
    case (Inr confirmed)
    with saves w(2) have "diskInv (soDisk s')" "crError out = None"
      "Load C True s' = Inr (stamped (ceSaveNow E) (editedState E v new))" by simp_all
    with old editOrigins_Inr [OF saved(5) edit] saved(4) new show ?thesis by blast
  qed
qed


end
