(* ===== verification/Lifecycle.thy ===== *)
theory Lifecycle
  imports Maintenance
begin

section \<open>Stops, crashes and restarts\<close>

text \<open>
  A server over its whole life: starts, management requests, offline origin and restore commands,
  stops, and crashes that lose what was not yet synced. The invariant says that what the state file
  reads, now or after a crash, is something the server can start from, and so is what a restore would put
  there; one lemma per handler shows that a request keeps it, \<open>startLocked_boots\<close>, \<open>originCommand_boots\<close> and
  \<open>restore_boots\<close> that a start and the commands do. Whoever is stopped in the middle of a write leaves what a failing
  write leaves (\<open>Disk.atomicWrite_interrupted\<close>), so a crash at any moment is a step with a failing system
  call and a crash after it.
\<close>

subsection \<open>What a request does to the state file\<close>

definition crashStep :: "codec \<Rightarrow> admin \<Rightarrow> admin \<Rightarrow> bool" where
  "crashStep C a a' \<longleftrightarrow> tpBehindHTTPSProxy (adTransport a') = tpBehindHTTPSProxy (adTransport a) \<and>
     undisturbed (soDisk (adStore a)) migrationBackupName (soDisk (adStore a')) \<and>
     (\<forall>t. crashReads (soDisk (adStore a')) stateFile (readFile (soDisk t) stateFile) \<longrightarrow>
        crashReads (soDisk (adStore a)) stateFile (readFile (soDisk t) stateFile) \<or>
        Load C True t = Load C True (adStore a'))"

definition diskReady :: "codec \<Rightarrow> adminEnv \<Rightarrow> admin \<Rightarrow> bool" where
  "diskReady C E a \<longleftrightarrow> diskInv (soDisk (adStore a)) \<and> tempOK (enFaults E) stateFile (soDisk (adStore a)) \<and>
     wfTemp (enFaults E) \<noteq> Some migrationBackupName \<and> (\<forall>v. codecLaw C v)"

named_theorems crash_intros

lemma names_differ [simp]: "stateFile \<noteq> migrationBackupName" "migrationBackupName \<noteq> stateFile"
  by (simp_all add: stateFile_def migrationBackupName_def)

lemma crash_same [crash_intros]:
  "adStore a' = adStore a \<Longrightarrow> tpBehindHTTPSProxy (adTransport a') = tpBehindHTTPSProxy (adTransport a) \<Longrightarrow> crashStep C a a'"
  by (simp add: crashStep_def)

lemma crashStep_cong:
  assumes "crashStep C b c" "adStore b = adStore a" "tpBehindHTTPSProxy (adTransport b) = tpBehindHTTPSProxy (adTransport a)"
    and "adStore d = adStore c" "tpBehindHTTPSProxy (adTransport d) = tpBehindHTTPSProxy (adTransport c)"
  shows "crashStep C a d"
  using assms by (simp add: crashStep_def)

text \<open>One write, whatever its result: a crash after it leaves what one before could leave, or what is read now.\<close>

lemma written_crash:
  assumes "diskInv (soDisk s)" "tempOK f stateFile (soDisk s)" "\<forall>v. codecLaw C v"
    and "writeStateLocked C f now v s = (result, ds, s') \<or> (\<exists>e. refuse e s = (result, ds, s'))"
    and "crashReads (soDisk s') stateFile (readFile (soDisk t) stateFile)"
  shows "crashReads (soDisk s) stateFile (readFile (soDisk t) stateFile) \<or> Load C True t = Load C True s'"
  using assms(4)
proof
  assume w: "writeStateLocked C f now v s = (result, ds, s')"
  have r: "codecLaw C (stamped now v)" using assms(3) by blast
  note spec = writeState_spec [OF assms(1,2) r w]
  show ?thesis
  proof (cases result)
    case (Inl e)
    then show ?thesis using spec(8) assms(5) by (simp add: undisturbed_def)
  next
    case (Inr b)
    then show ?thesis using spec(3) spec(5) [OF spec(7) assms(5)] by auto
  qed
qed (use assms(5) in \<open>auto simp: refuse_eq\<close>)

lemma written_backup:
  assumes "diskInv (soDisk s)" "tempOK f stateFile (soDisk s)" "wfTemp f \<noteq> Some migrationBackupName" "\<forall>v. codecLaw C v"
    and "writeStateLocked C f now v s = (result, ds, s') \<or> (\<exists>e. refuse e s = (result, ds, s'))"
  shows "undisturbed (soDisk s) migrationBackupName (soDisk s')"
  using assms(5)
proof
  assume w: "writeStateLocked C f now v s = (result, ds, s')"
  have "codecLaw C (stamped now v)" using assms(4) by blast
  note spec = writeState_spec [OF assms(1,2) this w]
  show ?thesis by (rule spec(6) [OF spec(7)]) (use assms(3) in simp_all)
qed (auto simp: refuse_eq)

lemma crash_written:
  assumes "diskReady C E a" and "writeStateLocked C (enFaults E) now v (adStore a) = (result, ds, s) \<or> (\<exists>e. refuse e (adStore a) = (result, ds, s))"
  shows "crashStep C a (a\<lparr>adStore := s\<rparr>)"
  using written_crash [OF _ _ _ assms(2)] written_backup [OF _ _ _ _ assms(2)] assms(1) by (simp add: diskReady_def crashStep_def)

lemma saveState_fields:
  assumes "saveState C E v a = (result, b)"
  shows "adTransport b = adTransport a" "adRuntime b = adRuntime a" "adSessions b = adSessions a"
  using assms by (auto simp: saveState_def split: prod.splits)

lemma commitState_fields:
  assumes "commitState C E v a = (result, b)"
  shows "adTransport b = adTransport a" "adRuntime b = adRuntime a" "adSessions b = adSessions a"
  using assms by (auto simp: commitState_def split: prod.splits)

lemma crash_saved:
  assumes "diskReady C E a" and "saveState C E v b = (result, b')" and "adStore b = adStore a"
    and "tpBehindHTTPSProxy (adTransport b) = tpBehindHTTPSProxy (adTransport a)"
    and "adStore c = adStore b'" and "tpBehindHTTPSProxy (adTransport c) = tpBehindHTTPSProxy (adTransport a)"
  shows "crashStep C a c"
proof -
  obtain ds s where w: "Save C (enFaults E) (enStatOk E) (enNow E AtSave) v (adStore a) = (result, ds, s)" and s: "adStore b' = s"
    using assms(2,3) by (auto simp: saveState_def split: prod.splits)
  have "writeStateLocked C (enFaults E) (enNow E AtSave) v (adStore a) = (result, ds, s) \<or> (\<exists>e. refuse e (adStore a) = (result, ds, s))"
    using Save_cases [of C "enFaults E" "enStatOk E" "enNow E AtSave" v "adStore a"] w by auto
  from crash_written [OF assms(1) this] show ?thesis
    by (rule crashStep_cong) (use assms(4-6) s in simp_all)
qed

lemma crash_committed:
  assumes "diskReady C E a" and "commitState C E v b = (result, b')" and "adStore b = adStore a"
    and "tpBehindHTTPSProxy (adTransport b) = tpBehindHTTPSProxy (adTransport a)"
    and "adStore c = adStore b'" and "tpBehindHTTPSProxy (adTransport c) = tpBehindHTTPSProxy (adTransport a)"
  shows "crashStep C a c"
proof -
  obtain ds s where w: "CommitInitial C (enFaults E) (enStatOk E) (enNow E AtSave) v (adStore a) = (result, ds, s)" and s: "adStore b' = s"
    using assms(2,3) by (auto simp: commitState_def split: prod.splits)
  have "writeStateLocked C (enFaults E) (enNow E AtSave) v (adStore a) = (result, ds, s) \<or> (\<exists>e. refuse e (adStore a) = (result, ds, s))"
    using CommitInitial_cases [of C "enFaults E" "enStatOk E" "enNow E AtSave" v "adStore a"] w by auto
  from crash_written [OF assms(1) this] show ?thesis
    by (rule crashStep_cong) (use assms(4-6) s in simp_all)
qed

lemma replace_proxy [simp]: "tpBehindHTTPSProxy (ReplacePublicOrigins os p) = tpBehindHTTPSProxy p"
  by (simp add: ReplacePublicOrigins_def)

lemma change_fields [simp]:
  "adStore (activateChange p a) = adStore a" "adTransport (activateChange p a) = adTransport a"
  "adStore (discardChange p a) = adStore a" "adTransport (discardChange p a) = adTransport a"
  by (simp_all add: activateChange_def discardChange_def)

lemma saveAndActivate_crash:
  assumes "diskReady C E a" and "adStore b = adStore a" "tpBehindHTTPSProxy (adTransport b) = tpBehindHTTPSProxy (adTransport a)"
  shows "crashStep C a (snd (saveAndActivate C E r v p reply b))"
proof -
  obtain result b' where s: "saveState C E v b = (result, b')" by force
  note f = saveState_fields(1) [OF s]
  show ?thesis
    by (cases result; rule crash_saved [OF assms(1) s assms(2,3)])
      (simp_all add: saveAndActivate_def s f assms(3))
qed

lemma replaceTokens_crash:
  assumes "diskReady C E a" shows "crashStep C a (snd (replaceTokens C E r v ts m1 m2 reply a))"
proof (cases "PrepareTokens ts (adRuntime a)")
  case (Inr p)
  obtain result b' where s: "saveState C E (updatedState E (withTokens ts v)) a = (result, b')" by force
  note f = saveState_fields(1) [OF s]
  show ?thesis
    by (cases result; rule crash_saved [OF assms s]) (simp_all add: replaceTokens_def s Inr f)
qed (simp add: replaceTokens_def crash_intros)

lemma saved_crash:
  assumes "diskReady C E a" and "saveState C E v a = (result, b)"
  shows "crashStep C a b" "crashStep C a (b\<lparr>adTransport := ReplacePublicOrigins os (adTransport b)\<rparr>)"
    "crashStep C a (b\<lparr>adTransport := ReplacePublicOrigins os (adTransport b), adSessions := ss\<rparr>)"
    "crashStep C a (b\<lparr>adSessions := ss\<rparr>)"
  using saveState_fields [OF assms(2)] by (auto intro!: crash_saved [OF assms])

lemma addAdminOrigin_crash: "diskReady C E a \<Longrightarrow> crashStep C a (snd (addAdminOriginHandler L C J E r a))"
  by (auto simp: addAdminOriginHandler_def Let_def crash_same intro: saved_crash split: sum.split option.split prod.split)

lemma deleteAdminOrigin_crash: "diskReady C E a \<Longrightarrow> crashStep C a (snd (deleteAdminOriginHandler L C E r a))"
  by (auto simp: deleteAdminOriginHandler_def Let_def crash_same intro: saved_crash split: sum.split prod.split)

lemma changePassword_crash: "diskReady C E a \<Longrightarrow> crashStep C a (snd (changePasswordHandler L C J E r a))"
  by (auto simp: changePasswordHandler_def Let_def crash_same intro: saved_crash split: sum.split option.split prod.split)

lemma createToken_crash:
  "diskReady C E a \<Longrightarrow> crashStep C a (snd (createTokenHandler L C J E r a))"
  by (auto simp: createTokenHandler_def crash_intros replaceTokens_crash split: sum.split)

lemma deleteToken_crash:
  "diskReady C E a \<Longrightarrow> crashStep C a (snd (deleteTokenHandler C E r a))"
  by (auto simp: deleteTokenHandler_def crash_intros replaceTokens_crash split: sum.split)

lemma putQWeather_crash:
  assumes "diskReady C E a" shows "crashStep C a (snd (putQWeatherHandler L C J E r a))"
proof (cases "decodeJSON (rcQWeather J) r")
  case (Inr req)
  show ?thesis
  proof (cases "loadState C E r a")
    case load: (Inr v)
    obtain x b where t: "testCandidate L E (qweatherCandidate L E req v) (qiTestLocation req) a = (x, b)" by force
    note f = testCandidate_store [OF t]
    show ?thesis
    proof (cases x)
      case Inl
      then show ?thesis by (simp add: putQWeatherHandler_def Inr load t f crash_intros)
    next
      case tested: (Inr y)
      obtain z m where p: "Prepare L (enNow E AtService) (qweatherCandidate L E req v) (adRuntime a) = (z, m)" by force
      show ?thesis
        by (cases z) (simp_all add: putQWeatherHandler_def Inr load t tested p f Let_def crash_intros
          saveAndActivate_crash [OF assms])
    qed
  qed (simp add: putQWeatherHandler_def Inr crash_intros)
qed (simp add: putQWeatherHandler_def crash_intros)

lemma setupCommit_crash:
  assumes "diskReady C E a" and "adStore b = adStore a" "tpBehindHTTPSProxy (adTransport b) = tpBehindHTTPSProxy (adTransport a)"
  shows "crashStep C a (snd (setupCommit L C E r v os raw device tested b))"
proof -
  obtain z m where p: "Prepare L (enNow E AtService) v (adRuntime b) = (z, m)" by force
  show ?thesis
  proof (cases z)
    case (Inl e)
    then show ?thesis using assms(2,3) by (simp add: setupCommit_def p crash_intros)
  next
    case prep: (Inr q)
    obtain k s where c: "Create L (enNow E AtCreate) (enSessionRandom E) (enCSRFRandom E) (adSessions b) = (k, s)" by force
    show ?thesis
    proof (cases k)
      case None
      then show ?thesis using assms(2,3) by (simp add: setupCommit_def p prep c Let_def crash_intros)
    next
      case (Some tc)
      obtain tk csrf where tc: "tc = (tk, csrf)" by force
      obtain result b' where w: "commitState C E v (b\<lparr>adRuntime := m, adSessions := s\<rparr>) = (result, b')" by force
      note f = commitState_fields [OF w]
      show ?thesis
        by (cases result; rule crash_committed [OF assms(1) w])
          (simp_all add: assms(2,3) setupCommit_def p prep c Some tc w f Let_def)
    qed
  qed
qed

lemma setup_crash:
  assumes "diskReady C E a" and "setupHandler L C J E r a = (w, a')" shows "crashStep C a a'"
  using assms(2)
proof (cases rule: setupHandler_cases)
  case refused
  then show ?thesis by (simp add: crash_intros)
next
  case untested
  from testCandidate_store [OF untested] show ?thesis by (simp add: crash_intros)
next
  case (commit l req os ph raw device b tested)
  have "crashStep C a (snd (setupCommit L C E r (setupValue L E req os ph device) os raw device tested b))"
    using testCandidate_store [OF commit(3)] by (intro setupCommit_crash [OF assms(1)]) simp_all
  then show ?thesis by (simp add: commit(4))
qed

lemma core_crash: "sameCore a a' \<Longrightarrow> crashStep C a a'"
  by (simp add: sameCore_def crash_intros)

lemma guarded_crash:
  assumes "requireSession L E r isWrite handler a = (w, a')" and "\<And>s. crashStep C (a\<lparr>adSessions := s\<rparr>) (snd (handler (a\<lparr>adSessions := s\<rparr>)))"
  shows "crashStep C a a'"
  using assms(1)
proof (cases rule: requireSession_cases)
  case (refused s)
  then show ?thesis by (simp add: crash_intros)
next
  case (passed s)
  then have "crashStep C (a\<lparr>adSessions := s\<rparr>) a'" using assms(2) [of s] by simp
  then show ?thesis by (rule crashStep_cong) simp_all
qed

lemma diskReady_sessions [simp]: "diskReady C E (a\<lparr>adSessions := s\<rparr>) = diskReady C E a"
  by (simp add: diskReady_def)

lemma serve_crash:
  assumes d: "diskReady C E a" and h: "adminServe L C J E r route a = (w, a')"
  shows "crashStep C a a'"
proof (cases route)
  case StatusRoute
  then show ?thesis using h status_core [of a C E r] by (intro core_crash) simp
next
  case SetupRoute
  then show ?thesis using h setup_crash [OF d] by simp
next
  case LoginRoute
  then show ?thesis using h login_core [of a L C J E r] by (intro core_crash) simp
next
  case SessionRoute
  then show ?thesis using h by (intro guarded_crash [OF _ core_crash [OF session_core]]) simp
next
  case LogoutRoute
  then show ?thesis using h by (intro guarded_crash [OF _ core_crash [OF logout_core]]) simp
next
  case TestQWeatherRoute
  then show ?thesis using h by (intro guarded_crash [OF _ core_crash [OF testQWeather_core]]) simp
next
  case PutQWeatherRoute
  then show ?thesis using h d by (intro guarded_crash [OF _ putQWeather_crash]) simp_all
next
  case AddOriginRoute
  then show ?thesis using h d by (intro guarded_crash [OF _ addAdminOrigin_crash]) simp_all
next
  case DeleteOriginRoute
  then show ?thesis using h d by (intro guarded_crash [OF _ deleteAdminOrigin_crash]) simp_all
next
  case CreateTokenRoute
  then show ?thesis using h d by (intro guarded_crash [OF _ createToken_crash]) simp_all
next
  case DeleteTokenRoute
  then show ?thesis using h d by (intro guarded_crash [OF _ deleteToken_crash]) simp_all
next
  case ChangePasswordRoute
  then show ?thesis using h d by (intro guarded_crash [OF _ changePassword_crash]) simp_all
next
  case GetQWeatherRoute
  then show ?thesis using h by (rule_tac guarded_crash [where handler = "getQWeatherHandler L C E r"]) (simp_all add: getters_core crash_intros)
next
  case ListOriginsRoute
  then show ?thesis using h by (rule_tac guarded_crash [where handler = "listAdminOriginsHandler L C E r"]) (simp_all add: getters_core crash_intros)
next
  case ListTokensRoute
  then show ?thesis using h by (rule_tac guarded_crash [where handler = "listTokensHandler C E r"]) (simp_all add: getters_core crash_intros)
next
  case DiagnosticsRoute
  then show ?thesis using h by (rule_tac guarded_crash [where handler = "diagnosticsHandler E r"]) (simp_all add: getters_core crash_intros)
qed

subsection \<open>What the server can start from\<close>

definition bootable :: "golib \<Rightarrow> codec \<Rightarrow> bool \<Rightarrow> Store \<Rightarrow> bool" where
  "bootable L C proxy s \<longleftrightarrow>
     (case LoadCompatible C True s of
        Inl e \<Rightarrow> e = ErrNotInitialized
      | Inr loaded \<Rightarrow> restartable L (csState loaded) \<and>
          ValidatePublicOrigins L (NewTransportPolicy False proxy) (asPublicOrigins (stAdmin (csState loaded))) =
            Inr (asPublicOrigins (stAdmin (csState loaded))))"

text \<open>What a restore could bring back.\<close>

definition startable :: "golib \<Rightarrow> bool \<Rightarrow> State \<Rightarrow> bool" where
  "startable L proxy v \<longleftrightarrow> restartable L v \<and>
     ValidatePublicOrigins L (NewTransportPolicy False proxy) (asPublicOrigins (stAdmin v)) = Inr (asPublicOrigins (stAdmin v))"

definition backupBoots :: "golib \<Rightarrow> codec \<Rightarrow> bool \<Rightarrow> disk \<Rightarrow> bool" where
  "backupBoots L C proxy d \<longleftrightarrow> (\<forall>c v. (readFile d migrationBackupName = Some c \<or> crashReads d migrationBackupName (Some c)) \<and>
     decodeStateV3 C c = Inr v \<longrightarrow> startable L proxy (migrateV3 v))"

lemma backupBoots_undisturbed: "undisturbed d migrationBackupName d' \<Longrightarrow> backupBoots L C proxy d \<Longrightarrow> backupBoots L C proxy d'"
  unfolding backupBoots_def undisturbed_def by metis

text \<open>Now, and after a crash.\<close>

definition diskBoots :: "golib \<Rightarrow> codec \<Rightarrow> bool \<Rightarrow> Store \<Rightarrow> bool" where
  "diskBoots L C proxy s \<longleftrightarrow> diskInv (soDisk s) \<and> bootable L C proxy s \<and> backupBoots L C proxy (soDisk s) \<and>
     (\<forall>t. crashReads (soDisk s) stateFile (readFile (soDisk t) stateFile) \<longrightarrow> bootable L C proxy t)"

lemma Load_compatible:
  assumes "Load C ok s = Inr v"
  shows "\<exists>src. LoadCompatible C ok s = Inr \<lparr>csState = v, csSourceVersion = SchemaVersion, csSource = src\<rparr>"
  using assms by (auto simp: Load_def LoadCompatible_def split: sum.splits if_splits)

lemma decodeStrict_error [simp]: "decodeStrict x \<noteq> Inl ErrNotInitialized"
  by (auto simp: decodeStrict_def split: option.split prod.split jsonRest.split)

lemma Load_uninitialized_compatible:
  assumes "Load C ok s = Inl ErrNotInitialized" shows "LoadCompatible C ok s = Inl ErrNotInitialized"
proof -
  have "readStateLocked ok s = Inl ErrNotInitialized"
    using assms decodeStrict_error
    by (auto simp: Load_def schemaVersion_def decodeState_def split: sum.splits option.splits if_splits)
  then show ?thesis by (simp add: LoadCompatible_def)
qed

lemma LoadCompatible_v4:
  assumes "LoadCompatible C ok s = Inr loaded" and "csSourceVersion loaded = SchemaVersion"
  shows "Load C ok s = Inr (csState loaded)"
  using assms by (auto simp: Load_def LoadCompatible_def SchemaVersion_def previousSchema_def split: sum.splits if_splits)

lemma LoadCompatible_version:
  "LoadCompatible C ok s = Inr loaded \<Longrightarrow> csSourceVersion loaded = SchemaVersion \<or> csSourceVersion loaded = previousSchema"
  by (auto simp: LoadCompatible_def split: sum.splits if_splits)

lemma LoadCompatible_ok: "LoadCompatible C ok s = Inr v \<Longrightarrow> LoadCompatible C True s = Inr v"
proof -
  assume l: "LoadCompatible C ok s = Inr v"
  then have "readStateLocked ok s = readStateLocked True s"
    by (cases "readStateLocked ok s")
      (auto simp: LoadCompatible_def readStateLocked_def readBounded_def split: option.splits if_splits)
  with l show "LoadCompatible C True s = Inr v" by (simp add: LoadCompatible_def)
qed

lemma Validate_policy:
  "tpBehindHTTPSProxy p = tpBehindHTTPSProxy q \<Longrightarrow> ValidatePublicOrigins L p os = ValidatePublicOrigins L q os"
  by (simp add: ValidatePublicOrigins_def split: sum.split)

lemma proxy_policy [simp]: "tpBehindHTTPSProxy (NewTransportPolicy insecure proxy) = proxy"
  by (simp add: NewTransportPolicy_def ReplacePublicOrigins_def)

lemma bootable_Load:
  assumes "Load C True t = Load C True (adStore a)" and "adminInv L C a"
  shows "bootable L C (tpBehindHTTPSProxy (adTransport a)) t"
proof (cases "Load C True t")
  case (Inl e)
  then have "e = ErrNotInitialized" using assms by (simp add: adminInv_def)
  with Inl Load_uninitialized_compatible show ?thesis by (simp add: bootable_def)
next
  case (Inr v)
  then have "liveMatches L a v" using assms by (simp add: adminInv_def)
  moreover obtain src where "LoadCompatible C True t = Inr \<lparr>csState = v, csSourceVersion = SchemaVersion, csSource = src\<rparr>"
    using Load_compatible [OF Inr] by blast
  ultimately show ?thesis
    using Validate_policy [of "NewTransportPolicy False (tpBehindHTTPSProxy (adTransport a))" "adTransport a" L]
    by (simp add: bootable_def liveMatches_def)
qed

lemma bootable_unread: "LoadCompatible C True t = LoadCompatible C True s \<Longrightarrow> bootable L C proxy t = bootable L C proxy s"
  by (simp add: bootable_def)

lemma serve_boots:
  assumes "adminInv L C a" and "diskBoots L C (tpBehindHTTPSProxy (adTransport a)) (adStore a)"
    and "envOK E a" and "libraryLaws L C" and "bodyOK L J r" and "adminServe L C J E r route a = (w, a')"
    and "wfTemp (enFaults E) \<noteq> Some migrationBackupName"
  shows "adminInv L C a' \<and> tpBehindHTTPSProxy (adTransport a') = tpBehindHTTPSProxy (adTransport a) \<and>
    diskBoots L C (tpBehindHTTPSProxy (adTransport a)) (adStore a')"
proof -
  have inv: "adminInv L C a'" by (rule outcome_inv [OF serve_outcome [OF assms(1,3-6)]])
  have "diskReady C E a" using assms(1,3,4,7) by (simp add: diskReady_def adminInv_def envOK_def libraryLaws_def)
  note step = serve_crash [OF this assms(6)]
  then have p: "tpBehindHTTPSProxy (adTransport a') = tpBehindHTTPSProxy (adTransport a)" by (simp add: crashStep_def)
  have "bootable L C (tpBehindHTTPSProxy (adTransport a)) t"
    if "crashReads (soDisk (adStore a')) stateFile (readFile (soDisk t) stateFile)" for t
    using step that assms(2) bootable_Load [OF _ inv, of t] p by (auto simp: crashStep_def diskBoots_def)
  moreover have "backupBoots L C (tpBehindHTTPSProxy (adTransport a)) (soDisk (adStore a'))"
    using step assms(2) backupBoots_undisturbed by (auto simp: crashStep_def diskBoots_def)
  ultimately show ?thesis
    using inv p bootable_Load [OF refl inv] by (simp add: diskBoots_def adminInv_def)
qed

subsection \<open>Starting\<close>

text \<open>What a start needs of its surroundings to succeed, apart from the writes of a migration.\<close>

definition startEnvOK :: "startEnv \<Rightarrow> bool" where
  "startEnvOK E \<longleftrightarrow> seMkdirOk E \<and> seChmodOk E \<and> seLockOpenOk E \<and> seLockChmodOk E \<and> seFlockOk E \<and> seReadOk E \<and> seRandom E \<noteq> None"

text \<open>\<open>CreateTemp\<close> makes new files.\<close>

definition startTempOK :: "codec \<Rightarrow> startEnv \<Rightarrow> Store \<Rightarrow> bool" where
  "startTempOK C E s \<longleftrightarrow> (\<forall>loaded. LoadCompatible C True s = Inr loaded \<longrightarrow>
     migrateTempOK (seBackupFaults E) (seStateFaults E) (csSource loaded) s)"

lemma migrateLoaded_spec:
  assumes "diskInv (soDisk s)" and "LoadCompatible C True s = Inr loaded" and "startTempOK C E s" and "\<forall>v. codecLaw C v"
    and "migrateLoaded C E loaded s = (failed, s')"
  shows "diskInv (soDisk s') \<and>
    (failed = None \<longrightarrow> (\<exists>now. Load C True s' = Inr (stamped now (csState loaded)) \<or> Load C True s' = Inr (csState loaded))) \<and>
    (failed \<noteq> None \<longrightarrow> csSourceVersion loaded = previousSchema \<and> LoadCompatible C True s' = Inr loaded) \<and>
    (\<forall>t. crashReads (soDisk s') stateFile (readFile (soDisk t) stateFile) \<longrightarrow>
       crashReads (soDisk s) stateFile (readFile (soDisk t) stateFile) \<or> (\<exists>now. Load C True t = Inr (stamped now (csState loaded))))"
proof (cases "csSourceVersion loaded = SchemaVersion")
  case True
  then show ?thesis using assms(1,5) LoadCompatible_v4 [OF assms(2)] by (auto simp: migrateLoaded_def)
next
  case False
  then have v: "csSourceVersion loaded = previousSchema" using LoadCompatible_version [OF assms(2)] by blast
  obtain result ds where w: "CommitMigration C (seBackupFaults E) (seStateFaults E) (seRereadOk E) (seSaveNow E) loaded s = (result, ds, s')"
    and r: "failed = (case result of Inl e \<Rightarrow> Some e | Inr _ \<Rightarrow> None)"
    using False assms(5) by (auto simp: migrateLoaded_def commitStateMigration_def split: prod.splits sum.splits)
  have tmp: "migrateTempOK (seBackupFaults E) (seStateFaults E) (csSource loaded) s"
    using assms(2,3) by (simp add: startTempOK_def)
  have "codecLaw C (stamped (seSaveNow E) (csState loaded))" using assms(4) by blast
  note migrated = CommitMigration_spec [OF assms(1,2) v tmp this w]
  then show ?thesis
    using r v assms(2) LoadCompatible_cong [of s' s C True] by (cases result) auto
qed

text \<open>What a migration does to the backup: it can come to hold the text that was loaded.\<close>

definition canRead :: "disk \<Rightarrow> bytes \<Rightarrow> bytes \<Rightarrow> bool" where
  "canRead d p c \<longleftrightarrow> readFile d p = Some c \<or> crashReads d p (Some c)"

lemma canRead_undisturbed: "undisturbed d p d' \<Longrightarrow> canRead d' p c \<Longrightarrow> canRead d p c"
  by (auto simp: canRead_def undisturbed_def)

lemma canRead_written:
  assumes "diskInv (soDisk s)" and "tempOK f path (soDisk s)" and "storeWrite f path contents s = (r, ds, s')"
  shows "canRead (soDisk s') path c \<Longrightarrow> canRead (soDisk s) path c \<or> c = contents"
    "p \<noteq> path \<Longrightarrow> wfTemp f \<noteq> Some p \<Longrightarrow> undisturbed (soDisk s) p (soDisk s')"
proof -
  note sw = storeWrite_spec [OF assms]
  have m: "soDisk s' \<in> set ds" using sw(2) atomicWrite_nonempty [OF sw(1)] by simp
  have a: "(readFile (soDisk s') path = readFile (soDisk s) path \<or> readFile (soDisk s') path = Some contents) \<and>
      (\<forall>c. crashReads (soDisk s') path c \<longrightarrow> crashReads (soDisk s) path c \<or> c = Some contents) \<and>
      (\<forall>p. p \<noteq> path \<and> wfTemp f \<noteq> Some p \<longrightarrow> undisturbed (soDisk s) p (soDisk s'))"
    using atomicWrite_spec [OF assms(1,2) sw(1)] m by blast
  then show "canRead (soDisk s') path c \<Longrightarrow> canRead (soDisk s) path c \<or> c = contents"
    "p \<noteq> path \<Longrightarrow> wfTemp f \<noteq> Some p \<Longrightarrow> undisturbed (soDisk s) p (soDisk s')"
    unfolding canRead_def by (metis option.inject, blast)
qed

lemma backupBoots_iff: "backupBoots L C proxy d \<longleftrightarrow>
    (\<forall>c v. canRead d migrationBackupName c \<and> decodeStateV3 C c = Inr v \<longrightarrow> startable L proxy (migrateV3 v))"
  by (simp add: backupBoots_def canRead_def)

lemma migrateLoaded_backup:
  assumes "diskInv (soDisk s)" and "LoadCompatible C True s = Inr loaded" and "startTempOK C E s"
    and "migrateLoaded C E loaded s = (failed, s')" and "canRead (soDisk s') migrationBackupName c"
  shows "canRead (soDisk s) migrationBackupName c \<or> csSourceVersion loaded = previousSchema \<and> c = csSource loaded"
proof (cases "csSourceVersion loaded = SchemaVersion")
  case True
  then show ?thesis using assms(4,5) by (simp add: migrateLoaded_def)
next
  case False
  then have v: "csSourceVersion loaded = previousSchema" using LoadCompatible_version [OF assms(2)] by blast
  have t: "tempOK (seBackupFaults E) migrationBackupName (soDisk s)" "wfTemp (seStateFaults E) \<noteq> Some migrationBackupName"
    and t2: "tempOK (seStateFaults E) stateFile (soDisk (snd (snd (storeWrite (seBackupFaults E) migrationBackupName (csSource loaded) s))))"
    using assms(2,3) by (simp_all add: startTempOK_def migrateTempOK_def)
  obtain result ds where w: "CommitMigration C (seBackupFaults E) (seStateFaults E) (seRereadOk E) (seSaveNow E) loaded s = (result, ds, s')"
    using False assms(4) by (auto simp: migrateLoaded_def commitStateMigration_def split: prod.splits sum.splits)
  then show ?thesis
  proof (cases rule: CommitMigration_cases)
    case refused
    then show ?thesis using assms(5) by simp
  next
    case (backup b e)
    then show ?thesis using canRead_written(1) [OF assms(1) t(1) backup(1) assms(5)] v by blast
  next
    case (both ds1 s1 ds2)
    note first = canRead_written(1) [OF assms(1) t(1) both(1)]
    have inv: "diskInv (soDisk s1)" by (rule storeWrite_keeps(1) [OF assms(1) t(1) both(1)])
    from both(2) have "canRead (soDisk s1) migrationBackupName c"
    proof (cases rule: writeState_cases)
      case (wrote x)
      have t2: "tempOK (seStateFaults E) stateFile (soDisk s1)" using t2 both(1) by simp
      show ?thesis by (rule canRead_undisturbed [OF canRead_written(2) [OF inv t2 wrote(4) _ t(2)] assms(5)]) simp
    qed (use assms(5) in simp)
    with first v show ?thesis by blast
  qed
qed

lemma LoadCompatible_source:
  "LoadCompatible C ok s = Inr loaded \<Longrightarrow> csSourceVersion loaded = previousSchema \<Longrightarrow> decodeStateV3 C (csSource loaded) = Inr v \<Longrightarrow>
     csState loaded = migrateV3 v"
  by (auto simp: LoadCompatible_def SchemaVersion_def previousSchema_def split: sum.splits if_splits)

lemma LoadCompatible_unread:
  "LoadCompatible C ok s = Inl ErrNotInitialized \<Longrightarrow> readStateLocked ok s = Inl ErrNotInitialized"
  by (auto simp: LoadCompatible_def schemaVersion_def decodeState_def decodeStateV3_def split: sum.splits option.splits if_splits)

lemma LoadCompatible_missing:
  assumes "LoadCompatible C ok s = Inl ErrNotInitialized"
  shows "LoadCompatible C True s = Inl ErrNotInitialized" "Load C True s = Inl ErrNotInitialized"
proof -
  have "readStateLocked True s = Inl ErrNotInitialized"
    using LoadCompatible_unread [OF assms] by (auto simp: readStateLocked_def readBounded_def split: option.splits if_splits)
  then show "LoadCompatible C True s = Inl ErrNotInitialized" "Load C True s = Inl ErrNotInitialized"
    by (simp_all add: LoadCompatible_def Load_def)
qed

lemma buildManagement_cases:
  assumes "buildManagement L E version s rt transport = (result, s')"
  shows "s' = s \<and> (case result of Inl e \<Rightarrow> e = ManagementFailed \<and> seRandom E = None
    | Inr a \<Rightarrow> adStore a = s \<and> adRuntime a = rt \<and> adTransport a = transport \<and> seRandom E \<noteq> None)"
  using assms by (auto simp: buildManagement_def newAdmin_def split: option.splits)

lemma prepared_live:
  assumes "Prepare L now v m = (Inr p, m')"
  shows "restartable L v \<and> (\<exists>c cs. rmCurrent (snd (Activate p m')) = Some c \<and> riHandler c = (cs, riService c) \<and>
    credentialsFromState (stDeviceTokens v) = Inr cs)"
proof -
  obtain provider options credentials where b: "buildComponents L v = Inr (provider, options, credentials)"
    using assms by (auto simp: Prepare_def split: sum.splits)
  have "credentialsFromState (stDeviceTokens v) = Inr credentials" by (rule buildComponents_Inr(2) [OF b])
  with assms b show ?thesis
    by (auto simp: Prepare_def Let_def restartable_def activate_def closeService_def retainDevices_def split: option.split)
qed

text \<open>A start, by where it ends.\<close>

lemma startLocked_cases:
  assumes "startLocked L C E cfg version s = (result, s')"
  obtains (unread) e where "result = Inl (LoadStored e)" "s' = s" "LoadCompatible C (seReadOk E) s = Inl e" "e \<noteq> ErrNotInitialized"
  | (fresh) "LoadCompatible C (seReadOk E) s = Inl ErrNotInitialized"
      "buildManagement L E version s (NewRuntimeManager (if cfGeoIPDBPath cfg = [] then None else Some (seGeoIP E))
         (cfTrustedClientIPHeader cfg) (cfTrustedClientIPNets cfg) (cfCloudflareLocationHeaders cfg))
         (NewTransportPolicy (cfAdminAllowInsecureHTTP cfg) (cfAdminBehindHTTPSProxy cfg)) = (result, s')"
  | (refused) loaded e where "LoadCompatible C (seReadOk E) s = Inr loaded" "result = Inl e" "s' = s"
      "ValidatePublicOrigins L (NewTransportPolicy (cfAdminAllowInsecureHTTP cfg) (cfAdminBehindHTTPSProxy cfg))
         (asPublicOrigins (stAdmin (csState loaded))) \<noteq> Inr (asPublicOrigins (stAdmin (csState loaded))) \<or>
       \<not> restartable L (csState loaded)" "e \<noteq> ManagementFailed" "\<And>x. e \<noteq> MigrateStored x"
  | (migration) loaded e where "LoadCompatible C (seReadOk E) s = Inr loaded" "restartable L (csState loaded)"
      "result = Inl (MigrateStored e)" "migrateLoaded C E loaded s = (Some e, s')"
  | (started) loaded p m s1 where "LoadCompatible C (seReadOk E) s = Inr loaded"
      "ValidatePublicOrigins L (NewTransportPolicy (cfAdminAllowInsecureHTTP cfg) (cfAdminBehindHTTPSProxy cfg))
         (asPublicOrigins (stAdmin (csState loaded))) = Inr (asPublicOrigins (stAdmin (csState loaded)))"
      "\<exists>m0. Prepare L (seNow E) (csState loaded) m0 = (Inr p, m)" "migrateLoaded C E loaded s = (None, s1)"
      "buildManagement L E version s1 (snd (Activate p m)) (ReplacePublicOrigins (asPublicOrigins (stAdmin (csState loaded)))
         (NewTransportPolicy (cfAdminAllowInsecureHTTP cfg) (cfAdminBehindHTTPSProxy cfg))) = (result, s')"
proof (cases "LoadCompatible C (seReadOk E) s")
  case (Inl e)
  with assms unread fresh show thesis by (cases "e = ErrNotInitialized") (auto simp: startLocked_def Let_def)
next
  case load: (Inr loaded)
  let ?t = "NewTransportPolicy (cfAdminAllowInsecureHTTP cfg) (cfAdminBehindHTTPSProxy cfg)"
  let ?os = "asPublicOrigins (stAdmin (csState loaded))"
  let ?m = "NewRuntimeManager (if cfGeoIPDBPath cfg = [] then None else Some (seGeoIP E))
         (cfTrustedClientIPHeader cfg) (cfTrustedClientIPNets cfg) (cfCloudflareLocationHeaders cfg)"
  obtain z m where p: "Prepare L (seNow E) (csState loaded) ?m = (z, m)" by force
  show thesis
  proof (cases "ValidatePublicOrigins L ?t ?os = Inr ?os \<and> (\<exists>q. z = Inr q)")
    case False
    have "\<not> restartable L (csState loaded)" if "z = Inl x" for x
      using p that by (auto simp: Prepare_def restartable_def Let_def split: sum.splits)
    with False have "ValidatePublicOrigins L ?t ?os \<noteq> Inr ?os \<or> \<not> restartable L (csState loaded)"
      by (cases z) auto
    moreover have "\<exists>e. result = Inl e \<and> s' = s \<and> e \<noteq> ManagementFailed \<and> (\<forall>x. e \<noteq> MigrateStored x)"
      using assms False load p by (auto simp: startLocked_def Let_def split: sum.splits if_splits)
    ultimately show thesis using refused load by blast
  next
    case True
    then obtain q where v: "ValidatePublicOrigins L ?t ?os = Inr ?os" and q: "z = Inr q" by blast
    obtain failed s1 where w: "migrateLoaded C E loaded s = (failed, s1)" by force
    show thesis
    proof (cases failed)
      case None
      with assms load v p q w have "buildManagement L E version s1 (snd (Activate q m)) (ReplacePublicOrigins ?os ?t) = (result, s')"
        by (simp add: startLocked_def Let_def)
      with started load v p q w None show thesis by blast
    next
      case (Some e)
      moreover have "restartable L (csState loaded)" using prepared_live p q by blast
      ultimately show thesis using migration [OF load] assms load v p q w by (simp add: startLocked_def Let_def)
    qed
  qed
qed

text \<open>A start keeps the disk startable, and a server that comes up satisfies the invariant of its requests.\<close>

lemma startLocked_boots:
  assumes laws: "libraryLaws L C" and d: "diskBoots L C (cfAdminBehindHTTPSProxy cfg) s" and tmp: "startTempOK C E s"
    and st: "startLocked L C E cfg version s = (result, s')"
  shows "diskBoots L C (cfAdminBehindHTTPSProxy cfg) s' \<and>
    (case result of Inl e \<Rightarrow> True | Inr a \<Rightarrow> adStore a = s' \<and> adminInv L C a \<and>
       tpBehindHTTPSProxy (adTransport a) = cfAdminBehindHTTPSProxy cfg)"
proof -
  have law: "\<forall>v. codecLaw C v" using laws by (simp add: libraryLaws_def)
  have inv: "diskInv (soDisk s)" using d by (simp add: diskBoots_def)
  have boot: "ValidatePublicOrigins L (NewTransportPolicy False (cfAdminBehindHTTPSProxy cfg)) (asPublicOrigins (stAdmin (csState l))) =
      Inr (asPublicOrigins (stAdmin (csState l))) \<and> restartable L (csState l)" if "LoadCompatible C (seReadOk E) s = Inr l" for l
    using d LoadCompatible_ok [OF that] by (simp add: diskBoots_def bootable_def)
  have moved: "diskBoots L C (cfAdminBehindHTTPSProxy cfg) x"
    if l: "LoadCompatible C (seReadOk E) s = Inr l" and m: "migrateLoaded C E l s = (failed, x)" for l failed x
  proof -
    note spec = migrateLoaded_spec [OF inv LoadCompatible_ok [OF l] tmp law m]
    have new: "bootable L C (cfAdminBehindHTTPSProxy cfg) t" if "Load C True t = Inr (stamped now (csState l)) \<or> Load C True t = Inr (csState l)" for t now
      using that boot [OF l] Load_compatible [of C True t "stamped now (csState l)"] Load_compatible [of C True t "csState l"]
      by (auto simp: bootable_def restartable_iff)
    have old: "bootable L C (cfAdminBehindHTTPSProxy cfg) t" if "LoadCompatible C True t = Inr l" for t
      using that boot [OF l] by (simp add: bootable_def)
    have "bootable L C (cfAdminBehindHTTPSProxy cfg) x"
    proof (cases failed)
      case None
      with spec new show ?thesis by blast
    next
      case (Some e)
      with spec old show ?thesis by blast
    qed
    moreover have "bootable L C (cfAdminBehindHTTPSProxy cfg) t" if "crashReads (soDisk x) stateFile (readFile (soDisk t) stateFile)" for t
      using spec new that d unfolding diskBoots_def by blast
    moreover have "backupBoots L C (cfAdminBehindHTTPSProxy cfg) (soDisk x)"
      unfolding backupBoots_iff
    proof (intro allI impI, elim conjE)
      fix c v assume c: "canRead (soDisk x) migrationBackupName c" "decodeStateV3 C c = Inr v"
      from migrateLoaded_backup [OF inv LoadCompatible_ok [OF l] tmp m c(1)] show "startable L (cfAdminBehindHTTPSProxy cfg) (migrateV3 v)"
        using d c(2) boot [OF l] LoadCompatible_source [OF l] by (auto simp: diskBoots_def backupBoots_iff startable_def)
    qed
    ultimately show ?thesis using spec by (simp add: diskBoots_def)
  qed
  from st show ?thesis
  proof (cases rule: startLocked_cases)
    case (unread e)
    then show ?thesis using d by simp
  next
    case fresh
    from buildManagement_cases [OF fresh(2)] d LoadCompatible_missing(2) [OF fresh(1)] inv show ?thesis
      by (cases result) (auto simp: adminInv_def)
  next
    case (refused loaded e)
    then show ?thesis using d by simp
  next
    case (migration loaded e)
    then show ?thesis using moved [OF migration(1,4)] by simp
  next
    case (started loaded p m s1)
    note b = buildManagement_cases [OF started(5)]
    note spec = migrateLoaded_spec [OF inv LoadCompatible_ok [OF started(1)] tmp law started(4)]
    have "adminInv L C a \<and> tpBehindHTTPSProxy (adTransport a) = cfAdminBehindHTTPSProxy cfg" if "result = Inr a" for a
    proof -
      have a: "adStore a = s1" "adRuntime a = snd (Activate p m)" "adTransport a = ReplacePublicOrigins
          (asPublicOrigins (stAdmin (csState loaded))) (NewTransportPolicy (cfAdminAllowInsecureHTTP cfg) (cfAdminBehindHTTPSProxy cfg))"
        using b that by simp_all
      have "liveMatches L a (csState loaded)"
      proof -
        obtain m0 where "Prepare L (seNow E) (csState loaded) m0 = (Inr p, m)" using started(3) by blast
        from prepared_live [OF this] started(2) show ?thesis
          by (auto simp: liveMatches_def a(2,3))
      qed
      then show ?thesis using spec a by (auto simp: adminInv_def)
    qed
    then show ?thesis using moved [OF started(1,4)] b by (cases result) auto
  qed
qed

lemma appNew_failed:
  assumes "appNew L C E cfg version d holder = (Inl e, d', holder')"
  obtains (unopened) "d' = d" "holder' = holder"
  | (opened) s where "startLocked L C E cfg version \<lparr>soDisk = d, soDurabilityConfirmed = True\<rparr> = (Inl e, s)" "d' = soDisk s"
      "holder = None" "holder' = None"
proof (cases "IsAbs (cfStateDir cfg) \<and> seMkdirOk E \<and> seChmodOk E \<and> seLockOpenOk E \<and> seLockChmodOk E \<and> seFlockOk E \<and> holder = None")
  case True
  obtain x s where "startLocked L C E cfg version \<lparr>soDisk = d, soDurabilityConfirmed = True\<rparr> = (x, s)" by force
  with True assms opened show thesis
    by (cases x) (auto simp: appNew_def NewStore_def AcquireLock_def CloseLock_def)
next
  case False
  then have "d' = d \<and> holder' = holder"
    using assms by (auto simp: appNew_def NewStore_def AcquireLock_def split: if_splits option.splits)
  with unopened show thesis by blast
qed

lemma startLocked_failed:
  assumes "diskInv (soDisk s)" and "startTempOK C E s" and "\<forall>v. codecLaw C v" and "startLocked L C E cfg version s = (Inl e, s')"
  shows "LoadCompatible C True s' = LoadCompatible C True s \<or>
    e = ManagementFailed \<and> (\<exists>loaded now. LoadCompatible C True s = Inr loaded \<and> csSourceVersion loaded = previousSchema \<and>
      Load C True s' = Inr (stamped now (csState loaded)))"
  using assms(4)
proof (cases rule: startLocked_cases)
  case fresh
  then show ?thesis using buildManagement_cases [OF fresh(2)] by simp
next
  case (migration loaded x)
  then show ?thesis
    using migrateLoaded_spec [OF assms(1) LoadCompatible_ok [OF migration(1)] assms(2,3) migration(4)] LoadCompatible_ok [OF migration(1)]
    by simp
next
  case (started loaded p m s1)
  note b = buildManagement_cases [OF started(5)]
  show ?thesis
  proof (cases "csSourceVersion loaded = SchemaVersion")
    case True
    then show ?thesis using started(4) b by (simp add: migrateLoaded_def)
  next
    case False
    then have v: "csSourceVersion loaded = previousSchema" using LoadCompatible_version [OF started(1)] by blast
    obtain ds r where w: "CommitMigration C (seBackupFaults E) (seStateFaults E) (seRereadOk E) (seSaveNow E) loaded s = (Inr r, ds, s1)"
      using False started(4) by (auto simp: migrateLoaded_def commitStateMigration_def split: prod.splits sum.splits)
    have tmp: "migrateTempOK (seBackupFaults E) (seStateFaults E) (csSource loaded) s"
      using assms(2) LoadCompatible_ok [OF started(1)] by (simp add: startTempOK_def)
    have "codecLaw C (stamped (seSaveNow E) (csState loaded))" using assms(3) by blast
    from CommitMigration_spec [OF assms(1) LoadCompatible_ok [OF started(1)] v tmp this w]
    have "Load C True s1 = Inr (stamped (seSaveNow E) (csState loaded))" by simp
    with b v LoadCompatible_ok [OF started(1)] show ?thesis by auto
  qed
qed simp_all

text \<open>C13. A start that fails is harmless. The lock is as it was found, and a server that holds it
  is not disturbed; the stored state reads as before, whatever its version, unless the management
  interface fails after a schema migration, which is then complete: the state reads as its migrated
  form. Assumed: the law of the codec, and that \<open>CreateTemp\<close> makes new files.\<close>

theorem failed_start_harmless:
  assumes "appNew L C E cfg version d holder = (Inl e, d', holder')"
    and "diskInv d" and "startTempOK C E \<lparr>soDisk = d, soDurabilityConfirmed = True\<rparr>" and "\<And>v. codecLaw C v"
  shows "holder' = holder \<and> (holder \<noteq> None \<longrightarrow> d' = d) \<and>
    (let before = LoadCompatible C True \<lparr>soDisk = d, soDurabilityConfirmed = True\<rparr> in
     LoadCompatible C True \<lparr>soDisk = d', soDurabilityConfirmed = True\<rparr> = before \<or>
     e = ManagementFailed \<and> (\<exists>loaded now. before = Inr loaded \<and> csSourceVersion loaded = previousSchema \<and>
       Load C True \<lparr>soDisk = d', soDurabilityConfirmed = True\<rparr> = Inr (stamped now (csState loaded))))"
proof -
  let ?s = "\<lparr>soDisk = d, soDurabilityConfirmed = True\<rparr>"
  have at: "LoadCompatible C True \<lparr>soDisk = soDisk s, soDurabilityConfirmed = True\<rparr> = LoadCompatible C True s"
    "Load C True \<lparr>soDisk = soDisk s, soDurabilityConfirmed = True\<rparr> = Load C True s" for s
    by (rule LoadCompatible_cong Load_cong; simp)+
  from assms(1) show ?thesis
  proof (cases rule: appNew_failed)
    case unopened
    then show ?thesis by simp
  next
    case (opened s)
    from startLocked_failed [OF _ assms(3) _ opened(1)] assms(2,4) show ?thesis
      unfolding opened(2-4) at Let_def by simp
  qed
qed

subsection \<open>Offline maintenance\<close>

lemma diskBoots_disk: "diskBoots L C proxy s \<longleftrightarrow> diskBoots L C proxy \<lparr>soDisk = soDisk s, soDurabilityConfirmed = b\<rparr>"
proof -
  have "LoadCompatible C True s = LoadCompatible C True \<lparr>soDisk = soDisk s, soDurabilityConfirmed = b\<rparr>"
    by (rule LoadCompatible_cong) simp
  then show ?thesis using bootable_unread by (simp add: diskBoots_def bootable_def)
qed

text \<open>An origin command with the server's proxy option keeps the disk startable.\<close>

definition originCommandOK :: "golib \<Rightarrow> bool \<Rightarrow> commandEnv \<Rightarrow> bytes list \<Rightarrow> disk \<Rightarrow> bool" where
  "originCommandOK L proxy E arguments d \<longleftrightarrow> tempOK (ceFaults E) stateFile d \<and> wfTemp (ceFaults E) \<noteq> Some migrationBackupName \<and>
     (\<forall>cfg. load L (ceGetenv E) = Inr cfg \<longrightarrow> cfAdminBehindHTTPSProxy cfg = proxy) \<and>
     (case arguments of [_, argument] \<Rightarrow> plainOrigins L [argument] | _ \<Rightarrow> True)"

lemma originBody_boots:
  assumes laws: "libraryLaws L C" and d: "diskBoots L C (cfAdminBehindHTTPSProxy cfg) s" and "tempOK (ceFaults E) stateFile (soDisk s)"
    and "plainOrigins L [argument]" and other: "wfTemp (ceFaults E) \<noteq> Some migrationBackupName" and body: "originBody L C E command argument cfg s = (result, s')"
  shows "diskBoots L C (cfAdminBehindHTTPSProxy cfg) s'"
  using body
proof (cases rule: originBody_cases)
  case (saved v origin edited new)
  have law: "\<forall>v. codecLaw C v" "urlLaw L" using laws by (simp_all add: libraryLaws_def)
  note new = edited_fixed [OF law(2) assms(4) saved(4,3,5,6), THEN conjunct2]
  from saved(7) obtain r ds where w: "Save C (ceFaults E) (ceStatOk E) (ceSaveNow E) (editedState E v new) s = (r, ds, s')"
    by (rule saveOrigins_spec)
  note step = Save_written [OF w]
  have inv: "diskInv (soDisk s)" using d by (simp add: diskBoots_def)
  have reads: "diskInv (soDisk s') \<and> (case r of Inl _ \<Rightarrow> \<forall>ok. Load C ok s' = Load C ok s
      | Inr _ \<Rightarrow> Load C True s' = Inr (stamped (ceSaveNow E) (editedState E v new)))"
    by (rule written [OF inv assms(3) _ step]) (use law(1) in simp)
  have old: "Load C True s = Inr v" by (rule Load_ok [OF saved(2)])
  then have "restartable L v" using d Load_compatible by (fastforce simp: diskBoots_def bootable_def)
  then have res: "restartable L (stamped now (editedState E v new))" for now
    by (simp add: restartable_iff editedState_def)
  have valid: "ValidatePublicOrigins L (NewTransportPolicy False (cfAdminBehindHTTPSProxy cfg)) new = Inr new"
    using new Validate_policy [of "NewTransportPolicy (cfAdminAllowInsecureHTTP cfg) (cfAdminBehindHTTPSProxy cfg)"
        "NewTransportPolicy False (cfAdminBehindHTTPSProxy cfg)" L] by simp
  have boots: "bootable L C (cfAdminBehindHTTPSProxy cfg) t" if "Load C True t = Load C True s'" for t
  proof (cases r)
    case (Inl e)
    with reads that old Load_compatible [of C True t v] Load_compatible [OF old] d show ?thesis
      by (auto simp: diskBoots_def bootable_def)
  next
    case (Inr x)
    with reads that Load_compatible [of C True t "stamped (ceSaveNow E) (editedState E v new)"] res valid show ?thesis
      by (auto simp: bootable_def editedState_def)
  qed
  have "bootable L C (cfAdminBehindHTTPSProxy cfg) t" if c: "crashReads (soDisk s') stateFile (readFile (soDisk t) stateFile)" for t
    using written_crash [OF inv assms(3) law(1) step c] boots d by (auto simp: diskBoots_def)
  moreover have "backupBoots L C (cfAdminBehindHTTPSProxy cfg) (soDisk s')"
    using written_backup [OF inv assms(3) other law(1) step] d backupBoots_undisturbed by (auto simp: diskBoots_def)
  ultimately show ?thesis using reads boots by (simp add: diskBoots_def)
qed (use d in simp_all)

lemma originCommand_boots:
  assumes laws: "libraryLaws L C" and d: "diskBoots L C proxy \<lparr>soDisk = d, soDurabilityConfirmed = True\<rparr>"
    and ok: "originCommandOK L proxy E arguments d" and cmd: "runAdminOrigin L C E arguments d holder = (result, d', holder')"
  shows "diskBoots L C proxy \<lparr>soDisk = d', soDurabilityConfirmed = True\<rparr>"
proof -
  have moved: "diskBoots L C proxy \<lparr>soDisk = d', soDurabilityConfirmed = True\<rparr>"
    if "withStore L E busy (originBody L C E command argument) d holder = (result, d', holder')"
      "plainOrigins L [argument] \<or> command = ''list''" for busy command argument
    using that(1)
  proof (cases rule: withStore_cases)
    case unopened
    then show ?thesis using d by simp
  next
    case (opened cfg out s)
    have p: "cfAdminBehindHTTPSProxy cfg = proxy" and tmp: "tempOK (ceFaults E) stateFile d" "wfTemp (ceFaults E) \<noteq> Some migrationBackupName"
      using ok opened(1) by (simp_all add: originCommandOK_def)
    have "diskBoots L C proxy s"
    proof (cases "command = ''list''")
      case True
      from opened(4) show ?thesis by (cases rule: originBody_cases) (use d True in simp_all)
    next
      case False
      then show ?thesis using originBody_boots [OF laws _ _ _ _ opened(4)] d p tmp that(2) by simp
    qed
    then show ?thesis using diskBoots_disk [of L C proxy s True] opened(5) by simp
  qed
  from cmd show ?thesis
  proof (cases rule: runAdminOrigin_cases)
    case usage
    then show ?thesis using d by simp
  next
    case listing
    then show ?thesis using moved [OF listing(2)] by simp
  next
    case (editing command argument)
    then show ?thesis using moved [OF editing(3)] ok by (simp add: originCommandOK_def)
  qed
qed

text \<open>A restore brings back what the backup holds.\<close>

lemma RestoreV3Backup_wrote:
  assumes "RestoreV3Backup C f ok ok' s = (result, ds, s')"
  obtains (refused) "soDisk s' = soDisk s"
  | (wrote) c v where "storeWrite f stateFile c s = (result, ds, s')" "readFile (soDisk s) migrationBackupName = Some c" "length c \<le> maximumSize"
      "cdHeader C c = Some 3" "decodeStateV3 C c = Inr v"
proof (cases "\<exists>e. RestoreV3Backup C f ok ok' s = refuse e s")
  case True
  then obtain e where "refuse e s = (result, ds, s')" using assms by metis
  then have "soDisk s' = soDisk s" by (simp add: refuse_def)
  with refused show thesis .
next
  case False
  then obtain c v where c: "readBounded ok' migrationBackupName (soDisk s) = Inr c" "schemaVersion C c = Inr previousSchema" "decodeStateV3 C c = Inr v"
    "RestoreV3Backup C f ok ok' s = storeWrite f stateFile c s"
    unfolding RestoreV3Backup_def by (auto split: sum.splits if_splits)
  then have "readFile (soDisk s) migrationBackupName = Some c" "length c \<le> maximumSize" "cdHeader C c = Some 3"
    by (auto simp: readBounded_def schemaVersion_def previousSchema_def split: option.splits if_splits)
  with wrote c(3,4) assms show thesis by simp
qed

lemma restore_boots:
  assumes d: "diskBoots L C proxy \<lparr>soDisk = d, soDurabilityConfirmed = True\<rparr>"
    and tmp: "tempOK (ceFaults E) stateFile d" "wfTemp (ceFaults E) \<noteq> Some migrationBackupName"
    and cmd: "runState L C E arguments d holder = (result, d', holder')"
  shows "diskBoots L C proxy \<lparr>soDisk = d', soDurabilityConfirmed = True\<rparr>"
proof (cases "arguments = [''restore-v3-backup'']")
  case False
  then show ?thesis using cmd d by (simp add: runState_def)
next
  case True
  let ?s = "\<lparr>soDisk = d, soDurabilityConfirmed = True\<rparr>"
  have "withStore L E ''stop mt-server before restoring the migration backup'' (restoreBody C E) d holder = (result, d', holder')"
    using cmd True by (simp add: runState_def)
  then show ?thesis
  proof (cases rule: withStore_cases)
    case unopened
    then show ?thesis using d by simp
  next
    case (opened cfg out s)
    obtain r ds where "RestoreV3Backup C (ceFaults E) (ceReadOk E) (ceBackupOk E) ?s = (r, ds, s)"
      using opened(4) by (auto simp: restoreBody_def split: prod.splits sum.splits)
    then have "diskBoots L C proxy s"
    proof (cases rule: RestoreV3Backup_wrote)
      case refused
      then show ?thesis using d diskBoots_disk [of L C proxy s True] by simp
    next
      case (wrote c v)
      have inv: "diskInv (soDisk ?s)" and at: "tempOK (ceFaults E) stateFile (soDisk ?s)" using d tmp(1) by (simp_all add: diskBoots_def)
      note keeps = storeWrite_keeps [OF inv at wrote(1)]
      note crash = canRead_written [OF inv at wrote(1)]
      have st: "startable L proxy (migrateV3 v)"
        using d wrote(2,5) by (auto simp: diskBoots_def backupBoots_iff canRead_def)
      have new: "bootable L C proxy t" if "readFile (soDisk t) stateFile = Some c" for t
      proof -
        have "LoadCompatible C True t = Inr \<lparr>csState = migrateV3 v, csSourceVersion = previousSchema, csSource = c\<rparr>"
          using that wrote(3-5) by (simp add: LoadCompatible_def readStateLocked_def readBounded_def schemaVersion_def SchemaVersion_def previousSchema_def)
        then show ?thesis using st by (simp add: bootable_def startable_def)
      qed
      have old: "bootable L C proxy t" if "readFile (soDisk t) stateFile = readFile d stateFile" for t
        using d bootable_unread [OF LoadCompatible_cong [of t ?s C True]] that by (simp add: diskBoots_def)
      have "bootable L C proxy s"
        using keeps(2) new [of s] old [of s] by (cases "is_ok r") simp_all
      moreover have m: "soDisk s \<in> set ds"
        using storeWrite_spec(2) [OF inv at wrote(1)] atomicWrite_nonempty [OF storeWrite_spec(1) [OF inv at wrote(1)]] by simp
      have "bootable L C proxy t" if "crashReads (soDisk s) stateFile (readFile (soDisk t) stateFile)" for t
      proof -
        have "crashReads d stateFile (readFile (soDisk t) stateFile) \<or> readFile (soDisk t) stateFile = Some c"
          using atomicWrite_spec [OF inv at storeWrite_spec(1) [OF inv at wrote(1)]] m that by fastforce
        with new d show ?thesis by (auto simp: diskBoots_def)
      qed
      moreover have "backupBoots L C proxy (soDisk s)"
        using crash(2) [OF _ tmp(2)] d backupBoots_undisturbed [of d "soDisk s"] by (simp add: diskBoots_def)
      ultimately show ?thesis using keeps(1) by (simp add: diskBoots_def)
    qed
    then show ?thesis using diskBoots_disk [of L C proxy s True] opened(5) by simp
  qed
qed

subsection \<open>A server and its restarts\<close>

datatype server = Stopped disk | Running admin

text \<open>
  One server with one choice of the proxy option and otherwise any configuration. It is stopped or
  killed; a crash of the machine after that leaves a disk on which everything that can still be read is
  on the medium.
\<close>

inductive serverReachable :: "golib \<Rightarrow> codec \<Rightarrow> bool \<Rightarrow> server \<Rightarrow> bool" for L C proxy where
  installed: "diskBoots L C proxy \<lparr>soDisk = d, soDurabilityConfirmed = True\<rparr> \<Longrightarrow> serverReachable L C proxy (Stopped d)"
| start: "serverReachable L C proxy (Stopped d) \<Longrightarrow> cfAdminBehindHTTPSProxy cfg = proxy \<Longrightarrow>
    startTempOK C E \<lparr>soDisk = d, soDurabilityConfirmed = True\<rparr> \<Longrightarrow>
    appNew L C E cfg version d None = (Inr a, d', holder) \<Longrightarrow> serverReachable L C proxy (Running a)"
| failed: "serverReachable L C proxy (Stopped d) \<Longrightarrow> cfAdminBehindHTTPSProxy cfg = proxy \<Longrightarrow>
    startTempOK C E \<lparr>soDisk = d, soDurabilityConfirmed = True\<rparr> \<Longrightarrow>
    appNew L C E cfg version d None = (Inl e, d', holder) \<Longrightarrow> serverReachable L C proxy (Stopped d')"
| maintained: "serverReachable L C proxy (Stopped d) \<Longrightarrow> originCommandOK L proxy F arguments d \<Longrightarrow>
    runAdminOrigin L C F arguments d None = (result, d', holder) \<Longrightarrow> serverReachable L C proxy (Stopped d')"
| restored: "serverReachable L C proxy (Stopped d) \<Longrightarrow> tempOK (ceFaults F) stateFile d \<Longrightarrow> wfTemp (ceFaults F) \<noteq> Some migrationBackupName \<Longrightarrow>
    runState L C F arguments d None = (result, d', holder) \<Longrightarrow> serverReachable L C proxy (Stopped d')"
| request: "serverReachable L C proxy (Running a) \<Longrightarrow> envOK E a \<Longrightarrow> wfTemp (enFaults E) \<noteq> Some migrationBackupName \<Longrightarrow> bodyOK L J r \<Longrightarrow>
    adminServe L C J E r route a = (w, a') \<Longrightarrow> serverReachable L C proxy (Running a')"
| stop: "serverReachable L C proxy (Running a) \<Longrightarrow> serverReachable L C proxy (Stopped (soDisk (adStore a)))"
| crash: "serverReachable L C proxy (Stopped d) \<Longrightarrow> crashImage d d' \<Longrightarrow> diskInv d' \<Longrightarrow>
    (\<And>p c. crashReads d' p c \<Longrightarrow> c = readFile d' p) \<Longrightarrow> serverReachable L C proxy (Stopped d')"

lemma appNew_cases:
  assumes "appNew L C E cfg version d None = (result, d', holder)"
  obtains (unopened) e where "result = Inl e" "d' = d" "\<not> IsAbs (cfStateDir cfg) \<or> \<not> startEnvOK E"
  | (opened) s where "startLocked L C E cfg version \<lparr>soDisk = d, soDurabilityConfirmed = True\<rparr> = (result, s)" "d' = soDisk s"
      "holder = (case result of Inl _ \<Rightarrow> None | Inr _ \<Rightarrow> Some (seProcess E))"
proof (cases "IsAbs (cfStateDir cfg) \<and> seMkdirOk E \<and> seChmodOk E \<and> seLockOpenOk E \<and> seLockChmodOk E \<and> seFlockOk E")
  case True
  obtain x s where "startLocked L C E cfg version \<lparr>soDisk = d, soDurabilityConfirmed = True\<rparr> = (x, s)" by force
  with True assms opened show thesis
    by (cases x) (auto simp: appNew_def NewStore_def AcquireLock_def CloseLock_def)
next
  case False
  then have "(\<exists>e. result = Inl e) \<and> d' = d"
    using assms by (auto simp: appNew_def NewStore_def AcquireLock_def split: if_splits)
  with False unopened show thesis by (auto simp: startEnvOK_def)
qed

definition serverInv :: "golib \<Rightarrow> codec \<Rightarrow> bool \<Rightarrow> server \<Rightarrow> bool" where
  "serverInv L C proxy x \<longleftrightarrow>
     (case x of
        Stopped d \<Rightarrow> diskBoots L C proxy \<lparr>soDisk = d, soDurabilityConfirmed = True\<rparr>
      | Running a \<Rightarrow> adminInv L C a \<and> tpBehindHTTPSProxy (adTransport a) = proxy \<and> diskBoots L C proxy (adStore a))"

lemma serverReachable_inv:
  assumes "libraryLaws L C" and "serverReachable L C proxy x" shows "serverInv L C proxy x"
  using assms(2)
proof (induction rule: serverReachable.induct)
  case (installed d)
  then show ?case by (simp add: serverInv_def)
next
  case (start d cfg E version a d' holder)
  have d: "diskBoots L C (cfAdminBehindHTTPSProxy cfg) \<lparr>soDisk = d, soDurabilityConfirmed = True\<rparr>"
    using start by (simp add: serverInv_def)
  from start.hyps(4) show ?case
  proof (cases rule: appNew_cases)
    case (opened s)
    from startLocked_boots [OF assms(1) d start.hyps(3) opened(1)] start.hyps(2) show ?thesis by (simp add: serverInv_def)
  qed simp
next
  case (failed d cfg E version e d' holder)
  have d: "diskBoots L C (cfAdminBehindHTTPSProxy cfg) \<lparr>soDisk = d, soDurabilityConfirmed = True\<rparr>"
    using failed by (simp add: serverInv_def)
  from failed.hyps(4) show ?case
  proof (cases rule: appNew_cases)
    case (unopened e)
    then show ?thesis using failed.IH by simp
  next
    case (opened s)
    from startLocked_boots [OF assms(1) d failed.hyps(3) opened(1)] failed.hyps(2) opened(2) show ?thesis
      using diskBoots_disk [of L C proxy s True] by (simp add: serverInv_def)
  qed
next
  case (maintained d F arguments result d' holder)
  then show ?case using originCommand_boots [OF assms(1)] by (simp add: serverInv_def)
next
  case (restored d F arguments result d' holder)
  then show ?case using restore_boots [of L C proxy d F] by (simp add: serverInv_def)
next
  case (request a E J r route w a')
  then show ?case using serve_boots [of L C a E J r route w a'] assms(1) by (auto simp: serverInv_def)
next
  case (stop a)
  then show ?case using diskBoots_disk [of L C proxy "adStore a" True] by (simp add: serverInv_def)
next
  case (crash d d')
  have "bootable L C proxy t" if "readFile (soDisk t) stateFile = readFile d' stateFile" for t
  proof -
    have "crashReads d stateFile (readFile (soDisk t) stateFile)"
      using crash.hyps(2) that by (simp add: crashImage_def)
    then show ?thesis using crash.IH by (simp add: serverInv_def diskBoots_def)
  qed
  moreover have "canRead d migrationBackupName c" if "canRead d' migrationBackupName c" for c
    using that crash.hyps(2) crash.hyps(4) [of migrationBackupName "Some c"] by (auto simp: canRead_def crashImage_def) (metis)+
  then have "backupBoots L C proxy d'" using crash.IH unfolding serverInv_def diskBoots_def backupBoots_iff by simp blast
  ultimately show ?case using crash.hyps(3,4) by (auto simp: serverInv_def diskBoots_def)
qed

text \<open>With working system calls, only the writes of a migration can make a start fail.\<close>

lemma start_fails_migrating:
  assumes "libraryLaws L C" and "diskBoots L C (cfAdminBehindHTTPSProxy cfg) s0" and "startEnvOK E" and "startTempOK C E s0"
    and "startLocked L C E cfg version s0 = (Inl e, s)"
  shows "\<exists>x loaded. e = MigrateStored x \<and> LoadCompatible C True s = Inr loaded \<and> csSourceVersion loaded = previousSchema"
  using assms(5)
proof (cases rule: startLocked_cases)
  case (unread e')
  then show ?thesis using assms(2,3) by (simp add: diskBoots_def bootable_def startEnvOK_def)
next
  case fresh
  then show ?thesis using buildManagement_cases [OF fresh(2)] assms(3) by (simp add: startEnvOK_def)
next
  case (refused loaded e')
  then show ?thesis
    using assms(2) LoadCompatible_ok [OF refused(1)] Validate_policy [of "NewTransportPolicy (cfAdminAllowInsecureHTTP cfg)
      (cfAdminBehindHTTPSProxy cfg)" "NewTransportPolicy False (cfAdminBehindHTTPSProxy cfg)" L]
    by (simp add: diskBoots_def bootable_def)
next
  case (migration loaded x)
  have "\<forall>v. codecLaw C v" using assms(1) by (simp add: libraryLaws_def)
  with migration show ?thesis
    using migrateLoaded_spec [OF _ LoadCompatible_ok [OF migration(1)] assms(4) _ migration(4)] assms(2) by (simp add: diskBoots_def)
next
  case (started loaded p m s1)
  then show ?thesis using buildManagement_cases [OF started(5)] assms(3) by (simp add: startEnvOK_def)
qed

text \<open>C2. The server can always be started again. Whatever management requests it has served,
  whatever origin and restore commands were run while it was stopped, whatever failed, and whether it
  was stopped or crashed (at any moment: an interrupted write leaves what a write with a failing call
  leaves, \<open>Disk.atomicWrite_interrupted\<close>), a start with the same proxy option, any other accepted configuration and working system calls succeeds, unless the
  writes of a pending schema migration fail. It comes up with the stored configuration live: its
  device tokens are the credentials of the device API, and its origins the allowlist. Assumed: the
  laws of the libraries, and that \<open>CreateTemp\<close> makes new files.\<close>

theorem restart_succeeds:
  assumes "libraryLaws L C" and "serverReachable L C proxy (Stopped d)"
    and "configOK cfg" and "cfAdminBehindHTTPSProxy cfg = proxy"
    and "startEnvOK E" and "startTempOK C E \<lparr>soDisk = d, soDurabilityConfirmed = True\<rparr>"
  shows "case appNew L C E cfg version d None of
      (Inl e, d', holder) \<Rightarrow> holder = None \<and> (\<exists>x loaded. e = MigrateStored x \<and>
        LoadCompatible C True \<lparr>soDisk = d', soDurabilityConfirmed = True\<rparr> = Inr loaded \<and> csSourceVersion loaded = previousSchema)
    | (Inr a, d', holder) \<Rightarrow> holder = Some (seProcess E) \<and> soDisk (adStore a) = d' \<and>
        (\<forall>v. Load C True (adStore a) = Inr v \<longrightarrow>
           (\<exists>c credentials. rmCurrent (adRuntime a) = Some c \<and> riHandler c = (credentials, riService c) \<and>
              credentialsFromState (stDeviceTokens v) = Inr credentials) \<and>
           tpPublicOrigins (adTransport a) = asPublicOrigins (stAdmin v)) \<and>
        (Load C True (adStore a) = Inl ErrNotInitialized \<or> (\<exists>v. Load C True (adStore a) = Inr v))"
proof -
  let ?s = "\<lparr>soDisk = d, soDurabilityConfirmed = True\<rparr>"
  have d: "diskBoots L C (cfAdminBehindHTTPSProxy cfg) ?s"
    using serverReachable_inv [OF assms(1,2)] assms(4) by (simp add: serverInv_def)
  obtain result d' holder where n: "appNew L C E cfg version d None = (result, d', holder)" by (metis prod_cases3)
  from n obtain s where o: "startLocked L C E cfg version ?s = (result, s)" "d' = soDisk s"
    "holder = (case result of Inl _ \<Rightarrow> None | Inr _ \<Rightarrow> Some (seProcess E))"
    by (cases rule: appNew_cases) (use assms(3,5) in \<open>simp_all add: configOK_def\<close>)
  show ?thesis
  proof (cases result)
    case (Inr a)
    with startLocked_boots [OF assms(1) d assms(6) o(1)] have a: "adStore a = s" "adminInv L C a" by simp_all
    have "Load C True (adStore a) = Inl ErrNotInitialized \<or> (\<exists>v. Load C True (adStore a) = Inr v)"
      using a(2) by (cases "Load C True (adStore a)") (auto simp: adminInv_def)
    moreover have "liveMatches L a v" if "Load C True (adStore a) = Inr v" for v
      using that a(2) by (simp add: adminInv_def)
    ultimately show ?thesis using n o(2,3) Inr a(1) by (auto simp: liveMatches_def)
  next
    case (Inl e)
    have "\<exists>x loaded. e = MigrateStored x \<and> LoadCompatible C True s = Inr loaded \<and> csSourceVersion loaded = previousSchema"
      by (rule start_fails_migrating [OF assms(1) d assms(5,6)]) (use o(1) Inl in simp)
    moreover have "LoadCompatible C True s = LoadCompatible C True \<lparr>soDisk = d', soDurabilityConfirmed = True\<rparr>"
      by (rule LoadCompatible_cong) (simp add: o(2))
    ultimately show ?thesis using n o(3) Inl by simp
  qed
qed

end
