(* ===== verification/PasswordChange.thy ===== *)
theory PasswordChange
  imports AdminSafety
begin

section \<open>Replacing the administrator's password\<close>

text \<open>
  What a successful \<open>changePassword\<close> achieves, and what a login that overlaps it does. \<open>changePassword\<close>
  holds \<open>changeMu\<close>, \<open>login\<close> does not: \<open>loginCheck\<close> and \<open>loginFinish\<close> cut it where a password change can
  come between.
\<close>

text \<open>\<open>login\<close> up to and with the reset of its limiter; \<open>None\<close> is a verified password.\<close>

definition loginCheck :: "golib \<Rightarrow> codec \<Rightarrow> requestCodec \<Rightarrow> adminEnv \<Rightarrow> request \<Rightarrow> admin \<Rightarrow> response option \<times> admin" where
  "loginCheck L C J E r a =
     (case preparePublicWrite L (enNow E AtLimit) r a (adLoginLimit a) of
        (Some w, l) \<Rightarrow> (Some w, a\<lparr>adLoginLimit := l\<rparr>)
      | (None, l) \<Rightarrow>
          (let a = a\<lparr>adLoginLimit := l\<rparr>
           in case decodeJSON (rcLogin J) r of
                Inl w \<Rightarrow> (Some w, a)
              | Inr password \<Rightarrow>
                  (case Load C (enReadOk E) (adStore a) of
                     Inl e \<Rightarrow>
                       (if e = ErrNotInitialized then (Some (WriteError r 409 ''setup_required'' ''service setup is required''), a)
                        else (Some (stateUnavailable r), a))
                   | Inr v \<Rightarrow>
                       if passwordBusy a then (Some (authenticationBusy r), a)
                       else if \<not> VerifyPassword L password (asPassword (stAdmin v))
                       then (Some (WriteError r 401 ''invalid_credentials'' ''administrator password is incorrect''), a)
                       else (None, a\<lparr>adLoginLimit := LimiterReset (adLoginLimit a)\<rparr>))))"

definition loginFinish :: "golib \<Rightarrow> adminEnv \<Rightarrow> request \<Rightarrow> handler" where
  "loginFinish L E r a =
     (case Create L (enNow E AtCreate) (enSessionRandom E) (enCSRFRandom E) (adSessions a) of
        (None, s) \<Rightarrow>
          (WriteError r 500 ''session_failed'' ''could not create administrator session'', a\<lparr>adSessions := s\<rparr>)
      | (Some (sessionToken, csrf), s) \<Rightarrow>
          (setSessionCookie a r sessionToken (WriteJSON 200 (JObj [(''csrf_token'', JStr csrf)])),
           a\<lparr>adSessions := s\<rparr>))"

lemma login_halves:
  "loginHandler L C J E r a = (case loginCheck L C J E r a of (Some w, a) \<Rightarrow> (w, a) | (None, a) \<Rightarrow> loginFinish L E r a)"
  by (auto simp: loginHandler_def loginCheck_def loginFinish_def Let_def split: option.split sum.split prod.split)

lemma loginCheck_core: "sameCore a (snd (loginCheck L C J E r a))"
  by (auto simp: loginCheck_def sameCore_def Let_def split: option.split sum.split prod.split)

text \<open>A change that is answered below 400.\<close>

lemma changePassword_cases:
  assumes "adminInv L C a" and "envOK E a" and "libraryLaws L C"
    and "changePasswordHandler L C J E r a = (w, a')" and "rsStatus w < 400"
  obtains req v h where "decodeJSON (rcPassword J) r = Inr req" "Load C True (adStore a) = Inr v"
    "VerifyPassword L (pwCurrentPassword req) (asPassword (stAdmin v))" "HashPassword L (enSalt E) (pwNewPassword req) = Some h"
    "Load C True (adStore a') = Inr (stamped (enNow E AtSave) (updatedState E (withPassword h v)))"
    "adRuntime a' = adRuntime a" "adTransport a' = adTransport a" "adSessions a' = []"
proof -
  have fails: "rsStatus (WriteError r s c m) = s" for s c m by (simp add: WriteError_def WriteJSON_def)
  consider (ok) req v h where "decodeJSON (rcPassword J) r = Inr req" "loadState C E r a = Inr v" "\<not> passwordBusy a"
    "VerifyPassword L (pwCurrentPassword req) (asPassword (stAdmin v))" "HashPassword L (enSalt E) (pwNewPassword req) = Some h"
    | (refused) "400 \<le> rsStatus w"
  proof (cases "decodeJSON (rcPassword J) r")
    case (Inl x)
    with assms(4) that(2) show thesis by (auto simp: changePasswordHandler_def decodeJSON_def fails split: option.splits if_splits prod.splits)
  next
    case (Inr req)
    with assms(4) that show thesis
      by (auto simp: changePasswordHandler_def loadState_def stateUnavailable_def authenticationBusy_def fails
          split: sum.splits if_splits option.splits)
  qed
  then show thesis
  proof cases
    case refused
    with assms(5) show thesis by simp
  next
    case (ok req v h)
    obtain result b where s: "saveState C E (updatedState E (withPassword h v)) a = (result, b)" by force
    obtain t where b: "b = a\<lparr>adStore := t\<rparr>"
      and l: "case result of Inl _ \<Rightarrow> \<forall>ok. Load C ok t = Load C ok (adStore a)
        | Inr _ \<Rightarrow> Load C True t = Inr (stamped (enNow E AtSave) (updatedState E (withPassword h v)))"
      using saveState_spec [OF assms(1-3) s] by blast
    have v: "Load C True (adStore a) = Inr v" using ok(2) Load_ok by (auto simp: loadState_def split: sum.splits)
    show thesis
    proof (cases result)
      case (Inl e)
      with ok s assms(4,5) show thesis by (auto simp: changePasswordHandler_def stateWriteFailed_def fails)
    next
      case (Inr confirmed)
      with ok s assms(4) have "a' = b\<lparr>adSessions := []\<rparr>"
        by (auto simp: changePasswordHandler_def ClearSessions_def Let_def)
      with Inr l b ok v that show thesis by simp
    qed
  qed
qed

text \<open>C17. A password change that is answered below 400 takes full effect. The current password was
  verified; of the stored state only the password and the time of the update differ, and the live
  runtime and the allowlist do not. From then on no session cookie is accepted, whatever the request,
  and the password check of \<open>login\<close> lets a password through exactly if it is at most 128 bytes and
  Argon2id maps it to the digest of the new one, so the new one passes.\<close>

theorem password_changed:
  assumes "adminInv L C a" and "envOK E a" and "libraryLaws L C"
    and "changePasswordHandler L C J E r a = (w, a')" and "rsStatus w < 400"
  shows "\<exists>req v v' salt. decodeJSON (rcPassword J) r = Inr req \<and> enSalt E = Some salt \<and>
    Load C True (adStore a) = Inr v \<and> VerifyPassword L (pwCurrentPassword req) (asPassword (stAdmin v)) \<and>
    Load C True (adStore a') = Inr v' \<and> v' = withPassword (asPassword (stAdmin v')) v\<lparr>stUpdatedAt := stUpdatedAt v'\<rparr> \<and>
    adRuntime a' = adRuntime a \<and> adTransport a' = adTransport a \<and>
    (\<forall>E' r' isWrite handler. fst (requireSession L E' r' isWrite handler a') = adminUnauthorized r') \<and>
    VerifyPassword L (pwNewPassword req) (asPassword (stAdmin v')) \<and>
    (\<forall>p. VerifyPassword L p (asPassword (stAdmin v')) \<longleftrightarrow>
       length p \<le> 128 \<and> argon2id L p salt 3 32768 1 32 = argon2id L (pwNewPassword req) salt 3 32768 1 32)"
proof -
  from assms obtain req v h where f: "decodeJSON (rcPassword J) r = Inr req" "Load C True (adStore a) = Inr v"
    "VerifyPassword L (pwCurrentPassword req) (asPassword (stAdmin v))" "HashPassword L (enSalt E) (pwNewPassword req) = Some h"
    "Load C True (adStore a') = Inr (stamped (enNow E AtSave) (updatedState E (withPassword h v)))"
    "adRuntime a' = adRuntime a" "adTransport a' = adTransport a" "adSessions a' = []"
    by (rule changePassword_cases)
  obtain salt where salt: "enSalt E = Some salt" using f(4) by (cases "enSalt E") (auto simp: HashPassword_def split: if_splits)
  have law: "\<And>x. b64RawStdDecode L (b64RawStd L x) = Some x" "\<And>p s t m n k. length (argon2id L p s t m n k) = k"
    "length salt = passwordSaltSize"
    using assms(2,3) salt by (simp_all add: libraryLaws_def passwordLaw_def envOK_def)
  note verifies = HashPassword_verifies [OF law, of "pwNewPassword req" h]
  have "fst (requireSession L E' r' isWrite handler a') = adminUnauthorized r'" for E' r' isWrite handler
    by (simp add: requireSession_def sessionFromRequest_def f(8) Validate_def Let_def split: option.split)
  moreover have "asPassword (stAdmin (stamped (enNow E AtSave) (updatedState E (withPassword h v)))) = h"
    by (simp add: stamped_def updatedState_def withPassword_def)
  moreover have "stamped (enNow E AtSave) (updatedState E (withPassword h v)) =
      withPassword h v\<lparr>stUpdatedAt := stUpdatedAt (stamped (enNow E AtSave) (updatedState E (withPassword h v)))\<rparr>"
    by (simp add: stamped_def updatedState_def)
  ultimately show ?thesis using f salt verifies by (auto simp: passwordAcceptable_def)
qed

lemma login_session:
  assumes "enSessionRandom E = Some x" and "enCSRFRandom E = Some y" and "length (b64RawURL L x) \<le> 128"
    and "rCookie r' = Some (b64RawURL L x)" and "enNow E' AtSession < enNow E AtCreate + hour"
  shows "rsStatus (fst (loginFinish L E r a)) = 200"
    "\<exists>s. requireSession L E' r' False handler (snd (loginFinish L E r a)) = handler (a\<lparr>adSessions := s\<rparr>)"
proof -
  obtain k s where c: "Create L (enNow E AtCreate) (Some x) (Some y) (adSessions a) = (Some (b64RawURL L x, b64RawURL L y),
      AList.update (tokenKey L (b64RawURL L x)) \<lparr>ssCsrf = k, ssCreatedAt = enNow E AtCreate, ssLastSeen = enNow E AtCreate\<rparr> s)"
    by (simp add: Create_def randomToken_def Let_def)
  have "\<not> expired \<lparr>ssCsrf = k, ssCreatedAt = enNow E AtCreate, ssLastSeen = enNow E AtCreate\<rparr> (enNow E' AtSession)"
    using assms(5) by (simp add: not_expired duration_defs)
  then show "\<exists>s. requireSession L E' r' False handler (snd (loginFinish L E r a)) = handler (a\<lparr>adSessions := s\<rparr>)"
    using assms(1-4) c by (auto simp: loginFinish_def requireSession_def sessionFromRequest_def Validate_def Let_def update_conv')
  show "rsStatus (fst (loginFinish L E r a)) = 200"
    using assms(1,2) c by (simp add: loginFinish_def setSessionCookie_def WriteJSON_def)
qed

text \<open>C40. A login can outlive the password it was made with. If a password change is answered below 400
  between the password check of a login and the creation of its session, then the login is answered
  200 all the same and its cookie is accepted for an hour, though the change revoked every session and
  a password that Argon2id tells from the new one no longer verifies.\<close>

theorem login_outlives_change:
  assumes "adminInv L C a" and "envOK E' a" and "libraryLaws L C" and "loginCheck L C J E r a = (None, a1)"
    and "changePasswordHandler L C J' E' r' a1 = (w', a2)" and "rsStatus w' < 400"
    and "enSessionRandom E = Some x" and "enCSRFRandom E = Some y" and "length (b64RawURL L x) \<le> 128"
    and "rCookie r'' = Some (b64RawURL L x)" and "enNow E'' AtSession < enNow E AtCreate + hour"
  shows "\<exists>p req v salt. decodeJSON (rcLogin J) r = Inr p \<and> decodeJSON (rcPassword J') r' = Inr req \<and> enSalt E' = Some salt \<and>
    Load C True (adStore a2) = Inr v \<and>
    (argon2id L p salt 3 32768 1 32 \<noteq> argon2id L (pwNewPassword req) salt 3 32768 1 32 \<longrightarrow>
       \<not> VerifyPassword L p (asPassword (stAdmin v))) \<and>
    rsStatus (fst (loginFinish L E r a2)) = 200 \<and>
    (\<exists>s. requireSession L E'' r'' False handler (snd (loginFinish L E r a2)) = handler (a2\<lparr>adSessions := s\<rparr>))"
proof -
  have core: "sameCore a a1" using loginCheck_core [of a L C J E r] assms(4) by simp
  have a1: "adminInv L C a1" "envOK E' a1"
    using core assms(1,2) by (simp_all add: sameCore_def adminInv_def liveMatches_def envOK_def)
  from a1 assms(3,5,6) obtain req v h where f: "decodeJSON (rcPassword J') r' = Inr req"
    "HashPassword L (enSalt E') (pwNewPassword req) = Some h"
    "Load C True (adStore a2) = Inr (stamped (enNow E' AtSave) (updatedState E' (withPassword h v)))"
    by (rule changePassword_cases)
  obtain p where p: "decodeJSON (rcLogin J) r = Inr p"
    using assms(4) by (auto simp: loginCheck_def Let_def split: option.splits sum.splits prod.splits)
  obtain salt where salt: "enSalt E' = Some salt" using f(2) by (cases "enSalt E'") (auto simp: HashPassword_def split: if_splits)
  have law: "\<And>x. b64RawStdDecode L (b64RawStd L x) = Some x" "\<And>p s t m n k. length (argon2id L p s t m n k) = k"
    "length salt = passwordSaltSize"
    using assms(2,3) salt by (simp_all add: libraryLaws_def passwordLaw_def envOK_def)
  have "asPassword (stAdmin (stamped (enNow E' AtSave) (updatedState E' (withPassword h v)))) = h"
    by (simp add: stamped_def updatedState_def withPassword_def)
  with HashPassword_verifies(2) [OF law, of "pwNewPassword req" h p] f salt p login_session [OF assms(7-11)]
  show ?thesis by simp
qed

end
