(* ===== verification/Fixture.thy ===== *)
theory Fixture
  imports Lifecycle
begin

section \<open>The state fixture: \<open>internal/platform/state/testfixture/main.go\<close>\<close>

text \<open>
  The program that makes a schema v3 state directory and checks what a server and an offline command
  made of it. A volume is the disk of \<open>Disk\<close> with the owner of every file. \<open>fixtureEnv\<close> holds what random
  generators, clocks and encoders answer.
\<close>

definition fixtureOwner :: "nat \<times> nat" where "fixtureOwner = (65532, 65532)"

definition originalName :: bytes where "originalName = ''original-v3.json''"

record volume =
  vlDisk :: disk
  vlOwner :: "bytes \<Rightarrow> nat \<times> nat"

record fixtureEnv =
  fxPrivateKey :: "bytes option"
  fxMarshalKey :: "bytes \<Rightarrow> bytes option"
  fxPemEncode :: "bytes \<Rightarrow> bytes \<Rightarrow> bytes"
  fxSalt :: "bytes option"
  fxToken :: "bytes option"
  fxNow :: time
  fxTokenNow :: time
  fxEncode :: "stateV3 \<Rightarrow> bytes option"

datatype fixtureError =
    FixtureUsage
  | FixtureFailed bytes
  | NotPrivate bytes

text \<open>\<open>Truncate(time.Second)\<close>.\<close>

definition truncateSecond :: "time \<Rightarrow> time" where
  "truncateSecond t = t - t mod second"

subsection \<open>Making the fixture\<close>

text \<open>\<open>cacheV3\<close> and \<open>fixtureV3\<close> have the fields and JSON names of the store's own schema-3 types.\<close>

type_synonym cacheV3 = cacheStateV3

type_synonym fixtureV3 = stateV3

definition newFixture :: "golib \<Rightarrow> fixtureEnv \<Rightarrow> fixtureError + fixtureV3" where
  "newFixture L E =
     (case fxPrivateKey E of
        None \<Rightarrow> Inl (FixtureFailed ''generate Ed25519 key'')
      | Some privateKey \<Rightarrow>
          (case fxMarshalKey E privateKey of
             None \<Rightarrow> Inl (FixtureFailed ''encode Ed25519 key'')
           | Some encodedKey \<Rightarrow>
               (case HashPassword L (fxSalt E) ''fixture administrator password'' of
                  None \<Rightarrow> Inl (FixtureFailed ''generate Argon2id verifier'')
                | Some password \<Rightarrow>
                    (case fxToken E of
                       None \<Rightarrow> Inl (FixtureFailed ''generate device token'')
                     | Some rawToken \<Rightarrow>
                         (let defaults = DefaultCache
                          in Inr \<lparr>s3SchemaVersion = 3, s3UpdatedAt = truncateSecond (fxNow E),
                               s3Admin = \<lparr>asPassword = password, asPublicOrigins = [''https://admin.example.test'']\<rparr>,
                               s3QWeather = \<lparr>qwAPIHost = ''account.example.qweatherapi.com'', qwProjectID = ''fixture-project'',
                                 qwCredentialID = ''fixture-credential'', qwPrivateKeyPEM = fxPemEncode E ''PRIVATE KEY'' encodedKey,
                                 qwLanguage = ''zh'', qwUnit = ''m'', qwRequestTimeoutSeconds = 10, qwCircuitCooldownSeconds = 900\<rparr>,
                               s3Cache = \<lparr>c3CurrentTTL = caCurrentTTL defaults, c3CurrentStaleMax = caCurrentStaleMax defaults,
                                 c3HourlyTTL = caHourlyTTL defaults, c3HourlyStaleMax = caHourlyStaleMax defaults,
                                 c3DailyTTL = caDailyTTL defaults, c3DailyStaleMax = caDailyStaleMax defaults,
                                 c3MaxLocations = caMaxLocations defaults\<rparr>,
                               s3DeviceTokens = [\<lparr>dtID = ''device_fixture'', dtName = ''Fixture Device'', dtHash = HashToken L rawToken,
                                 dtCreatedAt = truncateSecond (fxTokenNow E)\<rparr>]\<rparr>)))))"

definition fixtureBytes :: "golib \<Rightarrow> fixtureEnv \<Rightarrow> fixtureError + bytes" where
  "fixtureBytes L E =
     (case newFixture L E of
        Inl e \<Rightarrow> Inl e
      | Inr fixture \<Rightarrow> (case fxEncode E fixture of None \<Rightarrow> Inl (FixtureFailed ''encode'') | Some contents \<Rightarrow> Inr contents))"

text \<open>The system calls on one file: \<open>pfWrite\<close> is how much a failing write took; \<open>pfProcess\<close> owns what is created.\<close>

record privateFaults =
  pfOpen :: bool
  pfWrite :: "nat option"
  pfChmod :: bool
  pfChown :: bool
  pfProcess :: "nat \<times> nat"

text \<open>\<open>os.WriteFile\<close> creates a file with the given mode, or empties the one that is there and keeps its mode.\<close>

definition openTruncated :: "bytes \<Rightarrow> nat \<Rightarrow> nat \<times> nat \<Rightarrow> volume \<Rightarrow> nat \<times> volume" where
  "openTruncated name mode process v =
     (let d = vlDisk v
      in case map_of (dkDir d) name of
           None \<Rightarrow> (dkNext d, v\<lparr>vlDisk := chmodFile (dkNext d) mode (createFile name d), vlOwner := (vlOwner v)(name := process)\<rparr>)
         | Some i \<Rightarrow> (i, v\<lparr>vlDisk := d\<lparr>dkData := (dkData d)(i := []), dkFlushed := (dkFlushed d)(i := None)\<rparr>\<rparr>))"

definition osWriteFile :: "privateFaults \<Rightarrow> bytes \<Rightarrow> bytes \<Rightarrow> nat \<Rightarrow> volume \<Rightarrow> bool \<times> volume" where
  "osWriteFile f name contents mode v =
     (if \<not> pfOpen f then (False, v)
      else (let (i, v) = openTruncated name mode (pfProcess f) v
            in case pfWrite f of
                 Some n \<Rightarrow> (False, v\<lparr>vlDisk := writeFile i (take n contents) (vlDisk v)\<rparr>)
               | None \<Rightarrow> (True, v\<lparr>vlDisk := writeFile i contents (vlDisk v)\<rparr>)))"

definition osChmod :: "bool \<Rightarrow> bytes \<Rightarrow> nat \<Rightarrow> volume \<Rightarrow> bool \<times> volume" where
  "osChmod ok name mode v =
     (case map_of (dkDir (vlDisk v)) name of
        None \<Rightarrow> (False, v)
      | Some i \<Rightarrow> if ok then (True, v\<lparr>vlDisk := chmodFile i mode (vlDisk v)\<rparr>) else (False, v))"

definition osChown :: "bool \<Rightarrow> bytes \<Rightarrow> nat \<times> nat \<Rightarrow> volume \<Rightarrow> bool \<times> volume" where
  "osChown ok name owner v =
     (if ok \<and> map_of (dkDir (vlDisk v)) name \<noteq> None then (True, v\<lparr>vlOwner := (vlOwner v)(name := owner)\<rparr>) else (False, v))"

definition writePrivate :: "privateFaults \<Rightarrow> bytes \<Rightarrow> bytes \<Rightarrow> volume \<Rightarrow> fixtureError option \<times> volume" where
  "writePrivate f name contents v =
     (case osWriteFile f name contents 0x180 v of
        (False, v) \<Rightarrow> (Some (FixtureFailed (''write '' @ name)), v)
      | (True, v) \<Rightarrow>
          (case osChmod (pfChmod f) name 0x180 v of
             (False, v) \<Rightarrow> (Some (FixtureFailed (''protect '' @ name)), v)
           | (True, v) \<Rightarrow>
               (case osChown (pfChown f) name fixtureOwner v of
                  (False, v) \<Rightarrow> (Some (FixtureFailed (''own '' @ name)), v)
                | (True, v) \<Rightarrow> (None, v))))"

fun writeNames :: "(bytes \<Rightarrow> privateFaults) \<Rightarrow> bytes \<Rightarrow> bytes list \<Rightarrow> volume \<Rightarrow> fixtureError option \<times> volume" where
  "writeNames f contents [] v = (None, v)"
| "writeNames f contents (name # names) v =
     (case writePrivate (f name) name contents v of
        (Some e, v) \<Rightarrow> (Some e, v)
      | (None, v) \<Rightarrow> writeNames f contents names v)"

definition writeVolume :: "golib \<Rightarrow> fixtureEnv \<Rightarrow> bool \<Rightarrow> bool \<Rightarrow> (bytes \<Rightarrow> privateFaults) \<Rightarrow> volume \<Rightarrow> fixtureError option \<times> volume" where
  "writeVolume L E chmodOk chownOk f v =
     (case fixtureBytes L E of
        Inl e \<Rightarrow> (Some e, v)
      | Inr contents \<Rightarrow>
          if \<not> chmodOk then (Some (FixtureFailed ''protect fixture directory''), v)
          else if \<not> chownOk then (Some (FixtureFailed ''own fixture directory''), v)
          else writeNames f contents [stateFile, originalName] v)"

subsection \<open>Checking a volume\<close>

text \<open>\<open>ok\<close> tells of every name whether \<open>os.ReadFile\<close> and \<open>os.Stat\<close> of an existing file succeed.\<close>

definition readVolume :: "(bytes \<Rightarrow> bool) \<Rightarrow> bytes \<Rightarrow> volume \<Rightarrow> fixtureError + bytes" where
  "readVolume ok name v =
     (case readFile (vlDisk v) name of
        None \<Rightarrow> Inl (FixtureFailed (''read '' @ name))
      | Some contents \<Rightarrow> if ok name then Inr contents else Inl (FixtureFailed (''read '' @ name)))"

definition fileMode :: "disk \<Rightarrow> bytes \<Rightarrow> nat option" where
  "fileMode d name = map_option (dkMode d) (map_of (dkDir d) name)"

definition verifyPrivate :: "(bytes \<Rightarrow> bool) \<Rightarrow> bytes \<Rightarrow> volume \<Rightarrow> fixtureError option" where
  "verifyPrivate ok name v =
     (case fileMode (vlDisk v) name of
        None \<Rightarrow> Some (FixtureFailed (''stat '' @ name))
      | Some mode \<Rightarrow>
          if \<not> ok name then Some (FixtureFailed (''stat '' @ name))
          else if mode \<noteq> 0x180 \<or> fst (vlOwner v name) \<noteq> fst fixtureOwner \<or> snd (vlOwner v name) \<noteq> snd fixtureOwner
          then Some (NotPrivate name) else None)"

fun verifyNames :: "(bytes \<Rightarrow> bool) \<Rightarrow> bytes list \<Rightarrow> volume \<Rightarrow> fixtureError option" where
  "verifyNames ok [] v = None"
| "verifyNames ok (name # names) v =
     (case verifyPrivate ok name v of Some e \<Rightarrow> Some e | None \<Rightarrow> verifyNames ok names v)"

text \<open>\<open>U\<close> is \<open>json.Unmarshal\<close> into a \<open>state.State\<close>, which is lenient where the store is strict.\<close>

definition verifyMigrated :: "(bytes \<Rightarrow> State option) \<Rightarrow> (bytes \<Rightarrow> bool) \<Rightarrow> volume \<Rightarrow> fixtureError option" where
  "verifyMigrated U ok v =
     (case readVolume ok stateFile v of
        Inl e \<Rightarrow> Some e
      | Inr current \<Rightarrow>
          (case U current of
             None \<Rightarrow> Some (FixtureFailed ''decode migrated state'')
           | Some value \<Rightarrow>
               if stSchemaVersion value \<noteq> SchemaVersion \<or> caAlertsTTL (stCache value) \<noteq> 600 \<or> caAlertsStaleMax (stCache value) \<noteq> 3600
               then Some (FixtureFailed ''unexpected migrated schema or alert cache defaults'')
               else (case readVolume ok originalName v of
                       Inl e \<Rightarrow> Some e
                     | Inr original \<Rightarrow>
                         (case readVolume ok migrationBackupName v of
                            Inl e \<Rightarrow> Some e
                          | Inr backup \<Rightarrow>
                              if original \<noteq> backup then Some (FixtureFailed ''schema-v3 migration backup differs from its source'')
                              else verifyNames ok [stateFile, migrationBackupName, originalName] v))))"

definition verifyRestored :: "codec \<Rightarrow> (bytes \<Rightarrow> bool) \<Rightarrow> volume \<Rightarrow> fixtureError option" where
  "verifyRestored C ok v =
     (case readVolume ok stateFile v of
        Inl e \<Rightarrow> Some e
      | Inr current \<Rightarrow>
          (case readVolume ok originalName v of
             Inl e \<Rightarrow> Some e
           | Inr original \<Rightarrow>
               if original \<noteq> current then Some (FixtureFailed ''restored state differs from the original schema-v3 fixture'')
               else if cdHeader C current \<noteq> Some 3 then Some (FixtureFailed ''restored state is not schema version 3'')
               else verifyPrivate ok stateFile v))"

text \<open>\<open>writeFixture\<close> prints the fixture; \<open>printOk\<close> is whether the write succeeds.\<close>

definition writeFixture :: "golib \<Rightarrow> fixtureEnv \<Rightarrow> bool \<Rightarrow> fixtureError option" where
  "writeFixture L E printOk =
     (case fixtureBytes L E of Inl e \<Rightarrow> Some e | Inr _ \<Rightarrow> if printOk then None else Some (FixtureFailed ''write''))"

text \<open>The dispatch of \<open>main\<close> over \<open>os.Args\<close> without the program's name; \<open>None\<close> is no error.\<close>

definition fixtureMain :: "golib \<Rightarrow> codec \<Rightarrow> fixtureEnv \<Rightarrow> (bytes \<Rightarrow> State option) \<Rightarrow> bool \<Rightarrow> bool \<Rightarrow> bool \<Rightarrow> (bytes \<Rightarrow> privateFaults) \<Rightarrow>
    (bytes \<Rightarrow> bool) \<Rightarrow> bytes list \<Rightarrow> volume \<Rightarrow> fixtureError option \<times> volume" where
  "fixtureMain L C E U printOk chmodOk chownOk f ok arguments v =
     (case arguments of
        [] \<Rightarrow> (writeFixture L E printOk, v)
      | [command, _] \<Rightarrow>
          if command = ''write-volume'' then writeVolume L E chmodOk chownOk f v
          else if command = ''verify-migrated'' then (verifyMigrated U ok v, v)
          else if command = ''verify-restored'' then (verifyRestored C ok v, v)
          else (Some FixtureUsage, v)
      | _ \<Rightarrow> (Some FixtureUsage, v))"

subsection \<open>The fixture is a migration candidate\<close>

text \<open>What the fixture needs of the encoders: a key and a text decode to what was encoded.\<close>

definition fixtureLaws :: "golib \<Rightarrow> codec \<Rightarrow> fixtureEnv \<Rightarrow> (bytes \<Rightarrow> State option) \<Rightarrow> bool" where
  "fixtureLaws L C E U \<longleftrightarrow>
     (\<forall>k x. fxMarshalKey E k = Some x \<longrightarrow> pemDecode L (fxPemEncode E ''PRIVATE KEY'' x) = Some (''PRIVATE KEY'', x, []) \<and>
        fxPemEncode E ''PRIVATE KEY'' x \<noteq> [] \<and> length (fxPemEncode E ''PRIVATE KEY'' x) \<le> 32 * 1024 \<and> parsePKCS8 L x = Some (Ed25519Key k)) \<and>
     (\<forall>v c. fxEncode E v = Some c \<longrightarrow> cdStateV3 C c = Some (v, AtEOF) \<and> cdHeader C c = Some (s3SchemaVersion v)) \<and>
     (\<forall>v c. cdEncode C v = Some c \<longrightarrow> U c = Some v)"

lemma fixtureBytes_Inr:
  assumes "fixtureBytes L E = Inr c"
  obtains v where "newFixture L E = Inr v" "fxEncode E v = Some c"
  using assms by (auto simp: fixtureBytes_def split: sum.splits option.splits)

lemma newFixture_Inr:
  assumes "newFixture L E = Inr v"
  obtains k x h raw where "fxMarshalKey E k = Some x" "HashPassword L (fxSalt E) ''fixture administrator password'' = Some h"
    "fxToken E = Some raw" "s3SchemaVersion v = 3" "s3Admin v = \<lparr>asPassword = h, asPublicOrigins = [''https://admin.example.test'']\<rparr>"
    "s3QWeather v = \<lparr>qwAPIHost = ''account.example.qweatherapi.com'', qwProjectID = ''fixture-project'',
       qwCredentialID = ''fixture-credential'', qwPrivateKeyPEM = fxPemEncode E ''PRIVATE KEY'' x,
       qwLanguage = ''zh'', qwUnit = ''m'', qwRequestTimeoutSeconds = 10, qwCircuitCooldownSeconds = 900\<rparr>"
    "stCache (migrateV3 v) = DefaultCache"
    "s3DeviceTokens v = [\<lparr>dtID = ''device_fixture'', dtName = ''Fixture Device'', dtHash = HashToken L raw, dtCreatedAt = truncateSecond (fxTokenNow E)\<rparr>]"
  using assms by (auto simp: newFixture_def migrateV3_def Let_def split: option.splits)

lemma newFixture_encoder [simp]: "newFixture L (E\<lparr>fxEncode := f\<rparr>) = newFixture L E"
proof -
  have fields: "fxPrivateKey (E\<lparr>fxEncode := f\<rparr>) = fxPrivateKey E" "fxMarshalKey (E\<lparr>fxEncode := f\<rparr>) = fxMarshalKey E"
    "fxPemEncode (E\<lparr>fxEncode := f\<rparr>) = fxPemEncode E" "fxSalt (E\<lparr>fxEncode := f\<rparr>) = fxSalt E" "fxToken (E\<lparr>fxEncode := f\<rparr>) = fxToken E"
    "fxNow (E\<lparr>fxEncode := f\<rparr>) = fxNow E" "fxTokenNow (E\<lparr>fxEncode := f\<rparr>) = fxTokenNow E" by simp_all
  show ?thesis unfolding newFixture_def fields ..
qed

lemma migrated_alerts:
  "caAlertsTTL (stCache (migrateV3 v)) = 600" "caAlertsStaleMax (stCache (migrateV3 v)) = 3600"
  "stSchemaVersion (migrateV3 v) = SchemaVersion" "stCache (stamped now w) = stCache w"
  by (simp_all add: migrateV3_def DefaultCache_def duration_defs stamped_def Let_def)

text \<open>A store whose state file is a v3 text.\<close>

lemma LoadCompatible_text:
  assumes "readFile (soDisk s) stateFile = Some c" "length c \<le> maximumSize" "cdHeader C c = Some 3" "cdStateV3 C c = Some (v, AtEOF)"
  shows "LoadCompatible C True s = Inr \<lparr>csState = migrateV3 v, csSourceVersion = previousSchema, csSource = c\<rparr>"
  using assms by (simp add: LoadCompatible_def readStateLocked_def readBounded_def schemaVersion_def decodeStateV3_def decodeStrict_def
      SchemaVersion_def previousSchema_def)

text \<open>The parts of the fixture, whatever keys, salts, tokens and clocks it is made with.\<close>

lemma fixture_device:
  assumes "\<And>x. length (sha256 L x) = 32"
  shows "credentialsFromState [\<lparr>dtID = ''device_fixture'', dtName = ''Fixture Device'', dtHash = HashToken L raw, dtCreatedAt = now\<rparr>] =
    Inr [\<lparr>crDeviceID = ''device_fixture'', crHash = sha256 L raw\<rparr>]"
proof -
  have pattern: "TrimSpace ''Fixture Device'' \<noteq> [] \<and> RuneCount ''Fixture Device'' \<le> 64 \<and> identifierPattern ''device_fixture''" by code_simp
  have "credentialOf \<lparr>dtID = ''device_fixture'', dtName = ''Fixture Device'', dtHash = HashToken L raw, dtCreatedAt = now\<rparr> =
      Some \<lparr>crDeviceID = ''device_fixture'', crHash = sha256 L raw\<rparr>"
    by (simp add: credentialOf_def CredentialFromHex_HashToken assms)
  with pattern show ?thesis by (auto simp: credentialsFromState_Inr tokenOK_def)
qed

lemma fixture_password:
  assumes "passwordLaw L" and "case salt of None \<Rightarrow> True | Some salt \<Rightarrow> length salt = passwordSaltSize"
    and "HashPassword L salt ''fixture administrator password'' = Some h"
  shows "ValidPasswordHash L h" "VerifyPassword L ''fixture administrator password'' h"
proof -
  obtain s where s: "salt = Some s" using assms(3) by (cases salt) (auto simp: HashPassword_def split: if_splits)
  have "length (''fixture administrator password'' :: bytes) \<le> 128" by simp
  moreover have law: "\<And>x. b64RawStdDecode L (b64RawStd L x) = Some x" "\<And>p s t m n k. length (argon2id L p s t m n k) = k"
    "length s = passwordSaltSize"
    using assms(1,2) s by (simp_all add: passwordLaw_def)
  ultimately show "ValidPasswordHash L h" "VerifyPassword L ''fixture administrator password'' h"
    using HashPassword_verifies [OF law, of "''fixture administrator password''" h] assms(3) s by simp_all
qed

text \<open>The names of the fixture are host names, whether or not they read as addresses.\<close>

lemma fixture_hosts:
  assumes "urlLaw L" and "h = ''account.example.qweatherapi.com'' \<or> h = ''admin.example.test''"
  shows "canonicalHost L h" "UrlParse L (''https://'' @ h) = Some (canonicalURL h [])"
proof -
  have names: "plainHost h \<and> visibleASCII h \<and> map lowerByte h = h \<and> h \<noteq> [] \<and> \<not> 253 < length h \<and>
      \<not> ContainsAny h [CHR '' '', CHR 0x09, CHR 0x0D, CHR 0x0A] \<and> list_all validLabel (Split CHR ''.'' h) \<and> hostPart h [] = h"
    using assms(2) by (elim disjE; hypsubst) code_simp+
  then show c: "canonicalHost L h" by (simp add: canonicalHost_def validPublicHostname_def)
  have "portOK ''https'' []" by (simp add: portOK_def)
  with assms(1) c names show "UrlParse L (''https://'' @ h) = Some (canonicalURL h [])" by (metis urlLaw_def)
qed

lemma fixture_origin:
  assumes "urlLaw L"
  shows "ValidatePublicOrigins L (NewTransportPolicy insecure proxy) [''https://admin.example.test''] = Inr [''https://admin.example.test'']"
proof -
  have "canonicalHTTPS L ''https://admin.example.test''" unfolding canonicalHTTPS_def
    by (rule exI [of _ "''admin.example.test''"], rule exI [of _ "[]"])
      (use fixture_hosts(1) [OF assms] in \<open>simp add: hostPart_def portOK_def\<close>)
  from NormalizePublicOrigin_fixpoint [OF _ this] assms
  have "NormalizePublicOrigin L ''https://admin.example.test'' = Some ''https://admin.example.test''" by (simp add: urlLaw_def)
  then show ?thesis by (simp add: ValidatePublicOrigins_def NormalizePublicOrigins_def MaximumPublicOrigins_def)
qed

lemma fixture_restartable:
  assumes "urlLaw L" and "ValidPasswordHash L h" and "stSchemaVersion v = SchemaVersion" and "asPassword (stAdmin v) = h"
    and "stQWeather v = \<lparr>qwAPIHost = ''account.example.qweatherapi.com'', qwProjectID = ''fixture-project'',
       qwCredentialID = ''fixture-credential'', qwPrivateKeyPEM = key,
       qwLanguage = ''zh'', qwUnit = ''m'', qwRequestTimeoutSeconds = 10, qwCircuitCooldownSeconds = 900\<rparr>"
    and "stCache v = DefaultCache" and "credentialsFromState (stDeviceTokens v) = Inr cs"
    and "PublicKeyFingerprint L key \<noteq> None" and "key \<noteq> []" "length key \<le> 32 * 1024"
  shows "restartable L v"
proof -
  have host: "ToLower u (TrimSpace ''account.example.qweatherapi.com'') = ''account.example.qweatherapi.com''" for u by code_simp
  have parts: "\<not> ContainsAny ''account.example.qweatherapi.com'' ''/:@?# '' \<and> HasSuffix ''account.example.qweatherapi.com'' ''.qweatherapi.com'' \<and>
      list_all validLabel (Split CHR ''.'' ''account.example.qweatherapi.com'') \<and>
      identifierPattern ''fixture-project'' \<and> identifierPattern ''fixture-credential'' \<and> validateCache DefaultCache = None" by code_simp
  have "validateQWeather L (stQWeather v) = None"
    using parts assms(8-10) by (simp add: assms(5) validateQWeather_def host Let_def)
  moreover have "newClient L (''https://'' @ qwAPIHost (stQWeather v)) (qwPrivateKeyPEM (stQWeather v)) (qwCredentialID (stQWeather v))
      (qwProjectID (stQWeather v)) (seconds (qwCircuitCooldownSeconds (stQWeather v))) \<noteq> None"
    using fixture_hosts(2) [OF assms(1), of "''account.example.qweatherapi.com''"] assms(8)
    by (simp add: assms(5) newClient_def canonicalURL_def hostPart_def newSigner_fingerprint(2))
  ultimately show ?thesis using parts assms(2-4,6,7) by (simp add: restartable_iff)
qed

lemma fixtureBytes_loads:
  assumes "fixtureBytes L E = Inr c" and "fixtureLaws L C E U" and "readFile (soDisk s) stateFile = Some c" and "length c \<le> maximumSize"
  obtains v where "newFixture L E = Inr v" "LoadCompatible C True s = Inr \<lparr>csState = migrateV3 v, csSourceVersion = previousSchema, csSource = c\<rparr>" "cdHeader C c = Some 3"
proof -
  obtain v where v: "newFixture L E = Inr v" "fxEncode E v = Some c" using assms(1) by (rule fixtureBytes_Inr)
  from v(1) have "s3SchemaVersion v = 3" by (rule newFixture_Inr)
  with v(2) assms(2) have "cdHeader C c = Some 3" "cdStateV3 C c = Some (v, AtEOF)" by (auto simp: fixtureLaws_def)
  from that [OF v(1) LoadCompatible_text [OF assms(3,4) this] this(1)] show thesis .
qed

lemma fixture_restarts:
  assumes "newFixture L E = Inr v" and "fixtureLaws L C E U" and "urlLaw L" and "passwordLaw L" and "\<And>x. length (sha256 L x) = 32"
    and "case fxSalt E of None \<Rightarrow> True | Some salt \<Rightarrow> length salt = passwordSaltSize"
  shows "restartable L (migrateV3 v)" "asPublicOrigins (stAdmin (migrateV3 v)) = [''https://admin.example.test'']"
    "VerifyPassword L ''fixture administrator password'' (asPassword (stAdmin (migrateV3 v)))" "stCache (migrateV3 v) = DefaultCache"
    "\<exists>token. fxToken E = Some token \<and>
       credentialsFromState (stDeviceTokens (migrateV3 v)) = Inr [\<lparr>crDeviceID = ''device_fixture'', crHash = sha256 L token\<rparr>]"
proof -
  from assms(1) obtain k x h raw where f: "fxMarshalKey E k = Some x" "HashPassword L (fxSalt E) ''fixture administrator password'' = Some h"
    "fxToken E = Some raw" "s3SchemaVersion v = 3" "s3Admin v = \<lparr>asPassword = h, asPublicOrigins = [''https://admin.example.test'']\<rparr>"
    "s3QWeather v = \<lparr>qwAPIHost = ''account.example.qweatherapi.com'', qwProjectID = ''fixture-project'',
       qwCredentialID = ''fixture-credential'', qwPrivateKeyPEM = fxPemEncode E ''PRIVATE KEY'' x,
       qwLanguage = ''zh'', qwUnit = ''m'', qwRequestTimeoutSeconds = 10, qwCircuitCooldownSeconds = 900\<rparr>"
    "stCache (migrateV3 v) = DefaultCache"
    "s3DeviceTokens v = [\<lparr>dtID = ''device_fixture'', dtName = ''Fixture Device'', dtHash = HashToken L raw, dtCreatedAt = truncateSecond (fxTokenNow E)\<rparr>]"
    by (rule newFixture_Inr)
  note h = fixture_password [OF assms(4,6) f(2)]
  have fields: "stSchemaVersion (migrateV3 v) = SchemaVersion" "stAdmin (migrateV3 v) = s3Admin v"
    "stQWeather (migrateV3 v) = s3QWeather v" "stDeviceTokens (migrateV3 v) = s3DeviceTokens v" by (simp_all add: migrateV3_def Let_def)
  have cred: "credentialsFromState (stDeviceTokens (migrateV3 v)) = Inr [\<lparr>crDeviceID = ''device_fixture'', crHash = sha256 L raw\<rparr>]"
    by (simp add: fields f(8) fixture_device assms(5))
  have key: "PublicKeyFingerprint L (fxPemEncode E ''PRIVATE KEY'' x) \<noteq> None" "fxPemEncode E ''PRIVATE KEY'' x \<noteq> []"
    "length (fxPemEncode E ''PRIVATE KEY'' x) \<le> 32 * 1024"
    using assms(2) f(1) by (simp_all add: fixtureLaws_def PublicKeyFingerprint_def)
  show "restartable L (migrateV3 v)"
    by (rule fixture_restartable [OF assms(3) h(1) _ _ _ f(7) cred key]) (simp_all add: fields f(5,6))
  show "asPublicOrigins (stAdmin (migrateV3 v)) = [''https://admin.example.test'']"
    "VerifyPassword L ''fixture administrator password'' (asPassword (stAdmin (migrateV3 v)))" "stCache (migrateV3 v) = DefaultCache"
    using f(5,7) h(2) fields(2) by simp_all
  show "\<exists>token. fxToken E = Some token \<and>
      credentialsFromState (stDeviceTokens (migrateV3 v)) = Inr [\<lparr>crDeviceID = ''device_fixture'', crHash = sha256 L token\<rparr>]"
    using f(3) cred by blast
qed

text \<open>C20. The fixture is a migration candidate. Whatever keys, salts, tokens and clocks it is made with,
  a state directory that holds its text loads as schema v3 with the alert windows of ten minutes and an
  hour added, and the server can start from it with or without a proxy in front: every check of a start
  passes. Its administrator signs in with the fixture's password, and its only device is let through with
  the token it was made for. Assumed: encoders are inverted by their decoders, digests have their length,
  \<open>url.Parse\<close> reads a canonical origin, and the text fits.\<close>

theorem fixture_candidate:
  assumes "fixtureBytes L E = Inr c" and "fixtureLaws L C E U" and "urlLaw L" and "passwordLaw L" and "\<And>x. length (sha256 L x) = 32"
    and "case fxSalt E of None \<Rightarrow> True | Some salt \<Rightarrow> length salt = passwordSaltSize"
    and "readFile (soDisk s) stateFile = Some c" and "length c \<le> maximumSize"
  shows "bootable L C proxy s \<and>
    (\<exists>v token. LoadCompatible C True s = Inr \<lparr>csState = v, csSourceVersion = 3, csSource = c\<rparr> \<and> stCache v = DefaultCache \<and>
       VerifyPassword L ''fixture administrator password'' (asPassword (stAdmin v)) \<and>
       fxToken E = Some token \<and> credentialsFromState (stDeviceTokens v) = Inr [\<lparr>crDeviceID = ''device_fixture'', crHash = sha256 L token\<rparr>])"
proof -
  obtain v where v: "newFixture L E = Inr v" and load: "LoadCompatible C True s = Inr \<lparr>csState = migrateV3 v, csSourceVersion = 3, csSource = c\<rparr>"
    using fixtureBytes_loads [OF assms(1,2,7,8)] by (metis previousSchema_def)
  note r = fixture_restarts [OF v assms(2-6)]
  have "bootable L C proxy s" using r(1,2) fixture_origin [OF assms(3)] by (simp add: bootable_def load)
  with load r(3-5) show ?thesis by auto
qed

subsection \<open>Private files\<close>

definition privateFile :: "volume \<Rightarrow> bytes \<Rightarrow> bytes \<Rightarrow> bool" where
  "privateFile v name contents \<longleftrightarrow> readFile (vlDisk v) name = Some contents \<and> fileMode (vlDisk v) name = Some 0x180 \<and>
     vlOwner v name = fixtureOwner"

lemma privateFile_checks:
  "privateFile v name contents \<Longrightarrow> ok name \<Longrightarrow> verifyPrivate ok name v = None"
  "privateFile v name contents \<Longrightarrow> ok name \<Longrightarrow> readVolume ok name v = Inr contents"
  by (simp_all add: privateFile_def verifyPrivate_def readVolume_def)

text \<open>A successful \<open>writePrivate\<close>. Files with the same contents stay private even as hard links of one another.\<close>

lemma writePrivate_spec:
  assumes "diskInv (vlDisk v)" and "writePrivate f name contents v = (None, v')"
  shows "diskInv (vlDisk v')" "privateFile v' name contents" "privateFile v p contents \<Longrightarrow> privateFile v' p contents"
proof -
  obtain i v1 where o: "openTruncated name 0x180 (pfProcess f) v = (i, v1)" by force
  have w: "v' = (let v2 = v1\<lparr>vlDisk := chmodFile i 0x180 (writeFile i contents (vlDisk v1))\<rparr> in v2\<lparr>vlOwner := (vlOwner v2)(name := fixtureOwner)\<rparr>)"
    and i: "map_of (dkDir (vlDisk v1)) name = Some i"
    using assms(2) o
    by (auto simp: writePrivate_def osWriteFile_def osChmod_def osChown_def openTruncated_def Let_def createFile_def setDir_def chmodFile_def
        writeFile_def split: option.splits if_splits prod.splits bool.splits)
  have old: "j < dkNext (vlDisk v)" if "map_of (dkDir (vlDisk v)) q = Some j" for q j
    using assms(1) that by (auto simp: diskInv_def)
  show "diskInv (vlDisk v')"
    using assms(1) o unfolding w
    by (auto simp: openTruncated_def Let_def diskInv_def createFile_def setDir_def chmodFile_def writeFile_def less_Suc_eq split: option.splits if_splits)
  show "privateFile v' name contents"
    using o i unfolding w
    by (auto simp: privateFile_def openTruncated_def Let_def readFile_def fileMode_def createFile_def setDir_def chmodFile_def writeFile_def
        split: option.splits)
  show "privateFile v' p contents" if "privateFile v p contents"
    using that o old unfolding w
    by (auto simp: privateFile_def openTruncated_def Let_def readFile_def fileMode_def createFile_def setDir_def chmodFile_def writeFile_def
        split: option.splits)
qed

lemma writeVolume_spec:
  assumes "diskInv (vlDisk v)" and "writeVolume L E chmodOk chownOk f v = (None, v')"
  obtains c where "fixtureBytes L E = Inr c" "diskInv (vlDisk v')" "privateFile v' stateFile c" "privateFile v' originalName c"
proof -
  obtain c where c: "fixtureBytes L E = Inr c" and w: "writeNames f c [stateFile, originalName] v = (None, v')"
    using assms(2) by (auto simp: writeVolume_def split: sum.splits if_splits)
  then obtain v1 where w1: "writePrivate (f stateFile) stateFile c v = (None, v1)"
    and w2: "writePrivate (f originalName) originalName c v1 = (None, v')"
    by (auto split: prod.splits option.splits)
  note s1 = writePrivate_spec [OF assms(1) w1]
  note s2 = writePrivate_spec [OF s1(1) w2]
  show thesis by (rule that [OF c s2(1) s2(3) [OF s1(2)] s2(2)])
qed

text \<open>The store's writes make private files and leave the others alone.\<close>

lemma atomicWrite_modes:
  assumes "diskInv d" and "tempOK f path d" and "atomicWriteContents f path contents d = (result, ds)" and "p \<noteq> path" "wfTemp f \<noteq> Some p"
  shows "fileMode (last ds) p = fileMode d p"
proof -
  have "fileMode (last ds) p = fileMode d p" if "map_of (dkDir d) p = None"
    using assms(3-5) that
    by (auto simp: atomicWriteContents_def abandon_def Let_def fileMode_def createFile_def setDir_def chmodFile_def writeFile_def syncFile_def
        renameFile_def removeFile_def syncDirectory_def split: option.splits if_splits)
  moreover have "fileMode (last ds) p = fileMode d p" if "map_of (dkDir d) p = Some j" "j \<noteq> dkNext d" for j
    using assms(3-5) that
    by (auto simp: atomicWriteContents_def abandon_def Let_def fileMode_def createFile_def setDir_def chmodFile_def writeFile_def syncFile_def
        renameFile_def removeFile_def syncDirectory_def split: option.splits if_splits)
  moreover have "j \<noteq> dkNext d" if "map_of (dkDir d) p = Some j" for j using assms(1) that by (auto simp: diskInv_def)
  ultimately show ?thesis by (cases "map_of (dkDir d) p") simp_all
qed

lemma storeWrite_private:
  assumes "diskInv (soDisk s)" and "tempOK f path (soDisk s)" and "storeWrite f path contents s = (Inr b, ds, s')"
  shows "readFile (soDisk s') path = Some contents" "fileMode (soDisk s') path = Some 0x180" "diskInv (soDisk s')"
    "p \<noteq> path \<Longrightarrow> wfTemp f \<noteq> Some p \<Longrightarrow> readFile (soDisk s') p = readFile (soDisk s) p \<and> fileMode (soDisk s') p = fileMode (soDisk s) p"
proof -
  note sw = storeWrite_spec [OF assms]
  note keeps = storeWrite_keeps [OF assms]
  note spec = atomicWrite_spec [OF assms(1,2) sw(1)]
  show "readFile (soDisk s') path = Some contents" "diskInv (soDisk s')" using keeps by simp_all
  show "fileMode (soDisk s') path = Some 0x180" using spec sw(2) by (simp add: fileMode_def)
  show "p \<noteq> path \<Longrightarrow> wfTemp f \<noteq> Some p \<Longrightarrow> readFile (soDisk s') p = readFile (soDisk s) p \<and> fileMode (soDisk s') p = fileMode (soDisk s) p"
    using keeps(3) atomicWrite_modes [OF assms(1,2) sw(1)] sw(2) by simp
qed

lemma storeWrite_privateFile:
  assumes "diskInv (soDisk s)" and "tempOK f path (soDisk s)" and "storeWrite f path contents s = (Inr b, ds, s')" and "own path = fixtureOwner"
  shows "diskInv (soDisk s')" "privateFile \<lparr>vlDisk = soDisk s', vlOwner = own\<rparr> path contents"
    "p \<noteq> path \<Longrightarrow> privateFile \<lparr>vlDisk = soDisk s, vlOwner = own\<rparr> p c \<Longrightarrow> privateFile \<lparr>vlDisk = soDisk s', vlOwner = own\<rparr> p c"
proof -
  note w = storeWrite_private [OF assms(1-3)]
  show "diskInv (soDisk s')" "privateFile \<lparr>vlDisk = soDisk s', vlOwner = own\<rparr> path contents"
    using w(1-3) assms(4) by (simp_all add: privateFile_def)
  show "privateFile \<lparr>vlDisk = soDisk s', vlOwner = own\<rparr> p c" if p: "p \<noteq> path" and c: "privateFile \<lparr>vlDisk = soDisk s, vlOwner = own\<rparr> p c"
  proof -
    have "map_of (dkDir (soDisk s)) p \<noteq> None" using c by (auto simp: privateFile_def fileMode_def)
    then have "wfTemp f \<noteq> Some p" using assms(2) by (auto simp: tempOK_def)
    with w(4) [OF p] c show ?thesis by (simp add: privateFile_def)
  qed
qed

text \<open>A migration leaves the source in the backup, next to what was there.\<close>

lemma migration_private:
  assumes "diskInv (soDisk s)" and "LoadCompatible C True s = Inr loaded" and "csSourceVersion loaded = previousSchema"
    and "startTempOK C E s" and "migrateLoaded C E loaded s = (None, s')"
    and "privateFile \<lparr>vlDisk = soDisk s, vlOwner = own\<rparr> originalName c"
    and "own stateFile = fixtureOwner" and "own migrationBackupName = fixtureOwner"
  obtains encoded where "cdEncode C (stamped (seSaveNow E) (csState loaded)) = Some encoded" "diskInv (soDisk s')"
    "privateFile \<lparr>vlDisk = soDisk s', vlOwner = own\<rparr> stateFile encoded"
    "privateFile \<lparr>vlDisk = soDisk s', vlOwner = own\<rparr> migrationBackupName (csSource loaded)"
    "privateFile \<lparr>vlDisk = soDisk s', vlOwner = own\<rparr> originalName c"
    "\<And>tmp. wfTemp (seStateFaults E) = Some tmp \<Longrightarrow> map_of (dkDir (soDisk s')) tmp = None"
proof -
  have names: "originalName \<noteq> stateFile" "originalName \<noteq> migrationBackupName" "migrationBackupName \<noteq> stateFile"
    by (simp_all add: originalName_def stateFile_def migrationBackupName_def)
  have tmp: "migrateTempOK (seBackupFaults E) (seStateFaults E) (csSource loaded) s" using assms(2,4) by (simp add: startTempOK_def)
  obtain b ds where m: "CommitMigration C (seBackupFaults E) (seStateFaults E) (seRereadOk E) (seSaveNow E) loaded s = (Inr b, ds, s')"
    using assms(3,5) by (auto simp: migrateLoaded_def commitStateMigration_def SchemaVersion_def previousSchema_def split: prod.splits sum.splits)
  then show thesis
  proof (cases rule: CommitMigration_cases)
    case (both ds1 s1 ds2)
    have t1: "tempOK (seBackupFaults E) migrationBackupName (soDisk s)" and t2: "tempOK (seStateFaults E) stateFile (soDisk s1)"
      using tmp both(1) by (simp_all add: migrateTempOK_def)
    note backup = storeWrite_privateFile [OF assms(1) t1 both(1), where own = own, OF assms(8)]
    from both(2) show thesis
    proof (cases rule: writeState_cases)
      case (wrote e)
      note state = storeWrite_privateFile [OF backup(1) t2 wrote(4), where own = own, OF assms(7)]
      have temp: "map_of (dkDir (soDisk s')) tmp = None" if "wfTemp (seStateFaults E) = Some tmp" for tmp
        using atomicWrite_spec [OF backup(1) t2 storeWrite_spec(1) [OF backup(1) t2 wrote(4)]] storeWrite_spec(2) [OF backup(1) t2 wrote(4)] that
        by (simp add: is_ok_def)
      from that [OF wrote(1) state(1,2) state(3) [OF names(3) backup(2)] state(3) [OF names(1) backup(3) [OF names(2) assms(6)]] temp]
      show thesis .
    qed simp
  qed simp_all
qed

lemma started_migration:
  assumes "appNew L C E cfg version d holder = (Inr a, d', holder')" and "LoadCompatible C True \<lparr>soDisk = d, soDurabilityConfirmed = True\<rparr> = Inr loaded"
  obtains s where "migrateLoaded C E loaded \<lparr>soDisk = d, soDurabilityConfirmed = True\<rparr> = (None, s)" "d' = soDisk s" "adStore a = s"
proof -
  obtain s where st: "startLocked L C E cfg version \<lparr>soDisk = d, soDurabilityConfirmed = True\<rparr> = (Inr a, s)" "d' = soDisk s"
    using assms(1) by (auto simp: appNew_def NewStore_def AcquireLock_def split: if_splits option.splits prod.splits sum.splits)
  from st(1) show thesis
  proof (cases rule: startLocked_cases)
    case fresh
    with assms(2) LoadCompatible_missing(1) show thesis by auto
  next
    case (started l p m s1)
    from buildManagement_cases [OF started(5)] have "s = s1" "adStore a = s1" by simp_all
    with started(1,4) st(2) assms(2) LoadCompatible_ok that show thesis by fastforce
  qed simp_all
qed

lemma runState_restores:
  assumes "runState L C E [''restore-v3-backup''] d None = (out, d', holder)" and "crError out = None" and "tempOK (ceFaults E) stateFile d"
    and "diskInv d" and "privateFile \<lparr>vlDisk = d, vlOwner = own\<rparr> migrationBackupName c"
    and "privateFile \<lparr>vlDisk = d, vlOwner = own\<rparr> originalName c'" and "own stateFile = fixtureOwner"
  shows "privateFile \<lparr>vlDisk = d', vlOwner = own\<rparr> stateFile c" "privateFile \<lparr>vlDisk = d', vlOwner = own\<rparr> originalName c'"
proof -
  let ?s = "\<lparr>soDisk = d, soDurabilityConfirmed = True\<rparr>"
  have "withStore L E ''stop mt-server before restoring the migration backup'' (restoreBody C E) d None = (out, d', holder)"
    using assms(1) by (simp add: runState_def)
  then obtain cfg out' s where b: "restoreBody C E cfg ?s = (out', s)" and d': "d' = soDisk s" and e: "crError out' = None"
    using assms(2) by (cases rule: withStore_cases) auto
  obtain confirmed ds where r: "RestoreV3Backup C (ceFaults E) (ceReadOk E) (ceBackupOk E) ?s = (Inr confirmed, ds, s)"
    using b e by (auto simp: restoreBody_def failWith_def split: prod.splits sum.splits)
  then obtain backup where w: "storeWrite (ceFaults E) stateFile backup ?s = (Inr confirmed, ds, s)" "readFile d migrationBackupName = Some backup"
    by (cases rule: RestoreV3Backup_cases) auto
  then have w: "storeWrite (ceFaults E) stateFile c ?s = (Inr confirmed, ds, s)" using assms(5) by (simp add: privateFile_def)
  have at: "diskInv (soDisk ?s)" "tempOK (ceFaults E) stateFile (soDisk ?s)" using assms(3,4) by simp_all
  note p = storeWrite_privateFile [OF at w, where own = own, OF assms(7)]
  from p(2) show "privateFile \<lparr>vlDisk = d', vlOwner = own\<rparr> stateFile c" by (simp add: d')
  from p(3) [of originalName c'] assms(6) show "privateFile \<lparr>vlDisk = d', vlOwner = own\<rparr> originalName c'"
    by (simp add: d' originalName_def stateFile_def)
qed

text \<open>C11. A volume made by \<open>write-volume\<close> passes through the migration and back. When a server comes up
  on it, \<open>verify-migrated\<close> accepts what it left: a state of the current schema, the original text in the
  backup, every file private. When the backup is then restored without an error, \<open>verify-restored\<close>
  accepts the volume, whose state file reads the original text again. Assumed: what encoders produce
  their decoders read, \<open>CreateTemp\<close> makes new files, the server and the command run as the fixture's
  owner, and existing files can be read.\<close>

theorem fixture_roundtrip:
  assumes "diskInv (vlDisk v)" and "writeVolume L F chmodOk chownOk f v = (None, v1)" and "fixtureLaws L C F U"
    and "fixtureBytes L F = Inr c" and "length c \<le> maximumSize"
    and "appNew L C S cfg version (vlDisk v1) holder = (Inr a, d2, holder2)"
    and "startTempOK C S \<lparr>soDisk = vlDisk v1, soDurabilityConfirmed = True\<rparr>"
    and "\<And>name. own name = fixtureOwner" and "\<And>name. ok name"
  shows "verifyMigrated U ok \<lparr>vlDisk = d2, vlOwner = own\<rparr> = None \<and>
    (runState L C E [''restore-v3-backup''] d2 None = (out, d3, holder3) \<longrightarrow> crError out = None \<longrightarrow> tempOK (ceFaults E) stateFile d2 \<longrightarrow>
       verifyRestored C ok \<lparr>vlDisk = d3, vlOwner = own\<rparr> = None \<and> readFile d3 stateFile = readFile (vlDisk v1) stateFile)"
proof -
  let ?s = "\<lparr>soDisk = vlDisk v1, soDurabilityConfirmed = True\<rparr>"
  have names: "originalName \<noteq> stateFile" by (simp add: originalName_def stateFile_def)
  have w: "diskInv (vlDisk v1)" "privateFile v1 stateFile c" "privateFile v1 originalName c"
    using writeVolume_spec [OF assms(1,2)] assms(4) by auto
  have read: "readFile (soDisk ?s) stateFile = Some c" using w(2) by (simp add: privateFile_def)
  obtain x where load: "LoadCompatible C True ?s = Inr \<lparr>csState = migrateV3 x, csSourceVersion = previousSchema, csSource = c\<rparr>"
    and header: "cdHeader C c = Some 3" by (rule fixtureBytes_loads [OF assms(4,3) read assms(5)])
  obtain s where m: "migrateLoaded C S \<lparr>csState = migrateV3 x, csSourceVersion = previousSchema, csSource = c\<rparr> ?s = (None, s)" and d2: "d2 = soDisk s"
    by (rule started_migration [OF assms(6) load])
  have orig: "privateFile \<lparr>vlDisk = soDisk ?s, vlOwner = own\<rparr> originalName c" using w(3) assms(8) by (simp add: privateFile_def)
  obtain e where e: "cdEncode C (stamped (seSaveNow S) (migrateV3 x)) = Some e" and inv: "diskInv d2"
    and p: "privateFile \<lparr>vlDisk = d2, vlOwner = own\<rparr> stateFile e" "privateFile \<lparr>vlDisk = d2, vlOwner = own\<rparr> migrationBackupName c"
      "privateFile \<lparr>vlDisk = d2, vlOwner = own\<rparr> originalName c"
    by (rule migration_private [OF _ load _ assms(7) m orig]) (use w(1) assms(8) d2 in simp_all)
  have "U e = Some (stamped (seSaveNow S) (migrateV3 x))" using e assms(3) by (simp add: fixtureLaws_def)
  then have migrated: "verifyMigrated U ok \<lparr>vlDisk = d2, vlOwner = own\<rparr> = None"
    using p [THEN privateFile_checks(1)] p [THEN privateFile_checks(2)] assms(9) by (simp add: verifyMigrated_def migrated_alerts)
  have "verifyRestored C ok \<lparr>vlDisk = d3, vlOwner = own\<rparr> = None \<and> readFile d3 stateFile = Some c"
    if "runState L C E [''restore-v3-backup''] d2 None = (out, d3, holder3)" "crError out = None" "tempOK (ceFaults E) stateFile d2"
    using runState_restores [OF that inv p(2,3)] assms(8,9) header
    by (auto simp: verifyRestored_def privateFile_checks privateFile_def)
  with migrated read show ?thesis by simp
qed

end
