(* ===== verification/AdminExample.thy ===== *)
theory AdminExample
  imports AdminTokens
begin

section \<open>A server set up from nothing\<close>

text \<open>
  A concrete run of the management API over a library of toy primitives: a server without a state
  file is set up over TLS from its own origin. The theorems of \<open>AdminSafety\<close> and \<open>AdminTokens\<close> are
  applied to it.
\<close>

definition adminLib :: golib where
  "adminLib = originLib\<lparr>sha256 := sha256 padLib, argon2id := argon2id toyLib\<rparr>"

definition runLocation :: testLocationInput where
  "runLocation = \<lparr>tlLatitude = Some (Fin 0), tlLongitude = Some (Fin 0), tlCity = [], tlRegion = [], tlCountry = [], tlTimezone = []\<rparr>"

definition runQWeather :: qweatherInput where
  "runQWeather = \<lparr>qiAPIHost = ''a.qweatherapi.com'', qiProjectID = ''P'', qiCredentialID = ''C'', qiPrivateKeyPEM = ''K'',
     qiTestLocation = Some runLocation\<rparr>"

definition runSetup :: setupRequest where
  "runSetup = \<lparr>suPassword = ''correct horse'', suQWeather = runQWeather, suDeviceName = ''d'', suAdminOrigins = []\<rparr>"

definition runCurrent :: Current where
  "runCurrent = \<lparr>cuObservedAt = 0, cuTemperatureC = Fin 0, cuFeelsLikeC = Fin 0, cuConditionCode = [], cuConditionText = [],
     cuWindDegrees = Fin 0, cuWindDirection = [], cuWindScale = [], cuWindSpeedKMH = Fin 0, cuHumidityPercent = Fin 0,
     cuPrecipitationMM = Fin 0, cuPressureHPA = Fin 0, cuVisibilityKM = Fin 0, cuCloudPercent = None, cuDewPointC = None\<rparr>"

definition runEnv :: adminEnv where
  "runEnv = \<lparr>enNow = (\<lambda>_. 5), enReadOk = True, enStatOk = True, enFaults = noFaults, enSalt = Some ''0123456789abcdef'',
     enTokenRandom = Some ''one'', enIDRandom = Some ''i'', enSessionRandom = Some ''s'', enCSRFRandom = Some ''c'',
     enFetch = (\<lambda>_ _ _. Inr \<lparr>prUpdatedAt = 1, prData = DCurrent runCurrent\<rparr>), enLocalize = (\<lambda>_ _. None)\<rparr>"

definition runHash :: PasswordHash where
  "runHash = the (HashPassword adminLib (enSalt runEnv) ''correct horse'')"

definition runDevice :: DeviceToken where
  "runDevice = \<lparr>dtID = ''device_i'', dtName = ''d'', dtHash = HashToken adminLib ''mt_one'', dtCreatedAt = 5\<rparr>"

definition configuredState :: State where
  "configuredState = setupValue adminLib runEnv runSetup [] runHash runDevice"

definition runCodec :: codec where
  "runCodec = \<lparr>cdEncode = (\<lambda>v. if v = configuredState then Some ''state'' else None), cdHeader = (\<lambda>_. Some 4),
     cdState = (\<lambda>_. Some (configuredState, AtEOF)), cdStateV3 = (\<lambda>_. None)\<rparr>"

definition runBodies :: requestCodec where
  "runBodies = \<lparr>rcSetup = (\<lambda>_. Some (runSetup, AtEOF)), rcQWeather = (\<lambda>_. None), rcLogin = (\<lambda>_. None), rcToken = (\<lambda>_. None),
     rcPassword = (\<lambda>_. None), rcOrigin = (\<lambda>_. None)\<rparr>"

definition runRequest :: request where
  "runRequest = emptyRequest\<lparr>rTLS := True, rHost := ''a'',
     rHeader := (\<lambda>h. if h = ''Origin'' then [''https://a''] else if h = ''X-CSRF-Token'' then [''p''] else [])\<rparr>"

definition bootAdmin :: admin where
  "bootAdmin = the (newAdmin adminLib (Some ''p'') \<lparr>soDisk = emptyDisk, soDurabilityConfirmed = True\<rparr>
     (NewRuntimeManager None [] [] False) NewSessions (NewTransportPolicy False False) ''v'')"

definition setupAnswer :: "response \<times> admin" where
  "setupAnswer = adminServe adminLib runCodec runBodies runEnv runRequest SetupRoute bootAdmin"

subsection \<open>The assumptions hold\<close>

lemma adminLib_parts [simp]:
  "UrlParse adminLib = UrlParse originLib" "ulow adminLib = ulow originLib" "b64RawURL adminLib = (\<lambda>s. s)"
  "PublicKeyFingerprint adminLib x = Some (sha256 adminLib x)" "newSigner adminLib x c p \<noteq> None"
  "b64RawStd adminLib = (\<lambda>s. s)" "b64RawStdDecode adminLib = Some"
  "IsIP adminLib = IsIP originLib"
  by (simp_all add: adminLib_def originLib_def emptyLib_def PublicKeyFingerprint_def newSigner_def)

lemma adminLib_digest: "length (sha256 adminLib x) = 32"
  by (simp add: adminLib_def padLib_def)

lemma validPublicHostname_cong: "IsIP L = IsIP K \<Longrightarrow> validPublicHostname L h = validPublicHostname K h"
  by (simp add: validPublicHostname_def)

lemma runCodec_law: "codecLaw runCodec v"
  by (simp add: codecLaw_def runCodec_def configuredState_def setupValue_def SchemaVersion_def)

lemma run_laws: "libraryLaws adminLib runCodec"
proof -
  have "canonicalHost adminLib h = canonicalHost originLib h" for h
    using validPublicHostname_cong [of adminLib originLib h] by (simp add: canonicalHost_def)
  then have "urlLaw adminLib" using originLib_law by (simp add: urlLaw_def)
  moreover have "passwordLaw adminLib" by (auto simp: passwordLaw_def) (simp add: adminLib_def toyLib_def)
  ultimately show ?thesis by (simp add: libraryLaws_def runCodec_law)
qed

lemma run_env: "envOK runEnv bootAdmin" "bodyOK adminLib runBodies runRequest"
  by (simp_all add: envOK_def runEnv_def bootAdmin_def newAdmin_def tempOK_def noFaults_def emptyDisk_def stateFile_def
      password_defs bodyOK_def runBodies_def runSetup_def plainOrigins_def)

lemma run_boot: "adminReachable adminLib runCodec bootAdmin"
  by (rule adminReachable.boot [where random = "Some ''p''" and s = "\<lparr>soDisk = emptyDisk, soDurabilityConfirmed = True\<rparr>"
        and geoIP = None and header = "[]" and nets = "[]" and cloudflare = False and allowInsecure = False and proxy = False
        and version = "''v''"])
    (simp_all add: bootAdmin_def newAdmin_def diskInv_def emptyDisk_def initialized_def readFile_def)

subsection \<open>The run\<close>

lemma runHash_eq: "HashPassword adminLib (enSalt runEnv) ''correct horse'' = Some runHash" "ValidPasswordHash adminLib runHash"
proof -
  have "passwordAcceptable ''correct horse''" by code_simp
  then have "\<exists>h. HashPassword adminLib (enSalt runEnv) ''correct horse'' = Some h"
    by (simp add: HashPassword_def runEnv_def Let_def)
  then show e: "HashPassword adminLib (enSalt runEnv) ''correct horse'' = Some runHash" by (auto simp: runHash_def)
  have "passwordLaw adminLib" using run_laws by (simp add: libraryLaws_def)
  then show "ValidPasswordHash adminLib runHash"
    by (rule HashPassword_valid [of _ "''0123456789abcdef''" "''correct horse''"])
      (use e in \<open>simp_all add: runEnv_def password_defs\<close>)
qed

lemma runDevice_eq: "newDeviceToken adminLib (enTokenRandom runEnv) (enIDRandom runEnv) (enNow runEnv AtToken) ''d'' = Inr (''mt_one'', runDevice)"
proof -
  have "TrimSpace ''d'' = ''d'' \<and> \<not> 64 < RuneCount ''d''" by code_simp
  then show ?thesis by (simp add: newDeviceToken_def runEnv_def runDevice_def Let_def)
qed

lemma configuredState_fields:
  "stSchemaVersion configuredState = 4" "asPassword (stAdmin configuredState) = runHash" "asPublicOrigins (stAdmin configuredState) = []"
  "stCache configuredState = DefaultCache" "stDeviceTokens configuredState = [runDevice]"
  "stQWeather configuredState = \<lparr>qwAPIHost = ''a.qweatherapi.com'', qwProjectID = ''P'', qwCredentialID = ''C'', qwPrivateKeyPEM = ''K'',
     qwLanguage = ''zh'', qwUnit = ''m'', qwRequestTimeoutSeconds = 10, qwCircuitCooldownSeconds = 900\<rparr>"
proof -
  have "qweatherState adminLib runQWeather [] = \<lparr>qwAPIHost = ''a.qweatherapi.com'', qwProjectID = ''P'', qwCredentialID = ''C'',
     qwPrivateKeyPEM = ''K'', qwLanguage = ''zh'', qwUnit = ''m'', qwRequestTimeoutSeconds = 10, qwCircuitCooldownSeconds = 900\<rparr>"
    by code_simp
  then show "stSchemaVersion configuredState = 4" "asPassword (stAdmin configuredState) = runHash" "asPublicOrigins (stAdmin configuredState) = []"
    "stCache configuredState = DefaultCache" "stDeviceTokens configuredState = [runDevice]"
    "stQWeather configuredState = \<lparr>qwAPIHost = ''a.qweatherapi.com'', qwProjectID = ''P'', qwCredentialID = ''C'', qwPrivateKeyPEM = ''K'',
     qwLanguage = ''zh'', qwUnit = ''m'', qwRequestTimeoutSeconds = 10, qwCircuitCooldownSeconds = 900\<rparr>"
    by (simp_all add: configuredState_def setupValue_def runSetup_def SchemaVersion_def)
qed

lemma runDevice_ok: "tokenOK runDevice"
proof -
  have "TrimSpace ''d'' \<noteq> [] \<and> \<not> 64 < RuneCount ''d'' \<and> identifierPattern ''device_i''" by code_simp
  moreover have "credentialOf runDevice \<noteq> None"
    by (simp add: credentialOf_def runDevice_def CredentialFromHex_HashToken adminLib_digest)
  ultimately show ?thesis by (simp add: tokenOK_def) (simp add: runDevice_def)
qed

lemma configuredState_restartable: "restartable adminLib configuredState"
proof -
  have "validateQWeather adminLib (stQWeather configuredState) = None"
  proof -
    have h: "ToLower (ulow originLib) (TrimSpace ''a.qweatherapi.com'') = ''a.qweatherapi.com''" by code_simp
    have l: "list_all validLabel (Split CHR ''.'' ''a.qweatherapi.com'')" by code_simp
    have n: "\<not> ContainsAny ''a.qweatherapi.com'' ''/:@?# '' \<and> HasSuffix ''a.qweatherapi.com'' ''.qweatherapi.com''" by code_simp
    have p: "identifierPattern ''P'' \<and> identifierPattern ''C''" by code_simp
    show ?thesis unfolding validateQWeather_def Let_def configuredState_fields using h l n p by simp
  qed
  moreover have "validateCache (stCache configuredState) = None"
    by (simp add: configuredState_fields validateCache_def DefaultCache_def hour_def minute_def second_def)
  moreover have "credentialsFromState (stDeviceTokens configuredState) = Inr [the (credentialOf runDevice)]"
    by (simp add: configuredState_fields credentialsFromState_Inr runDevice_ok)
  moreover have "newClient adminLib (''https://'' @ qwAPIHost (stQWeather configuredState)) (qwPrivateKeyPEM (stQWeather configuredState)) (qwCredentialID (stQWeather configuredState)) (qwProjectID (stQWeather configuredState)) t \<noteq> None" for t
  proof -
    have "case UrlParse originLib ''https://a.qweatherapi.com'' of None \<Rightarrow> False | Some u \<Rightarrow>
        uScheme u \<noteq> [] \<and> uHost u \<noteq> [] \<and> uRawQuery u = [] \<and> uFragment u = []" by code_simp
    then show ?thesis by (auto simp: newClient_def configuredState_fields split: option.splits)
  qed
  ultimately show ?thesis unfolding restartable_iff by (simp add: configuredState_fields runHash_eq SchemaVersion_def)
qed

lemma run_tested: "\<exists>tested b. testCandidate adminLib runEnv configuredState (Some runLocation) (bootAdmin\<lparr>adSetupLimit := l\<rparr>) = (Inr tested, b) \<and>
    adSessions b = NewSessions \<and> adStore b = adStore bootAdmin \<and> adRuntime b = adRuntime bootAdmin"
proof -
  obtain provider options credentials where b: "buildComponents adminLib configuredState = Inr (provider, options, credentials)"
    using configuredState_restartable by (auto simp: restartable_def)
  have t: "TrimSpace [] = []" by code_simp
  have "\<exists>q. Normalize (emptyPoint\<lparr>Latitude := Fin 0, Longitude := Fin 0, City := [], Region := [], Country := [], Timezone := []\<rparr>) = Inr q"
    by (auto simp: Normalize_Inr badCoordinate_def isNaN_def isInf_def metaFields_def emptyPoint_def fval_def t)
  then obtain q where q: "Normalize (emptyPoint\<lparr>Latitude := Fin 0, Longitude := Fin 0, City := [], Region := [], Country := [],
      Timezone := []\<rparr>) = Inr q" by blast
  have l: "\<exists>l. LimiterAllow 5 (NewLimiter 6 minute) = (True, l)" by (simp add: LimiterAllow_def NewLimiter_def IsZero_def Let_def)
  have tp: "testPoint (Some runLocation) = Some (emptyPoint\<lparr>Latitude := Fin 0, Longitude := Fin 0, City := [], Region := [],
      Country := [], Timezone := []\<rparr>)" by (simp add: testPoint_def runLocation_def)
  have "\<exists>tested. RuntimeTest adminLib 5 (enFetch runEnv) (enLocalize runEnv) configuredState (testPoint (Some runLocation)) = Inr tested"
    unfolding tp by (simp add: RuntimeTest_def b q Let_def) (simp add: runEnv_def)
  with l tp show ?thesis
    by (auto simp: testCandidate_def bootAdmin_def newAdmin_def Let_def) (auto simp: runEnv_def)
qed

lemma run_guards:
  "AllowWrite (adTransport bootAdmin) runRequest" "csrfMatches bootAdmin runRequest"
  "SetupOriginAllowed adminLib (adTransport bootAdmin) runRequest []"
  "ValidatePublicOrigins adminLib (adTransport bootAdmin) [] = Inr []"
proof -
  have s: "canonicalOrigin adminLib ''https://a'' = Some ''https://a'' \<and> TrimSpace ''https://a'' = ''https://a''" by code_simp
  note parts = bootAdmin_def newAdmin_def NewTransportPolicy_def ReplacePublicOrigins_def runRequest_def HeaderGet_def
    HeaderValues_def
  show "AllowWrite (adTransport bootAdmin) runRequest" by (simp add: AllowWrite_def Secure_def parts)
  show "csrfMatches bootAdmin runRequest" by (simp add: csrfMatches_def parts Let_def)
  show "SetupOriginAllowed adminLib (adTransport bootAdmin) runRequest []"
    by (simp add: SetupOriginAllowed_def SameOrigin_def RequestOrigin_def Secure_def parts s)
  show "ValidatePublicOrigins adminLib (adTransport bootAdmin) [] = Inr []"
    by (simp add: ValidatePublicOrigins_def NormalizePublicOrigins_def parts)
qed

lemma run_guard: "\<exists>l. preparePublicWriteWithoutOrigin 5 runRequest bootAdmin (adSetupLimit bootAdmin) = (None, l)"
  using run_guards by (simp add: preparePublicWriteWithoutOrigin_def)
    (simp add: bootAdmin_def newAdmin_def LimiterAllow_def NewLimiter_def IsZero_def Let_def)

lemma run_commit:
  assumes "adStore a = adStore bootAdmin"
  shows "\<exists>s. commitState runCodec runEnv configuredState a = (Inr True, a\<lparr>adStore := s\<rparr>) \<and> Load runCodec True s = Inr configuredState"
proof -
  let ?s = "\<lparr>soDisk = emptyDisk, soDurabilityConfirmed = True\<rparr>"
  have z: "stUpdatedAt configuredState = 5" by (simp add: configuredState_def setupValue_def runEnv_def)
  have e: "cdEncode runCodec configuredState = Some ''state''" by (simp add: runCodec_def)
  have s: "adStore bootAdmin = ?s" by (simp add: bootAdmin_def newAdmin_def)
  have "\<exists>d s'. CommitInitial runCodec noFaults True 5 configuredState ?s = (Inr True, d, s')"
    by (simp add: CommitInitial_def initialized_def emptyDisk_def readFile_def writeStateLocked_def stamped_def z e IsZero_def
        zero_time_def configuredState_fields SchemaVersion_def atomicWrite_def maximumSize_def storeWrite_def
        atomicWriteContents_def noFaults_def Let_def)
  then obtain d s' where "CommitInitial runCodec noFaults True 5 configuredState ?s = (Inr True, d, s')" by blast
  then have c: "commitState runCodec runEnv configuredState a = (Inr True, a\<lparr>adStore := s'\<rparr>)"
    by (simp add: commitState_def assms s runEnv_def)
  have "adminInv adminLib runCodec a"
    by (simp add: adminInv_def assms s diskInv_def emptyDisk_def Load_uninitialized initialized_def readFile_def)
  moreover have "envOK runEnv a" using run_env(1) by (simp add: envOK_def assms)
  ultimately have "Load runCodec True s' = Inr (stamped (enNow runEnv AtSave) configuredState)"
    using commitState_spec [OF _ _ run_laws c] by (cases a) auto
  with c show ?thesis by (intro exI [of _ s']) (simp add: stamped_def z IsZero_def zero_time_def)
qed

lemma run_answer:
  obtains w a where "setupAnswer = (w, a)" "rsStatus w = 201" "Load runCodec True (adStore a) = Inr configuredState"
proof -
  obtain l where l: "preparePublicWriteWithoutOrigin 5 runRequest bootAdmin (adSetupLimit bootAdmin) = (None, l)"
    using run_guard by blast
  let ?a = "bootAdmin\<lparr>adSetupLimit := l\<rparr>"
  obtain tested b where t: "testCandidate adminLib runEnv configuredState (Some runLocation) ?a = (Inr tested, b)"
    "adSessions b = NewSessions" "adStore b = adStore bootAdmin" "adRuntime b = adRuntime bootAdmin" using run_tested by blast
  obtain p m where p: "Prepare adminLib 5 configuredState (adRuntime b) = (Inr p, m)"
    using configuredState_restartable by (auto simp: restartable_def Prepare_def Let_def)
  obtain k c s where c: "Create adminLib 5 (Some ''s'') (Some ''c'') NewSessions = (Some (k, c), s)"
    by (simp add: Create_def randomToken_def Let_def)
  obtain st where st: "commitState runCodec runEnv configuredState (b\<lparr>adRuntime := m, adSessions := s\<rparr>) =
      (Inr True, b\<lparr>adRuntime := m, adSessions := s, adStore := st\<rparr>)" "Load runCodec True st = Inr configuredState"
    using run_commit [of "b\<lparr>adRuntime := m, adSessions := s\<rparr>"] t(3) by auto
  have n: "enNow runEnv x = 5" "enSessionRandom runEnv = Some ''s''" "enCSRFRandom runEnv = Some ''c''" for x
    by (simp_all add: runEnv_def)
  have commit: "setupCommit adminLib runCodec runEnv runRequest configuredState [] ''mt_one'' runDevice tested b = (w, a) \<Longrightarrow>
      rsStatus w = 201 \<and> Load runCodec True (adStore a) = Inr configuredState" for w a
    using p c st by (auto simp: setupCommit_def n t(2) Let_def reportWriteResult_def setSessionCookie_def setupReply_def activateChange_def WriteJSON_def
        split: prod.splits)
  have d: "decodeJSON (rcSetup runBodies) runRequest = Inr runSetup"
    by (simp add: decodeJSON_def runBodies_def runRequest_def emptyRequest_def)
  have su: "suAdminOrigins runSetup = []" "suPassword runSetup = ''correct horse''" "suDeviceName runSetup = ''d''"
    "qiTestLocation (suQWeather runSetup) = Some runLocation" by (simp_all add: runSetup_def runQWeather_def)
  have ad: "adTransport ?a = adTransport bootAdmin" "adStore ?a = adStore bootAdmin" by simp_all
  have busy: "\<not> passwordBusy ?a" by (simp add: passwordBusy_def bootAdmin_def newAdmin_def)
  have load: "Load runCodec ok (adStore bootAdmin) = Inl ErrNotInitialized" for ok
    by (simp add: Load_uninitialized initialized_def readFile_def bootAdmin_def newAdmin_def emptyDisk_def)
  have "setupAnswer = setupCommit adminLib runCodec runEnv runRequest configuredState [] ''mt_one'' runDevice tested b"
    using runDevice_eq
    by (simp add: setupAnswer_def setupHandler_def n l Let_def ad load d su run_guards busy runHash_eq t(1)
      flip: configuredState_def)
  then show thesis using commit [of "fst setupAnswer" "snd setupAnswer"] that [of "fst setupAnswer" "snd setupAnswer"] by simp
qed

lemma run_reach: "adminReachable adminLib runCodec (snd setupAnswer)"
  by (rule adminReachable.request [OF run_boot run_env(1), of runBodies runRequest SetupRoute "fst setupAnswer"])
    (simp_all add: run_env setupAnswer_def)

lemma run_configured: "rsStatus (fst setupAnswer) = 201" "Load runCodec True (adStore (snd setupAnswer)) = Inr configuredState"
proof -
  obtain w a where "setupAnswer = (w, a)" "rsStatus w = 201" "Load runCodec True (adStore a) = Inr configuredState" by (rule run_answer)
  note facts = this
  show "rsStatus (fst setupAnswer) = 201" unfolding facts(1) fst_conv by (rule facts(2))
  show "Load runCodec True (adStore (snd setupAnswer)) = Inr configuredState" unfolding facts(1) snd_conv by (rule facts(3))
qed

lemma boot_unconfigured: "Load runCodec ok (adStore bootAdmin) = Inl ErrNotInitialized"
  by (simp add: Load_uninitialized initialized_def readFile_def bootAdmin_def newAdmin_def emptyDisk_def)

text \<open>The state file of the run, and a codec for one more state.\<close>

definition twoCodec :: "State \<Rightarrow> codec" where
  "twoCodec v = \<lparr>cdEncode = (\<lambda>x. if x = configuredState then Some ''state'' else if x = v then Some ''other'' else None),
     cdHeader = (\<lambda>_. Some 4), cdState = (\<lambda>t. Some (if t = ''state'' then configuredState else v, AtEOF)), cdStateV3 = (\<lambda>_. None)\<rparr>"

definition stateStore :: Store where
  "stateStore = \<lparr>soDisk = oneFile stateFile ''state'', soDurabilityConfirmed = True\<rparr>"

lemma twoCodec_law: "stSchemaVersion v = 4 \<Longrightarrow> codecLaw (twoCodec v) x"
  by (simp add: codecLaw_def twoCodec_def configuredState_fields)

lemma twoCodec_encode: "\<exists>c. cdEncode (twoCodec v) v = Some c \<and> length c = 5"
  by (simp add: twoCodec_def)

lemma stateStore_load: "Load (twoCodec v) True stateStore = Inr configuredState"
  by (simp add: stateStore_def Load_def readStateLocked_def readBounded_def readFile_def oneFile_def maximumSize_def twoCodec_def
      schemaVersion_def decodeState_def decodeStrict_def SchemaVersion_def)

lemma stateStore_saves:
  assumes "stSchemaVersion v = 4" and "stamped now v = w"
  shows "\<exists>s ds. Save (twoCodec w) noFaults True now v stateStore = (Inr True, ds, s)"
proof -
  obtain c where "cdEncode (twoCodec w) w = Some c" "length c = 5" using twoCodec_encode by blast
  then show ?thesis
    by (simp add: Save_def initialized_def readFile_def oneFile_def stateStore_def writeStateLocked_def assms SchemaVersion_def
        atomicWrite_def maximumSize_def storeWrite_def atomicWriteContents_def noFaults_def Let_def)
qed

subsection \<open>The theorems on this run\<close>

lemma stored_matches_live_witness:
  "\<exists>provider options credentials c. buildComponents adminLib configuredState = Inr (provider, options, credentials) \<and>
     rmCurrent (adRuntime (snd setupAnswer)) = Some c \<and> riHandler c = (credentials, riService c)"
  using stored_matches_live [OF run_laws run_reach run_configured(2)] by blast


lemma change_authorized_witness:
  "adStore (snd setupAnswer) \<noteq> adStore bootAdmin \<and> setupAuthorized adminLib runCodec runBodies runRequest bootAdmin"
proof -
  have "adStore (snd setupAnswer) \<noteq> adStore bootAdmin" using run_configured(2) boot_unconfigured [of True] by auto
  with change_authorized [of adminLib runCodec runBodies runEnv runRequest SetupRoute bootAdmin "fst setupAnswer" "snd setupAnswer"]
  show ?thesis by (simp add: setupAnswer_def)
qed

subsection \<open>Device tokens\<close>

text \<open>A configured server with the given devices, and a library whose base64 text is always \<open>one\<close>.\<close>

definition tokenLib :: golib where
  "tokenLib = adminLib\<lparr>b64RawURL := (\<lambda>_. ''one'')\<rparr>"

definition otherDevice :: DeviceToken where
  "otherDevice = \<lparr>dtID = ''device_e'', dtName = ''e'', dtHash = HashToken adminLib ''mt_two'', dtCreatedAt = 5\<rparr>"

definition tokenCodec :: "DeviceToken list \<Rightarrow> codec" where
  "tokenCodec ts = \<lparr>cdEncode = (\<lambda>_. Some ''state''), cdHeader = (\<lambda>_. Some 4),
     cdState = (\<lambda>_. Some (withTokens ts configuredState, AtEOF)), cdStateV3 = (\<lambda>_. None)\<rparr>"

definition tokenBodies :: requestCodec where
  "tokenBodies = runBodies\<lparr>rcToken := (\<lambda>_. Some (''e'', AtEOF))\<rparr>"

definition tokenAdmin :: "DeviceToken list \<Rightarrow> admin" where
  "tokenAdmin ts = bootAdmin\<lparr>
     adStore := \<lparr>soDisk = emptyDisk\<lparr>dkDir := [(stateFile, 0)], dkHistory := [[(stateFile, 0)]], dkNext := 1\<rparr>, soDurabilityConfirmed = True\<rparr>,
     adRuntime := (adRuntime bootAdmin)\<lparr>rmCurrent := Some
       \<lparr>riService = 0, riCache = NewService qweatherSource 5 (cacheOptions DefaultCache), riProvider = sampleClient,
        riHandler = (map (the \<circ> credentialOf) ts, 0)\<rparr>\<rparr>\<rparr>"

definition newDevice :: DeviceToken where
  "newDevice = \<lparr>dtID = ''device_one'', dtName = ''e'', dtHash = HashToken tokenLib ''mt_one'', dtCreatedAt = 5\<rparr>"

lemma device_ok:
  assumes "identifierPattern d" "d \<noteq> []" "TrimSpace n \<noteq> []" "RuneCount n \<le> 64" "length (sha256 L x) = 32"
  shows "tokenOK \<lparr>dtID = d, dtName = n, dtHash = HashToken L x, dtCreatedAt = t\<rparr>"
  using assms by (simp add: tokenOK_def credentialOf_def CredentialFromHex_HashToken)

lemma devices_ok: "tokenOK otherDevice" "tokenOK newDevice"
proof -
  have c: "TrimSpace ''e'' \<noteq> [] \<and> RuneCount ''e'' \<le> 64 \<and> identifierPattern ''device_e'' \<and> identifierPattern ''device_one''"
    by code_simp
  then show "tokenOK otherDevice" unfolding otherDevice_def by (intro device_ok) (simp_all add: adminLib_digest)
  have "length (sha256 tokenLib x) = 32" for x by (simp add: tokenLib_def adminLib_digest)
  with c show "tokenOK newDevice" unfolding newDevice_def by (intro device_ok) simp_all
qed

lemma new_device: "newDeviceToken tokenLib (Some ''one'') (Some ''i'') 5 ''e'' = Inr (''mt_one'', newDevice)"
proof -
  have "TrimSpace ''e'' = ''e'' \<and> \<not> 64 < RuneCount ''e''" by code_simp
  then show ?thesis by (simp add: newDeviceToken_def newDevice_def tokenLib_def Let_def)
qed

lemma run_credentials:
  "credentialsFromState [runDevice, newDevice] = Inr (map (the \<circ> credentialOf) [runDevice, newDevice])"
  "credentialsFromState [runDevice, otherDevice] = Inr (map (the \<circ> credentialOf) [runDevice, otherDevice])"
  "credentialsFromState [otherDevice] = Inr (map (the \<circ> credentialOf) [otherDevice])"
  by (auto simp: credentialsFromState_Inr devices_ok runDevice_ok) (simp_all add: runDevice_def newDevice_def otherDevice_def)

lemma tokenAdmin_load: "loadState (tokenCodec ts) runEnv r (tokenAdmin ts) = Inr (withTokens ts configuredState)"
  by (simp add: loadState_def Load_def readStateLocked_def readBounded_def tokenAdmin_def readFile_def emptyDisk_def
      tokenCodec_def runEnv_def schemaVersion_def decodeState_def decodeStrict_def SchemaVersion_def maximumSize_def stateFile_def)

lemma tokenAdmin_save: "\<exists>b. saveState (tokenCodec ts) runEnv (updatedState runEnv (withTokens ts' (withTokens ts configuredState))) (tokenAdmin ts) = (Inr True, b)"
  by (simp add: saveState_def Save_def initialized_def readFile_def tokenAdmin_def emptyDisk_def writeStateLocked_def
      updatedState_def withTokens_def configuredState_fields SchemaVersion_def atomicWrite_def tokenCodec_def maximumSize_def storeWrite_def
      atomicWriteContents_def noFaults_def Let_def runEnv_def)


lemma tokenAdmin_replace:
  assumes "credentialsFromState ts' = Inr cs"
  shows "rsStatus (fst (replaceTokens (tokenCodec ts) runEnv r (withTokens ts configuredState) ts' m1 m2 reply (tokenAdmin ts))) = rsStatus reply"
proof -
  have "\<exists>p. PrepareTokens ts' (adRuntime (tokenAdmin ts)) = Inr p"
    by (simp add: PrepareTokens_def assms tokenAdmin_def)
  then obtain p where p: "PrepareTokens ts' (adRuntime (tokenAdmin ts)) = Inr p" by blast
  obtain b where b: "saveState (tokenCodec ts) runEnv (updatedState runEnv (withTokens ts' (withTokens ts configuredState))) (tokenAdmin ts) = (Inr True, b)"
    using tokenAdmin_save by blast
  show ?thesis by (simp add: replaceTokens_def p b reportWriteResult_def)
qed

lemma withTokens_tokens [simp]: "stDeviceTokens (withTokens ts v) = ts"
  by (simp add: withTokens_def)

lemma tokenAdmin_live:
  assumes "credentialsFromState ts = Inr (map (the \<circ> credentialOf) ts)"
  shows "liveMatches adminLib (tokenAdmin ts) (withTokens ts configuredState)"
proof -
  have "restartable adminLib (withTokens ts configuredState)"
    using configuredState_restartable assms by (simp add: restartable_iff withTokens_def)
  moreover have "ValidatePublicOrigins adminLib (adTransport bootAdmin) [] = Inr [] \<and> tpPublicOrigins (adTransport bootAdmin) = []"
    using run_guards(4) by (simp add: bootAdmin_def newAdmin_def NewTransportPolicy_def ReplacePublicOrigins_def)
  ultimately show ?thesis
    using assms configuredState_fields(3) by (simp add: liveMatches_def tokenAdmin_def withTokens_def)
qed

lemma tokenAdmin_inv:
  assumes "credentialsFromState ts = Inr (map (the \<circ> credentialOf) ts)"
  shows "adminInv adminLib (tokenCodec ts) (tokenAdmin ts)"
proof -
  have load: "Load (tokenCodec ts) True (adStore (tokenAdmin ts)) = Inr (withTokens ts configuredState)"
    using tokenAdmin_load [of ts undefined] by (simp add: loadState_def runEnv_def split: sum.splits)
  have d: "diskInv (soDisk (adStore (tokenAdmin ts)))" by (simp add: diskInv_def tokenAdmin_def)
  with load tokenAdmin_live [OF assms] show ?thesis by (simp add: adminInv_def)
qed

lemma created_token_authenticates_witness:
  "rsStatus (fst (createTokenHandler tokenLib (tokenCodec [runDevice]) tokenBodies runEnv runRequest (tokenAdmin [runDevice]))) < 400 \<and>
   (\<exists>raw. \<exists>device :: DeviceToken. \<forall>r'. HeaderGet r' ''Authorization'' = ''Bearer '' @ raw \<longrightarrow>
     ServeHTTP tokenLib (adRuntime (snd (createTokenHandler tokenLib (tokenCodec [runDevice]) tokenBodies runEnv runRequest
       (tokenAdmin [runDevice])))) r' = Inr (dtID device, 0))"
proof -
  let ?answer = "createTokenHandler tokenLib (tokenCodec [runDevice]) tokenBodies runEnv runRequest (tokenAdmin [runDevice])"
  have body: "decodeJSON (rcToken tokenBodies) runRequest = Inr ''e''"
    by (simp add: decodeJSON_def tokenBodies_def runRequest_def emptyRequest_def)
  have env: "enTokenRandom runEnv = Some ''one''" "enIDRandom runEnv = Some ''i''" "enNow runEnv AtToken = 5" by (simp_all add: runEnv_def)
  have s: "rsStatus (fst ?answer) < 400"
    by (simp add: createTokenHandler_def body tokenAdmin_load env new_device tokenAdmin_replace [OF run_credentials(1)] WriteJSON_def)
  have c: "\<exists>c. rmCurrent (adRuntime (tokenAdmin [runDevice])) = Some c \<and> riHandler c = (map (the \<circ> credentialOf) [runDevice], 0)"
    by (simp add: tokenAdmin_def)
  have v: "visibleASCII (b64RawURL tokenLib x)" "length (b64RawURL tokenLib x) \<le> 502" for x
    by (simp_all add: tokenLib_def visibleASCII_def inrange_def)
  have len: "case enTokenRandom runEnv of None \<Rightarrow> True | Some x \<Rightarrow> length (b64RawURL tokenLib x) \<le> 502"
    by (simp add: env v)
  have ans: "?answer = (fst ?answer, snd ?answer)" by (rule surjective_pairing)
  obtain raw and device :: DeviceToken where "\<forall>r'. HeaderGet r' ''Authorization'' = ''Bearer '' @ raw \<longrightarrow>
      (\<exists>c. rmCurrent (adRuntime (tokenAdmin [runDevice])) = Some c \<and>
        ServeHTTP tokenLib (adRuntime (snd ?answer)) r' = Inr (dtID device, snd (riHandler c)))"
    using created_token_authenticates [OF ans s v(1) len] by blast
  with s c show ?thesis by (intro conjI exI [of _ raw] exI [of _ device]) auto
qed

lemma revoked_token_refused_witness:
  "rsStatus (fst (deleteTokenHandler (tokenCodec [runDevice, otherDevice]) runEnv (runRequest\<lparr>rPathValue := ''device_i''\<rparr>)
      (tokenAdmin [runDevice, otherDevice]))) = 204 \<and>
   (\<forall>h. ServeHTTP adminLib (adRuntime (snd (deleteTokenHandler (tokenCodec [runDevice, otherDevice]) runEnv
      (runRequest\<lparr>rPathValue := ''device_i''\<rparr>) (tokenAdmin [runDevice, otherDevice])))) runRequest \<noteq> Inr (''device_i'', h))"
proof -
  let ?C = "tokenCodec [runDevice, otherDevice]" and ?a = "tokenAdmin [runDevice, otherDevice]"
    and ?r = "runRequest\<lparr>rPathValue := ''device_i''\<rparr>"
  let ?answer = "deleteTokenHandler ?C runEnv ?r ?a"
  have ids: "dtID runDevice = ''device_i''" "dtID otherDevice = ''device_e''" by (simp_all add: runDevice_def otherDevice_def)
  have s: "rsStatus (fst ?answer) = 204"
    by (simp add: deleteTokenHandler_def tokenAdmin_load ids tokenAdmin_replace [OF run_credentials(3)] noContent_def)
  from revoked_token_refused [OF tokenAdmin_inv [OF run_credentials(2)], of runEnv ?r "fst ?answer" "snd ?answer" runRequest] s show ?thesis by simp
qed

end
