(* ===== verification/ServerExample.thy ===== *)
theory ServerExample
  imports AdminExample Server
begin

section \<open>Requests to a server that waits for its setup\<close>

text \<open>The theorems of \<open>Server\<close> on the server of \<open>AdminExample\<close> before its setup.\<close>

definition sampleServer :: serverEnv where
  "sampleServer = \<lparr>snAdmin = runEnv, snNow = 5, snLocalizeNow = 5, snLocalize = (\<lambda>_ _. None), snGet = (\<lambda>_ _ _. GetFailed),
     snReadyNow = 5, snStartedAt = 1, snFiles = (\<lambda>_. ''<html>''), snRandom = Some ''r''\<rparr>"

definition pathRequest :: "bytes \<Rightarrow> bytes \<Rightarrow> request" where
  "pathRequest verb path = emptyRequest\<lparr>rMethod := verb, rPath := path, rEscapedPath := path\<rparr>"

lemma root_table: "rootPatterns =
  [([], [Literal ''api'', Multi], DeviceTarget),
   (''GET'', [Literal ''health'', Literal ''live''], HealthLive), (''GET'', [Literal ''health'', Literal ''ready''], HealthReady),
   (''GET'', [Literal ''admin''], AdminRedirect),
   (''GET'', [Literal ''admin'', Literal ''/''], AssetTarget ''assets/index.html'' ''text/html; charset=utf-8''),
   (''GET'', [Literal ''admin'', Literal ''assets'', Literal ''styles.css''], AssetTarget ''assets/styles.css'' ''text/css; charset=utf-8''),
   (''GET'', [Literal ''admin'', Literal ''assets'', Literal ''app.js''], AssetTarget ''assets/app.js'' ''text/javascript; charset=utf-8'')] @
  map (\<lambda>(m, ss, route). (m, [Literal ''admin'', Literal ''api'', Literal ''v1''] @ ss, AdminTarget route))
    [(''GET'', [Literal ''status''], StatusRoute), (''POST'', [Literal ''setup''], SetupRoute), (''POST'', [Literal ''session''], LoginRoute),
     (''GET'', [Literal ''session''], SessionRoute), (''DELETE'', [Literal ''session''], LogoutRoute),
     (''GET'', [Literal ''settings'', Literal ''qweather''], GetQWeatherRoute),
     (''POST'', [Literal ''settings'', Literal ''qweather'', Literal ''test''], TestQWeatherRoute),
     (''PUT'', [Literal ''settings'', Literal ''qweather''], PutQWeatherRoute),
     (''GET'', [Literal ''settings'', Literal ''admin-origins''], ListOriginsRoute),
     (''POST'', [Literal ''settings'', Literal ''admin-origins''], AddOriginRoute),
     (''DELETE'', [Literal ''settings'', Literal ''admin-origins'', Wildcard], DeleteOriginRoute),
     (''GET'', [Literal ''device-tokens''], ListTokensRoute), (''GET'', [Literal ''diagnostics''], DiagnosticsRoute),
     (''POST'', [Literal ''device-tokens''], CreateTokenRoute), (''DELETE'', [Literal ''device-tokens'', Wildcard], DeleteTokenRoute),
     (''PUT'', [Literal ''account'', Literal ''password''], ChangePasswordRoute)] @
  [([], [Multi], CatchAll)]"
  by code_simp

lemma delete_path:
  "cleanPath ''/admin/api/v1/device-tokens/device%5Fi'' = ''/admin/api/v1/device-tokens/device%5Fi''"
  "pathSegments ''/admin/api/v1/device-tokens/device%5Fi'' = [''admin'', ''api'', ''v1'', ''device-tokens'', ''device_i'']"
  by code_simp+

lemma password_path:
  "cleanPath ''/admin/api/v1/account/password'' = ''/admin/api/v1/account/password''"
  "pathSegments ''/admin/api/v1/account/password'' = [''admin'', ''api'', ''v1'', ''account'', ''password'']"
  by code_simp+

lemma found:
  "matchMethod rootPatterns ''DELETE'' ''/admin/api/v1/device-tokens/device%5Fi'' =
     Some (([Literal ''admin'', Literal ''api'', Literal ''v1'', Literal ''device-tokens'', Wildcard], AdminTarget DeleteTokenRoute), [''device_i''])"
  "matchMethod rootPatterns ''PUT'' ''/admin/api/v1/account/password'' =
     Some (([Literal ''admin'', Literal ''api'', Literal ''v1'', Literal ''account'', Literal ''password''], AdminTarget ChangePasswordRoute), [])"
  by (simp_all add: matchMethod_def delete_path password_path root_table ofMethod_def childrenOf_simps firstPattern_def orElse_def Let_def)

lemma root_dispatch_witness:
  "findHandler rootPatterns ''DELETE'' ''/admin/api/v1/device-tokens/device%5Fi'' ''/admin/api/v1/device-tokens/device_i'' =
     MuxHandle (AdminTarget DeleteTokenRoute) [''device_i'']"
proof -
  let ?p = "''/admin/api/v1/device-tokens/device%5Fi''"
  have f: "\<exists>t vs. findHandler rootPatterns ''DELETE'' ?p ''/admin/api/v1/device-tokens/device_i'' = MuxHandle t vs"
    using findHandler_exact [OF delete_path(1) found(1)] by simp
  have row: "find (serves ''DELETE'' (pathSegments ?p)) rootPatterns =
      Some (''DELETE'', [Literal ''admin'', Literal ''api'', Literal ''v1'', Literal ''device-tokens'', Wildcard], AdminTarget DeleteTokenRoute)"
    by (simp add: root_table delete_path(2) serves_def servesMethod_def)
  from root_dispatch [of "''DELETE''" ?p "''/admin/api/v1/device-tokens/device_i''"] f
  show ?thesis by (auto simp: row [unfolded delete_path(2)] delete_path(2))
qed

lemma safe_methods_witness:
  "\<exists>w a'. serverHandler adminLib runCodec runBodies sampleServer (pathRequest ''GET'' ''/admin/api/v1/status'') bootAdmin = (hexEncode ''r'', w, a') \<and>
     adStore a' = adStore bootAdmin \<and> adSessions a' = []"
proof -
  let ?r = "pathRequest ''GET'' ''/admin/api/v1/status''"
  obtain i w a' where s: "serverHandler adminLib runCodec runBodies sampleServer ?r bootAdmin = (i, w, a')" by (metis prod_cases3)
  then have "i = hexEncode ''r''" by (auto simp: serverHandler_def sampleServer_def newRequestID_def Let_def split: prod.splits)
  moreover have "rMethod ?r \<notin> set writeMethods" by (simp add: pathRequest_def writeMethods_def)
  moreover have "adSessions bootAdmin = []" by (simp add: bootAdmin_def newAdmin_def NewSessions_def)
  ultimately show ?thesis using safe_methods [OF s] s by auto
qed

lemma anonymous_surface_witness:
  "\<exists>i w a' x. serverHandler adminLib runCodec runBodies sampleServer (pathRequest ''PUT'' ''/admin/api/v1/account/password'') bootAdmin = (i, w, a') \<and>
     w = JSONReply x \<and> rsStatus x = 401 \<and> sameCore bootAdmin a'"
proof -
  let ?r = "pathRequest ''PUT'' ''/admin/api/v1/account/password''"
  obtain i w a' where s: "serverHandler adminLib runCodec runBodies sampleServer ?r bootAdmin = (i, w, a')" by (metis prod_cases3)
  have "rmCurrent (adRuntime bootAdmin) = None" by (simp add: bootAdmin_def newAdmin_def NewRuntimeManager_def)
  then have "anonymous adminLib sampleServer ?r bootAdmin"
    by (simp add: anonymous_def ServeHTTP_def pathRequest_def emptyRequest_def)
  note surface = anonymous_surface [OF s this]
  have "reached ?r = MuxHandle (AdminTarget ChangePasswordRoute) []"
    using findHandler_exact [OF password_path(1) found(2)] by (simp add: pathRequest_def)
  with surface have "sameCore bootAdmin a' \<and> (\<exists>x. w = JSONReply x \<and> rsStatus x = 401)" by simp
  with s show ?thesis by blast
qed

end
