(* ===== verification/LifecycleExample.thy ===== *)
theory LifecycleExample
  imports AdminExample Lifecycle
begin

section \<open>A restart, and an origin added offline\<close>

text \<open>
  The server of \<open>AdminExample\<close> from its installation: it starts without a state file, is set up, stops
  and starts again; then its state file gets an origin from the command line.
\<close>

definition runConfig :: Config where
  "runConfig = \<lparr>cfListenAddr = '':8080'', cfLogLevel = ''info'', cfStateDir = ''/var/lib/mt-server'',
     cfAdminAllowInsecureHTTP = False, cfAdminBehindHTTPSProxy = False, cfGeoIPDBPath = [], cfCloudflareLocationHeaders = False,
     cfTrustedClientIPHeader = [], cfTrustedClientIPNets = []\<rparr>"

definition runStart :: startEnv where
  "runStart = \<lparr>seMkdirOk = True, seChmodOk = True, seProcess = 1, seLockOpenOk = True, seLockChmodOk = True, seFlockOk = True,
     seReadOk = True, seNow = 5, seBackupFaults = noFaults\<lparr>wfTemp := None\<rparr>, seStateFaults = noFaults\<lparr>wfTemp := None\<rparr>, seRereadOk = True, seSaveNow = 5,
     seGeoIP = None, seRandom = Some ''p''\<rparr>"

abbreviation emptyStore :: Store where
  "emptyStore \<equiv> \<lparr>soDisk = emptyDisk, soDurabilityConfirmed = True\<rparr>"

lemma empty_boots: "diskBoots adminLib runCodec False emptyStore"
proof -
  have "crashReads emptyDisk stateFile c \<longleftrightarrow> c = None" "crashReads emptyDisk migrationBackupName c \<longleftrightarrow> c = None" for c
    by (auto simp: crashReads_def emptyDisk_def entryReads_def)
  moreover have "LoadCompatible runCodec True t = Inl ErrNotInitialized" if "readFile (soDisk t) stateFile = None" for t
    using that by (simp add: LoadCompatible_def readStateLocked_def readBounded_def)
  ultimately show ?thesis
    by (simp add: diskBoots_def bootable_def diskInv_def backupBoots_def) (simp add: emptyDisk_def readFile_def)
qed

lemma run_start: "appNew adminLib runCodec runStart runConfig ''v'' emptyDisk None = (Inr bootAdmin, emptyDisk, Some 1)"
proof -
  have "IsAbs ''/var/lib/mt-server''" by code_simp
  moreover have "LoadCompatible runCodec True emptyStore = Inl ErrNotInitialized"
    using empty_boots by (simp add: LoadCompatible_def readStateLocked_def readBounded_def readFile_def emptyDisk_def)
  ultimately show ?thesis
    by (simp add: appNew_def NewStore_def AcquireLock_def startLocked_def buildManagement_def runStart_def runConfig_def bootAdmin_def
        newAdmin_def Let_def)
qed

lemma runStart_temp: "startTempOK C runStart s"
  by (simp add: startTempOK_def migrateTempOK_def tempOK_def runStart_def)

lemma run_stopped: "serverReachable adminLib runCodec False (Stopped (soDisk (adStore (snd setupAnswer))))"
proof -
  have "serverReachable adminLib runCodec False (Stopped emptyDisk)" by (rule serverReachable.installed [OF empty_boots])
  then have "serverReachable adminLib runCodec False (Running bootAdmin)"
    by (rule serverReachable.start [OF _ _ runStart_temp run_start]) (simp add: runConfig_def)
  then have "serverReachable adminLib runCodec False (Running (snd setupAnswer))"
    by (rule serverReachable.request [where route = SetupRoute and w = "fst setupAnswer", OF _ run_env(1) _ run_env(2)])
      (simp_all add: setupAnswer_def runEnv_def noFaults_def migrationBackupName_def)
  then show ?thesis by (rule serverReachable.stop)
qed

lemma restart_succeeds_witness:
  "\<exists>a d. appNew adminLib runCodec runStart runConfig ''v'' (soDisk (adStore (snd setupAnswer))) None = (Inr a, d, Some 1)"
proof -
  let ?d = "soDisk (adStore (snd setupAnswer))"
  have ok: "configOK runConfig" unfolding configOK_def runConfig_def by code_simp
  have v3: "LoadCompatible runCodec True s \<noteq> Inr l \<or> csSourceVersion l \<noteq> previousSchema" for s l
    by (auto simp: LoadCompatible_def runCodec_def schemaVersion_def SchemaVersion_def previousSchema_def split: sum.splits option.splits if_splits)
  obtain x d h where n: "appNew adminLib runCodec runStart runConfig ''v'' ?d None = (x, d, h)" by (metis prod_cases3)
  from restart_succeeds [OF run_laws run_stopped ok _ _ runStart_temp, of "''v''"] show ?thesis
    using n v3 by (cases x) (auto simp: runConfig_def runStart_def startEnvOK_def)
qed

text \<open>Without randomness the management interface cannot be built; an empty state directory stays empty.\<close>

lemma failed_start_harmless_witness:
  "\<exists>d'. appNew adminLib runCodec (runStart\<lparr>seRandom := None\<rparr>) runConfig ''v'' emptyDisk None = (Inl ManagementFailed, d', None) \<and>
     LoadCompatible runCodec True \<lparr>soDisk = d', soDurabilityConfirmed = True\<rparr> = Inl ErrNotInitialized"
proof -
  let ?E = "runStart\<lparr>seRandom := None\<rparr>"
  have missing: "LoadCompatible runCodec True emptyStore = Inl ErrNotInitialized"
    by (simp add: LoadCompatible_def readStateLocked_def readBounded_def readFile_def emptyDisk_def)
  have "IsAbs ''/var/lib/mt-server''" by code_simp
  with missing have n: "appNew adminLib runCodec ?E runConfig ''v'' emptyDisk None = (Inl ManagementFailed, emptyDisk, None)"
    by (simp add: appNew_def NewStore_def AcquireLock_def CloseLock_def startLocked_def buildManagement_def runStart_def runConfig_def
        newAdmin_def Let_def)
  have inv: "diskInv emptyDisk" using empty_boots by (simp add: diskBoots_def)
  have "startTempOK runCodec ?E emptyStore"
    by (simp add: startTempOK_def migrateTempOK_def tempOK_def runStart_def)
  from failed_start_harmless [OF n inv this runCodec_law] n missing show ?thesis by (auto simp: Let_def)
qed

subsection \<open>An origin is added\<close>

definition runCommand :: commandEnv where
  "runCommand = \<lparr>ceGetenv = (\<lambda>_. []), ceMkdirOk = True, ceChmodOk = True, ceProcess = 2, ceLockOpenOk = True, ceLockChmodOk = True,
     ceFlockOk = True, ceReleaseOk = True, ceReadOk = True, ceBackupOk = True, ceStatOk = True, ceFaults = noFaults, ceNow = 6,
     ceSaveNow = 6\<rparr>"

definition addedState :: State where
  "addedState = stamped 6 (editedState runCommand configuredState [''https://a''])"

lemma origin_a: "NormalizePublicOrigin adminLib ''https://a'' = Some ''https://a'' \<and> plainOrigins adminLib [''https://a'']"
proof -
  have "NormalizePublicOrigin adminLib ''https://a'' = Some ''https://a''" by code_simp
  moreover have "case UrlParse originLib (TrimSpace ''https://a'') of None \<Rightarrow> False
      | Some u \<Rightarrow> plainHost (uHostname u) \<and> visibleASCII (uHostname u)" by code_simp
  ultimately show ?thesis by (auto simp: plainOrigins_def split: option.splits)
qed

lemma origin_saves: "\<exists>s. saveOrigins (twoCodec addedState) runCommand configuredState [''https://a''] stateStore =
    (printing [''management origins updated''], s)"
proof -
  let ?v = "configuredState\<lparr>stAdmin := (stAdmin configuredState)\<lparr>asPublicOrigins := [''https://a'']\<rparr>, stUpdatedAt := 6\<rparr>"
  have "stSchemaVersion ?v = 4" "stamped 6 ?v = addedState"
    by (simp_all add: addedState_def editedState_def runCommand_def configuredState_fields)
  from stateStore_saves [OF this] obtain s ds where "Save (twoCodec addedState) noFaults True 6 ?v stateStore = (Inr True, ds, s)" by blast
  then show ?thesis by (simp add: saveOrigins_def runCommand_def printing_def)
qed


end
