(* ===== verification/PasswordExample.thy ===== *)
theory PasswordExample
  imports AdminExample PasswordChange
begin

section \<open>A password change, and a login that overlaps it\<close>

definition newPassword :: bytes where "newPassword = ''another password''"

definition newHash :: PasswordHash where
  "newHash = the (HashPassword adminLib (enSalt runEnv) newPassword)"

definition changedState :: State where
  "changedState = stamped 5 (updatedState runEnv (withPassword newHash configuredState))"

definition changeBodies :: requestCodec where
  "changeBodies = runBodies\<lparr>rcLogin := (\<lambda>_. Some (''correct horse'', AtEOF)),
     rcPassword := (\<lambda>_. Some (\<lparr>pwCurrentPassword = ''correct horse'', pwNewPassword = newPassword\<rparr>, AtEOF))\<rparr>"

definition changeAdmin :: admin where
  "changeAdmin = (tokenAdmin [runDevice])\<lparr>adStore := stateStore\<rparr>"

lemma changeCodec_law: "codecLaw (twoCodec changedState) v"
  by (rule twoCodec_law) (simp add: changedState_def updatedState_def withPassword_def configuredState_fields)

lemma change_laws: "libraryLaws adminLib (twoCodec changedState)"
  using run_laws changeCodec_law by (simp add: libraryLaws_def)

lemma withTokens_same: "withTokens [runDevice] configuredState = configuredState"
  using configuredState_fields(5) by (simp add: withTokens_def)

lemma changeAdmin_ok: "adminInv adminLib (twoCodec changedState) changeAdmin" "envOK runEnv changeAdmin"
proof -
  have "credentialsFromState [runDevice] = Inr (map (the \<circ> credentialOf) [runDevice])"
    by (auto simp: credentialsFromState_Inr runDevice_ok)
  from tokenAdmin_live [OF this] have "liveMatches adminLib changeAdmin configuredState"
    by (simp add: liveMatches_def changeAdmin_def withTokens_same)
  then show "adminInv adminLib (twoCodec changedState) changeAdmin"
    using stateStore_load [of changedState] oneFile_inv [of stateFile "''state''"]
    by (simp add: adminInv_def changeAdmin_def) (simp add: stateStore_def)
  show "envOK runEnv changeAdmin"
    by (simp add: envOK_def changeAdmin_def stateStore_def runEnv_def tempOK_def noFaults_def oneFile_def stateFile_def password_defs)
qed

lemma newHash_eq: "HashPassword adminLib (enSalt runEnv) newPassword = Some newHash"
proof -
  have "passwordAcceptable ''another password''" by code_simp
  then have "\<exists>h. HashPassword adminLib (enSalt runEnv) newPassword = Some h"
    by (simp add: HashPassword_def runEnv_def newPassword_def Let_def)
  then show ?thesis by (auto simp: newHash_def)
qed

lemma current_verifies: "VerifyPassword adminLib ''correct horse'' runHash"
proof -
  have law: "\<And>x. b64RawStdDecode adminLib (b64RawStd adminLib x) = Some x"
    "\<And>p s t m n k. length (argon2id adminLib p s t m n k) = k"
    using run_laws by (simp_all add: libraryLaws_def passwordLaw_def)
  have "HashPassword adminLib (Some ''0123456789abcdef'') ''correct horse'' = Some runHash"
    using runHash_eq(1) by (simp add: runEnv_def)
  from HashPassword_verifies(2) [OF law _ this, of "''correct horse''"] show ?thesis by (simp add: password_defs)
qed

lemma change_save: "\<exists>b. saveState (twoCodec changedState) runEnv (updatedState runEnv (withPassword newHash configuredState)) (a\<lparr>adStore := stateStore\<rparr>) = (Inr True, b)"
proof -
  have "stSchemaVersion (updatedState runEnv (withPassword newHash configuredState)) = 4"
    by (simp add: updatedState_def withPassword_def configuredState_fields)
  from stateStore_saves [OF this changedState_def [symmetric]] show ?thesis
    by (auto simp: saveState_def) (auto simp: runEnv_def)
qed

lemma change_answer:
  assumes "adStore a = stateStore" and "\<not> passwordBusy a"
  shows "rsStatus (fst (changePasswordHandler adminLib (twoCodec changedState) changeBodies runEnv runRequest a)) = 200"
proof -
  have d: "decodeJSON (rcPassword changeBodies) runRequest = Inr \<lparr>pwCurrentPassword = ''correct horse'', pwNewPassword = newPassword\<rparr>"
    by (simp add: decodeJSON_def changeBodies_def runRequest_def emptyRequest_def)
  have l: "loadState (twoCodec changedState) runEnv runRequest a = Inr configuredState"
    using stateStore_load [of changedState] by (simp add: loadState_def assms(1)) (simp add: runEnv_def)
  have "a = a\<lparr>adStore := stateStore\<rparr>" using assms(1) by simp
  then obtain b where "saveState (twoCodec changedState) runEnv (updatedState runEnv (withPassword newHash configuredState)) a = (Inr True, b)"
    using change_save [of a] by auto
  then show ?thesis
    using assms(2) d l newHash_eq current_verifies
    by (simp add: changePasswordHandler_def configuredState_fields reportWriteResult_def clearSessionCookie_def WriteJSON_def Let_def)
qed

lemma changeAdmin_free: "\<not> passwordBusy changeAdmin"
  by (simp add: passwordBusy_def changeAdmin_def tokenAdmin_def bootAdmin_def newAdmin_def)

lemma password_changed_witness:
  "\<exists>v. Load (twoCodec changedState) True (adStore (snd (changePasswordHandler adminLib (twoCodec changedState) changeBodies runEnv runRequest changeAdmin))) = Inr v \<and>
     VerifyPassword adminLib newPassword (asPassword (stAdmin v)) \<and> \<not> VerifyPassword adminLib ''correct horse'' (asPassword (stAdmin v))"
proof -
  let ?answer = "changePasswordHandler adminLib (twoCodec changedState) changeBodies runEnv runRequest changeAdmin"
  have ok: "rsStatus (fst ?answer) < 400"
    using change_answer [OF _ changeAdmin_free] by (simp add: changeAdmin_def)
  have d: "decodeJSON (rcPassword changeBodies) runRequest = Inr \<lparr>pwCurrentPassword = ''correct horse'', pwNewPassword = newPassword\<rparr>"
    by (simp add: decodeJSON_def changeBodies_def runRequest_def emptyRequest_def)
  have differ: "argon2id adminLib ''correct horse'' ''0123456789abcdef'' 3 32768 1 32 \<noteq> argon2id adminLib newPassword ''0123456789abcdef'' 3 32768 1 32"
    by (simp add: adminLib_def toyLib_def newPassword_def)
  have salt: "enSalt runEnv = Some ''0123456789abcdef''" by (simp add: runEnv_def)
  from password_changed [OF changeAdmin_ok change_laws surjective_pairing ok] d salt differ
  show ?thesis by (auto simp del: de_Morgan_conj)
qed

text \<open>The login checks the old password, the change is made, and the login goes on.\<close>

lemma login_checked: "\<exists>a. loginCheck adminLib (twoCodec changedState) changeBodies runEnv runRequest changeAdmin = (None, a)"
proof -
  let ?l = "adLoginLimit changeAdmin"
  have d: "decodeJSON (rcLogin changeBodies) runRequest = Inr ''correct horse''"
    by (simp add: decodeJSON_def changeBodies_def runRequest_def emptyRequest_def)
  have t: "adTransport changeAdmin = adTransport bootAdmin" "csrfMatches changeAdmin r = csrfMatches bootAdmin r" for r
    by (simp_all add: changeAdmin_def tokenAdmin_def csrfMatches_def)
  have "SameOrigin adminLib (adTransport bootAdmin) runRequest"
    using run_guards(3) by (simp add: SetupOriginAllowed_def bootAdmin_def newAdmin_def NewTransportPolicy_def ReplacePublicOrigins_def)
  then obtain l where "preparePublicWrite adminLib (enNow runEnv AtLimit) runRequest changeAdmin ?l = (None, l)"
    using run_guards t by (simp add: preparePublicWrite_def)
      (simp add: changeAdmin_def tokenAdmin_def bootAdmin_def newAdmin_def runEnv_def LimiterAllow_def NewLimiter_def IsZero_def Let_def)
  moreover have "\<not> passwordBusy (changeAdmin\<lparr>adLoginLimit := l\<rparr>)" using changeAdmin_free by (simp add: passwordBusy_def)
  moreover have "Load (twoCodec changedState) (enReadOk runEnv) (adStore changeAdmin) = Inr configuredState"
    using stateStore_load [of changedState] by (simp add: changeAdmin_def runEnv_def)
  ultimately show ?thesis
    using d current_verifies by (simp add: loginCheck_def Let_def configuredState_fields)
qed

lemma login_outlives_change_witness:
  "\<exists>a1 a2 v. loginCheck adminLib (twoCodec changedState) changeBodies runEnv runRequest changeAdmin = (None, a1) \<and>
     a2 = snd (changePasswordHandler adminLib (twoCodec changedState) changeBodies runEnv runRequest a1) \<and>
     Load (twoCodec changedState) True (adStore a2) = Inr v \<and> \<not> VerifyPassword adminLib ''correct horse'' (asPassword (stAdmin v)) \<and>
     rsStatus (fst (requireSession adminLib runEnv (runRequest\<lparr>rCookie := Some ''s''\<rparr>) False (Pair noContent)
       (snd (loginFinish adminLib runEnv runRequest a2)))) = 204"
proof -
  obtain a1 where c: "loginCheck adminLib (twoCodec changedState) changeBodies runEnv runRequest changeAdmin = (None, a1)"
    using login_checked by blast
  let ?answer = "changePasswordHandler adminLib (twoCodec changedState) changeBodies runEnv runRequest a1"
  have "adStore a1 = stateStore" "\<not> passwordBusy a1"
    using c loginCheck_core [of changeAdmin adminLib "twoCodec changedState" changeBodies runEnv runRequest] changeAdmin_free
    by (auto simp: sameCore_def changeAdmin_def passwordBusy_def loginCheck_def Let_def split: option.splits sum.splits prod.splits if_splits)
  from change_answer [OF this] have ok: "rsStatus (fst ?answer) < 400" by simp
  have d: "decodeJSON (rcPassword changeBodies) runRequest = Inr \<lparr>pwCurrentPassword = ''correct horse'', pwNewPassword = newPassword\<rparr>"
    "decodeJSON (rcLogin changeBodies) runRequest = Inr ''correct horse''"
    by (simp_all add: decodeJSON_def changeBodies_def runRequest_def emptyRequest_def)
  have differ: "argon2id adminLib ''correct horse'' ''0123456789abcdef'' 3 32768 1 32 \<noteq> argon2id adminLib newPassword ''0123456789abcdef'' 3 32768 1 32"
    by (simp add: adminLib_def toyLib_def newPassword_def)
  have env: "enSalt runEnv = Some ''0123456789abcdef''" "enSessionRandom runEnv = Some ''s''" "enCSRFRandom runEnv = Some ''c''"
    "enNow runEnv AtSession < enNow runEnv AtCreate + hour" by (simp_all add: runEnv_def duration_defs)
  have cookie: "length (b64RawURL adminLib ''s'') \<le> 128" "rCookie (runRequest\<lparr>rCookie := Some ''s''\<rparr>) = Some (b64RawURL adminLib ''s'')" by simp_all
  obtain v s where "Load (twoCodec changedState) True (adStore (snd ?answer)) = Inr v" "\<not> VerifyPassword adminLib ''correct horse'' (asPassword (stAdmin v))"
    "requireSession adminLib runEnv (runRequest\<lparr>rCookie := Some ''s''\<rparr>) False (Pair noContent) (snd (loginFinish adminLib runEnv runRequest (snd ?answer))) =
      (noContent, snd ?answer\<lparr>adSessions := s\<rparr>)"
    using login_outlives_change [OF changeAdmin_ok change_laws c surjective_pairing ok env(2,3) cookie env(4), of "Pair noContent"] d env(1) differ
    by auto
  with c show ?thesis by (intro exI [of _ a1] exI [of _ "snd ?answer"] exI [of _ v]) (simp add: noContent_def)
qed

end
