(* ===== verification/FixtureExample.thy ===== *)
theory FixtureExample
  imports Fixture LifecycleExample
begin

section \<open>A fixture is made, migrated and restored\<close>

text \<open>
  The theorems of \<open>Fixture\<close> on a run over toy primitives: \<open>write-volume\<close> on an empty directory, a start
  of the server, and the restore command.
\<close>

definition fixtureRun :: fixtureEnv where
  "fixtureRun = \<lparr>fxPrivateKey = Some ''k'', fxMarshalKey = (\<lambda>k. if k = ''k'' then Some k else None), fxPemEncode = (\<lambda>_ x. x),
     fxSalt = Some ''0123456789abcdef'', fxToken = Some ''t'', fxNow = 7, fxTokenNow = 7, fxEncode = (\<lambda>_. None)\<rparr>"

definition fixtureState :: stateV3 where
  "fixtureState = (case newFixture adminLib fixtureRun of Inr v \<Rightarrow> v | Inl _ \<Rightarrow> undefined)"

definition fixtureWriter :: fixtureEnv where
  "fixtureWriter = fixtureRun\<lparr>fxEncode := (\<lambda>v. if v = fixtureState then Some ''v3'' else None)\<rparr>"

definition fixtureCodec :: codec where
  "fixtureCodec = \<lparr>cdEncode = (\<lambda>v. if v = stamped 5 (migrateV3 fixtureState) then Some ''v4'' else None),
     cdHeader = (\<lambda>c. Some (if c = ''v3'' then 3 else 4)), cdState = (\<lambda>_. Some (stamped 5 (migrateV3 fixtureState), AtEOF)),
     cdStateV3 = (\<lambda>_. Some (fixtureState, AtEOF))\<rparr>"

definition fixtureReader :: "bytes \<Rightarrow> State option" where
  "fixtureReader = (\<lambda>_. Some (stamped 5 (migrateV3 fixtureState)))"

lemma fixture_made: "newFixture adminLib fixtureWriter = Inr fixtureState" "fixtureBytes adminLib fixtureWriter = Inr ''v3''"
proof -
  have "passwordAcceptable ''fixture administrator password''" by code_simp
  then have "\<exists>h. HashPassword adminLib (Some ''0123456789abcdef'') ''fixture administrator password'' = Some h"
    by (simp add: HashPassword_def Let_def)
  then have "\<exists>v. newFixture adminLib fixtureRun = Inr v" by (auto simp: newFixture_def fixtureRun_def Let_def)
  then have "newFixture adminLib fixtureRun = Inr fixtureState" by (auto simp: fixtureState_def)
  moreover have "newFixture adminLib fixtureWriter = newFixture adminLib fixtureRun"
    by (simp add: fixtureWriter_def)
  ultimately show m: "newFixture adminLib fixtureWriter = Inr fixtureState" by simp
  then show "fixtureBytes adminLib fixtureWriter = Inr ''v3''" by (simp add: fixtureBytes_def fixtureWriter_def)
qed

lemma fixture_laws: "fixtureLaws adminLib fixtureCodec fixtureWriter fixtureReader"
proof -
  have "s3SchemaVersion fixtureState = 3" using fixture_made(1) by (rule newFixture_Inr)
  moreover have "pemDecode adminLib = (\<lambda>s. Some (''PRIVATE KEY'', s, []))" "parsePKCS8 adminLib = (\<lambda>s. Some (Ed25519Key s))"
    by (simp_all add: adminLib_def originLib_def emptyLib_def)
  ultimately show ?thesis
    by (simp add: fixtureLaws_def fixtureCodec_def fixtureWriter_def fixtureRun_def fixtureReader_def)
qed

lemma fixture_salt: "case fxSalt fixtureWriter of None \<Rightarrow> True | Some salt \<Rightarrow> length salt = passwordSaltSize"
  by (simp add: fixtureWriter_def fixtureRun_def password_defs)

lemma fixture_candidate_witness:
  "bootable adminLib fixtureCodec True \<lparr>soDisk = oneFile stateFile ''v3'', soDurabilityConfirmed = True\<rparr>"
proof -
  have "readFile (soDisk \<lparr>soDisk = oneFile stateFile ''v3'', soDurabilityConfirmed = True\<rparr>) stateFile = Some ''v3''"
    by (simp add: readFile_def oneFile_def)
  moreover have "length ''v3'' \<le> maximumSize" by (simp add: maximumSize_def)
  moreover have "urlLaw adminLib" "passwordLaw adminLib" using run_laws by (simp_all add: libraryLaws_def)
  ultimately show ?thesis using fixture_candidate [OF fixture_made(2) fixture_laws _ _ adminLib_digest fixture_salt] by blast
qed

subsection \<open>The run\<close>

lemma storeWrite_noFaults:
  assumes "length contents \<le> maximumSize" shows "\<exists>ds s'. storeWrite noFaults path contents s = (Inr True, ds, s')"
  using assms by (simp add: storeWrite_def atomicWriteContents_def noFaults_def Let_def)

definition fixtureVolume :: volume where
  "fixtureVolume = snd (writeVolume adminLib fixtureWriter True True
     (\<lambda>_. \<lparr>pfOpen = True, pfWrite = None, pfChmod = True, pfChown = True, pfProcess = (0, 0)\<rparr>)
     \<lparr>vlDisk = emptyDisk, vlOwner = (\<lambda>_. (0, 0))\<rparr>)"

lemma fixture_written:
  "writeVolume adminLib fixtureWriter True True (\<lambda>_. \<lparr>pfOpen = True, pfWrite = None, pfChmod = True, pfChown = True, pfProcess = (0, 0)\<rparr>)
     \<lparr>vlDisk = emptyDisk, vlOwner = (\<lambda>_. (0, 0))\<rparr> = (None, fixtureVolume)"
  by (simp add: fixtureVolume_def writeVolume_def fixture_made(2) writePrivate_def osWriteFile_def openTruncated_def osChmod_def osChown_def
      emptyDisk_def createFile_def setDir_def chmodFile_def writeFile_def originalName_def stateFile_def Let_def)

lemma fixture_names: "map_of (dkDir (vlDisk fixtureVolume)) ''.mt-server-1'' = None"
  by (simp add: fixtureVolume_def writeVolume_def fixture_made(2) writePrivate_def osWriteFile_def openTruncated_def osChmod_def osChown_def
      emptyDisk_def createFile_def setDir_def chmodFile_def writeFile_def originalName_def stateFile_def Let_def)

definition fixtureStart :: startEnv where
  "fixtureStart = runStart\<lparr>seBackupFaults := noFaults, seStateFaults := noFaults\<rparr>"

lemma fixtureStart_fields [simp]:
  "seMkdirOk fixtureStart" "seChmodOk fixtureStart" "seLockOpenOk fixtureStart" "seLockChmodOk fixtureStart" "seFlockOk fixtureStart"
  "seReadOk fixtureStart" "seRereadOk fixtureStart" "seRandom fixtureStart = Some ''p''" "seBackupFaults fixtureStart = noFaults"
  "seStateFaults fixtureStart = noFaults" "seSaveNow fixtureStart = 5"
  by (simp_all add: fixtureStart_def runStart_def)

abbreviation fixtureStore :: Store where
  "fixtureStore \<equiv> \<lparr>soDisk = vlDisk fixtureVolume, soDurabilityConfirmed = True\<rparr>"

lemma fixture_volume: "diskInv (vlDisk fixtureVolume)" "readFile (vlDisk fixtureVolume) stateFile = Some ''v3''"
proof -
  have "diskInv (vlDisk \<lparr>vlDisk = emptyDisk, vlOwner = (\<lambda>_. (0, 0))\<rparr>)" using empty_boots by (simp add: diskBoots_def)
  from writeVolume_spec [OF this fixture_written] fixture_made(2)
  show "diskInv (vlDisk fixtureVolume)" "readFile (vlDisk fixtureVolume) stateFile = Some ''v3''" by (auto simp: privateFile_def)
qed

lemma fixture_load: "LoadCompatible fixtureCodec True fixtureStore =
    Inr \<lparr>csState = migrateV3 fixtureState, csSourceVersion = previousSchema, csSource = ''v3''\<rparr>"
  by (rule LoadCompatible_text) (simp_all add: fixture_volume maximumSize_def fixtureCodec_def)

lemma fixture_temp: "startTempOK fixtureCodec fixtureStart fixtureStore"
  using fixture_names
  by (auto simp: startTempOK_def fixture_load migrateTempOK_def tempOK_def noFaults_def stateFile_def migrationBackupName_def
      storeWrite_def atomicWriteContents_def maximumSize_def Let_def createFile_def setDir_def chmodFile_def writeFile_def syncFile_def
      renameFile_def syncDirectory_def)

lemma fixture_migrates:
  "\<exists>s. migrateLoaded fixtureCodec fixtureStart \<lparr>csState = migrateV3 fixtureState, csSourceVersion = previousSchema, csSource = ''v3''\<rparr>
     fixtureStore = (None, s)"
proof -
  have n: "length ''v3'' \<le> maximumSize" "length ''v4'' \<le> maximumSize" by (simp_all add: maximumSize_def)
  obtain ds s where b: "storeWrite noFaults migrationBackupName ''v3'' fixtureStore = (Inr True, ds, s)"
    using storeWrite_noFaults [OF n(1)] by blast
  obtain ds' s' where w: "storeWrite noFaults stateFile ''v4'' s = (Inr True, ds', s')"
    using storeWrite_noFaults [OF n(2)] by blast
  have "stSchemaVersion (migrateV3 fixtureState) = SchemaVersion" by (rule migrated_alerts)
  then have e: "writeStateLocked fixtureCodec noFaults 5 (migrateV3 fixtureState) s = (Inr True, ds', s')"
    using w by (simp add: writeStateLocked_def atomicWrite_def fixtureCodec_def maximumSize_def)
  have "readBounded True stateFile (vlDisk fixtureVolume) = Inr ''v3''"
    by (simp add: readBounded_def fixture_volume(2) maximumSize_def)
  then show ?thesis
    by (simp add: migrateLoaded_def commitStateMigration_def CommitMigration_def b e migrated_alerts)
qed

lemma fixture_up: "\<exists>a d holder. appNew adminLib fixtureCodec fixtureStart runConfig ''v'' (vlDisk fixtureVolume) None = (Inr a, d, holder)"
proof -
  have laws: "urlLaw adminLib" "passwordLaw adminLib" using run_laws by (simp_all add: libraryLaws_def)
  note r = fixture_restarts [OF fixture_made(1) fixture_laws laws adminLib_digest fixture_salt]
  obtain x where "buildComponents adminLib (migrateV3 fixtureState) = Inr x" using r(1) by (auto simp: restartable_def)
  then have "\<exists>p m'. Prepare adminLib now (migrateV3 fixtureState) m = (Inr p, m')" for now m
    by (cases x) (simp add: Prepare_def Let_def)
  then obtain p m' where p: "Prepare adminLib (seNow fixtureStart) (migrateV3 fixtureState)
      (NewRuntimeManager None [] [] False) = (Inr p, m')" by blast
  obtain s where m: "migrateLoaded fixtureCodec fixtureStart \<lparr>csState = migrateV3 fixtureState, csSourceVersion = previousSchema,
      csSource = ''v3''\<rparr> fixtureStore = (None, s)" using fixture_migrates by blast
  have "IsAbs ''/var/lib/mt-server''" by code_simp
  then show ?thesis
    using fixture_load r(2) p m fixture_origin [OF laws(1)]
    by (simp add: appNew_def NewStore_def AcquireLock_def startLocked_def buildManagement_def runConfig_def newAdmin_def Let_def)
qed

text \<open>The restore command on what the start left.\<close>

lemma fixture_restored:
  assumes "readFile d stateFile = Some ''v4''" and "readFile d migrationBackupName = Some ''v3''"
  shows "\<exists>out d'. runState adminLib fixtureCodec runCommand [''restore-v3-backup''] d None = (out, d', None) \<and> crError out = None"
proof -
  have n: "length ''v3'' \<le> maximumSize" by (simp add: maximumSize_def)
  obtain ds s where w: "storeWrite noFaults stateFile ''v3'' \<lparr>soDisk = d, soDurabilityConfirmed = True\<rparr> = (Inr True, ds, s)"
    using storeWrite_noFaults [OF n] by blast
  have "RestoreV3Backup fixtureCodec noFaults True True \<lparr>soDisk = d, soDurabilityConfirmed = True\<rparr> = (Inr True, ds, s)"
    using w by (simp add: RestoreV3Backup_def readBounded_def assms maximumSize_def schemaVersion_def decodeStateV3_def decodeStrict_def
        fixtureCodec_def SchemaVersion_def previousSchema_def)
  then have b: "restoreBody fixtureCodec runCommand runConfig \<lparr>soDisk = d, soDurabilityConfirmed = True\<rparr> =
      (printing [''schema v3 migration backup restored''], s)"
    by (simp add: restoreBody_def runCommand_def printing_def)
  have cfg: "load adminLib (ceGetenv runCommand) = Inr runConfig" by (simp add: runCommand_def load_defaults runConfig_def)
  have fields: "cfStateDir runConfig = ''/var/lib/mt-server''" "ceMkdirOk runCommand" "ceChmodOk runCommand" "ceLockOpenOk runCommand"
    "ceLockChmodOk runCommand" "ceFlockOk runCommand" "ceReleaseOk runCommand" by (simp_all add: runConfig_def runCommand_def)
  have "IsAbs ''/var/lib/mt-server''" by code_simp
  then show ?thesis
    by (simp add: runState_def withStore_def cfg NewStore_def AcquireLock_def fields b printing_def CloseLock_def)
qed

lemma fixture_roundtrip_witness:
  "\<exists>a d2 holder d3. appNew adminLib fixtureCodec fixtureStart runConfig ''v'' (vlDisk fixtureVolume) None = (Inr a, d2, holder) \<and>
     verifyMigrated fixtureReader (\<lambda>_. True) \<lparr>vlDisk = d2, vlOwner = (\<lambda>_. fixtureOwner)\<rparr> = None \<and>
     d3 = fst (snd (runState adminLib fixtureCodec runCommand [''restore-v3-backup''] d2 None)) \<and>
     verifyRestored fixtureCodec (\<lambda>_. True) \<lparr>vlDisk = d3, vlOwner = (\<lambda>_. fixtureOwner)\<rparr> = None \<and> readFile d3 stateFile = Some ''v3''"
proof -
  obtain a d2 holder where up: "appNew adminLib fixtureCodec fixtureStart runConfig ''v'' (vlDisk fixtureVolume) None = (Inr a, d2, holder)"
    using fixture_up by blast
  have inv: "diskInv (vlDisk \<lparr>vlDisk = emptyDisk, vlOwner = (\<lambda>_. (0, 0))\<rparr>)" using empty_boots by (simp add: diskBoots_def)
  have n: "length ''v3'' \<le> maximumSize" by (simp add: maximumSize_def)
  obtain s where m: "migrateLoaded fixtureCodec fixtureStart \<lparr>csState = migrateV3 fixtureState, csSourceVersion = previousSchema, csSource = ''v3''\<rparr>
      fixtureStore = (None, s)" and d2: "d2 = soDisk s" by (rule started_migration [OF up fixture_load])
  have orig: "privateFile \<lparr>vlDisk = soDisk fixtureStore, vlOwner = (\<lambda>_. fixtureOwner)\<rparr> originalName ''v3''"
    using writeVolume_spec [OF inv fixture_written] fixture_made(2) by (auto simp: privateFile_def)
  obtain e where e: "cdEncode fixtureCodec (stamped (seSaveNow fixtureStart) (migrateV3 fixtureState)) = Some e"
    and p: "privateFile \<lparr>vlDisk = soDisk s, vlOwner = (\<lambda>_. fixtureOwner)\<rparr> stateFile e"
      "privateFile \<lparr>vlDisk = soDisk s, vlOwner = (\<lambda>_. fixtureOwner)\<rparr> migrationBackupName ''v3''"
    and t: "map_of (dkDir (soDisk s)) ''.mt-server-1'' = None"
    by (rule migration_private [OF _ fixture_load _ fixture_temp m orig]) (simp_all add: fixture_volume noFaults_def)
  have v4: "e = ''v4''" using e by (simp add: fixtureCodec_def)
  have "readFile d2 stateFile = Some ''v4''" "readFile d2 migrationBackupName = Some ''v3''" using p d2 v4 by (simp_all add: privateFile_def)
  then obtain out d3 where r: "runState adminLib fixtureCodec runCommand [''restore-v3-backup''] d2 None = (out, d3, None)" "crError out = None"
    using fixture_restored by blast
  have "tempOK (ceFaults runCommand) stateFile d2" using t d2 by (simp add: tempOK_def runCommand_def noFaults_def stateFile_def)
  with fixture_roundtrip [OF inv fixture_written fixture_laws fixture_made(2) n up fixture_temp, of "\<lambda>_. fixtureOwner" "\<lambda>_. True"] r up fixture_volume(2)
  show ?thesis by auto
qed

end
