(* ===== verification/Spec2Isabelle.thy ===== *)
theory Spec2Isabelle
  imports GeoStore GeoPolling Limiters QWeatherClient QWeatherRequest QWeatherParse HttpApi DeviceAuth AdminAuth AdminSecrets
    Transport StateStore Runtime RuntimeModule Mux DeviceApi WeatherDiagnostics AdminApi AdminSafety AdminTokens Server AppConfig
    AppStart Maintenance Lifecycle PasswordChange Fixture AdminExample ServerExample LifecycleExample PasswordExample FixtureExample
begin

text \<open>
  \<^bold>\<open>A verification development for \<open>mt-server\<close>.\<close>

  The server answers weather and location requests of authenticated devices, keeps its credentials in
  a private state file, and is configured through an administrator session or, while it is stopped,
  from the command line. This root theory imports one theory per component. A handler or step is a
  function that takes the state and returns it changed; an error is a value of a sum or an option; a Go
  map is an association list; clock readings, random bytes and what a system call or a library
  function answers are arguments. Concurrency is a step relation cut where the code gives up a lock.

  \<^bold>\<open>Shared.\<close> \<open>Prelude\<close>: byte strings, association lists, instants and durations as integers of
  nanoseconds with \<open>int64\<close> wrap-around written out. \<open>GoStrings\<close>: UTF-8 decoding, \<open>strings.TrimSpace\<close>,
  \<open>strconv.Atoi\<close>, \<open>%x\<close> and FNV-1a. \<open>GoFloat\<close>: IEEE 754 double precision. \<open>GoLib\<close>: the record \<open>golib\<close> of
  library functions with long grammars (number, time and address parsers, URL parsing, PEM and PKCS#8,
  hashes, Ed25519); every theorem holds for all of them or names the documented behaviour it needs. \<open>Mux\<close>:
  the patterns, the segment search and the redirects of \<open>net/http.ServeMux\<close>, as far as the routes use them.

  \<^bold>\<open>Locations\<close> (\<open>internal/platform/location\<close>). \<open>LocationPoint\<close>: \<open>Point\<close>, \<open>Normalize\<close>, \<open>CacheKey\<close>,
  \<open>FromRequest\<close>, \<open>ApplyLocalized\<close> (\<open>location.go\<close>, \<open>localize.go\<close>): the normal form, idempotence, and that
  keys identify coordinates. \<open>Limiters\<close>: \<open>ChangeLimiter\<close> and \<open>LocalizeLimiter\<close>, with bounds on what any
  sequence of requests is granted. \<open>NetAddr\<close>: \<open>clientip.go\<close>, \<open>cloudflare.go\<close>; no header of an untrusted
  peer matters. \<open>LocationSource\<close>: \<open>source.go\<close>. \<open>GeoIP\<close> and \<open>GeoStore\<close> (\<open>internal/providers/geoip\<close>): the
  record translation, and the hot-reloading store as a step relation in which readers are closed once;
  \<open>GeoPolling\<close> puts the steps together to \<open>Start\<close>, polls and \<open>Close\<close> and shows which database they serve.

  \<^bold>\<open>Weather\<close> (\<open>internal/modules/weather\<close>, \<open>internal/providers/qweather\<close>). \<open>WeatherModel\<close> (\<open>model.go\<close>,
  \<open>provider.go\<close>), \<open>WeatherCache\<close> (\<open>service.go\<close>: one provider call per entry, freshness of what is served,
  the least-recently-used bound, back-off), \<open>WeatherJson\<close> and \<open>WeatherDiagnostics\<close> (the JSON of datasets
  and of the diagnostics), \<open>QWeatherClient\<close> (\<open>client.go\<close>, \<open>jwt.go\<close>, \<open>geo.go\<close>: classification, retries, the
  circuit, keys and tokens), \<open>QWeatherRequest\<close> (the query and headers of an upstream request, and what they
  show of a device) and \<open>QWeatherParse\<close> (\<open>parse.go\<close>, \<open>raw.go\<close>).

  \<^bold>\<open>Device API.\<close> \<open>HttpApi\<close> (\<open>internal/platform/httpapi\<close>, \<open>health\<close>): responses and the middleware.
  \<open>DeviceAuth\<close> (\<open>internal/platform/auth\<close>): bearer tokens. \<open>DeviceApi\<close>: \<open>module.go\<close> of the weather and
  \<open>location.go\<close> of the location module; the status of every request, and the budgets it spends.

  \<^bold>\<open>State\<close> (\<open>internal/platform/state\<close>). \<open>Disk\<close>: a directory with what a crash may leave of it, and the
  atomic replacement of a file under every fault. \<open>StateModel\<close>, \<open>StateStore\<close>: loading, saving, setup,
  migration, restore and the lock.

  \<^bold>\<open>Runtime and application\<close> (\<open>internal/app\<close>, \<open>internal/platform/config\<close>, \<open>cmd/mt-server\<close>). \<open>Runtime\<close>
  (\<open>runtime.go\<close>): validation, and preparing, activating, discarding and closing changes; \<open>RuntimeModule\<close>:
  the runtime as a module with its database store, and closing a weather service. \<open>AppConfig\<close>
  (\<open>config.go\<close>): what an accepted environment guarantees. \<open>AppStart\<close> (\<open>app.go\<close>): \<open>New\<close> and \<open>Run\<close>.
  \<open>Maintenance\<close> (\<open>main.go\<close>, \<open>admin_origin.go\<close>, \<open>state.go\<close>): the dispatch and the offline commands.

  \<^bold>\<open>Management\<close> (\<open>internal/platform/adminauth\<close>, \<open>internal/modules/admin\<close>). \<open>AdminAuth\<close> (\<open>session.go\<close>),
  \<open>AdminSecrets\<close> (\<open>password.go\<close>, \<open>limiter.go\<close>), \<open>Transport\<close> (\<open>transport.go\<close>), \<open>AdminApi\<close> (\<open>admin.go\<close>, all
  sixteen routes). \<open>AdminSafety\<close>: one outcome lemma per handler, from which every request keeps the
  stored state startable and equal to the live one, errors change nothing, and changes need
  authority. \<open>AdminTokens\<close>: enrolment and revocation of devices. \<open>PasswordChange\<close>: what a password change
  achieves, and a login that overlaps it.

  \<^bold>\<open>Requests.\<close> \<open>Server\<close>: a request through \<open>RequestContext\<close>, the root mux of \<open>app.go\<close> with the routes of every
  component, and the handler it finds, the page of \<open>modules/admin/assets.go\<close> included: the mux finds the row
  a reader of the tables would, safe methods change nothing, and what a request without credentials can do.

  \<^bold>\<open>The whole.\<close> \<open>Lifecycle\<close>: the step relation of a server that is started, asked, maintained, restored,
  stopped and crashed, over \<open>AppStart\<close>, \<open>AdminApi\<close>, \<open>Maintenance\<close> and \<open>Disk\<close>; it can always be started again.
  A crash leaves any settled disk that is an image of the stopped one, where every file reads as some crash
  reads it; \<open>Disk\<close> and \<open>StateStore\<close> have the crash between any two system calls of one write. \<open>Fixture\<close>
  (\<open>internal/platform/state/testfixture\<close>): the generator and checker of migration volumes, whose round trip runs
  through a start and the restore command. \<open>AdminExample\<close>, \<open>ServerExample\<close>, \<open>LifecycleExample\<close>, \<open>PasswordExample\<close>
  and \<open>FixtureExample\<close> run the server on concrete inputs.

  \<^bold>\<open>Interfaces.\<close> The locale \<open>rounding\<close> (what the limiters need of floating-point rounding) is interpreted on
  the model's rounding function \<open>fl\<close>; \<open>metered\<close> turns a potential argument on one step into a bound over
  every sequence and is interpreted on both limiters; \<open>retainable\<close> is their \<open>Retain\<close> contract;
  \<open>resolver\<close> (IP inference) is interpreted on the GeoIP store; \<open>prepared_change\<close> (a change is activated or
  discarded, once) on the runtime's changes.

  \<^bold>\<open>Fuel.\<close> The eviction loop of the cache runs once per list element, its fuel is the length of the list;
  that of the session table has the table's length, and \<open>AdminAuth\<close> shows it equal to the unbounded
  loop; the retry loop of the client has the loop bound 2.

  \<^bold>\<open>Not modelled.\<close> The sockets, timeouts and signal handling of \<open>net/http\<close> and of the process, and the
  hosts and trailing wildcards of mux patterns that no route has; logging; the contents of JSON texts, MMDB
  files and keys, whose codecs are parameters; the bytes of the embedded page; the test hooks of the store
  and \<open>tests/web/harness\<close>, a program that starts the page with a fake provider for browser tests.
\<close>

end
